(* ===== verification/Prelude.thy ===== *)
theory Prelude
  imports Main "HOL-Library.Word"
begin

section \<open>Prelude: Rust's machine types, panics and generic lemmas\<close>

text \<open>
  What every component shares: names for Rust's fixed-width integers, the
  outcome of a computation that may panic, the arithmetic of signed words (Rust
  truncates where HOL rounds down), ASCII case folding as the standard library
  does it, and lemmas on lists and maps.
\<close>

named_theorems panic_simps \<open>unfolding of the checked operations\<close>

subsection \<open>Machine integers\<close>

type_synonym u8 = "8 word"
type_synonym u16 = "16 word"
type_synonym u32 = "32 word"
type_synonym u64 = "64 word"
type_synonym i64 = "64 word"

text \<open>
  \<open>i64\<close> is a 64-bit word read with \<open>sint\<close>; \<open>as\<close>-casts between 64-bit types keep
  the bits. A vector index (\<open>usize\<close>) is a \<open>nat\<close>.
\<close>

definition i64_in_range :: "int \<Rightarrow> bool" where
  "i64_in_range i \<longleftrightarrow> - (2 ^ 63) \<le> i \<and> i < 2 ^ 63"

lemma sint_i64_range: "i64_in_range (sint (w :: i64))"
  using sint_ge [of w] sint_lt [of w] by (simp add: i64_in_range_def)

lemma sint_of_int_i64: "i64_in_range i \<Longrightarrow> sint (word_of_int i :: i64) = i"
  by (simp add: i64_in_range_def sint_sbintrunc' signed_take_bit_int_eq_self)

lemma word_of_int_sint_i64 [simp]: "word_of_int (sint w) = (w :: i64)"
  by simp

text \<open>Rust's \<open>/\<close> and \<open>%\<close> truncate towards zero; HOL's \<open>div\<close> rounds down.\<close>

definition tdiv :: "int \<Rightarrow> int \<Rightarrow> int" where
  "tdiv a b = sgn a * sgn b * (\<bar>a\<bar> div \<bar>b\<bar>)"

definition trem :: "int \<Rightarrow> int \<Rightarrow> int" where
  "trem a b = a - b * tdiv a b"

lemma tdiv_trem: "b * tdiv a b + trem a b = a"
  by (simp add: trem_def)

lemma trem_eq_sgn_mod: "b \<noteq> 0 \<Longrightarrow> trem a b = sgn a * (\<bar>a\<bar> mod \<bar>b\<bar>)"
  by (cases "a = 0"; cases "0 < a"; cases "0 < b")
    (simp_all add: trem_def tdiv_def minus_div_mult_eq_mod [symmetric] algebra_simps)

lemma trem_bound:
  assumes "b \<noteq> 0"
  shows "\<bar>trem a b\<bar> < \<bar>b\<bar>"
proof -
  have "0 \<le> \<bar>a\<bar> mod \<bar>b\<bar>" "\<bar>a\<bar> mod \<bar>b\<bar> < \<bar>b\<bar>" using assms by simp_all
  then show ?thesis using assms by (auto simp: trem_eq_sgn_mod abs_mult sgn_if)
qed

lemma tdiv_abs_le: "\<bar>tdiv a b\<bar> \<le> \<bar>a\<bar>"
proof (cases "b = 0")
  case True
  then show ?thesis by (simp add: tdiv_def)
next
  case False
  then have "\<bar>a\<bar> div \<bar>b\<bar> \<le> \<bar>a\<bar> div 1" by (intro zdiv_mono2) auto
  then have "\<bar>a\<bar> div \<bar>b\<bar> \<le> \<bar>a\<bar>" by simp
  moreover have "0 \<le> \<bar>a\<bar> div \<bar>b\<bar>" using False by (simp add: pos_imp_zdiv_nonneg_iff)
  ultimately show ?thesis by (auto simp: tdiv_def abs_mult sgn_if)
qed

subsection \<open>Panics\<close>

text \<open>
  A Rust panic is a value of the model. Indexing and \<open>unwrap\<close> failures, arithmetic
  that the compiled code traps, and string slices that do not fall on a character
  boundary are kept apart, because different theorems exclude different kinds.
\<close>

datatype panic = IndexPanic | ArithPanic | SlicePanic

datatype 'a chk = Res 'a | Panic panic

primrec chk_bind :: "'a chk \<Rightarrow> ('a \<Rightarrow> 'b chk) \<Rightarrow> 'b chk" where
  "chk_bind (Res x) f = f x"
| "chk_bind (Panic p) f = Panic p"

definition vec_get :: "'a list \<Rightarrow> nat \<Rightarrow> 'a chk" where
  "vec_get xs i = (if i < length xs then Res (xs ! i) else Panic IndexPanic)"

definition vec_set :: "'a list \<Rightarrow> nat \<Rightarrow> 'a \<Rightarrow> 'a list chk" where
  "vec_set xs i x = (if i < length xs then Res (xs[i := x]) else Panic IndexPanic)"

text \<open>Rust's \<open>slice::get\<close>: no panic.\<close>

definition vec_at :: "'a list \<Rightarrow> nat \<Rightarrow> 'a option" where
  "vec_at xs i = (if i < length xs then Some (xs ! i) else None)"

text \<open>
  An \<open>i64\<close> operation whose exact result is \<open>i\<close>: a build with overflow checks panics
  when it does not fit, a build without them wraps.
\<close>

definition i64_result :: "bool \<Rightarrow> int \<Rightarrow> i64 chk" where
  "i64_result checks i =
     (if checks \<and> \<not> i64_in_range i then Panic ArithPanic else Res (word_of_int i))"

lemma chk_bind_Res_iff [simp]:
  "chk_bind m f = Res y \<longleftrightarrow> (\<exists>x. m = Res x \<and> f x = Res y)"
  by (cases m) auto

lemma chk_bind_Panic_iff [simp]:
  "chk_bind m f = Panic p \<longleftrightarrow> m = Panic p \<or> (\<exists>x. m = Res x \<and> f x = Panic p)"
  by (cases m) auto

lemma vec_get_Res_iff [simp]: "vec_get xs i = Res x \<longleftrightarrow> i < length xs \<and> x = xs ! i"
  by (auto simp: vec_get_def)

lemma vec_get_in [panic_simps]: "i < length xs \<Longrightarrow> vec_get xs i = Res (xs ! i)"
  by (simp add: vec_get_def)

lemma vec_set_Res_iff [simp]: "vec_set xs i x = Res ys \<longleftrightarrow> i < length xs \<and> ys = xs[i := x]"
  by (auto simp: vec_set_def)

lemma vec_set_in [panic_simps]: "i < length xs \<Longrightarrow> vec_set xs i x = Res (xs[i := x])"
  by (simp add: vec_set_def)

lemma vec_at_Some_iff [simp]: "vec_at xs i = Some x \<longleftrightarrow> i < length xs \<and> x = xs ! i"
  by (auto simp: vec_at_def)

lemma vec_at_None_iff [simp]: "vec_at xs i = None \<longleftrightarrow> length xs \<le> i"
  by (auto simp: vec_at_def)

lemma i64_result_cases:
  "i64_result c i = Res (word_of_int i) \<or> (c \<and> i64_result c i = Panic ArithPanic)"
  by (simp add: i64_result_def)

subsection \<open>Searching a vector\<close>

text \<open>\<open>iter().enumerate().find(..)\<close> and \<open>iter().position(..)\<close>: the first index that matches.\<close>

primrec find_index :: "('a \<Rightarrow> bool) \<Rightarrow> 'a list \<Rightarrow> nat option" where
  "find_index p [] = None"
| "find_index p (x # xs) = (if p x then Some 0 else map_option Suc (find_index p xs))"

lemma find_index_SomeD:
  "find_index p xs = Some i \<Longrightarrow> i < length xs \<and> p (xs ! i) \<and> (\<forall>j<i. \<not> p (xs ! j))"
proof (induction xs arbitrary: i)
  case Nil
  then show ?case by simp
next
  case (Cons x xs)
  then show ?case
    by (auto simp: less_Suc_eq_0_disj split: if_splits)
qed

lemma find_index_None_iff: "find_index p xs = None \<longleftrightarrow> (\<forall>x\<in>set xs. \<not> p x)"
  by (induction xs) auto

lemma find_index_length: "find_index p xs = Some i \<Longrightarrow> i < length xs"
  using find_index_SomeD by blast

lemma find_index_cong:
  "(\<And>x. x \<in> set xs \<Longrightarrow> p x = q x) \<Longrightarrow> find_index p xs = find_index q xs"
  by (induction xs) auto

text \<open>\<open>while v.len() < n { v.push(d) }\<close>.\<close>

definition pad_to :: "nat \<Rightarrow> 'a \<Rightarrow> 'a list \<Rightarrow> 'a list" where
  "pad_to n d xs = xs @ replicate (n - length xs) d"

lemma length_pad_to [simp]: "length (pad_to n d xs) = max n (length xs)"
  by (simp add: pad_to_def)

lemma set_pad_to: "set (pad_to n d xs) \<subseteq> insert d (set xs)"
  by (auto simp: pad_to_def)

lemma pad_to_id [simp]: "n \<le> length xs \<Longrightarrow> pad_to n d xs = xs"
  by (simp add: pad_to_def)

text \<open>\<open>dst[..n].clone_from_slice(&src[..n])\<close>.\<close>

definition copy_prefix :: "nat \<Rightarrow> 'a list \<Rightarrow> 'a list \<Rightarrow> 'a list" where
  "copy_prefix n src dst = take n src @ drop n dst"

lemma length_copy_prefix [simp]:
  "n \<le> length src \<Longrightarrow> n \<le> length dst \<Longrightarrow> length (copy_prefix n src dst) = length dst"
  by (simp add: copy_prefix_def)

lemma set_copy_prefix: "set (copy_prefix n src dst) \<subseteq> set src \<union> set dst"
  by (auto simp: copy_prefix_def dest: in_set_takeD in_set_dropD)

subsection \<open>ASCII case\<close>

text \<open>
  Strings are lists of bytes (\<open>char\<close> has 256 values), as a Rust \<open>String\<close> is its UTF-8
  encoding. \<open>to_ascii_uppercase\<close> and its kin change the ASCII letters only.
\<close>

definition byte :: "char \<Rightarrow> nat" where
  "byte c = of_char c"

definition ascii_upper :: "char \<Rightarrow> char" where
  "ascii_upper c = (if 97 \<le> byte c \<and> byte c \<le> 122 then char_of (byte c - 32) else c)"

definition ascii_lower :: "char \<Rightarrow> char" where
  "ascii_lower c = (if 65 \<le> byte c \<and> byte c \<le> 90 then char_of (byte c + 32) else c)"

definition to_upper :: "string \<Rightarrow> string" where
  "to_upper s = map ascii_upper s"

definition to_lower :: "string \<Rightarrow> string" where
  "to_lower s = map ascii_lower s"

definition eq_ignore_ascii_case :: "string \<Rightarrow> string \<Rightarrow> bool" where
  "eq_ignore_ascii_case a b \<longleftrightarrow> to_lower a = to_lower b"

lemma byte_less: "byte c < 256"
  by (simp add: byte_def)

lemma byte_char_of [simp]: "n < 256 \<Longrightarrow> byte (char_of n) = n"
  by (simp add: byte_def)

lemma byte_inject [simp]: "byte a = byte b \<longleftrightarrow> a = b"
  by (simp add: byte_def)

lemma ascii_lower_upper_eq: "ascii_lower a = ascii_lower b \<longleftrightarrow> ascii_upper a = ascii_upper b"
proof -
  have lo: "byte (ascii_lower c) = (if 65 \<le> byte c \<and> byte c \<le> 90 then byte c + 32 else byte c)" for c
    by (simp add: ascii_lower_def)
  have up: "byte (ascii_upper c) = (if 97 \<le> byte c \<and> byte c \<le> 122 then byte c - 32 else byte c)" for c
  proof (cases "97 \<le> byte c \<and> byte c \<le> 122")
    case True
    then have "byte (char_of (byte c - 32)) = byte c - 32" by (intro byte_char_of) linarith
    with True show ?thesis by (simp add: ascii_upper_def)
  qed (auto simp: ascii_upper_def)
  have "byte (ascii_lower a) = byte (ascii_lower b) \<longleftrightarrow> byte (ascii_upper a) = byte (ascii_upper b)"
    unfolding lo up by (auto simp del: byte_inject split: if_splits)
  then show ?thesis by simp
qed

text \<open>The two ways the code compares names agree: folding up and folding down.\<close>

lemma eq_ignore_ascii_case_upper: "eq_ignore_ascii_case a b \<longleftrightarrow> to_upper a = to_upper b"
proof (induction a arbitrary: b)
  case Nil
  then show ?case by (auto simp: eq_ignore_ascii_case_def to_lower_def to_upper_def)
next
  case (Cons c a)
  show ?case
    by (cases b)
      (use Cons in \<open>auto simp: eq_ignore_ascii_case_def to_lower_def to_upper_def ascii_lower_upper_eq\<close>)
qed

lemma eq_ignore_ascii_case_refl [simp]: "eq_ignore_ascii_case a a"
  by (simp add: eq_ignore_ascii_case_def)

lemma eq_ignore_ascii_case_sym: "eq_ignore_ascii_case a b \<longleftrightarrow> eq_ignore_ascii_case b a"
  by (auto simp: eq_ignore_ascii_case_def)

lemma eq_ignore_ascii_case_trans:
  "eq_ignore_ascii_case a b \<Longrightarrow> eq_ignore_ascii_case b c \<Longrightarrow> eq_ignore_ascii_case a c"
  by (simp add: eq_ignore_ascii_case_def)

end
