(* ===== verification/F64.thy ===== *)
theory F64
  imports Prelude
begin

section \<open>Rust's \<open>f64\<close>: IEEE 754 double precision\<close>

text \<open>
  The VM's REAL values are Rust's \<open>f64\<close>. A finite double is a sign, a mantissa below
  \<open>2^53\<close> and an exponent between -1074 and 971; addition, subtraction,
  multiplication, division and the conversion from an integer compute the exact
  rational result and round it once, to nearest with ties to even, as the language
  requires. NaN payloads are not modelled: the code never reads the bits of a REAL.
\<close>

datatype f64 = Fin (f_neg: bool) (f_man: int) (f_exp: int) | Infinite bool | NaN

definition f64_zero :: "bool \<Rightarrow> f64" where
  "f64_zero s = Fin s 0 (-1074)"

fun ilog2 :: "int \<Rightarrow> nat" where
  "ilog2 n = (if n \<le> 1 then 0 else Suc (ilog2 (n div 2)))"

declare ilog2.simps [simp del]

text \<open>Round the positive rational \<open>n / d\<close>.\<close>

definition round_exp :: "int \<Rightarrow> int \<Rightarrow> int" where
  "round_exp n d =
     (let g = int (ilog2 n) - int (ilog2 d);
          below = (if 0 \<le> g then n < d * 2 ^ nat g else n * 2 ^ nat (- g) < d)
      in max (-1074) ((if below then g - 1 else g) - 52))"

definition round_half_even :: "int \<Rightarrow> int \<Rightarrow> int" where
  "round_half_even num den =
     (let q = num div den; r = num mod den
      in if 2 * r > den \<or> (2 * r = den \<and> odd q) then q + 1 else q)"

definition round_pos :: "bool \<Rightarrow> int \<Rightarrow> int \<Rightarrow> f64" where
  "round_pos s n d =
     (let e = round_exp n d;
          m = (if 0 \<le> e then round_half_even n (d * 2 ^ nat e)
               else round_half_even (n * 2 ^ nat (- e)) d);
          (m', e') = (if m = 2 ^ 53 then (2 ^ 52, e + 1) else (m, e))
      in if m' = 0 then f64_zero s
         else if e' > 971 then Infinite s else Fin s m' e')"

text \<open>The rational \<open>n * 2^e / d\<close> with a sign in \<open>n\<close>; zero takes the sign given.\<close>

definition round_scaled :: "bool \<Rightarrow> int \<Rightarrow> int \<Rightarrow> int \<Rightarrow> f64" where
  "round_scaled zs n e d =
     (if n = 0 then f64_zero zs
      else if 0 \<le> e then round_pos (n < 0) (\<bar>n\<bar> * 2 ^ nat e) d
      else round_pos (n < 0) \<bar>n\<bar> (d * 2 ^ nat (- e)))"

definition f64_of_int :: "int \<Rightarrow> f64" where
  "f64_of_int i = round_scaled False i 0 1"

definition signed_man :: "bool \<Rightarrow> int \<Rightarrow> int" where
  "signed_man s m = (if s then - m else m)"

fun f64_neg :: "f64 \<Rightarrow> f64" where
  "f64_neg (Fin s m e) = Fin (\<not> s) m e"
| "f64_neg (Infinite s) = Infinite (\<not> s)"
| "f64_neg NaN = NaN"

fun f64_add :: "f64 \<Rightarrow> f64 \<Rightarrow> f64" where
  "f64_add (Fin s m e) (Fin s' m' e') =
     (let k = min e e'
      in round_scaled (s \<and> s')
           (signed_man s m * 2 ^ nat (e - k) + signed_man s' m' * 2 ^ nat (e' - k)) k 1)"
| "f64_add (Infinite s) (Infinite s') = (if s = s' then Infinite s else NaN)"
| "f64_add (Infinite s) (Fin _ _ _) = Infinite s"
| "f64_add (Fin _ _ _) (Infinite s) = Infinite s"
| "f64_add _ _ = NaN"

definition f64_sub :: "f64 \<Rightarrow> f64 \<Rightarrow> f64" where
  "f64_sub a b = f64_add a (f64_neg b)"

fun f64_mul :: "f64 \<Rightarrow> f64 \<Rightarrow> f64" where
  "f64_mul (Fin s m e) (Fin s' m' e') =
     round_scaled (s \<noteq> s') (signed_man s m * signed_man s' m') (e + e') 1"
| "f64_mul (Infinite s) (Infinite s') = Infinite (s \<noteq> s')"
| "f64_mul (Infinite s) (Fin s' m _) = (if m = 0 then NaN else Infinite (s \<noteq> s'))"
| "f64_mul (Fin s m _) (Infinite s') = (if m = 0 then NaN else Infinite (s \<noteq> s'))"
| "f64_mul _ _ = NaN"

fun f64_div :: "f64 \<Rightarrow> f64 \<Rightarrow> f64" where
  "f64_div (Fin s m e) (Fin s' m' e') =
     (if m' = 0 then (if m = 0 then NaN else Infinite (s \<noteq> s'))
      else round_scaled (s \<noteq> s') (signed_man (s \<noteq> s') m) (e - e') m')"
| "f64_div (Infinite s) (Fin s' _ _) = Infinite (s \<noteq> s')"
| "f64_div (Fin s _ _) (Infinite s') = f64_zero (s \<noteq> s')"
| "f64_div _ _ = NaN"

text \<open>Comparisons: every one of them is false on NaN.\<close>

definition fin_less :: "int \<Rightarrow> int \<Rightarrow> int \<Rightarrow> int \<Rightarrow> bool" where
  "fin_less a e b e' = (let k = min e e' in a * 2 ^ nat (e - k) < b * 2 ^ nat (e' - k))"

definition fin_eq :: "int \<Rightarrow> int \<Rightarrow> int \<Rightarrow> int \<Rightarrow> bool" where
  "fin_eq a e b e' = (let k = min e e' in a * 2 ^ nat (e - k) = b * 2 ^ nat (e' - k))"

fun f64_lt :: "f64 \<Rightarrow> f64 \<Rightarrow> bool" where
  "f64_lt (Fin s m e) (Fin s' m' e') = fin_less (signed_man s m) e (signed_man s' m') e'"
| "f64_lt (Infinite s) (Infinite s') = (s \<and> \<not> s')"
| "f64_lt (Infinite s) (Fin _ _ _) = s"
| "f64_lt (Fin _ _ _) (Infinite s) = (\<not> s)"
| "f64_lt _ _ = False"

fun f64_eq :: "f64 \<Rightarrow> f64 \<Rightarrow> bool" where
  "f64_eq (Fin s m e) (Fin s' m' e') = fin_eq (signed_man s m) e (signed_man s' m') e'"
| "f64_eq (Infinite s) (Infinite s') = (s = s')"
| "f64_eq _ _ = False"

definition f64_le :: "f64 \<Rightarrow> f64 \<Rightarrow> bool" where
  "f64_le a b = (f64_lt a b \<or> f64_eq a b)"

text \<open>\<open>as i64\<close> and \<open>as u64\<close>: truncate, saturate, NaN becomes 0.\<close>

definition trunc_mag :: "int \<Rightarrow> int \<Rightarrow> int" where
  "trunc_mag m e = (if 0 \<le> e then m * 2 ^ nat e else m div 2 ^ nat (- e))"

definition clamp_int :: "int \<Rightarrow> int \<Rightarrow> int \<Rightarrow> int" where
  "clamp_int lo hi i = (if i < lo then lo else if hi < i then hi else i)"

fun f64_to_int :: "int \<Rightarrow> int \<Rightarrow> f64 \<Rightarrow> int" where
  "f64_to_int lo hi (Fin s m e) = clamp_int lo hi (signed_man s (trunc_mag m e))"
| "f64_to_int lo hi (Infinite s) = (if s then lo else hi)"
| "f64_to_int lo hi NaN = clamp_int lo hi 0"

definition f64_to_i64 :: "f64 \<Rightarrow> i64" where
  "f64_to_i64 r = word_of_int (f64_to_int (- (2 ^ 63)) (2 ^ 63 - 1) r)"

definition f64_to_u64 :: "f64 \<Rightarrow> u64" where
  "f64_to_u64 r = word_of_int (f64_to_int 0 (2 ^ 64 - 1) r)"

subsection \<open>Small integers convert exactly\<close>

lemma ilog2_bounds: "1 \<le> n \<Longrightarrow> 2 ^ ilog2 n \<le> n \<and> n < 2 ^ Suc (ilog2 n)"
proof (induction n rule: ilog2.induct)
  case (1 n)
  show ?case
  proof (cases "n \<le> 1")
    case True
    with "1.prems" show ?thesis by (simp add: ilog2.simps)
  next
    case False
    with "1.IH" have "2 ^ ilog2 (n div 2) \<le> n div 2 \<and> n div 2 < 2 ^ Suc (ilog2 (n div 2))"
      by simp
    with False show ?thesis by (simp add: ilog2.simps [of n]) linarith
  qed
qed

lemma round_half_even_exact [simp]: "0 < b \<Longrightarrow> round_half_even (a * b) b = a"
  by (simp add: round_half_even_def Let_def)

lemma round_half_even_one [simp]: "round_half_even a 1 = a"
  by (simp add: round_half_even_def Let_def)

lemma round_exp_int: "1 \<le> n \<Longrightarrow> ilog2 n \<le> 53 \<Longrightarrow> round_exp n 1 = int (ilog2 n) - 52"
  using ilog2_bounds [of n] by (simp add: round_exp_def ilog2.simps [of 1] Let_def)

lemma ilog2_le:
  assumes "1 \<le> n" "n \<le> 2 ^ k"
  shows "ilog2 n \<le> k"
proof -
  have "(2 :: int) ^ ilog2 n \<le> 2 ^ k" using ilog2_bounds [OF assms(1)] assms(2) by linarith
  then show ?thesis by (simp add: power_le_imp_le_exp)
qed

lemma trunc_round_pos_int:
  assumes n: "1 \<le> n" "n \<le> 2 ^ 53"
  shows "\<exists>m e. round_pos s n 1 = Fin s m e \<and> trunc_mag m e = n"
proof (cases "n = 2 ^ 53")
  case True
  have l: "ilog2 n = 53"
    using ilog2_bounds [of n] ilog2_le [of n 53] n True
    by (metis Suc_leI less_Suc_eq_le linorder_not_less nat_less_le power_increasing_iff
        one_less_numeral_iff semiring_norm(76))
  have "round_exp n 1 = 1" using round_exp_int [of n] n l by simp
  moreover have "round_half_even n 2 = 2 ^ 52"
    using round_half_even_exact [of 2 "2 ^ 52"] True by simp
  ultimately have "round_pos s n 1 = Fin s (2 ^ 52) 1" by (simp add: round_pos_def)
  then show ?thesis using True by (simp add: trunc_mag_def)
next
  case False
  with n have lt: "n < 2 ^ 53" by simp
  have l: "ilog2 n \<le> 52"
  proof (rule ccontr)
    assume "\<not> ilog2 n \<le> 52"
    then have "(2::int) ^ 53 \<le> 2 ^ ilog2 n" by (intro power_increasing) auto
    with ilog2_bounds [OF n(1)] lt show False by linarith
  qed
  let ?k = "52 - ilog2 n"
  have nk: "nat (52 - int (ilog2 n)) = ?k" by simp
  have e: "round_exp n 1 = - int ?k" using round_exp_int [of n] n l by simp
  have b: "n * 2 ^ ?k < 2 ^ 53"
  proof -
    have "n * 2 ^ ?k < 2 ^ Suc (ilog2 n) * 2 ^ ?k" using ilog2_bounds [OF n(1)] by simp
    also have "\<dots> = (2::int) ^ 53" using l by (simp flip: power_add add: Suc_diff_le)
    finally show ?thesis .
  qed
  have "round_pos s n 1 = Fin s (n * 2 ^ ?k) (- int ?k)"
    using e b n nk by (auto simp: round_pos_def Let_def)
  then show ?thesis by (cases "?k = 0") (simp_all add: trunc_mag_def nk)
qed

lemma f64_of_int_exact:
  assumes "\<bar>i\<bar> \<le> 2 ^ 53"
  shows "f64_to_i64 (f64_of_int i) = word_of_int i"
proof (cases "i = 0")
  case True
  then show ?thesis
    by (simp add: f64_of_int_def round_scaled_def f64_zero_def f64_to_i64_def trunc_mag_def
        signed_man_def clamp_int_def)
next
  case False
  then have "1 \<le> \<bar>i\<bar>" by linarith
  then obtain m e where "round_pos (i < 0) \<bar>i\<bar> 1 = Fin (i < 0) m e" "trunc_mag m e = \<bar>i\<bar>"
    using trunc_round_pos_int [OF _ assms] by blast
  with False assms show ?thesis
    by (auto simp: f64_of_int_def round_scaled_def f64_to_i64_def signed_man_def clamp_int_def)
qed

lemma f64_add_comm: "f64_add a b = f64_add b a"
  by (cases a; cases b) (auto simp: min.commute add.commute conj_commute Let_def)

lemma f64_mul_comm: "f64_mul a b = f64_mul b a"
proof -
  have "(s = (\<not> t)) = (t = (\<not> s))" for s t :: bool by blast
  then show ?thesis by (cases a; cases b) (auto simp: add.commute mult.commute)
qed

lemma f64_not_NaN_of_int: "f64_of_int i \<noteq> NaN"
  by (simp add: f64_of_int_def round_scaled_def round_pos_def f64_zero_def Let_def
      split: prod.split)

end
