(* ===== verification/Rust_Str.thy ===== *)
theory Rust_Str
  imports Prelude "HOL-Library.Sublist"
begin

section \<open>Rust strings: slicing, trimming, searching, decimal numbers\<close>

text \<open>
  A Rust \<open>String\<close> is a list of bytes that is valid UTF-8. Slicing by byte positions
  panics when a position falls inside a character; \<open>trim\<close> strips the code points with
  the Unicode property White\_Space, not only the ASCII blanks.
\<close>

definition is_ascii :: "string \<Rightarrow> bool" where
  "is_ascii s \<longleftrightarrow> (\<forall>c \<in> set s. byte c < 128)"

text \<open>A UTF-8 continuation byte is \<open>10xxxxxx\<close>.\<close>

definition is_cont :: "char \<Rightarrow> bool" where
  "is_cont c \<longleftrightarrow> 128 \<le> byte c \<and> byte c < 192"

definition char_boundary :: "string \<Rightarrow> nat \<Rightarrow> bool" where
  "char_boundary s i \<longleftrightarrow> i = 0 \<or> i = length s \<or> (i < length s \<and> \<not> is_cont (s ! i))"

definition slice :: "string \<Rightarrow> nat \<Rightarrow> nat \<Rightarrow> string chk" where
  "slice s a b =
     (if a \<le> b \<and> b \<le> length s \<and> char_boundary s a \<and> char_boundary s b
      then Res (take (b - a) (drop a s)) else Panic SlicePanic)"

lemma char_boundary_0 [simp]: "char_boundary s 0"
  by (simp add: char_boundary_def)

lemma char_boundary_length [simp]: "char_boundary s (length s)"
  by (simp add: char_boundary_def)

lemma char_boundary_ascii: "is_ascii s \<Longrightarrow> i \<le> length s \<Longrightarrow> char_boundary s i"
proof (cases "i < length s")
  case True
  assume "is_ascii s"
  with True have "byte (s ! i) < 128" by (simp add: is_ascii_def)
  with True show ?thesis by (simp add: char_boundary_def is_cont_def)
qed (simp add: char_boundary_def)

lemma slice_ascii:
  "is_ascii s \<Longrightarrow> a \<le> b \<Longrightarrow> b \<le> length s \<Longrightarrow> slice s a b = Res (take (b - a) (drop a s))"
  by (simp add: slice_def char_boundary_ascii)

lemma slice_not_IndexPanic [simp]: "slice s a b \<noteq> Panic IndexPanic" "slice s a b \<noteq> Panic ArithPanic"
  by (simp_all add: slice_def)

subsection \<open>Trimming\<close>

text \<open>
  The number of bytes of the white-space character a string starts with, 0 if it
  starts with another: the ASCII blanks, and U+0085, U+00A0, U+1680, U+2000 to
  U+200A, U+2028, U+2029, U+202F, U+205F and U+3000 in UTF-8.
\<close>

definition blank :: "nat \<Rightarrow> bool" where
  "blank b \<longleftrightarrow> (9 \<le> b \<and> b \<le> 13) \<or> b = 32"

definition blank2 :: "nat \<Rightarrow> nat \<Rightarrow> bool" where
  "blank2 a b \<longleftrightarrow> a = 0xC2 \<and> (b = 0x85 \<or> b = 0xA0)"

definition blank3 :: "nat \<Rightarrow> nat \<Rightarrow> nat \<Rightarrow> bool" where
  "blank3 a b c \<longleftrightarrow>
     (a = 0xE1 \<and> b = 0x9A \<and> c = 0x80) \<or>
     (a = 0xE2 \<and> b = 0x80 \<and> ((0x80 \<le> c \<and> c \<le> 0x8A) \<or> c = 0xA8 \<or> c = 0xA9 \<or> c = 0xAF)) \<or>
     (a = 0xE2 \<and> b = 0x81 \<and> c = 0x9F) \<or>
     (a = 0xE3 \<and> b = 0x80 \<and> c = 0x80)"

fun trim_start :: "string \<Rightarrow> string" where
  "trim_start (a # b # c # s) =
     (if blank (byte a) then trim_start (b # c # s)
      else if blank2 (byte a) (byte b) then trim_start (c # s)
      else if blank3 (byte a) (byte b) (byte c) then trim_start s
      else a # b # c # s)"
| "trim_start [a, b] =
     (if blank (byte a) then trim_start [b]
      else if blank2 (byte a) (byte b) then [] else [a, b])"
| "trim_start [a] = (if blank (byte a) then [] else [a])"
| "trim_start [] = []"

text \<open>From the end, on the reversed bytes: the last byte of the character comes first.\<close>

fun trim_rev :: "string \<Rightarrow> string" where
  "trim_rev (c # b # a # s) =
     (if blank (byte c) then trim_rev (b # a # s)
      else if blank2 (byte b) (byte c) then trim_rev (a # s)
      else if blank3 (byte a) (byte b) (byte c) then trim_rev s
      else c # b # a # s)"
| "trim_rev [c, b] =
     (if blank (byte c) then trim_rev [b]
      else if blank2 (byte b) (byte c) then [] else [c, b])"
| "trim_rev [c] = (if blank (byte c) then [] else [c])"
| "trim_rev [] = []"

definition trim_end :: "string \<Rightarrow> string" where
  "trim_end s = rev (trim_rev (rev s))"

definition trim_str :: "string \<Rightarrow> string" where
  "trim_str s = trim_end (trim_start s)"

lemma trim_start_suffix: "suffix (trim_start s) s"
proof (induction s rule: trim_start.induct)
  case (1 a b c s)
  then show ?case by (auto intro: suffix_ConsI)
qed (auto intro: suffix_ConsI)

lemma trim_rev_suffix: "suffix (trim_rev s) s"
proof (induction s rule: trim_rev.induct)
  case (1 c b a s)
  then show ?case by (auto intro: suffix_ConsI)
qed (auto intro: suffix_ConsI)

lemma trim_end_prefix: "prefix (trim_end s) s"
  using trim_rev_suffix [of "rev s"] by (simp add: trim_end_def suffix_to_prefix)

lemma trim_start_no_blank: "trim_start s = c # t \<Longrightarrow> \<not> blank (byte c)"
  by (induction s rule: trim_start.induct) (auto split: if_splits)

lemma trim_rev_no_blank: "trim_rev s = c # t \<Longrightarrow> \<not> blank (byte c)"
  by (induction s rule: trim_rev.induct) (auto split: if_splits)

subsection \<open>Searching\<close>

text \<open>\<open>str::find\<close>: the first byte index at which the needle starts.\<close>

fun find_sub :: "string \<Rightarrow> string \<Rightarrow> nat option" where
  "find_sub hay needle =
     (if prefix needle hay then Some 0
      else case hay of [] \<Rightarrow> None | _ # t \<Rightarrow> map_option Suc (find_sub t needle))"

declare find_sub.simps [simp del]

lemma find_sub_Some:
  "find_sub hay needle = Some i \<Longrightarrow>
     i \<le> length hay \<and> prefix needle (drop i hay) \<and> (\<forall>j<i. \<not> prefix needle (drop j hay))"
proof (induction hay arbitrary: i)
  case Nil
  then show ?case by (auto simp: find_sub.simps split: if_splits)
next
  case (Cons c t)
  then show ?case
    by (subst (asm) (2) find_sub.simps) (auto simp: less_Suc_eq_0_disj split: if_splits)
qed

lemma find_sub_None: "find_sub hay needle = None \<longleftrightarrow> (\<forall>i. \<not> prefix needle (drop i hay))"
proof (induction hay)
  case Nil
  then show ?case by (auto simp: find_sub.simps)
next
  case (Cons c t)
  have "(\<forall>i. \<not> prefix needle (drop i (c # t))) \<longleftrightarrow>
      \<not> prefix needle (c # t) \<and> (\<forall>i. \<not> prefix needle (drop i t))"
    by (metis drop_0 drop_Suc_Cons not0_implies_Suc)
  with Cons show ?case by (auto simp: find_sub.simps [of "c # t"])
qed

subsection \<open>Decimal numbers\<close>

definition digit_char :: "nat \<Rightarrow> char" where
  "digit_char d = char_of (48 + d)"

definition is_digit :: "char \<Rightarrow> bool" where
  "is_digit c \<longleftrightarrow> 48 \<le> byte c \<and> byte c \<le> 57"

fun show_nat :: "nat \<Rightarrow> string" where
  "show_nat n = (if n < 10 then [digit_char n] else show_nat (n div 10) @ [digit_char (n mod 10)])"

declare show_nat.simps [simp del]

definition show_int :: "int \<Rightarrow> string" where
  "show_int i = (if i < 0 then CHR ''-'' # show_nat (nat (- i)) else show_nat (nat i))"

definition digits_value :: "string \<Rightarrow> nat" where
  "digits_value ds = foldl (\<lambda>a c. 10 * a + (byte c - 48)) 0 ds"

definition parse_digits :: "string \<Rightarrow> nat option" where
  "parse_digits ds = (if ds \<noteq> [] \<and> list_all is_digit ds then Some (digits_value ds) else None)"

text \<open>\<open>str::parse::<i64>\<close>: one optional sign, at least one digit, in range.\<close>

definition parse_int :: "string \<Rightarrow> int option" where
  "parse_int s =
     (case s of
        [] \<Rightarrow> None
      | c # t \<Rightarrow>
          if c = CHR ''-'' then map_option (\<lambda>n. - int n) (parse_digits t)
          else if c = CHR ''+'' then map_option int (parse_digits t)
          else map_option int (parse_digits s))"

definition parse_i64 :: "string \<Rightarrow> i64 option" where
  "parse_i64 s =
     (case parse_int s of
        None \<Rightarrow> None
      | Some i \<Rightarrow> if i64_in_range i then Some (word_of_int i) else None)"

text \<open>\<open>str::parse::<u64>\<close> takes a leading plus only.\<close>

definition parse_u64 :: "string \<Rightarrow> u64 option" where
  "parse_u64 s =
     (case s of
        [] \<Rightarrow> None
      | c # t \<Rightarrow>
          (case parse_digits (if c = CHR ''+'' then t else s) of
             None \<Rightarrow> None
           | Some n \<Rightarrow> if n < 2 ^ 64 then Some (of_nat n) else None))"

lemma byte_digit_char: "d < 10 \<Longrightarrow> byte (digit_char d) = 48 + d"
  by (simp add: digit_char_def)

lemma show_nat_ne [simp]: "show_nat n \<noteq> []"
  by (subst show_nat.simps) simp

lemma digits_value_append: "digits_value (s @ [c]) = 10 * digits_value s + (byte c - 48)"
  by (simp add: digits_value_def)

lemma show_nat_digits: "list_all is_digit (show_nat n)"
proof (induction n rule: show_nat.induct)
  case (1 n)
  have "is_digit (digit_char d)" if "d < 10" for d
    using that by (simp add: is_digit_def byte_digit_char)
  with 1 show ?case by (subst show_nat.simps) simp
qed

lemma show_nat_value: "digits_value (show_nat n) = n"
proof (induction n rule: show_nat.induct)
  case (1 n)
  show ?case
  proof (cases "n < 10")
    case True
    then show ?thesis by (subst show_nat.simps) (simp add: digits_value_def byte_digit_char)
  next
    case False
    with 1 show ?thesis
      by (subst show_nat.simps) (simp add: digits_value_append byte_digit_char)
  qed
qed

lemma parse_digits_show_nat [simp]: "parse_digits (show_nat n) = Some n"
  by (simp add: parse_digits_def show_nat_digits show_nat_value)

lemma show_nat_first: "show_nat n = c # t \<Longrightarrow> is_digit c"
  using show_nat_digits [of n] by simp

lemma not_digit_sign [simp]: "\<not> is_digit CHR ''-''" "\<not> is_digit CHR ''+''"
  by (simp_all add: is_digit_def byte_def)

lemma parse_int_show_int: "parse_int (show_int i) = Some i"
proof (cases "i < 0")
  case True
  then show ?thesis by (simp add: parse_int_def show_int_def)
next
  case False
  obtain c t where ct: "show_nat (nat i) = c # t" by (cases "show_nat (nat i)") auto
  then have "is_digit c" by (rule show_nat_first)
  then have "c \<noteq> CHR ''-''" "c \<noteq> CHR ''+''" by auto
  moreover have "parse_digits (c # t) = Some (nat i)" using parse_digits_show_nat [of "nat i"] ct by simp
  ultimately show ?thesis using False ct by (simp add: parse_int_def show_int_def)
qed

lemma parse_i64_show: "parse_i64 (show_int (sint w)) = Some w"
  by (simp add: parse_i64_def parse_int_show_int sint_i64_range)

lemma parse_u64_show: "parse_u64 (show_nat (unat (w :: u64))) = Some w"
proof -
  obtain c t where ct: "show_nat (unat w) = c # t" by (cases "show_nat (unat w)") auto
  then have "c \<noteq> CHR ''+''" using show_nat_first [OF ct] by auto
  moreover have "unat w < 2 ^ LENGTH(64)" by (rule unsigned_less)
  moreover from this have "unat w < 2 ^ 64" by simp
  moreover have "parse_digits (c # t) = Some (unat w)"
    using parse_digits_show_nat [of "unat w"] ct by simp
  ultimately show ?thesis using ct by (simp add: parse_u64_def)
qed

lemma digit_not_blank: "is_digit c \<Longrightarrow> \<not> blank (byte c) \<and> byte c < 128"
  by (auto simp: is_digit_def blank_def)

end
