(* ===== verification/IR.thy ===== *)
theory IR
  imports Prelude F64 Rust_Str
begin

section \<open>Values, types and layouts: crates/st-ir/src/lib.rs\<close>

text \<open>
  The runtime values of the register-based IR with their conversions, the variable
  types, and the memory layouts with their lookups. Registers and slots are \<open>u16\<close> as
  in the source; \<open>usize\<close> counters are \<open>nat\<close>. The instruction set and the module are in
  the theory Instruction.
\<close>

type_synonym reg = u16
type_synonym label = u32

datatype pou_kind = Pou_Function | Pou_FunctionBlock | Pou_Program | Pou_Class | Pou_Method

datatype int_width = W_None | I8 | U8 | I16 | U16 | I32 | U32 | I64 | U64

datatype var_type =
    T_Bool | T_Int | T_UInt | T_Real | T_String | T_Time
  | T_FbInstance u16 | T_ClassInstance u16 | T_Struct u16 | T_Array u16 | T_Ref

datatype val =
    V_Bool bool | V_Int i64 | V_UInt u64 | V_Real f64 | V_String string | V_Time i64
  | V_Ref u16 u16 | V_Null | V_Void

record var_slot =
  vs_name :: string
  vs_ty :: var_type
  vs_offset :: nat
  vs_size :: nat
  vs_retain :: bool
  vs_persistent :: bool
  vs_width :: int_width

record memory_layout =
  slots :: "var_slot list"

datatype type_def =
    TD_Struct string "var_slot list"
  | TD_Enum string "(string \<times> i64) list"
  | TD_Array var_type "(i64 \<times> i64) list"

record source_location =
  byte_offset :: nat
  byte_end :: nat

subsection \<open>Widths and sizes\<close>

fun width_display_name :: "int_width \<Rightarrow> string option" where
  "width_display_name W_None = None"
| "width_display_name I8 = Some ''SINT''"
| "width_display_name U8 = Some ''USINT''"
| "width_display_name I16 = Some ''INT''"
| "width_display_name U16 = Some ''UINT''"
| "width_display_name I32 = Some ''DINT''"
| "width_display_name U32 = Some ''UDINT''"
| "width_display_name I64 = Some ''LINT''"
| "width_display_name U64 = Some ''ULINT''"

fun var_type_size :: "var_type \<Rightarrow> nat" where
  "var_type_size T_Bool = 1"
| "var_type_size T_Int = 8"
| "var_type_size T_UInt = 8"
| "var_type_size T_Real = 8"
| "var_type_size T_Time = 8"
| "var_type_size T_String = 24"
| "var_type_size (T_FbInstance _) = 0"
| "var_type_size (T_ClassInstance _) = 0"
| "var_type_size (T_Struct _) = 0"
| "var_type_size (T_Array _) = 0"
| "var_type_size T_Ref = 4"

subsection \<open>Values: \<open>impl Value\<close>\<close>

definition bool_word :: "bool \<Rightarrow> 'a::len word" where
  "bool_word b = (if b then 1 else 0)"

fun as_bool :: "val \<Rightarrow> bool" where
  "as_bool (V_Bool b) = b"
| "as_bool (V_Int i) = (i \<noteq> 0)"
| "as_bool (V_UInt u) = (u \<noteq> 0)"
| "as_bool (V_Real r) = (\<not> f64_eq r (f64_zero False))"
| "as_bool (V_Time ms) = (ms \<noteq> 0)"
| "as_bool _ = False"

fun as_int :: "val \<Rightarrow> i64" where
  "as_int (V_Int i) = i"
| "as_int (V_UInt u) = u"
| "as_int (V_Bool b) = bool_word b"
| "as_int (V_Real r) = f64_to_i64 r"
| "as_int (V_Time ms) = ms"
| "as_int _ = 0"

fun as_real :: "val \<Rightarrow> f64" where
  "as_real (V_Real r) = r"
| "as_real (V_Int i) = f64_of_int (sint i)"
| "as_real (V_UInt u) = f64_of_int (uint u)"
| "as_real (V_Time ms) = f64_of_int (sint ms)"
| "as_real _ = f64_zero False"

fun as_time :: "val \<Rightarrow> i64" where
  "as_time (V_Time ms) = ms"
| "as_time (V_Int i) = i"
| "as_time (V_UInt u) = u"
| "as_time (V_Real r) = f64_to_i64 r"
| "as_time (V_Bool b) = bool_word b"
| "as_time _ = 0"

fun as_uint :: "val \<Rightarrow> u64" where
  "as_uint (V_UInt u) = u"
| "as_uint (V_Int i) = i"
| "as_uint (V_Bool b) = bool_word b"
| "as_uint (V_Real r) = f64_to_u64 r"
| "as_uint (V_Time ms) = ms"
| "as_uint _ = 0"

fun default_for_type :: "var_type \<Rightarrow> val" where
  "default_for_type T_Bool = V_Bool False"
| "default_for_type T_Int = V_Int 0"
| "default_for_type T_UInt = V_UInt 0"
| "default_for_type T_Real = V_Real (f64_zero False)"
| "default_for_type T_String = V_String []"
| "default_for_type T_Time = V_Time 0"
| "default_for_type (T_FbInstance _) = V_Void"
| "default_for_type (T_ClassInstance _) = V_Void"
| "default_for_type (T_Struct _) = V_Void"
| "default_for_type (T_Array _) = V_Void"
| "default_for_type T_Ref = V_Null"

definition default_val :: val where
  "default_val = V_Int 0"

definition default_locals :: "memory_layout \<Rightarrow> val list" where
  "default_locals l = map (\<lambda>s. default_for_type (vs_ty s)) (slots l)"

lemma length_default_locals [simp]: "length (default_locals l) = length (slots l)"
  by (simp add: default_locals_def)

subsection \<open>Lookups: \<open>impl MemoryLayout\<close>\<close>

text \<open>The index is cast to \<open>u16\<close>, so it is only the position when that fits.\<close>

definition slot_pos :: "memory_layout \<Rightarrow> string \<Rightarrow> nat option" where
  "slot_pos l name = find_index (\<lambda>s. eq_ignore_ascii_case (vs_name s) name) (slots l)"

definition find_slot :: "memory_layout \<Rightarrow> string \<Rightarrow> (u16 \<times> var_slot) option" where
  "find_slot l name = map_option (\<lambda>i. (of_nat i, slots l ! i)) (slot_pos l name)"

fun is_array :: "var_type \<Rightarrow> bool" where
  "is_array (T_Array _) = True"
| "is_array _ = False"

definition has_expanded_arrays :: "memory_layout \<Rightarrow> bool" where
  "has_expanded_arrays l \<longleftrightarrow> list_ex (\<lambda>s. is_array (vs_ty s) \<and> vs_size s > 1) (slots l)"

definition expanded_index :: "memory_layout \<Rightarrow> nat \<Rightarrow> nat" where
  "expanded_index l i =
     (if \<not> has_expanded_arrays l then i
      else case vec_at (slots l) i of None \<Rightarrow> i | Some s \<Rightarrow> vs_offset s)"

definition expanded_len :: "memory_layout \<Rightarrow> nat" where
  "expanded_len l =
     (if \<not> has_expanded_arrays l then length (slots l)
      else sum_list (map (\<lambda>s. if is_array (vs_ty s) then vs_size s else 1) (slots l)))"

definition total_size :: "memory_layout \<Rightarrow> nat" where
  "total_size l = foldr max (map (\<lambda>s. vs_offset s + vs_size s) (slots l)) 0"

lemma unat_of_nat_u16_le: "unat (of_nat i :: u16) \<le> i"
  by (simp add: unat_of_nat)

lemma unat_of_nat_u16_less: "i < n \<Longrightarrow> unat (of_nat i :: u16) < n"
  using unat_of_nat_u16_le [of i] by linarith

lemma unat_of_nat_u16 [simp]: "i < 65536 \<Longrightarrow> unat (of_nat i :: u16) = i"
  by (simp add: unat_of_nat)

lemma find_slot_SomeD:
  "find_slot l name = Some (i, s) \<Longrightarrow>
     unat i < length (slots l) \<and> s \<in> set (slots l) \<and> eq_ignore_ascii_case (vs_name s) name"
  by (auto simp: find_slot_def slot_pos_def dest!: find_index_SomeD intro: unat_of_nat_u16_less)

lemma find_slot_None_iff:
  "find_slot l name = None \<longleftrightarrow> (\<forall>s \<in> set (slots l). \<not> eq_ignore_ascii_case (vs_name s) name)"
  by (simp add: find_slot_def slot_pos_def find_index_None_iff)

lemma find_slot_nth:
  "length (slots l) \<le> 65536 \<Longrightarrow> find_slot l name = Some (i, s) \<Longrightarrow> slots l ! unat i = s"
  by (auto simp: find_slot_def slot_pos_def dest!: find_index_SomeD)

lemma find_slot_case_insensitive:
  assumes "eq_ignore_ascii_case a b"
  shows "find_slot l a = find_slot l b"
proof -
  have "slot_pos l a = slot_pos l b"
    unfolding slot_pos_def using assms
    by (intro find_index_cong) (simp add: eq_ignore_ascii_case_def)
  then show ?thesis by (simp add: find_slot_def)
qed

end
