(* ===== verification/Ast.thy ===== *)
theory Ast
  imports IR
begin

section \<open>The syntax tree: crates/st-syntax/src/ast.rs\<close>

text \<open>
  The nodes the compiler reads, one constructor or record per struct and enum of the source
  and in its field order. Structs of the expression and statement families are datatypes with
  one constructor, since they refer to each other; \<open>Box\<close> is the value it holds.
\<close>

record text_range =
  tr_start :: nat
  tr_end :: nat

record ident =
  id_name :: string
  id_range :: text_range

record qualified_name =
  qn_parts :: "ident list"
  qn_range :: text_range

fun join_dots :: "string list \<Rightarrow> string" where
  "join_dots [] = []"
| "join_dots [s] = s"
| "join_dots (s # ss) = s @ ''.'' @ join_dots ss"

definition qn_as_str :: "qualified_name \<Rightarrow> string" where
  "qn_as_str q = join_dots (map id_name (qn_parts q))"

subsection \<open>Literals\<close>

datatype elementary_type =
    ET_Bool | ET_Sint | ET_Int | ET_Dint | ET_Lint | ET_Usint | ET_Uint | ET_Udint | ET_Ulint
  | ET_Real | ET_Lreal | ET_Byte | ET_Word | ET_Dword | ET_Lword | ET_Time | ET_Ltime
  | ET_Date | ET_Ldate | ET_Tod | ET_Ltod | ET_Dt | ET_Ldt

datatype literal_kind =
    L_Integer i64 | L_Real f64 | L_String string | L_Bool bool
  | L_Time string | L_Date string | L_Tod string | L_Dt string
  | L_Null | L_Typed elementary_type string

record literal =
  li_kind :: literal_kind
  li_range :: text_range

subsection \<open>Expressions\<close>

datatype unary_op = U_Neg | U_Not

datatype binary_op =
    B_Add | B_Sub | B_Mul | B_Div | B_Mod | B_Power | B_And | B_Or | B_Xor
  | B_Eq | B_Ne | B_Lt | B_Gt | B_Le | B_Ge

datatype partial_access_kind = P_Bit | P_Byte | P_Word | P_DWord | P_LWord

datatype expression =
    E_Literal literal
  | E_Variable variable_access
  | E_FunctionCall function_call_expr
  | E_Unary unary_op expression text_range
  | E_Binary binary_op expression expression text_range
  | E_Parenthesized expression
  | E_This text_range
  | E_Super text_range
and variable_access = VariableAccess (va_parts: "access_part list") (va_range: text_range)
and access_part =
    A_Identifier ident
  | A_Index "expression list"
  | A_Deref
  | A_Partial partial_access_kind u32
and function_call_expr =
  FunctionCallExpr (fce_name: qualified_name) (fce_arguments: "argument list") (fce_range: text_range)
and argument = Positional expression | Named ident expression

primrec expression_range :: "expression \<Rightarrow> text_range" where
  "expression_range (E_Literal l) = li_range l"
| "expression_range (E_Variable v) = va_range v"
| "expression_range (E_FunctionCall f) = fce_range f"
| "expression_range (E_Unary _ _ r) = r"
| "expression_range (E_Binary _ _ _ r) = r"
| "expression_range (E_Parenthesized e) = expression_range e"
| "expression_range (E_This r) = r"
| "expression_range (E_Super r) = r"

primrec argument_value :: "argument \<Rightarrow> expression" where
  "argument_value (Positional e) = e"
| "argument_value (Named _ e) = e"

subsection \<open>Statements\<close>

datatype case_selector = Single expression | Range expression expression

datatype statement =
    S_Assignment variable_access expression text_range
  | S_FunctionCall function_call_expr
  | S_If expression "statement list" "elsif_clause list" "statement list option" text_range
  | S_Case expression "case_branch list" "statement list option" text_range
  | S_For ident expression expression "expression option" "statement list" text_range
  | S_While expression "statement list" text_range
  | S_Repeat "statement list" expression text_range
  | S_Return text_range
  | S_Exit text_range
  | S_Empty text_range
and elsif_clause = ElsifClause expression "statement list" text_range
and case_branch = CaseBranch "case_selector list" "statement list" text_range

fun statement_range :: "statement \<Rightarrow> text_range" where
  "statement_range (S_Assignment _ _ r) = r"
| "statement_range (S_FunctionCall f) = fce_range f"
| "statement_range (S_If _ _ _ _ r) = r"
| "statement_range (S_Case _ _ _ r) = r"
| "statement_range (S_For _ _ _ _ _ r) = r"
| "statement_range (S_While _ _ r) = r"
| "statement_range (S_Repeat _ _ r) = r"
| "statement_range (S_Return r) = r"
| "statement_range (S_Exit r) = r"
| "statement_range (S_Empty r) = r"

subsection \<open>Types and declarations\<close>

record array_range =
  rg_lower :: expression
  rg_upper :: expression
  rg_range :: text_range

record string_type =
  st_wide :: bool
  st_length :: "expression option"
  st_range :: text_range

datatype data_type =
    D_Elementary elementary_type
  | D_Array array_type
  | D_String string_type
  | D_Ref data_type
  | D_UserDefined qualified_name
and array_type =
  ArrayType (ar_ranges: "array_range list") (ar_element_type: data_type) (ar_range: text_range)

datatype var_kind = Var | VarInput | VarOutput | VarInOut | VarGlobal | VarExternal | VarTemp

datatype var_qualifier = Retain | Persistent | Constant

record var_declaration =
  vd_names :: "ident list"
  vd_ty :: data_type
  vd_initial_value :: "expression option"
  vd_range :: text_range

record var_block =
  vb_kind :: var_kind
  vb_qualifiers :: "var_qualifier list"
  vb_declarations :: "var_declaration list"
  vb_range :: text_range

record struct_field =
  sf_name :: ident
  sf_ty :: data_type
  sf_default :: "expression option"
  sf_range :: text_range

record enum_value =
  ev_name :: ident
  ev_value :: "literal option"
  ev_range :: text_range

datatype type_def_kind =
    TK_Struct "struct_field list" text_range
  | TK_Enum "enum_value list" text_range
  | TK_Subrange elementary_type expression expression text_range
  | TK_Alias data_type

record type_definition =
  tn_name :: ident
  tn_ty :: type_def_kind
  tn_range :: text_range

subsection \<open>Program organisation units\<close>

record program_decl =
  pd_name :: ident
  pd_var_blocks :: "var_block list"
  pd_body :: "statement list"
  pd_range :: text_range

record function_decl =
  fd_name :: ident
  fd_return_type :: data_type
  fd_var_blocks :: "var_block list"
  fd_body :: "statement list"
  fd_range :: text_range

record function_block_decl =
  bd_name :: ident
  bd_var_blocks :: "var_block list"
  bd_body :: "statement list"
  bd_range :: text_range

datatype access_specifier = Public | Private | Protected | Internal

record method_decl =
  me_access :: access_specifier
  me_name :: ident
  me_return_type :: "data_type option"
  me_var_blocks :: "var_block list"
  me_body :: "statement list"
  me_is_abstract :: bool
  me_is_final :: bool
  me_is_override :: bool
  me_range :: text_range

record property_accessor =
  pa_var_blocks :: "var_block list"
  pa_body :: "statement list"
  pa_range :: text_range

record property_decl =
  pr_access :: access_specifier
  pr_name :: ident
  pr_ty :: data_type
  pr_get_body :: "property_accessor option"
  pr_set_body :: "property_accessor option"
  pr_range :: text_range

record class_decl =
  cl_name :: ident
  cl_base_class :: "string option"
  cl_interfaces :: "string list"
  cl_is_abstract :: bool
  cl_is_final :: bool
  cl_var_blocks :: "var_block list"
  cl_methods :: "method_decl list"
  cl_properties :: "property_decl list"
  cl_range :: text_range

record method_prototype =
  mp_name :: ident
  mp_return_type :: "data_type option"
  mp_var_blocks :: "var_block list"
  mp_range :: text_range

record interface_decl =
  in_name :: ident
  in_base_interfaces :: "string list"
  in_methods :: "method_prototype list"
  in_range :: text_range

datatype top_level_item =
    TI_Program program_decl
  | TI_Function function_decl
  | TI_FunctionBlock function_block_decl
  | TI_Class class_decl
  | TI_Interface interface_decl
  | TI_TypeDeclaration "type_definition list" text_range
  | TI_GlobalVarDeclaration var_block

record source_file =
  sf_items :: "top_level_item list"
  sf_file_range :: text_range

end
