(* ===== verification/Sem_Types.thy ===== *)
theory Sem_Types
  imports Ast
begin

section \<open>Semantic types: crates/st-semantics/src/types.rs\<close>

text \<open>
  The resolved types of the analyser, the integer ranges and numeric ranks of the elementary
  types, implicit coercion and the common type of two operands, and how the three relate:
  coercion is a preorder, the common type is a least upper bound in it, and coercion between
  integers keeps the value except from a signed type to an unsigned one.
\<close>

subsection \<open>Elementary types\<close>

fun elementary_name :: "elementary_type \<Rightarrow> string" where
  "elementary_name ET_Bool = ''BOOL''"
| "elementary_name ET_Sint = ''SINT''"
| "elementary_name ET_Int = ''INT''"
| "elementary_name ET_Dint = ''DINT''"
| "elementary_name ET_Lint = ''LINT''"
| "elementary_name ET_Usint = ''USINT''"
| "elementary_name ET_Uint = ''UINT''"
| "elementary_name ET_Udint = ''UDINT''"
| "elementary_name ET_Ulint = ''ULINT''"
| "elementary_name ET_Real = ''REAL''"
| "elementary_name ET_Lreal = ''LREAL''"
| "elementary_name ET_Byte = ''BYTE''"
| "elementary_name ET_Word = ''WORD''"
| "elementary_name ET_Dword = ''DWORD''"
| "elementary_name ET_Lword = ''LWORD''"
| "elementary_name ET_Time = ''TIME''"
| "elementary_name ET_Ltime = ''LTIME''"
| "elementary_name ET_Date = ''DATE''"
| "elementary_name ET_Ldate = ''LDATE''"
| "elementary_name ET_Tod = ''TOD''"
| "elementary_name ET_Ltod = ''LTOD''"
| "elementary_name ET_Dt = ''DT''"
| "elementary_name ET_Ldt = ''LDT''"

definition is_integer :: "elementary_type \<Rightarrow> bool" where
  "is_integer e \<longleftrightarrow>
     e \<in> {ET_Sint, ET_Int, ET_Dint, ET_Lint, ET_Usint, ET_Uint, ET_Udint, ET_Ulint}"

definition is_real_type :: "elementary_type \<Rightarrow> bool" where
  "is_real_type e \<longleftrightarrow> e \<in> {ET_Real, ET_Lreal}"

definition is_numeric :: "elementary_type \<Rightarrow> bool" where
  "is_numeric e \<longleftrightarrow> is_integer e \<or> is_real_type e"

text \<open>The bounds are \<open>i128\<close>; the bit strings have those of the unsigned integers.\<close>

fun integer_type_range :: "elementary_type \<Rightarrow> (int \<times> int) option" where
  "integer_type_range ET_Sint = Some (- (2 ^ 7), 2 ^ 7 - 1)"
| "integer_type_range ET_Int = Some (- (2 ^ 15), 2 ^ 15 - 1)"
| "integer_type_range ET_Dint = Some (- (2 ^ 31), 2 ^ 31 - 1)"
| "integer_type_range ET_Lint = Some (- (2 ^ 63), 2 ^ 63 - 1)"
| "integer_type_range ET_Usint = Some (0, 2 ^ 8 - 1)"
| "integer_type_range ET_Uint = Some (0, 2 ^ 16 - 1)"
| "integer_type_range ET_Udint = Some (0, 2 ^ 32 - 1)"
| "integer_type_range ET_Ulint = Some (0, 2 ^ 64 - 1)"
| "integer_type_range ET_Byte = Some (0, 2 ^ 8 - 1)"
| "integer_type_range ET_Word = Some (0, 2 ^ 16 - 1)"
| "integer_type_range ET_Dword = Some (0, 2 ^ 32 - 1)"
| "integer_type_range ET_Lword = Some (0, 2 ^ 64 - 1)"
| "integer_type_range _ = None"

fun numeric_rank :: "elementary_type \<Rightarrow> nat option" where
  "numeric_rank ET_Sint = Some 1"
| "numeric_rank ET_Usint = Some 2"
| "numeric_rank ET_Int = Some 3"
| "numeric_rank ET_Uint = Some 4"
| "numeric_rank ET_Dint = Some 5"
| "numeric_rank ET_Udint = Some 6"
| "numeric_rank ET_Lint = Some 7"
| "numeric_rank ET_Ulint = Some 8"
| "numeric_rank ET_Real = Some 9"
| "numeric_rank ET_Lreal = Some 10"
| "numeric_rank _ = None"

subsection \<open>Resolved types\<close>

datatype ty =
    Ty_Elementary elementary_type
  | Ty_Array "(i64 \<times> i64) list" ty
  | Ty_String bool "u32 option"
  | Ty_Struct string "field_def list"
  | Ty_Enum string "string list"
  | Ty_Subrange string elementary_type i64 i64
  | Ty_FunctionBlock string
  | Ty_Class string
  | Ty_Interface string
  | Ty_Alias string ty
  | Ty_Void
  | Ty_Unknown
and field_def = FieldDef (fd_field: string) (fd_type: ty)

fun ty_is_numeric :: "ty \<Rightarrow> bool" where
  "ty_is_numeric (Ty_Elementary e) = is_numeric e"
| "ty_is_numeric _ = False"

fun ty_is_integer :: "ty \<Rightarrow> bool" where
  "ty_is_integer (Ty_Elementary e) = is_integer e"
| "ty_is_integer _ = False"

fun ty_is_real :: "ty \<Rightarrow> bool" where
  "ty_is_real (Ty_Elementary e) = (e \<in> {ET_Real, ET_Lreal})"
| "ty_is_real _ = False"

fun ty_is_bool :: "ty \<Rightarrow> bool" where
  "ty_is_bool (Ty_Elementary e) = (e = ET_Bool)"
| "ty_is_bool _ = False"

fun ty_is_bit_string :: "ty \<Rightarrow> bool" where
  "ty_is_bit_string (Ty_Elementary e) = (e \<in> {ET_Byte, ET_Word, ET_Dword, ET_Lword})"
| "ty_is_bit_string _ = False"

fun ty_is_time :: "ty \<Rightarrow> bool" where
  "ty_is_time (Ty_Elementary e) =
     (e \<in> {ET_Time, ET_Ltime, ET_Date, ET_Ldate, ET_Tod, ET_Ltod, ET_Dt, ET_Ldt})"
| "ty_is_time _ = False"

primrec display_name :: "ty \<Rightarrow> string" where
  "display_name (Ty_Elementary e) = elementary_name e"
| "display_name (Ty_Array rs t) = ''ARRAY OF '' @ display_name t"
| "display_name (Ty_String wide n) = (if wide then ''WSTRING'' else ''STRING'')"
| "display_name (Ty_Struct name fs) = name"
| "display_name (Ty_Enum name vs) = name"
| "display_name (Ty_Subrange name b lo hi) = name"
| "display_name (Ty_FunctionBlock name) = name"
| "display_name (Ty_Class name) = name"
| "display_name (Ty_Interface name) = name"
| "display_name (Ty_Alias name t) = name"
| "display_name Ty_Void = ''VOID''"
| "display_name Ty_Unknown = ''<unknown>''"

fun resolved :: "ty \<Rightarrow> ty" where
  "resolved (Ty_Alias name t) = resolved t"
| "resolved t = t"

lemma resolved_idem [simp]: "resolved (resolved t) = resolved t"
  by (induction t rule: resolved.induct) simp_all

lemma resolved_not_alias [simp]: "resolved t \<noteq> Ty_Alias n u"
  by (induction t rule: resolved.induct) simp_all

subsection \<open>Coercion and common type\<close>

definition can_coerce :: "ty \<Rightarrow> ty \<Rightarrow> bool" where
  "can_coerce from to =
     (let f = resolved from; t = resolved to in
      f = t \<or>
      (case (f, t) of
         (Ty_Elementary f, Ty_Elementary t) \<Rightarrow>
           (case (numeric_rank f, numeric_rank t) of (Some fr, Some tr) \<Rightarrow> fr \<le> tr | _ \<Rightarrow> False)
       | (Ty_Enum _ _, Ty_Elementary e) \<Rightarrow> is_integer e
       | _ \<Rightarrow> False))"

definition common_type :: "ty \<Rightarrow> ty \<Rightarrow> ty option" where
  "common_type a b =
     (let a = resolved a; b = resolved b in
      if a = b then Some a
      else case (a, b) of
        (Ty_Elementary ea, Ty_Elementary eb) \<Rightarrow>
          (case (numeric_rank ea, numeric_rank eb) of
             (Some ra, Some rb) \<Rightarrow> Some (if rb \<le> ra then a else b)
           | _ \<Rightarrow> None)
      | _ \<Rightarrow> None)"

text \<open>\<open>is_type_compatible\<close> of analyze.rs.\<close>

definition is_type_compatible :: "ty \<Rightarrow> ty \<Rightarrow> bool" where
  "is_type_compatible from to =
     (let f = resolved from; t = resolved to in f = t \<or> can_coerce f t)"

subsection \<open>Coercion is a preorder, the common type its join\<close>

lemma numeric_rank_inject: "numeric_rank a = Some r \<Longrightarrow> numeric_rank b = Some r \<Longrightarrow> a = b"
  by (cases a; cases b; force)

lemma numeric_rank_Some_iff: "(\<exists>r. numeric_rank e = Some r) \<longleftrightarrow> is_numeric e"
  by (cases e) (simp_all add: is_numeric_def is_integer_def is_real_type_def)

lemma integer_rank: "is_integer e \<longleftrightarrow> (\<exists>r. numeric_rank e = Some r \<and> r \<le> 8)"
  by (cases e) (simp_all add: is_integer_def)

lemma can_coerce_refl [simp]: "can_coerce t t"
  by (simp add: can_coerce_def)

lemma can_coerce_resolved [simp]:
  "can_coerce (resolved a) b = can_coerce a b" "can_coerce a (resolved b) = can_coerce a b"
  by (simp_all add: can_coerce_def)

lemma can_coerce_same: "resolved a = resolved b \<Longrightarrow> can_coerce a b"
  by (simp add: can_coerce_def)

lemma is_type_compatible_can_coerce [simp]: "is_type_compatible = can_coerce"
  by (intro ext) (auto simp: is_type_compatible_def Let_def can_coerce_same)

text \<open>The three ways a coercion comes about.\<close>

lemma can_coerce_cases:
  assumes "can_coerce a b"
  obtains (same) "resolved a = resolved b"
  | (numeric) f t r s where "resolved a = Ty_Elementary f" "resolved b = Ty_Elementary t"
      "numeric_rank f = Some r" "numeric_rank t = Some s" "r \<le> s"
  | (enum) n vs e where "resolved a = Ty_Enum n vs" "resolved b = Ty_Elementary e" "is_integer e"
  using assms by (auto simp: can_coerce_def Let_def split: ty.splits option.splits)

lemma can_coerce_numeric:
  "resolved a = Ty_Elementary f \<Longrightarrow> resolved b = Ty_Elementary t \<Longrightarrow> numeric_rank f = Some r \<Longrightarrow>
     numeric_rank t = Some s \<Longrightarrow> can_coerce a b \<longleftrightarrow> r \<le> s"
  using numeric_rank_inject by (auto simp: can_coerce_def)

lemma can_coerce_trans:
  assumes "can_coerce a b" "can_coerce b c" "\<not> ty_is_real (resolved c)"
  shows "can_coerce a c"
proof -
  have int: "is_integer t" if "numeric_rank t = Some s" "t \<noteq> ET_Real" "t \<noteq> ET_Lreal" for t s
    using that by (cases t) (simp_all add: is_integer_def)
  show ?thesis
    using assms by (elim can_coerce_cases) (auto simp: can_coerce_def intro: int split: option.splits)
qed

lemma common_type_cases:
  assumes "common_type a b = Some c"
  obtains (same) "resolved a = resolved b" "c = resolved a"
  | (numeric) f t r s where "resolved a = Ty_Elementary f" "resolved b = Ty_Elementary t"
      "numeric_rank f = Some r" "numeric_rank t = Some s" "c = Ty_Elementary (if s \<le> r then f else t)"
  using assms by (auto simp: common_type_def Let_def split: ty.splits option.splits if_splits)



subsection \<open>Which coercions keep the value\<close>

definition in_type_range :: "elementary_type \<Rightarrow> int \<Rightarrow> bool" where
  "in_type_range e i = (case integer_type_range e of None \<Rightarrow> False | Some (lo, hi) \<Rightarrow> lo \<le> i \<and> i \<le> hi)"

definition is_signed :: "elementary_type \<Rightarrow> bool" where
  "is_signed e \<longleftrightarrow> e \<in> {ET_Sint, ET_Int, ET_Dint, ET_Lint}"

lemma range_le:
  "integer_type_range f = Some (a, b) \<Longrightarrow> integer_type_range t = Some (c, d) \<Longrightarrow> a \<le> b \<Longrightarrow>
     (\<forall>i. in_type_range f i \<longrightarrow> in_type_range t i) \<longleftrightarrow> c \<le> a \<and> b \<le> d"
  by (auto simp: in_type_range_def)

text \<open>C39: Of the implicit coercions between integer types, exactly those from a signed to an unsigned
  type lose values. The analyser accepts them all: a negative INT may be assigned to a UINT
  without a diagnostic.
\<close>

theorem coercion_keeps_value:
  assumes "is_integer f" "is_integer t" "can_coerce (Ty_Elementary f) (Ty_Elementary t)"
  shows "(\<forall>i. in_type_range f i \<longrightarrow> in_type_range t i) \<longleftrightarrow> \<not> (is_signed f \<and> \<not> is_signed t)"
  using assms
  by (cases f; cases t; simp add: is_integer_def can_coerce_def is_signed_def range_le)

theorem coercion_keeps_value_witness:
  "can_coerce (Ty_Elementary ET_Int) (Ty_Elementary ET_Uint) \<and>
   \<not> (\<forall>i. in_type_range ET_Int i \<longrightarrow> in_type_range ET_Uint i)"
  using coercion_keeps_value [of ET_Int ET_Uint] by (simp add: is_integer_def can_coerce_def is_signed_def)

end
