(* ===== verification/Instruction.thy ===== *)
theory Instruction
  imports IR
begin

section \<open>Instructions, functions and modules: crates/st-ir/src/lib.rs\<close>

text \<open>
  The instruction set, one constructor per variant of the source's enum with its fields
  in the source's order, the compiled function and the module with the lookup by name.
\<close>

datatype (plugins del: size transfer lifting quickcheck_random
    quickcheck_exhaustive quickcheck_full_exhaustive quickcheck_narrowing) instruction =
    Nop
  | LoadConst reg val | Move reg reg
  | LoadLocal reg u16 | StoreLocal u16 reg | LoadGlobal reg u16 | StoreGlobal u16 reg
  | Add reg reg reg | Sub reg reg reg | Mul reg reg reg | Div reg reg reg | Mod reg reg reg
  | Pow reg reg reg | Neg reg reg
  | CmpEq reg reg reg | CmpNe reg reg reg | CmpLt reg reg reg | CmpGt reg reg reg
  | CmpLe reg reg reg | CmpGe reg reg reg
  | And reg reg reg | Or reg reg reg | Xor reg reg reg | Not reg reg
  | Sqrt reg reg | Sin reg reg | Cos reg reg | Tan reg reg | Asin reg reg | Acos reg reg
  | Atan reg reg | SystemTime reg | Ln reg reg | Log reg reg | Exp reg reg
  | ToInt reg reg | ToReal reg reg | ToBool reg reg | ToTime reg reg | ToTod reg reg
  | DtExtractDate reg reg | DtExtractTod reg reg | DayOfWeek reg reg
  | StringLen reg reg | StringConcat reg reg reg | StringLeft reg reg reg
  | StringRight reg reg reg | StringMid reg reg reg reg | StringFind reg reg reg
  | StringInsert reg reg reg reg | StringDelete reg reg reg reg
  | StringReplace reg reg reg reg reg
  | StringTrim reg reg | StringLTrim reg reg | StringRTrim reg reg
  | StringToUpper reg reg | StringToLower reg reg
  | IntToString reg reg | UIntToString reg reg | RealToString reg reg | BoolToString reg reg
  | StringToInt reg reg | StringToUInt reg reg | StringToReal reg reg | StringToBool reg reg
  | ToString reg reg
  | Jump label | JumpIf reg label | JumpIfNot reg label
  | Call u16 reg "(u16 \<times> reg) list"
  | CallFb u16 u16 "(u16 \<times> reg) list"
  | Ret reg
  | CallMethod u16 u16 u16 reg "(u16 \<times> reg) list"
  | RetVoid
  | MakeRefLocal reg u16 | MakeRefGlobal reg u16 | Deref reg reg | DerefStore reg reg
  | LoadNull reg
  | ExtractBit reg reg u8 | InsertBit reg reg u8 reg
  | ExtractPartial reg reg u8 u8 | InsertPartial reg reg u8 u8 reg
  | LoadArray reg u16 reg | StoreArray u16 reg reg
  | LoadField reg u16 u16 | StoreField u16 u16 reg
  | LoadFieldIndex reg u16 u16 reg | StoreFieldIndex u16 u16 reg reg

record func =
  fn_name :: string
  fn_kind :: pou_kind
  fn_register_count :: u16
  fn_instructions :: "instruction list"
  fn_label_positions :: "nat list"
  fn_locals :: memory_layout
  fn_source_map :: "source_location list"
  fn_body_start_pc :: nat

record ir_module =
  md_functions :: "func list"
  md_globals :: memory_layout
  md_type_defs :: "type_def list"
  md_native_fb_indices :: "u16 list"

subsection \<open>\<open>impl Module\<close>\<close>

definition function_pos :: "ir_module \<Rightarrow> string \<Rightarrow> nat option" where
  "function_pos m name = find_index (\<lambda>f. eq_ignore_ascii_case (fn_name f) name) (md_functions m)"

definition find_function :: "ir_module \<Rightarrow> string \<Rightarrow> (u16 \<times> func) option" where
  "find_function m name = map_option (\<lambda>i. (of_nat i, md_functions m ! i)) (function_pos m name)"

lemma find_function_SomeD:
  "find_function m name = Some (i, f) \<Longrightarrow>
     unat i < length (md_functions m) \<and> f \<in> set (md_functions m) \<and> eq_ignore_ascii_case (fn_name f) name"
  by (auto simp: find_function_def function_pos_def dest!: find_index_SomeD
      intro: unat_of_nat_u16_less)

lemma find_function_nth:
  "length (md_functions m) \<le> 65536 \<Longrightarrow> find_function m name = Some (i, f) \<Longrightarrow>
     md_functions m ! unat i = f"
  by (auto simp: find_function_def function_pos_def dest!: find_index_SomeD)

end
