(* ===== verification/Debug.thy ===== *)
theory Debug
  imports Instruction
begin

section \<open>Debugger support: crates/st-engine/src/debug.rs\<close>

text \<open>
  The debug state the VM consults before every instruction: breakpoints, the stepping
  mode and the suppression of a breakpoint that has just been reported. Operations
  return the updated state. The channel protocol types of the file (\<open>DebugCommand\<close>,
  \<open>DebugResponse\<close>) have no code of their own and are not modelled.
\<close>

datatype step_mode = Continue | StepIn | StepOver | StepOut | Paused

datatype pause_reason = PR_Breakpoint | PR_Step | PR_PauseRequest | PR_Entry | PR_None

record debug_state =
  breakpoints :: "(u16 \<times> nat) set"
  source_breakpoints :: "nat set"
  ds_mode :: step_mode
  step_start_depth :: nat
  step_start_source_offset :: nat
  last_breakpoint_offset :: nat
  ds_paused :: bool
  ds_reason :: pause_reason

definition debug_new :: debug_state where
  "debug_new = \<lparr>breakpoints = {}, source_breakpoints = {}, ds_mode = Continue,
     step_start_depth = 0, step_start_source_offset = 0, last_breakpoint_offset = 0,
     ds_paused = False, ds_reason = PR_None\<rparr>"

definition set_source_breakpoint :: "nat \<Rightarrow> debug_state \<Rightarrow> debug_state" where
  "set_source_breakpoint off d = d\<lparr>source_breakpoints := insert off (source_breakpoints d)\<rparr>"

definition remove_source_breakpoint :: "nat \<Rightarrow> debug_state \<Rightarrow> debug_state" where
  "remove_source_breakpoint off d = d\<lparr>source_breakpoints := source_breakpoints d - {off}\<rparr>"

definition clear_breakpoints :: "debug_state \<Rightarrow> debug_state" where
  "clear_breakpoints d = d\<lparr>breakpoints := {}, source_breakpoints := {}\<rparr>"

subsection \<open>Pausing\<close>

definition source_at :: "source_location list \<Rightarrow> nat \<Rightarrow> nat" where
  "source_at sm pc = (case vec_at sm pc of None \<Rightarrow> 0 | Some l \<Rightarrow> byte_offset l)"

definition check_breakpoint ::
  "u16 \<Rightarrow> nat \<Rightarrow> source_location list \<Rightarrow> debug_state \<Rightarrow> pause_reason option \<times> debug_state" where
  "check_breakpoint fi pc sm d =
     (if (fi, pc) \<in> breakpoints d then (Some PR_Breakpoint, d)
      else case vec_at sm pc of
        None \<Rightarrow> (None, d)
      | Some l \<Rightarrow>
          if byte_offset l > 0 \<and> byte_offset l \<in> source_breakpoints d
             \<and> byte_offset l \<noteq> last_breakpoint_offset d
          then (Some PR_Breakpoint, d\<lparr>last_breakpoint_offset := byte_offset l\<rparr>)
          else (None, d))"

text \<open>Moving to another source location lifts the suppression.\<close>

definition clear_suppression :: "nat \<Rightarrow> debug_state \<Rightarrow> debug_state" where
  "clear_suppression cur d =
     (if cur > 0 \<and> cur \<noteq> last_breakpoint_offset d then d\<lparr>last_breakpoint_offset := 0\<rparr> else d)"

definition should_pause ::
  "u16 \<Rightarrow> nat \<Rightarrow> nat \<Rightarrow> source_location list \<Rightarrow> debug_state
     \<Rightarrow> pause_reason option \<times> debug_state" where
  "should_pause fi pc depth sm d0 =
     (let cur = source_at sm pc;
          d = clear_suppression cur d0
      in case ds_mode d of
           Paused \<Rightarrow> (Some PR_PauseRequest, d)
         | StepIn \<Rightarrow>
             (if cur > 0 \<and> cur \<noteq> step_start_source_offset d then (Some PR_Step, d)
              else (None, d))
         | StepOver \<Rightarrow>
             (if depth \<le> step_start_depth d \<and> cur > 0 \<and> cur \<noteq> step_start_source_offset d
              then (Some PR_Step, d)
              else check_breakpoint fi pc sm d)
         | StepOut \<Rightarrow>
             (if depth < step_start_depth d then (Some PR_Step, d)
              else check_breakpoint fi pc sm d)
         | Continue \<Rightarrow> check_breakpoint fi pc sm d)"

definition debug_pause :: "debug_state \<Rightarrow> debug_state" where
  "debug_pause d = d\<lparr>ds_mode := Paused, ds_paused := True, ds_reason := PR_PauseRequest\<rparr>"

definition debug_resume :: "step_mode \<Rightarrow> nat \<Rightarrow> debug_state \<Rightarrow> debug_state" where
  "debug_resume mode depth d =
     d\<lparr>ds_mode := mode, step_start_depth := depth, ds_paused := False, ds_reason := PR_None\<rparr>"

definition resume_with_source :: "step_mode \<Rightarrow> nat \<Rightarrow> nat \<Rightarrow> debug_state \<Rightarrow> debug_state" where
  "resume_with_source mode depth off d =
     d\<lparr>ds_mode := mode, step_start_depth := depth, step_start_source_offset := off,
       ds_paused := False, ds_reason := PR_None\<rparr>"

definition mark_paused :: "pause_reason \<Rightarrow> debug_state \<Rightarrow> debug_state" where
  "mark_paused r d = d\<lparr>ds_paused := True, ds_reason := r, ds_mode := Paused\<rparr>"

subsection \<open>Lines\<close>

text \<open>The byte offset at which each line starts.\<close>

fun newline_offsets :: "nat \<Rightarrow> string \<Rightarrow> nat list" where
  "newline_offsets i [] = []"
| "newline_offsets i (c # s) =
     (if byte c = 10 then (i + 1) # newline_offsets (i + 1) s else newline_offsets (i + 1) s)"

definition compute_line_offsets :: "string \<Rightarrow> nat list" where
  "compute_line_offsets source = 0 # newline_offsets 0 source"

text \<open>
  The breakpoint for one line: the first source-map entry of a function of this file
  whose offset is positive and lies on the line. \<open>names\<close> are the functions that
  \<open>extract_function_names\<close> finds in the file's text.
\<close>

definition line_breakpoint ::
  "ir_module \<Rightarrow> string list \<Rightarrow> nat list \<Rightarrow> nat \<Rightarrow> nat \<Rightarrow> nat \<Rightarrow> nat option" where
  "line_breakpoint m names offsets source_len source_offset line =
     (let idx = line - 1
      in case vec_at offsets idx of
           None \<Rightarrow> None
         | Some ls \<Rightarrow>
             let le = (case vec_at offsets (idx + 1) of None \<Rightarrow> source_len | Some e \<Rightarrow> e);
                 vs = ls + source_offset; ve = le + source_offset;
                 belongs = (\<lambda>f. list_ex (\<lambda>n. eq_ignore_ascii_case n (fn_name f)) names);
                 hits = (\<lambda>l. byte_offset l \<ge> vs \<and> byte_offset l < ve \<and> byte_offset l > 0)
             in case find (\<lambda>f. belongs f \<and> list_ex hits (fn_source_map f)) (md_functions m) of
                  None \<Rightarrow> None
                | Some f \<Rightarrow> map_option byte_offset (find hits (fn_source_map f)))"

fun set_line_breakpoints ::
  "ir_module \<Rightarrow> string list \<Rightarrow> string \<Rightarrow> nat list \<Rightarrow> nat \<Rightarrow> debug_state
     \<Rightarrow> nat option list \<times> debug_state" where
  "set_line_breakpoints m names source [] off d = ([], d)"
| "set_line_breakpoints m names source (line # lines) off d =
     (let r = line_breakpoint m names (compute_line_offsets source) (length source) off line;
          d' = (case r of None \<Rightarrow> d | Some b \<Rightarrow> set_source_breakpoint b d);
          (rs, d'') = set_line_breakpoints m names source lines off d'
      in (r # rs, d''))"

subsection \<open>Display\<close>

text \<open>
  \<open>fmt6\<close> renders a REAL with six decimals (Rust's \<open>{:.6}\<close>). Time is split with Rust's
  truncating division, all of whose operands are non-negative here.
\<close>

definition time_text :: "i64 \<Rightarrow> string" where
  "time_text w =
     (let ms = sint w
      in if ms \<ge> 60000 then
           (let m = tdiv ms 60000; s = tdiv (trem ms 60000) 1000; r = trem ms 1000
            in if r > 0 then ''T#'' @ show_int m @ ''m'' @ show_int s @ ''s'' @ show_int r @ ''ms''
               else if s > 0 then ''T#'' @ show_int m @ ''m'' @ show_int s @ ''s''
               else ''T#'' @ show_int m @ ''m'')
         else if ms \<ge> 1000 then
           (let s = tdiv ms 1000; r = trem ms 1000
            in if r > 0 then ''T#'' @ show_int s @ ''s'' @ show_int r @ ''ms''
               else ''T#'' @ show_int s @ ''s'')
         else ''T#'' @ show_int ms @ ''ms'')"

fun format_value :: "(f64 \<Rightarrow> string) \<Rightarrow> val \<Rightarrow> string" where
  "format_value fmt6 (V_Bool b) = (if b then ''TRUE'' else ''FALSE'')"
| "format_value fmt6 (V_Int i) = show_int (sint i)"
| "format_value fmt6 (V_UInt u) = show_nat (unat u)"
| "format_value fmt6 (V_Real r) = fmt6 r"
| "format_value fmt6 (V_String s) = [CHR 0x27] @ s @ [CHR 0x27]"
| "format_value fmt6 (V_Time ms) = time_text ms"
| "format_value fmt6 (V_Ref scope slot) =
     ''REF('' @ show_nat (unat scope) @ '':'' @ show_nat (unat slot) @ '')''"
| "format_value fmt6 V_Null = ''NULL''"
| "format_value fmt6 V_Void = ''VOID''"

fun format_var_type :: "var_type \<Rightarrow> string" where
  "format_var_type T_Bool = ''BOOL''"
| "format_var_type T_Int = ''INT''"
| "format_var_type T_UInt = ''UINT''"
| "format_var_type T_Real = ''REAL''"
| "format_var_type T_String = ''STRING''"
| "format_var_type T_Time = ''TIME''"
| "format_var_type (T_FbInstance _) = ''FB_INSTANCE''"
| "format_var_type (T_ClassInstance _) = ''CLASS_INSTANCE''"
| "format_var_type (T_Struct _) = ''STRUCT''"
| "format_var_type (T_Array _) = ''ARRAY''"
| "format_var_type T_Ref = ''REF_TO''"

definition format_var_type_with_width :: "var_type \<Rightarrow> int_width \<Rightarrow> string" where
  "format_var_type_with_width ty w =
     (case width_display_name w of Some n \<Rightarrow> n | None \<Rightarrow> format_var_type ty)"

fun join_with :: "string \<Rightarrow> string list \<Rightarrow> string" where
  "join_with sep [] = []"
| "join_with sep [s] = s"
| "join_with sep (s # t # ss) = s @ sep @ join_with sep (t # ss)"

definition format_var_type_full :: "var_type \<Rightarrow> int_width \<Rightarrow> type_def list \<Rightarrow> string" where
  "format_var_type_full ty w tds =
     (case ty of
        T_Array td \<Rightarrow>
          (case vec_at tds (unat td) of
             Some (TD_Array el dims) \<Rightarrow>
               ''ARRAY['' @ join_with '', ''
                   (map (\<lambda>(lo, hi). show_int (sint lo) @ ''..'' @ show_int (sint hi)) dims)
                 @ ''] OF '' @ format_var_type el
           | _ \<Rightarrow> format_var_type_with_width ty w)
      | _ \<Rightarrow> format_var_type_with_width ty w)"

subsection \<open>What pausing does\<close>

named_theorems debug_defs \<open>definitions of the debugger's operations\<close>

lemmas [debug_defs] = debug_new_def set_source_breakpoint_def remove_source_breakpoint_def
  clear_breakpoints_def debug_pause_def debug_resume_def resume_with_source_def mark_paused_def

text \<open>Only \<open>last_breakpoint_offset\<close> is written by the check.\<close>

lemma check_breakpoint_frame:
  "check_breakpoint fi pc sm d = (r, d') \<Longrightarrow>
     d' = d\<lparr>last_breakpoint_offset := last_breakpoint_offset d'\<rparr>"
  by (auto simp: check_breakpoint_def split: if_splits option.splits)

lemma check_breakpoint_SomeD:
  assumes "check_breakpoint fi pc sm d = (Some r, d')"
  shows "breakpoints d' = breakpoints d \<and>
    ((fi, pc) \<in> breakpoints d \<or> last_breakpoint_offset d' = source_at sm pc)"
proof (cases "(fi, pc) \<in> breakpoints d")
  case True
  with assms show ?thesis by (simp add: check_breakpoint_def)
next
  case False
  with assms obtain l where l: "vec_at sm pc = Some l" "d' = d\<lparr>last_breakpoint_offset := byte_offset l\<rparr>"
    unfolding check_breakpoint_def by (cases "vec_at sm pc") (auto split: if_split_asm)
  then have "last_breakpoint_offset d' = source_at sm pc" "breakpoints d' = breakpoints d"
    by (simp_all add: source_at_def del: vec_at_Some_iff)
  then show ?thesis by simp
qed

lemma should_pause_frame:
  assumes "should_pause fi pc depth sm d = (r, d')"
  shows "d' = d\<lparr>last_breakpoint_offset := last_breakpoint_offset d'\<rparr>"
proof -
  let ?d = "clear_suppression (source_at sm pc) d"
  have "d' = ?d \<or> check_breakpoint fi pc sm ?d = (r, d')"
    using assms unfolding should_pause_def Let_def
    by (auto split: step_mode.splits if_split_asm)
  moreover have "?d = d\<lparr>last_breakpoint_offset := last_breakpoint_offset ?d\<rparr>"
    by (simp add: clear_suppression_def)
  ultimately show ?thesis
    by (metis (no_types, lifting) check_breakpoint_frame debug_state.surjective
        debug_state.update_convs(6))
qed

definition no_breakpoints :: "debug_state \<Rightarrow> bool" where
  "no_breakpoints d \<longleftrightarrow> breakpoints d = {} \<and> source_breakpoints d = {}"

definition running_free :: "debug_state \<Rightarrow> bool" where
  "running_free d \<longleftrightarrow> ds_mode d = Continue \<and> no_breakpoints d"

lemma running_free_no_pause:
  "running_free d \<Longrightarrow> should_pause fi pc depth sm d = (r, d') \<Longrightarrow> r = None \<and> running_free d'"
  by (auto simp: running_free_def no_breakpoints_def should_pause_def check_breakpoint_def Let_def
      clear_suppression_def
      split: option.splits if_splits)

lemma running_free_new [simp]: "running_free debug_new"
  by (simp add: running_free_def no_breakpoints_def debug_new_def)

lemma clear_then_continue_free: "running_free (debug_resume Continue n (clear_breakpoints d))"
  by (simp add: running_free_def no_breakpoints_def debug_resume_def clear_breakpoints_def)

text \<open>
  A source breakpoint that has just been reported does not fire again on the same
  source offset after a resume.
\<close>

lemma resumed_breakpoint_suppressed:
  assumes hit: "should_pause fi pc depth sm d = (Some PR_Breakpoint, d1)"
    and src: "(fi, pc) \<notin> breakpoints d"
    and same: "source_at sm pc' = source_at sm pc" "(fi, pc') \<notin> breakpoints d"
  shows "fst (should_pause fi pc' depth' sm (debug_resume Continue n (mark_paused r d1))) = None"
proof -
  let ?d = "clear_suppression (source_at sm pc) d"
  have chk: "check_breakpoint fi pc sm ?d = (Some PR_Breakpoint, d1)"
    using hit unfolding should_pause_def Let_def
    by (auto split: step_mode.splits if_split_asm)
  have "breakpoints ?d = breakpoints d" by (simp add: clear_suppression_def)
  then have d1: "last_breakpoint_offset d1 = source_at sm pc" "breakpoints d1 = breakpoints d"
    using check_breakpoint_SomeD [OF chk] src by simp_all
  let ?e = "debug_resume Continue n (mark_paused r d1)"
  have e: "ds_mode ?e = Continue" "breakpoints ?e = breakpoints d"
    "last_breakpoint_offset ?e = source_at sm pc'"
    using d1 same by (simp_all add: debug_defs)
  then have "clear_suppression (source_at sm pc') ?e = ?e" by (simp add: clear_suppression_def)
  then have "should_pause fi pc' depth' sm ?e = check_breakpoint fi pc' sm ?e"
    using e(1) by (simp add: should_pause_def)
  also have "fst \<dots> = None"
    using e(2,3) same(2) by (simp add: check_breakpoint_def source_at_def split: option.splits)
  finally show ?thesis .
qed

text \<open>Stepping over does not stop inside a callee without a breakpoint.\<close>

lemma step_over_skips_callee:
  assumes "ds_mode d = StepOver" "step_start_depth d < depth" "no_breakpoints d"
  shows "fst (should_pause fi pc depth sm d) = None"
  using assms by (auto simp: should_pause_def check_breakpoint_def no_breakpoints_def Let_def
      clear_suppression_def split: option.splits)

subsection \<open>Line offsets\<close>

lemma newline_offsets_props:
  "o' \<in> set (newline_offsets i s) \<Longrightarrow> i < o' \<and> o' \<le> i + length s \<and> byte (s ! (o' - i - 1)) = 10"
proof (induction s arbitrary: i)
  case Nil
  then show ?case by simp
next
  case (Cons c s)
  show ?case
  proof (cases "o' \<in> set (newline_offsets (i + 1) s)")
    case True
    then have "i + 1 < o'" "o' \<le> i + 1 + length s" "byte (s ! (o' - (i + 1) - 1)) = 10"
      using Cons.IH [OF True] by auto
    moreover from this(1) have "o' - i - 1 = Suc (o' - (i + 1) - 1)" by linarith
    ultimately show ?thesis by simp
  next
    case False
    with Cons.prems show ?thesis by (auto split: if_splits)
  qed
qed

lemma newline_offsets_sorted: "sorted_wrt (<) (newline_offsets i s)"
  by (induction s arbitrary: i) (auto dest: newline_offsets_props)

lemma compute_line_offsets_sorted: "sorted_wrt (<) (compute_line_offsets s)"
  using newline_offsets_sorted newline_offsets_props by (auto simp: compute_line_offsets_def)

lemma line_breakpoint_in_line:
  assumes "line_breakpoint m names offs slen soff line = Some b"
  shows "\<exists>ls. vec_at offs (line - 1) = Some ls \<and> ls + soff \<le> b \<and> 0 < b \<and>
    b < (case vec_at offs (line - 1 + 1) of None \<Rightarrow> slen | Some e \<Rightarrow> e) + soff"
  using assms
  by (auto simp: line_breakpoint_def Let_def find_Some_iff split: option.splits)

end
