(* ===== verification/Vm_State.thy ===== *)
theory Vm_State
  imports Debug "HOL-Library.AList"
begin

section \<open>The virtual machine's state: crates/st-engine/src/vm.rs\<close>

text \<open>
  The VM record and everything around the fetch-execute loop: construction, global
  variables, forcing, retained locals, the identity of a caller and the module swap.
  A \<open>HashMap\<close> is an association list (its order is never relied on), a \<open>HashSet\<close> a set.
  The call stack is a list with the running frame first; the source's \<open>Vec\<close> has it last.

  \<open>rt_env\<close> is what the compiled program gets from outside: whether the build traps
  arithmetic overflow, the registry of native function blocks, the platform's
  transcendental functions and the formatting and parsing of floating-point text.
\<close>

type_synonym ('k, 'v) hashmap = "('k \<times> 'v) list"

abbreviation hm_get :: "('k, 'v) hashmap \<Rightarrow> 'k \<Rightarrow> 'v option" where
  "hm_get m k \<equiv> map_of m k"

abbreviation hm_insert :: "'k \<Rightarrow> 'v \<Rightarrow> ('k, 'v) hashmap \<Rightarrow> ('k, 'v) hashmap" where
  "hm_insert k v m \<equiv> AList.update k v m"

abbreviation hm_remove :: "'k \<Rightarrow> ('k, 'v) hashmap \<Rightarrow> ('k, 'v) hashmap" where
  "hm_remove k m \<equiv> AList.delete k m"

lemma hm_get_insert: "hm_get (hm_insert k v m) k' = (if k' = k then Some v else hm_get m k')"
  by (simp add: update_conv')

lemma hm_get_remove: "hm_get (hm_remove k m) k' = (if k' = k then None else hm_get m k')"
  by (simp add: delete_conv')

lemma set_hm_insert: "set (hm_insert k v m) \<subseteq> insert (k, v) (set m)"
  by (induction m) auto

lemma set_hm_remove: "set (hm_remove k m) \<subseteq> set m"
  by (auto simp: AList.delete_eq)

datatype math_fn =
  M_Sqrt | M_Sin | M_Cos | M_Tan | M_Asin | M_Acos | M_Atan | M_Ln | M_Log10 | M_Exp

record rt_env =
  env_checks :: bool
  env_native :: "string \<Rightarrow> (val list \<Rightarrow> val list) option"
  env_math :: "math_fn \<Rightarrow> f64 \<Rightarrow> f64"
  env_powf :: "f64 \<Rightarrow> f64 \<Rightarrow> f64"
  env_fmt_debug :: "f64 \<Rightarrow> string"
  env_parse_f64 :: "string \<Rightarrow> f64 option"

datatype vm_error =
    DivisionByZero | StackOverflow nat | InvalidFunction u16 | InvalidLabel u32
  | ExecutionLimit nat | Halt

record vm_config =
  max_call_depth :: nat
  max_instructions :: nat

definition default_vm_config :: vm_config where
  "default_vm_config = \<lparr>max_call_depth = 256, max_instructions = 10000000\<rparr>"

record frame =
  fr_func :: u16
  fr_regs :: "val list"
  fr_locals :: "val list"
  fr_pc :: nat
  fr_return_reg :: "reg option"
  fr_instance :: "u16 option"

type_synonym fb_key = "u32 \<times> u16"

record vm =
  vm_conf :: vm_config
  vm_module :: ir_module
  vm_globals :: "val list"
  vm_stack :: "frame list"
  vm_count :: nat
  vm_debug :: debug_state
  vm_retained :: "(u16, val list) hashmap"
  vm_forced :: "(string, val) hashmap"
  vm_forced_slots :: "u16 set"
  vm_elapsed :: i64
  vm_fb :: "(fb_key, val list) hashmap"

abbreviation vm_functions :: "vm \<Rightarrow> func list" where
  "vm_functions vm \<equiv> md_functions (vm_module vm)"

abbreviation global_slots :: "vm \<Rightarrow> var_slot list" where
  "global_slots vm \<equiv> slots (md_globals (vm_module vm))"

definition vm_new :: "ir_module \<Rightarrow> vm_config \<Rightarrow> vm" where
  "vm_new m c =
     \<lparr>vm_conf = c, vm_module = m, vm_globals = default_locals (md_globals m), vm_stack = [],
      vm_count = 0, vm_debug = debug_new, vm_retained = [], vm_forced = [],
      vm_forced_slots = {}, vm_elapsed = 0, vm_fb = []\<rparr>"

subsection \<open>Narrowing a stored value to the declared width\<close>

definition sext8 :: "i64 \<Rightarrow> i64" where
  "sext8 i = signed (unsigned i :: 8 word)"

definition sext16 :: "i64 \<Rightarrow> i64" where
  "sext16 i = signed (unsigned i :: 16 word)"

definition sext32 :: "i64 \<Rightarrow> i64" where
  "sext32 i = signed (unsigned i :: 32 word)"

definition zext8 :: "i64 \<Rightarrow> u64" where
  "zext8 i = unsigned (unsigned i :: 8 word)"

definition zext16 :: "i64 \<Rightarrow> u64" where
  "zext16 i = unsigned (unsigned i :: 16 word)"

definition zext32 :: "i64 \<Rightarrow> u64" where
  "zext32 i = unsigned (unsigned i :: 32 word)"

fun narrow_value :: "val \<Rightarrow> int_width \<Rightarrow> val" where
  "narrow_value v W_None = v"
| "narrow_value (V_Int i) I64 = V_Int i"
| "narrow_value (V_UInt u) I64 = V_Int u"
| "narrow_value (V_UInt u) U64 = V_UInt u"
| "narrow_value (V_Int i) U64 = V_UInt i"
| "narrow_value (V_Int i) I8 = V_Int (sext8 i)"
| "narrow_value (V_UInt u) I8 = V_Int (sext8 u)"
| "narrow_value (V_Int i) U8 = V_UInt (zext8 i)"
| "narrow_value (V_UInt u) U8 = V_UInt (zext8 u)"
| "narrow_value (V_Int i) I16 = V_Int (sext16 i)"
| "narrow_value (V_UInt u) I16 = V_Int (sext16 u)"
| "narrow_value (V_Int i) U16 = V_UInt (zext16 i)"
| "narrow_value (V_UInt u) U16 = V_UInt (zext16 u)"
| "narrow_value (V_Int i) I32 = V_Int (sext32 i)"
| "narrow_value (V_UInt u) I32 = V_Int (sext32 u)"
| "narrow_value (V_Int i) U32 = V_UInt (zext32 i)"
| "narrow_value (V_UInt u) U32 = V_UInt (zext32 u)"
| "narrow_value v _ = v"

definition slot_width :: "memory_layout \<Rightarrow> nat \<Rightarrow> int_width" where
  "slot_width l i = (case vec_at (slots l) i of None \<Rightarrow> W_None | Some s \<Rightarrow> vs_width s)"

subsection \<open>Global variables\<close>

definition get_global :: "string \<Rightarrow> vm \<Rightarrow> val chk option" where
  "get_global name vm =
     map_option (\<lambda>(i, _). vec_get (vm_globals vm) (unat i)) (find_slot (md_globals (vm_module vm)) name)"

definition set_global :: "string \<Rightarrow> val \<Rightarrow> vm \<Rightarrow> vm chk" where
  "set_global name v vm =
     (case find_slot (md_globals (vm_module vm)) name of
        None \<Rightarrow> Res vm
      | Some (i, s) \<Rightarrow>
          if i \<in> vm_forced_slots vm then Res vm
          else chk_bind (vec_set (vm_globals vm) (unat i) (narrow_value v (vs_width s)))
                 (\<lambda>gs. Res (vm\<lparr>vm_globals := gs\<rparr>)))"

definition set_global_by_slot :: "u16 \<Rightarrow> val \<Rightarrow> vm \<Rightarrow> vm" where
  "set_global_by_slot slot v vm =
     (if unat slot \<ge> length (vm_globals vm) then vm
      else if slot \<in> vm_forced_slots vm then vm
      else vm\<lparr>vm_globals := (vm_globals vm)[unat slot :=
             narrow_value v (slot_width (md_globals (vm_module vm)) (unat slot))]\<rparr>)"

definition get_global_by_slot :: "u16 \<Rightarrow> vm \<Rightarrow> val option" where
  "get_global_by_slot slot vm = vec_at (vm_globals vm) (unat slot)"

definition set_global_unchecked :: "u16 \<Rightarrow> val \<Rightarrow> vm \<Rightarrow> vm" where
  "set_global_unchecked slot v vm =
     (if unat slot < length (vm_globals vm)
      then vm\<lparr>vm_globals := (vm_globals vm)[unat slot := v]\<rparr> else vm)"

definition get_retained_locals :: "string \<Rightarrow> vm \<Rightarrow> val list option" where
  "get_retained_locals name vm =
     (case find_function (vm_module vm) name of
        None \<Rightarrow> None
      | Some (i, _) \<Rightarrow> hm_get (vm_retained vm) i)"

definition set_retained_locals :: "u16 \<Rightarrow> val list \<Rightarrow> vm \<Rightarrow> vm" where
  "set_retained_locals i ls vm = vm\<lparr>vm_retained := hm_insert i ls (vm_retained vm)\<rparr>"

definition set_fb_instance :: "fb_key \<Rightarrow> val list \<Rightarrow> vm \<Rightarrow> vm" where
  "set_fb_instance k st vm = vm\<lparr>vm_fb := hm_insert k st (vm_fb vm)\<rparr>"

subsection \<open>Caller identity\<close>

text \<open>\<open>(inst_id << 16) | func_id\<close>, with \<open>0xFFFF\<close> for a caller that is no instance.\<close>

definition caller_key :: "u16 option \<Rightarrow> u16 \<Rightarrow> u32" where
  "caller_key inst fi =
     or (push_bit 16 (unsigned (case inst of None \<Rightarrow> 0xFFFF | Some s \<Rightarrow> s) :: u32))
        (unsigned fi :: u32)"

definition frame_identity :: "frame \<Rightarrow> u32" where
  "frame_identity f = caller_key (fr_instance f) (fr_func f)"

definition caller_identity :: "vm \<Rightarrow> u32" where
  "caller_identity vm = (case vm_stack vm of [] \<Rightarrow> 0 | f # _ \<Rightarrow> frame_identity f)"

text \<open>\<open>call_stack.get(i)\<close>: position \<open>i\<close> counts from the bottom of the stack.\<close>

definition frame_at :: "vm \<Rightarrow> nat \<Rightarrow> frame option" where
  "frame_at vm i =
     (if i < length (vm_stack vm) then Some (vm_stack vm ! (length (vm_stack vm) - 1 - i)) else None)"

definition caller_identity_at :: "vm \<Rightarrow> nat \<Rightarrow> u32" where
  "caller_identity_at vm depth =
     (case frame_at vm depth of None \<Rightarrow> 0 | Some f \<Rightarrow> frame_identity f)"

text \<open>The identity of a PROGRAM frame, as force and retain compute it.\<close>

definition program_identity :: "nat \<Rightarrow> u32" where
  "program_identity func_idx = or (push_bit 16 0xFFFF) (of_nat func_idx)"

end
