(* ===== verification/Scope.thy ===== *)
theory Scope
  imports Sem_Types Vm_State
begin

section \<open>Scopes and diagnostics: crates/st-semantics/src/scope.rs and diagnostic.rs\<close>

text \<open>
  The symbol table: a list of scopes, each with the number of its parent, and in each a map from
  names in upper case to symbols. A lookup walks from a scope to the global one. It does not
  return (\<open>None\<close>) if it panics on a number that is no scope, or if the walk never ends; in a
  table built by the operations of this theory neither happens. Names are ASCII identifiers, for
  which \<open>to_uppercase\<close> is \<open>to_upper\<close>.
\<close>

subsection \<open>Diagnostics\<close>

datatype severity = Sev_Error | Sev_Warning | Sev_Info

datatype diagnostic_code =
    UndeclaredVariable | UndeclaredPou | UndeclaredType | DuplicateDeclaration
  | TypeMismatch | TypeMismatchAssignment | TypeMismatchCondition | TypeMismatchReturn
  | TypeMismatchCaseExpr | InvalidOperandType | IncompatibleBinaryOp | IncompatibleUnaryOp
  | ArrayIndexTypeMismatch | ArrayDimensionMismatch | IndexOnNonArray
  | NoSuchField | FieldAccessOnNonStruct
  | InvalidEnumVariant
  | NotCallable | MissingRequiredParam | UnknownParam | DuplicateParam | TooManyPositionalArgs
  | ParamTypeMismatch
  | ExitOutsideLoop | ForVariableNotInteger | CaseSelectorTypeMismatch
  | AssignmentToConstant | AssignmentToInput
  | AccessViolationPrivate | AccessViolationProtected | CannotInstantiateAbstractClass
  | CannotExtendFinalClass | CannotOverrideFinalMethod | InterfaceNotImplemented
  | MethodSignatureMismatch | InvalidOverride | AbstractMethodInNonAbstractClass
  | InvalidThisContext | InvalidSuperContext | CircularInheritance | DuplicateInterfaceImpl
  | UnusedVariable | UnusedParameter | VariableNeverAssigned | ShadowedVariable | DeadCode

record diagnostic =
  di_severity :: severity
  di_code :: diagnostic_code
  di_message :: string
  di_range :: text_range

definition diagnostic_error :: "diagnostic_code \<Rightarrow> string \<Rightarrow> text_range \<Rightarrow> diagnostic" where
  "diagnostic_error c m r = \<lparr>di_severity = Sev_Error, di_code = c, di_message = m, di_range = r\<rparr>"

definition diagnostic_warning :: "diagnostic_code \<Rightarrow> string \<Rightarrow> text_range \<Rightarrow> diagnostic" where
  "diagnostic_warning c m r = \<lparr>di_severity = Sev_Warning, di_code = c, di_message = m, di_range = r\<rparr>"

definition diagnostic_info :: "diagnostic_code \<Rightarrow> string \<Rightarrow> text_range \<Rightarrow> diagnostic" where
  "diagnostic_info c m r = \<lparr>di_severity = Sev_Info, di_code = c, di_message = m, di_range = r\<rparr>"

subsection \<open>Symbols\<close>

record param_def =
  pm_name :: string
  pm_ty :: ty
  pm_kind :: var_kind

datatype access_level = Lv_Public | Lv_Private | Lv_Protected | Lv_Internal

record method_def =
  md_method :: string
  md_return_type :: ty
  md_params :: "param_def list"
  md_access :: access_level
  md_is_abstract :: bool
  md_is_final :: bool
  md_is_override :: bool

record class_info =
  ci_params :: "param_def list"
  ci_outputs :: "param_def list"
  ci_vars :: "param_def list"
  ci_methods :: "method_def list"
  ci_base_class :: "string option"
  ci_interfaces :: "string list"
  ci_is_abstract :: bool
  ci_is_final :: bool

datatype symbol_kind =
    K_Variable var_kind
  | K_Function ty "param_def list"
  | K_FunctionBlock "param_def list" "param_def list"
  | K_Program "param_def list"
  | K_Class class_info
  | K_Interface "method_def list" "string list"
  | K_Type

record symbol =
  sy_name :: string
  sy_ty :: ty
  sy_kind :: symbol_kind
  sy_range :: text_range
  sy_used :: bool
  sy_assigned :: bool

subsection \<open>One scope\<close>

type_synonym scope_id = nat

record scope =
  sc_id :: scope_id
  sc_parent :: "scope_id option"
  sc_name :: string
  sc_symbols :: "(string, symbol) hashmap"

definition scope_new :: "scope_id \<Rightarrow> scope_id option \<Rightarrow> string \<Rightarrow> scope" where
  "scope_new i p name = \<lparr>sc_id = i, sc_parent = p, sc_name = name, sc_symbols = []\<rparr>"

definition lookup_local :: "scope \<Rightarrow> string \<Rightarrow> symbol option" where
  "lookup_local sc name = hm_get (sc_symbols sc) (to_upper name)"

text \<open>\<open>define\<close> returns the symbol that had the name before.\<close>

definition scope_define :: "symbol \<Rightarrow> scope \<Rightarrow> symbol option \<times> scope" where
  "scope_define sy sc =
     (let key = to_upper (sy_name sy) in
      (hm_get (sc_symbols sc) key, sc\<lparr>sc_symbols := hm_insert key sy (sc_symbols sc)\<rparr>))"

text \<open>A change of a symbol through \<open>lookup_local_mut\<close>.\<close>

definition change_local :: "(symbol \<Rightarrow> symbol) \<Rightarrow> string \<Rightarrow> scope \<Rightarrow> scope" where
  "change_local f name sc =
     (case lookup_local sc name of
        None \<Rightarrow> sc
      | Some sy \<Rightarrow> sc\<lparr>sc_symbols := hm_insert (to_upper name) (f sy) (sc_symbols sc)\<rparr>)"

subsection \<open>The symbol table\<close>

type_synonym symbol_table = "scope list"

definition symbol_table_new :: symbol_table where
  "symbol_table_new = [scope_new 0 None ''global'']"

definition global_scope_id :: scope_id where
  "global_scope_id = 0"

definition create_scope :: "scope_id \<Rightarrow> string \<Rightarrow> symbol_table \<Rightarrow> scope_id \<times> symbol_table" where
  "create_scope parent name st = (length st, st @ [scope_new (length st) (Some parent) name])"

definition table_define :: "scope_id \<Rightarrow> symbol \<Rightarrow> symbol_table \<Rightarrow> (symbol option \<times> symbol_table) option" where
  "table_define i sy st =
     (case vec_at st i of
        None \<Rightarrow> None
      | Some sc \<Rightarrow> (let (prev, sc') = scope_define sy sc in Some (prev, st[i := sc'])))"

partial_function (option) resolve ::
  "symbol_table \<Rightarrow> scope_id \<Rightarrow> string \<Rightarrow> (scope_id \<times> symbol) option option" where
  "resolve st i name =
     (case vec_at st i of
        None \<Rightarrow> None
      | Some sc \<Rightarrow>
          (case lookup_local sc name of
             Some sy \<Rightarrow> Some (Some (i, sy))
           | None \<Rightarrow> (case sc_parent sc of None \<Rightarrow> Some None | Some p \<Rightarrow> resolve st p name)))"

partial_function (option) change_symbol ::
  "(symbol \<Rightarrow> symbol) \<Rightarrow> scope_id \<Rightarrow> string \<Rightarrow> symbol_table \<Rightarrow> symbol_table option" where
  "change_symbol f i name st =
     (case vec_at st i of
        None \<Rightarrow> None
      | Some sc \<Rightarrow>
          (case lookup_local sc name of
             Some sy \<Rightarrow> Some (st[i := change_local f name sc])
           | None \<Rightarrow> (case sc_parent sc of None \<Rightarrow> Some st | Some p \<Rightarrow> change_symbol f p name st)))"

definition mark_used :: "scope_id \<Rightarrow> string \<Rightarrow> symbol_table \<Rightarrow> symbol_table option" where
  "mark_used = change_symbol (\<lambda>s. s\<lparr>sy_used := True\<rparr>)"

definition mark_assigned :: "scope_id \<Rightarrow> string \<Rightarrow> symbol_table \<Rightarrow> symbol_table option" where
  "mark_assigned = change_symbol (\<lambda>s. s\<lparr>sy_assigned := True\<rparr>)"

text \<open>
  Lookups in the global scope, which is the first one and always there. \<open>of_kind\<close> keeps the
  symbols of a kind.
\<close>

definition global_lookup :: "symbol_table \<Rightarrow> string \<Rightarrow> symbol option" where
  "global_lookup st name = (case st of [] \<Rightarrow> None | sc # _ \<Rightarrow> lookup_local sc name)"

definition of_kind :: "(symbol_kind \<Rightarrow> bool) \<Rightarrow> symbol option \<Rightarrow> symbol option" where
  "of_kind P s = (case s of None \<Rightarrow> None | Some sy \<Rightarrow> if P (sy_kind sy) then Some sy else None)"

fun is_pou_kind :: "symbol_kind \<Rightarrow> bool" where
  "is_pou_kind (K_Function _ _) = True"
| "is_pou_kind (K_FunctionBlock _ _) = True"
| "is_pou_kind (K_Class _) = True"
| "is_pou_kind (K_Program _) = True"
| "is_pou_kind _ = False"

fun is_class_kind :: "symbol_kind \<Rightarrow> bool" where
  "is_class_kind (K_Class _) = True"
| "is_class_kind _ = False"

fun is_interface_kind :: "symbol_kind \<Rightarrow> bool" where
  "is_interface_kind (K_Interface _ _) = True"
| "is_interface_kind _ = False"

definition resolve_type :: "symbol_table \<Rightarrow> string \<Rightarrow> symbol option" where
  "resolve_type st name = of_kind (\<lambda>k. k = K_Type) (global_lookup st name)"

definition resolve_pou :: "symbol_table \<Rightarrow> string \<Rightarrow> symbol option" where
  "resolve_pou st name = of_kind is_pou_kind (global_lookup st name)"

definition resolve_class :: "symbol_table \<Rightarrow> string \<Rightarrow> symbol option" where
  "resolve_class st name = of_kind is_class_kind (global_lookup st name)"

definition resolve_interface :: "symbol_table \<Rightarrow> string \<Rightarrow> symbol option" where
  "resolve_interface st name = of_kind is_interface_kind (global_lookup st name)"

definition struct_fields :: "symbol_table \<Rightarrow> string \<Rightarrow> field_def list option" where
  "struct_fields st name =
     (case resolve_type st name of
        None \<Rightarrow> None
      | Some sy \<Rightarrow> (case sy_ty sy of Ty_Struct _ fs \<Rightarrow> Some fs | _ \<Rightarrow> None))"

definition enum_variants :: "symbol_table \<Rightarrow> string \<Rightarrow> string list option" where
  "enum_variants st name =
     (case resolve_type st name of
        None \<Rightarrow> None
      | Some sy \<Rightarrow> (case sy_ty sy of Ty_Enum _ vs \<Rightarrow> Some vs | _ \<Rightarrow> None))"

subsection \<open>Well-formed tables\<close>

text \<open>
  Scopes are numbered by position and parents come before their children; the global scope is
  the only one without a parent.
\<close>

definition table_ok :: "symbol_table \<Rightarrow> bool" where
  "table_ok st \<longleftrightarrow> st \<noteq> [] \<and>
     (\<forall>i < length st. sc_id (st ! i) = i \<and>
        (case sc_parent (st ! i) of None \<Rightarrow> i = 0 | Some p \<Rightarrow> p < i))"

lemma table_okD:
  "table_ok st \<Longrightarrow> i < length st \<Longrightarrow> sc_id (st ! i) = i"
  "table_ok st \<Longrightarrow> i < length st \<Longrightarrow> sc_parent (st ! i) = Some p \<Longrightarrow> p < i"
  "table_ok st \<Longrightarrow> i < length st \<Longrightarrow> sc_parent (st ! i) = None \<Longrightarrow> i = 0"
  by (auto simp: table_ok_def split: option.splits)

lemma table_ok_new [simp]: "table_ok symbol_table_new"
  by (simp add: table_ok_def symbol_table_new_def scope_new_def)

lemma table_ok_create:
  assumes "table_ok st" "p < length st"
  shows "table_ok (snd (create_scope p name st))"
  using assms by (auto simp: table_ok_def create_scope_def scope_new_def nth_append less_Suc_eq)

lemma table_ok_update:
  "table_ok st \<Longrightarrow> i < length st \<Longrightarrow> sc_id sc = sc_id (st ! i) \<Longrightarrow> sc_parent sc = sc_parent (st ! i) \<Longrightarrow>
     table_ok (st[i := sc])"
  by (auto simp: table_ok_def nth_list_update)

subsection \<open>Lookups return, and find the innermost declaration\<close>

text \<open>The scopes a lookup visits, by the structure of the table.\<close>

inductive encloses :: "symbol_table \<Rightarrow> scope_id \<Rightarrow> scope_id \<Rightarrow> bool" for st where
  itself: "encloses st i i"
| outer: "i < length st \<Longrightarrow> sc_parent (st ! i) = Some p \<Longrightarrow> encloses st j p \<Longrightarrow> encloses st j i"

text \<open>\<open>j\<close> is the first scope on the way out from \<open>i\<close> that declares the name, \<open>None\<close> if there is none.\<close>

inductive declares :: "symbol_table \<Rightarrow> string \<Rightarrow> scope_id \<Rightarrow> (scope_id \<times> symbol) option \<Rightarrow> bool"
  for st :: symbol_table and name :: string where
  here: "i < length st \<Longrightarrow> lookup_local (st ! i) name = Some sy \<Longrightarrow> declares st name i (Some (i, sy))"
| nowhere: "i < length st \<Longrightarrow> lookup_local (st ! i) name = None \<Longrightarrow> sc_parent (st ! i) = None \<Longrightarrow>
    declares st name i None"
| further: "i < length st \<Longrightarrow> lookup_local (st ! i) name = None \<Longrightarrow> sc_parent (st ! i) = Some p \<Longrightarrow>
    declares st name p res \<Longrightarrow> declares st name i res"

inductive_cases enclosesE: "encloses st j i"

lemma resolve_unfold:
  "i < length st \<Longrightarrow> resolve st i name =
     (case lookup_local (st ! i) name of
        Some sy \<Rightarrow> Some (Some (i, sy))
      | None \<Rightarrow> (case sc_parent (st ! i) of None \<Rightarrow> Some None | Some p \<Rightarrow> resolve st p name))"
  by (subst resolve.simps) (simp add: vec_at_def)

lemma change_symbol_unfold:
  "i < length st \<Longrightarrow> change_symbol f i name st =
     (case lookup_local (st ! i) name of
        Some sy \<Rightarrow> Some (st[i := change_local f name (st ! i)])
      | None \<Rightarrow> (case sc_parent (st ! i) of None \<Rightarrow> Some st | Some p \<Rightarrow> change_symbol f p name st))"
  by (subst change_symbol.simps) (simp add: vec_at_def)

lemma declares_resolve: "declares st name i res \<Longrightarrow> resolve st i name = Some res"
  by (induction rule: declares.induct) (simp_all add: resolve_unfold)

lemma table_declares:
  assumes "table_ok st" "i < length st"
  shows "\<exists>res. declares st name i res"
  using assms(2)
proof (induction i rule: less_induct)
  case (less i)
  show ?case
  proof (cases "lookup_local (st ! i) name")
    case None
    show ?thesis
    proof (cases "sc_parent (st ! i)")
      case (Some p)
      then have "p < i" using table_okD(2) [OF assms(1) less.prems] by simp
      then obtain res where "declares st name p res" using less by force
      then show ?thesis using declares.further [OF less.prems None Some] by blast
    qed (use None less.prems in \<open>blast intro: declares.nowhere\<close>)
  qed (use less.prems in \<open>blast intro: declares.here\<close>)
qed

lemma encloses_le: "encloses st j i \<Longrightarrow> table_ok st \<Longrightarrow> j \<le> i"
  by (induction rule: encloses.induct) (auto dest: table_okD(2))

definition innermost :: "symbol_table \<Rightarrow> string \<Rightarrow> scope_id \<Rightarrow> (scope_id \<times> symbol) option \<Rightarrow> bool" where
  "innermost st name i res \<longleftrightarrow>
     (case res of
        None \<Rightarrow> \<forall>k. encloses st k i \<longrightarrow> lookup_local (st ! k) name = None
      | Some (j, sy) \<Rightarrow> encloses st j i \<and> lookup_local (st ! j) name = Some sy \<and>
          (\<forall>k. encloses st k i \<longrightarrow> j < k \<longrightarrow> lookup_local (st ! k) name = None))"

lemma declares_innermost: "declares st name i res \<Longrightarrow> table_ok st \<Longrightarrow> innermost st name i res"
proof (induction rule: declares.induct)
  case (here i sy)
  then show ?case by (auto simp: innermost_def intro: encloses.intros dest: encloses_le)
next
  case (nowhere i)
  then show ?case by (auto simp: innermost_def elim: enclosesE)
next
  case (further i p res)
  have "k = i \<or> encloses st k p" if "encloses st k i" for k
    using that further.hyps(3) by (auto elim: enclosesE)
  then show ?case using further by (fastforce simp: innermost_def intro: encloses.outer split: option.splits)
qed

text \<open>C6: In a well-formed symbol table every lookup returns, and it finds the declaration of the
  innermost enclosing scope that has one: no scope on the way from the place of use to that scope
  declares the name, and nothing is found only if no enclosing scope declares it.
\<close>

theorem resolve_innermost:
  assumes "table_ok st" "i < length st"
  shows "\<exists>res. resolve st i name = Some res \<and>
    (case res of
       None \<Rightarrow> \<forall>k. encloses st k i \<longrightarrow> lookup_local (st ! k) name = None
     | Some (j, sy) \<Rightarrow> encloses st j i \<and> lookup_local (st ! j) name = Some sy \<and>
         (\<forall>k. encloses st k i \<longrightarrow> j < k \<longrightarrow> lookup_local (st ! k) name = None))"
  using table_declares [OF assms, of name] declares_resolve declares_innermost [OF _ assms(1)]
  unfolding innermost_def by blast

lemma resolve_innermost_witness:
  "\<exists>j sy. resolve
     [scope_new 0 None ''global''
        \<lparr>sc_symbols := [(''X'', \<lparr>sy_name = ''x'', sy_ty = Ty_Elementary ET_Int, sy_kind = K_Variable VarGlobal,
           sy_range = \<lparr>tr_start = 0, tr_end = 1\<rparr>, sy_used = False, sy_assigned = False\<rparr>)]\<rparr>,
      scope_new 1 (Some 0) ''MAIN''] 1 ''x'' = Some (Some (j, sy)) \<and> sy_name sy = ''x''"
proof -
  let ?sy = "\<lparr>sy_name = ''x'', sy_ty = Ty_Elementary ET_Int, sy_kind = K_Variable VarGlobal,
     sy_range = \<lparr>tr_start = 0, tr_end = 1\<rparr>, sy_used = False, sy_assigned = False\<rparr>"
  let ?st = "[scope_new 0 None ''global''\<lparr>sc_symbols := [(''X'', ?sy)]\<rparr>, scope_new 1 (Some 0) ''MAIN'']"
  have ok: "table_ok ?st" by (auto simp: table_ok_def scope_new_def less_Suc_eq nth_Cons')
  have up: "to_upper ''x'' = ''X''" by code_simp
  have l: "lookup_local (?st ! 0) ''x'' = Some ?sy" "lookup_local (?st ! 1) ''x'' = None"
    by (simp_all add: lookup_local_def scope_new_def up)
  have e: "encloses ?st 0 1" by (auto simp: scope_new_def intro: encloses.intros)
  obtain res where res: "resolve ?st 1 ''x'' = Some res"
      "case res of None \<Rightarrow> \<forall>k. encloses ?st k 1 \<longrightarrow> lookup_local (?st ! k) ''x'' = None
       | Some (j, sy) \<Rightarrow> encloses ?st j 1 \<and> lookup_local (?st ! j) ''x'' = Some sy \<and>
           (\<forall>k. encloses ?st k 1 \<longrightarrow> j < k \<longrightarrow> lookup_local (?st ! k) ''x'' = None)"
    using resolve_innermost [OF ok, of 1 "''x''"] by auto
  show ?thesis
  proof (cases res)
    case None
    then show ?thesis using res(2) e l(1) by fastforce
  next
    case (Some p)
    then obtain j sy where p: "res = Some (j, sy)" by (cases p) simp
    with res(2) ok have "j \<le> 1" "lookup_local (?st ! j) ''x'' = Some sy" by (auto dest: encloses_le)
    then have "sy = ?sy" using l by (cases j) auto
    then show ?thesis using res(1) p by simp
  qed
qed

subsection \<open>What using a name changes\<close>

text \<open>
  Two tables agree when they differ in the usage flags of symbols only.
\<close>

definition sym_sig :: "symbol \<Rightarrow> string \<times> ty \<times> symbol_kind \<times> text_range" where
  "sym_sig s = (sy_name s, sy_ty s, sy_kind s, sy_range s)"

definition same_scope :: "scope \<Rightarrow> scope \<Rightarrow> bool" where
  "same_scope a b \<longleftrightarrow> sc_id a = sc_id b \<and> sc_parent a = sc_parent b \<and> sc_name a = sc_name b \<and>
     (\<forall>k. map_option sym_sig (hm_get (sc_symbols a) k) = map_option sym_sig (hm_get (sc_symbols b) k))"

definition same_table :: "symbol_table \<Rightarrow> symbol_table \<Rightarrow> bool" where
  "same_table = list_all2 same_scope"

lemma same_scope_refl [simp]: "same_scope a a"
  by (simp add: same_scope_def)

lemma same_table_refl [simp]: "same_table st st"
  by (simp add: same_table_def list_all2_refl)

lemma same_table_sym: "same_table a b \<Longrightarrow> same_table b a"
  by (auto simp: same_table_def list_all2_conv_all_nth same_scope_def)

lemma same_table_trans [trans]: "same_table a b \<Longrightarrow> same_table b c \<Longrightarrow> same_table a c"
  by (auto simp: same_table_def list_all2_conv_all_nth same_scope_def)

lemma same_table_length: "same_table a b \<Longrightarrow> length a = length b"
  by (simp add: same_table_def list_all2_lengthD)

lemma same_table_ok: "same_table a b \<Longrightarrow> table_ok a \<Longrightarrow> table_ok b"
  by (auto simp: table_ok_def same_table_def list_all2_conv_all_nth same_scope_def)

lemma same_table_lookup:
  "same_table a b \<Longrightarrow> i < length a \<Longrightarrow>
     map_option sym_sig (lookup_local (a ! i) name) = map_option sym_sig (lookup_local (b ! i) name)"
  by (simp add: same_table_def list_all2_conv_all_nth same_scope_def lookup_local_def)

lemma same_scope_change:
  "(\<And>s. sym_sig (f s) = sym_sig s) \<Longrightarrow> same_scope sc (change_local f name sc)"
  by (auto simp: same_scope_def change_local_def lookup_local_def hm_get_insert split: option.split)

lemma change_symbol_Some:
  assumes "table_ok st" "i < length st" "\<And>s. sym_sig (f s) = sym_sig s"
  shows "\<exists>st'. change_symbol f i name st = Some st' \<and> same_table st st'"
  using assms(2)
proof (induction i rule: less_induct)
  case (less i)
  show ?case
  proof (cases "lookup_local (st ! i) name")
    case None
    show ?thesis
    proof (cases "sc_parent (st ! i)")
      case None
      then show ?thesis using less.prems \<open>lookup_local _ _ = None\<close> by (simp add: change_symbol_unfold)
    next
      case (Some p)
      then have "p < i" using table_okD(2) [OF assms(1) less.prems] by simp
      then show ?thesis
        using less Some \<open>lookup_local _ _ = None\<close> by (simp add: change_symbol_unfold)
    qed
  next
    case (Some sy)
    have "same_table st (st[i := change_local f name (st ! i)])"
    proof -
      have "same_scope (st ! k) (st[i := change_local f name (st ! i)] ! k)" if "k < length st" for k
        using same_scope_change [OF assms(3)] that by (cases "k = i") simp_all
      then show ?thesis by (simp add: same_table_def list_all2_conv_all_nth)
    qed
    then show ?thesis using Some less.prems by (simp add: change_symbol_unfold)
  qed
qed

lemma mark_used_Some:
  "table_ok st \<Longrightarrow> i < length st \<Longrightarrow> \<exists>st'. mark_used i name st = Some st' \<and> same_table st st'"
  unfolding mark_used_def by (rule change_symbol_Some) (simp_all add: sym_sig_def)

lemma mark_assigned_Some:
  "table_ok st \<Longrightarrow> i < length st \<Longrightarrow> \<exists>st'. mark_assigned i name st = Some st' \<and> same_table st st'"
  unfolding mark_assigned_def by (rule change_symbol_Some) (simp_all add: sym_sig_def)

definition same_result :: "(scope_id \<times> symbol) option \<Rightarrow> (scope_id \<times> symbol) option \<Rightarrow> bool" where
  "same_result = rel_option (\<lambda>(i, s) (j, t). i = j \<and> sym_sig s = sym_sig t)"

lemma declares_same:
  "declares a name i res \<Longrightarrow> same_table a b \<Longrightarrow> \<exists>res'. declares b name i res' \<and> same_result res res'"
proof (induction rule: declares.induct)
  case (here i sy)
  then obtain sy' where "lookup_local (b ! i) name = Some sy'" "sym_sig sy = sym_sig sy'"
    using same_table_lookup [OF here.prems here.hyps(1), of name] by (cases "lookup_local (b ! i) name") auto
  then show ?case
    using here same_table_length [OF here.prems] declares.here [of i b name sy'] by (fastforce simp: same_result_def)
next
  case (nowhere i)
  have "lookup_local (b ! i) name = None" "sc_parent (b ! i) = None" "i < length b"
    using nowhere same_table_lookup [OF nowhere.prems nowhere.hyps(1), of name]
    by (auto simp: same_table_def list_all2_conv_all_nth same_scope_def)
  then show ?case using declares.nowhere by (fastforce simp: same_result_def)
next
  case (further i p res)
  have "lookup_local (b ! i) name = None" "sc_parent (b ! i) = Some p" "i < length b"
    using further.hyps further.prems same_table_lookup [OF further.prems further.hyps(1), of name]
    by (auto simp: same_table_def list_all2_conv_all_nth same_scope_def)
  then show ?case using further.IH [OF further.prems] declares.further [of i b name p] by blast
qed

lemma resolve_same:
  assumes "same_table a b" "table_ok a" "i < length a"
  obtains res res' where "resolve a i name = Some res" "resolve b i name = Some res'" "same_result res res'"
proof -
  obtain res where "declares a name i res" using table_declares [OF assms(2,3)] by blast
  moreover from declares_same [OF this assms(1)] obtain res' where
    "declares b name i res'" "same_result res res'" by blast
  ultimately show thesis using that declares_resolve by blast
qed

lemma same_result_cases:
  assumes "same_result res res'"
  obtains "res = None" "res' = None"
  | i s s' where "res = Some (i, s)" "res' = Some (i, s')" "sym_sig s = sym_sig s'"
  using assms by (auto simp: same_result_def elim!: option.rel_cases)

lemma global_lookup_same:
  assumes "same_table a b"
  shows "map_option sym_sig (global_lookup a name) = map_option sym_sig (global_lookup b name)"
proof (cases a)
  case Nil
  then show ?thesis using assms by (simp add: same_table_def)
next
  case (Cons x xs)
  then obtain y ys where "b = y # ys" "same_scope x y"
    using assms by (auto simp: same_table_def list_all2_Cons1)
  then show ?thesis using Cons by (simp add: global_lookup_def lookup_local_def same_scope_def)
qed

lemma of_kind_same:
  assumes "map_option sym_sig x = map_option sym_sig y"
  shows "map_option sym_sig (of_kind P x) = map_option sym_sig (of_kind P y)"
  using assms by (cases x; cases y) (auto simp: of_kind_def sym_sig_def)

lemma resolve_kind_same:
  assumes "same_table a b"
  shows "map_option sym_sig (resolve_type a name) = map_option sym_sig (resolve_type b name)"
    "map_option sym_sig (resolve_pou a name) = map_option sym_sig (resolve_pou b name)"
    "map_option sym_sig (resolve_class a name) = map_option sym_sig (resolve_class b name)"
    "map_option sym_sig (resolve_interface a name) = map_option sym_sig (resolve_interface b name)"
  unfolding resolve_type_def resolve_pou_def resolve_class_def resolve_interface_def
  by (intro of_kind_same global_lookup_same assms)+

end
