(* ===== verification/Analyze_Expr.thy ===== *)
theory Analyze_Expr
  imports Scope
begin

section \<open>Checking expressions: crates/st-semantics/src/analyze.rs\<close>

text \<open>
  The analyser's state and its expression checks. A check returns the type of the expression and
  the new state, in which diagnostics have been appended and symbols marked as used. It does not
  return (\<open>None\<close>) when the walk up a class hierarchy never ends.
\<close>

record analyzer =
  az_symbols :: symbol_table
  az_diagnostics :: "diagnostic list"
  az_scope :: scope_id
  az_in_loop :: bool
  az_return_type :: "ty option"
  az_class :: "string option"

definition report_error :: "diagnostic_code \<Rightarrow> string \<Rightarrow> text_range \<Rightarrow> analyzer \<Rightarrow> analyzer" where
  "report_error c m r az = az\<lparr>az_diagnostics := az_diagnostics az @ [diagnostic_error c m r]\<rparr>"

definition report_warning :: "diagnostic_code \<Rightarrow> string \<Rightarrow> text_range \<Rightarrow> analyzer \<Rightarrow> analyzer" where
  "report_warning c m r az = az\<lparr>az_diagnostics := az_diagnostics az @ [diagnostic_warning c m r]\<rparr>"

text \<open>A text between the single quotes of a message.\<close>

definition quoted :: "string \<Rightarrow> string" where
  "quoted s = CHR 0x27 # s @ [CHR 0x27]"

definition az_resolve :: "analyzer \<Rightarrow> string \<Rightarrow> (scope_id \<times> symbol) option option" where
  "az_resolve az name = resolve (az_symbols az) (az_scope az) name"

definition az_mark_used :: "string \<Rightarrow> analyzer \<Rightarrow> analyzer option" where
  "az_mark_used name az =
     map_option (\<lambda>st. az\<lparr>az_symbols := st\<rparr>) (mark_used (az_scope az) name (az_symbols az))"

definition az_mark_assigned :: "string \<Rightarrow> analyzer \<Rightarrow> analyzer option" where
  "az_mark_assigned name az =
     map_option (\<lambda>st. az\<lparr>az_symbols := st\<rparr>) (mark_assigned (az_scope az) name (az_symbols az))"

subsection \<open>Literals\<close>

definition elem :: "elementary_type \<Rightarrow> ty" where
  "elem e = Ty_Elementary e"

fun literal_type :: "literal_kind \<Rightarrow> ty" where
  "literal_type (L_Integer _) = elem ET_Int"
| "literal_type (L_Real _) = elem ET_Real"
| "literal_type (L_String _) = Ty_String False None"
| "literal_type (L_Bool _) = elem ET_Bool"
| "literal_type (L_Time _) = elem ET_Time"
| "literal_type (L_Date _) = elem ET_Date"
| "literal_type (L_Tod _) = elem ET_Tod"
| "literal_type (L_Dt _) = elem ET_Dt"
| "literal_type L_Null = Ty_Unknown"
| "literal_type (L_Typed e _) = Ty_Elementary e"

text \<open>
  The value of an integer literal that may be negated, as a mathematical integer; the source's
  \<open>i128\<close> holds every value within the ranges it is compared with.
\<close>

definition parse_i128 :: "string \<Rightarrow> int option" where
  "parse_i128 s =
     (case parse_int s of
        None \<Rightarrow> None
      | Some i \<Rightarrow> if - (2 ^ 127) \<le> i \<and> i < 2 ^ 127 then Some i else None)"

fun integer_literal_value :: "expression \<Rightarrow> int option" where
  "integer_literal_value (E_Literal l) =
     (case li_kind l of
        L_Integer n \<Rightarrow> Some (sint n)
      | L_Typed _ raw \<Rightarrow> parse_i128 raw
      | _ \<Rightarrow> None)"
| "integer_literal_value (E_Parenthesized e) = integer_literal_value e"
| "integer_literal_value (E_Unary U_Neg e _) = map_option uminus (integer_literal_value e)"
| "integer_literal_value _ = None"

definition literal_fits_in_target :: "expression \<Rightarrow> ty \<Rightarrow> bool" where
  "literal_fits_in_target e target =
     (case resolved target of
        Ty_Elementary t \<Rightarrow>
          (case integer_type_range t of
             None \<Rightarrow> False
           | Some (lo, hi) \<Rightarrow>
               (case integer_literal_value e of None \<Rightarrow> False | Some v \<Rightarrow> lo \<le> v \<and> v \<le> hi))
      | _ \<Rightarrow> False)"

subsection \<open>Operators\<close>

fun binary_op_name :: "binary_op \<Rightarrow> string" where
  "binary_op_name B_Add = ''+''"
| "binary_op_name B_Sub = ''-''"
| "binary_op_name B_Mul = ''*''"
| "binary_op_name B_Div = ''/''"
| "binary_op_name B_Mod = ''MOD''"
| "binary_op_name B_Power = ''**''"
| "binary_op_name B_And = ''AND''"
| "binary_op_name B_Or = ''OR''"
| "binary_op_name B_Xor = ''XOR''"
| "binary_op_name B_Eq = ''=''"
| "binary_op_name B_Ne = ''<>''"
| "binary_op_name B_Lt = ''<''"
| "binary_op_name B_Gt = ''>''"
| "binary_op_name B_Le = ''<=''"
| "binary_op_name B_Ge = ''>=''"

definition common_or_unknown :: "ty \<Rightarrow> ty \<Rightarrow> ty" where
  "common_or_unknown a b = (case common_type a b of None \<Rightarrow> Ty_Unknown | Some t \<Rightarrow> t)"

text \<open>\<open>check_unary\<close> once the operand has its type.\<close>

definition unary_type :: "unary_op \<Rightarrow> text_range \<Rightarrow> ty \<Rightarrow> analyzer \<Rightarrow> ty \<times> analyzer" where
  "unary_type op r t az =
     (case op of
        U_Neg \<Rightarrow>
          if ty_is_numeric t \<or> t = Ty_Unknown then (t, az)
          else (Ty_Unknown,
            report_error IncompatibleUnaryOp
              (''unary '' @ quoted ''-'' @ '' requires a numeric type, found '' @ quoted (display_name t)) r az)
      | U_Not \<Rightarrow>
          if ty_is_bool t \<or> ty_is_bit_string t \<or> t = Ty_Unknown then (t, az)
          else (Ty_Unknown,
            report_error IncompatibleUnaryOp
              (''NOT requires BOOL or bit-string type, found '' @ quoted (display_name t)) r az))"

definition operand_error :: "string \<Rightarrow> binary_op \<Rightarrow> ty \<Rightarrow> text_range \<Rightarrow> analyzer \<Rightarrow> analyzer" where
  "operand_error side op t r =
     report_error IncompatibleBinaryOp
       (side @ '' operand of '' @ quoted (binary_op_name op) @ '' must be numeric, found '' @ quoted (display_name t)) r"

text \<open>The arms of \<open>check_binary\<close>: arithmetic, logic and comparison.\<close>

definition arithmetic_type ::
  "binary_op \<Rightarrow> expression \<Rightarrow> expression \<Rightarrow> text_range \<Rightarrow> ty \<Rightarrow> ty \<Rightarrow> analyzer \<Rightarrow> ty \<times> analyzer" where
  "arithmetic_type op l r rg lt rt az =
     (if ty_is_time lt \<and> ty_is_time rt \<and> op \<in> {B_Add, B_Sub} then (lt, az)
      else if \<not> ty_is_numeric lt
        then (Ty_Unknown, operand_error ''left'' op lt (expression_range l) az)
      else if \<not> ty_is_numeric rt
        then (Ty_Unknown, operand_error ''right'' op rt (expression_range r) az)
      else if op = B_Mod \<and> (\<not> ty_is_integer lt \<or> \<not> ty_is_integer rt)
        then (Ty_Unknown, report_error IncompatibleBinaryOp ''MOD requires integer operands'' rg az)
      else if ty_is_integer lt \<and> literal_fits_in_target r lt then (lt, az)
      else if ty_is_integer rt \<and> literal_fits_in_target l rt then (rt, az)
      else (common_or_unknown lt rt, az))"

definition logic_type :: "binary_op \<Rightarrow> text_range \<Rightarrow> ty \<Rightarrow> ty \<Rightarrow> analyzer \<Rightarrow> ty \<times> analyzer" where
  "logic_type op rg lt rt az =
     (if ty_is_bool lt \<and> ty_is_bool rt then (elem ET_Bool, az)
      else if ty_is_bit_string lt \<and> ty_is_bit_string rt then (common_or_unknown lt rt, az)
      else (Ty_Unknown,
        report_error IncompatibleBinaryOp
          (quoted (binary_op_name op) @ '' requires BOOL or matching bit-string operands, found ''
             @ quoted (display_name lt) @ '' and '' @ quoted (display_name rt)) rg az))"

definition comparison_type :: "text_range \<Rightarrow> ty \<Rightarrow> ty \<Rightarrow> analyzer \<Rightarrow> ty \<times> analyzer" where
  "comparison_type rg lt rt az =
     (elem ET_Bool,
      if common_type lt rt = None
      then report_error IncompatibleBinaryOp
        (''cannot compare '' @ quoted (display_name lt) @ '' with '' @ quoted (display_name rt)) rg az
      else az)"

definition binary_type ::
  "binary_op \<Rightarrow> expression \<Rightarrow> expression \<Rightarrow> text_range \<Rightarrow> ty \<Rightarrow> ty \<Rightarrow> analyzer \<Rightarrow> ty \<times> analyzer" where
  "binary_type op l r rg lt rt az =
     (if lt = Ty_Unknown \<or> rt = Ty_Unknown then (Ty_Unknown, az)
      else if op \<in> {B_Add, B_Sub, B_Mul, B_Div, B_Mod} then arithmetic_type op l r rg lt rt az
      else if op = B_Power
        then (if \<not> ty_is_numeric lt \<or> \<not> ty_is_numeric rt
              then (Ty_Unknown, report_error IncompatibleBinaryOp ''** requires numeric operands'' rg az)
              else (elem ET_Lreal, az))
      else if op \<in> {B_And, B_Or, B_Xor} then logic_type op rg lt rt az
      else comparison_type rg lt rt az)"

subsection \<open>Members of a type\<close>

text \<open>
  The type of the member \<open>x\<close> of a value of type \<open>t\<close>: a field of a structure, a parameter of a
  function block, a method or a parameter of a class.
\<close>

datatype member = Member ty | No_Member "diagnostic_code \<times> string" | Unresolved

definition find_param :: "string \<Rightarrow> param_def list \<Rightarrow> param_def option" where
  "find_param name ps = find (\<lambda>p. eq_ignore_ascii_case (pm_name p) name) ps"

definition find_method :: "string \<Rightarrow> method_def list \<Rightarrow> method_def option" where
  "find_method name ms = find (\<lambda>m. eq_ignore_ascii_case (md_method m) name) ms"

definition member_type :: "symbol_table \<Rightarrow> string \<Rightarrow> ty \<Rightarrow> member" where
  "member_type st x t =
     (case resolved t of
        Ty_Struct _ fs \<Rightarrow>
          (case find (\<lambda>f. eq_ignore_ascii_case (fd_field f) x) fs of
             Some f \<Rightarrow> Member (fd_type f)
           | None \<Rightarrow> No_Member (NoSuchField, ''no field '' @ quoted x @ '' on type '' @ quoted (display_name t)))
      | Ty_FunctionBlock name \<Rightarrow>
          (case resolve_pou st name of
             None \<Rightarrow> Unresolved
           | Some sy \<Rightarrow>
               (case sy_kind sy of
                  K_FunctionBlock params outputs \<Rightarrow>
                    (case find_param x (params @ outputs) of
                       Some p \<Rightarrow> Member (pm_ty p)
                     | None \<Rightarrow> No_Member (NoSuchField,
                         ''no member '' @ quoted x @ '' on function block '' @ quoted name))
                | _ \<Rightarrow> Member t))
      | Ty_Class name \<Rightarrow>
          (case resolve_class st name of
             None \<Rightarrow> Unresolved
           | Some sy \<Rightarrow>
               (case sy_kind sy of
                  K_Class ci \<Rightarrow>
                    (case find_method x (ci_methods ci) of
                       Some m \<Rightarrow> Member (md_return_type m)
                     | None \<Rightarrow>
                         (case find_param x (ci_params ci @ ci_outputs ci) of
                            Some p \<Rightarrow> Member (pm_ty p)
                          | None \<Rightarrow> No_Member (NoSuchField,
                              ''no member '' @ quoted x @ '' on class '' @ quoted name)))
                | _ \<Rightarrow> Member t))
      | _ \<Rightarrow> No_Member (FieldAccessOnNonStruct,
               ''cannot access field '' @ quoted x @ '' on type '' @ quoted (display_name t)))"

definition partial_type :: "partial_access_kind \<Rightarrow> ty" where
  "partial_type k =
     (case k of P_Bit \<Rightarrow> elem ET_Bool | P_Byte \<Rightarrow> elem ET_Byte | P_Word \<Rightarrow> elem ET_Word
      | P_DWord \<Rightarrow> elem ET_Dword | P_LWord \<Rightarrow> elem ET_Lword)"

text \<open>The walk up the class hierarchy to the class that defines a method.\<close>

partial_function (option) resolve_class_method ::
  "symbol_table \<Rightarrow> string \<Rightarrow> string \<Rightarrow> (string \<times> method_def) option option" where
  "resolve_class_method st cls m =
     (case resolve_class st cls of
        None \<Rightarrow> Some None
      | Some sy \<Rightarrow>
          (case sy_kind sy of
             K_Class ci \<Rightarrow>
               (case find_method m (ci_methods ci) of
                  Some d \<Rightarrow> Some (Some (cls, d))
                | None \<Rightarrow>
                    (case ci_base_class ci of
                       None \<Rightarrow> Some None
                     | Some base \<Rightarrow> resolve_class_method st base m))
           | _ \<Rightarrow> Some None))"

subsection \<open>What a call calls\<close>

text \<open>
  A call \<open>x.m(...)\<close> on a variable of a class is a method call: the object, its class, the method
  and the place of the method's name.
\<close>

definition method_receiver ::
  "analyzer \<Rightarrow> qualified_name \<Rightarrow> (string \<times> string \<times> ident) option option" where
  "method_receiver az q =
     (case qn_parts q of
        [obj, m] \<Rightarrow>
          Option.bind (az_resolve az (id_name obj)) (\<lambda>res.
            Some (case res of
                    None \<Rightarrow> None
                  | Some (_, sy) \<Rightarrow>
                      (case resolved (sy_ty sy) of
                         Ty_Class cls \<Rightarrow> Some (id_name obj, cls, m)
                       | _ \<Rightarrow> None)))
      | _ \<Rightarrow> Some None)"

definition report_abstract :: "bool \<Rightarrow> string \<Rightarrow> text_range \<Rightarrow> analyzer \<Rightarrow> analyzer" where
  "report_abstract abstract name r az =
     (if abstract
      then report_error CannotInstantiateAbstractClass (''cannot instantiate abstract class '' @ quoted name) r az
      else az)"

text \<open>The name for messages, the parameters and the type of a callable symbol.\<close>

definition callee :: "string \<Rightarrow> text_range \<Rightarrow> symbol \<Rightarrow> analyzer \<Rightarrow> (string \<times> param_def list \<times> ty \<times> analyzer) option" where
  "callee name r sy az =
     (case sy_kind sy of
        K_Function t params \<Rightarrow> Some (name, params, t, az)
      | K_FunctionBlock params _ \<Rightarrow> Some (name, params, Ty_Void, az)
      | K_Class ci \<Rightarrow> Some (name, ci_params ci, Ty_Void, report_abstract (ci_is_abstract ci) name r az)
      | K_Variable _ \<Rightarrow>
          (case resolved (sy_ty sy) of
             Ty_FunctionBlock fb \<Rightarrow>
               Some (fb,
                 (case resolve_pou (az_symbols az) fb of
                    Some s \<Rightarrow> (case sy_kind s of K_FunctionBlock params _ \<Rightarrow> params | _ \<Rightarrow> [])
                  | None \<Rightarrow> []), Ty_Void, az)
           | Ty_Class cls \<Rightarrow>
               (case resolve_class (az_symbols az) cls of
                  Some s \<Rightarrow>
                    (case sy_kind s of
                       K_Class ci \<Rightarrow>
                         Some (cls, ci_params ci, Ty_Void, report_abstract (ci_is_abstract ci) cls r az)
                     | _ \<Rightarrow> Some (cls, [], Ty_Void, az))
                | None \<Rightarrow> Some (cls, [], Ty_Void, az))
           | _ \<Rightarrow> None)
      | _ \<Rightarrow> None)"

subsection \<open>Arguments\<close>

text \<open>The check of one argument's type against its parameter, and of the VAR\_IN\_OUT parameters left out.\<close>

definition check_param_type :: "string \<Rightarrow> ty \<Rightarrow> ty \<Rightarrow> text_range \<Rightarrow> analyzer \<Rightarrow> analyzer" where
  "check_param_type what param val r az =
     (if \<not> is_type_compatible val param \<and> val \<noteq> Ty_Unknown \<and> param \<noteq> Ty_Unknown
      then report_error ParamTypeMismatch
        (what @ '' expects '' @ quoted (display_name param) @ '', got '' @ quoted (display_name val)) r az
      else az)"

definition param_position :: "string \<Rightarrow> param_def list \<Rightarrow> nat option" where
  "param_position name ps = find_index (\<lambda>p. eq_ignore_ascii_case (pm_name p) name) ps"

definition is_provided :: "param_def list \<Rightarrow> string list \<Rightarrow> nat \<Rightarrow> param_def \<Rightarrow> bool" where
  "is_provided params seen n p \<longleftrightarrow>
     to_upper (pm_name p) \<in> set seen \<or>
     (case param_position (pm_name p) params of Some i \<Rightarrow> i < n | None \<Rightarrow> False)"

definition check_required ::
  "string \<Rightarrow> text_range \<Rightarrow> param_def list \<Rightarrow> string list \<Rightarrow> nat \<Rightarrow> analyzer \<Rightarrow> analyzer" where
  "check_required name r params seen n az =
     fold (\<lambda>p az.
       if \<not> is_provided params seen n p \<and> pm_kind p = VarInOut
       then report_error MissingRequiredParam
         (''missing required VAR_IN_OUT parameter '' @ quoted (pm_name p) @ '' in call to '' @ quoted name) r az
       else az) params az"

subsection \<open>Expressions\<close>

definition check_this :: "text_range \<Rightarrow> analyzer \<Rightarrow> ty \<times> analyzer" where
  "check_this r az =
     (case az_class az of
        Some cls \<Rightarrow> (Ty_Class cls, az)
      | None \<Rightarrow> (Ty_Unknown, report_error InvalidThisContext ''THIS is only valid inside a class method'' r az))"

definition class_base :: "symbol_table \<Rightarrow> string \<Rightarrow> string option" where
  "class_base st cls =
     (case resolve_class st cls of
        None \<Rightarrow> None
      | Some sy \<Rightarrow> (case sy_kind sy of K_Class ci \<Rightarrow> ci_base_class ci | _ \<Rightarrow> None))"

definition check_super :: "text_range \<Rightarrow> analyzer \<Rightarrow> ty \<times> analyzer" where
  "check_super r az =
     (case az_class az of
        Some cls \<Rightarrow>
          (case class_base (az_symbols az) cls of
             Some base \<Rightarrow> (Ty_Class base, az)
           | None \<Rightarrow> (Ty_Unknown,
               report_error InvalidSuperContext ''SUPER requires a base class (no EXTENDS clause)'' r az))
      | None \<Rightarrow> (Ty_Unknown,
          report_error InvalidSuperContext ''SUPER is only valid inside a class method'' r az))"

definition check_index_type :: "string \<Rightarrow> ty \<Rightarrow> text_range \<Rightarrow> analyzer \<Rightarrow> analyzer" where
  "check_index_type what t r az =
     (if \<not> ty_is_integer t \<and> t \<noteq> Ty_Unknown
      then report_error ArrayIndexTypeMismatch
        (what @ '' index must be integer, found '' @ quoted (display_name t)) r az
      else az)"

definition report_dimensions :: "nat \<Rightarrow> nat \<Rightarrow> text_range \<Rightarrow> analyzer \<Rightarrow> analyzer" where
  "report_dimensions expected got r az =
     (if got \<noteq> expected
      then report_error ArrayDimensionMismatch
        (''array expects '' @ show_nat expected @ '' indices, got '' @ show_nat got) r az
      else az)"

definition report_undeclared :: "ident \<Rightarrow> analyzer \<Rightarrow> analyzer" where
  "report_undeclared x az =
     report_error UndeclaredVariable (''undeclared variable '' @ quoted (id_name x)) (id_range x) az"

text \<open>
  \<open>check_parts rg first parts t\<close> is the loop over the parts of an access, \<open>t\<close> the type so far and
  \<open>first\<close> whether the next part is the first. Arguments keep the names given so far, upper case,
  and the number of positional ones.
\<close>

function check_expression :: "expression \<Rightarrow> analyzer \<Rightarrow> (ty \<times> analyzer) option"
  and check_variable_access :: "variable_access \<Rightarrow> analyzer \<Rightarrow> (ty \<times> analyzer) option"
  and check_parts :: "access_part list \<Rightarrow> text_range \<Rightarrow> bool \<Rightarrow> ty \<Rightarrow> analyzer \<Rightarrow> (ty \<times> analyzer) option"
  and check_indices :: "expression list \<Rightarrow> string \<Rightarrow> analyzer \<Rightarrow> analyzer option"
  and check_function_call :: "function_call_expr \<Rightarrow> analyzer \<Rightarrow> (ty \<times> analyzer) option"
  and check_args :: "argument list \<Rightarrow> string \<Rightarrow> param_def list \<Rightarrow> string list \<Rightarrow> nat \<Rightarrow> analyzer \<Rightarrow>
        ((string list \<times> nat) \<times> analyzer) option" where
  "check_expression (E_Literal l) az = Some (literal_type (li_kind l), az)"
| "check_expression (E_Variable va) az = check_variable_access va az"
| "check_expression (E_FunctionCall fc) az = check_function_call fc az"
| "check_expression (E_Unary op e r) az =
     Option.bind (check_expression e az) (\<lambda>(t, az). Some (unary_type op r t az))"
| "check_expression (E_Binary op l r rg) az =
     Option.bind (check_expression l az) (\<lambda>(lt, az).
     Option.bind (check_expression r az) (\<lambda>(rt, az).
       Some (binary_type op l r rg lt rt az)))"
| "check_expression (E_Parenthesized e) az = check_expression e az"
| "check_expression (E_This r) az = Some (check_this r az)"
| "check_expression (E_Super r) az = Some (check_super r az)"
| "check_variable_access (VariableAccess parts r) az = check_parts parts r True Ty_Unknown az"
| "check_parts [] rg first t az = Some (t, az)"
| "check_parts (A_Identifier x # parts) rg first t az =
     (if first then
        Option.bind (az_resolve az (id_name x)) (\<lambda>res.
          case res of
            None \<Rightarrow> Some (Ty_Unknown, report_undeclared x az)
          | Some (_, sy) \<Rightarrow>
              Option.bind (az_mark_used (id_name x) az) (\<lambda>az. check_parts parts rg False (sy_ty sy) az))
      else
        (case member_type (az_symbols az) (id_name x) t of
           Member t \<Rightarrow> check_parts parts rg False t az
         | No_Member (c, m) \<Rightarrow> Some (Ty_Unknown, report_error c m (id_range x) az)
         | Unresolved \<Rightarrow> Some (Ty_Unknown, az)))"
| "check_parts (A_Index es # parts) rg first t az =
     (case resolved t of
        Ty_Array ranges el \<Rightarrow>
          Option.bind (check_indices es ''array'' (report_dimensions (length ranges) (length es) rg az))
            (check_parts parts rg False el)
      | Ty_String _ _ \<Rightarrow>
          Option.bind (check_indices es ''string'' az) (check_parts parts rg False (elem ET_Byte))
      | Ty_Unknown \<Rightarrow> check_parts parts rg False t az
      | _ \<Rightarrow> Some (Ty_Unknown,
          report_error IndexOnNonArray (''cannot index into type '' @ quoted (display_name t)) rg az))"
| "check_parts (A_Deref # parts) rg first t az = check_parts parts rg False Ty_Unknown az"
| "check_parts (A_Partial k n # parts) rg first t az = check_parts parts rg False (partial_type k) az"
| "check_indices [] what az = Some az"
| "check_indices (e # es) what az =
     Option.bind (check_expression e az) (\<lambda>(t, az).
       check_indices es what (check_index_type what t (expression_range e) az))"
| "check_function_call (FunctionCallExpr q args r) az =
     Option.bind (method_receiver az q) (\<lambda>recv.
       case recv of
         Some (obj, cls, m) \<Rightarrow>
           Option.bind (az_mark_used obj az) (\<lambda>az.
           Option.bind (resolve_class_method (az_symbols az) cls (id_name m)) (\<lambda>found.
             case found of
               None \<Rightarrow> Some (Ty_Unknown,
                 report_error NoSuchField
                   (''no method '' @ quoted (id_name m) @ '' on class '' @ quoted cls) (id_range m) az)
             | Some (_, d) \<Rightarrow>
                 Option.bind (check_args args (cls @ ''.'' @ id_name m) (md_params d) [] 0 az)
                   (\<lambda>((seen, n), az).
                     Some (md_return_type d,
                       check_required (cls @ ''.'' @ id_name m) r (md_params d) seen n az))))
       | None \<Rightarrow>
           Option.bind (az_resolve az (qn_as_str q)) (\<lambda>res.
             case res of
               None \<Rightarrow> Some (Ty_Unknown,
                 report_error UndeclaredPou
                   (''undeclared function or function block '' @ quoted (qn_as_str q)) (qn_range q) az)
             | Some (_, sy) \<Rightarrow>
                 Option.bind (az_mark_used (qn_as_str q) az) (\<lambda>az.
                   case callee (qn_as_str q) r sy az of
                     None \<Rightarrow> Some (Ty_Unknown,
                       report_error NotCallable (quoted (qn_as_str q) @ '' is not callable'') r az)
                   | Some (name, params, t, az) \<Rightarrow>
                       Option.bind (check_args args name params [] 0 az) (\<lambda>((seen, n), az).
                         Some (t, check_required name r params seen n az)))))"
| "check_args [] name params seen n az = Some ((seen, n), az)"
| "check_args (Named x e # args) name params seen n az =
     (if to_upper (id_name x) \<in> set seen
      then check_args args name params seen n
        (report_error DuplicateParam
          (''duplicate parameter '' @ quoted (id_name x) @ '' in call to '' @ quoted name) (id_range x) az)
      else
        (case find_param (id_name x) params of
           Some p \<Rightarrow>
             Option.bind (check_expression e az) (\<lambda>(t, az).
               check_args args name params (seen @ [to_upper (id_name x)]) n
                 (check_param_type (''parameter '' @ quoted (id_name x)) (pm_ty p) t (expression_range e) az))
         | None \<Rightarrow>
             check_args args name params (seen @ [to_upper (id_name x)]) n
               (report_error UnknownParam
                 (''unknown parameter '' @ quoted (id_name x) @ '' in call to '' @ quoted name) (id_range x) az)))"
| "check_args (Positional e # args) name params seen n az =
     (if n < length params
      then
        Option.bind (check_expression e az) (\<lambda>(t, az).
          check_args args name params seen (n + 1)
            (check_param_type (''argument '' @ show_nat (n + 1)) (pm_ty (params ! n)) t (expression_range e) az))
      else check_args args name params seen n
        (report_error TooManyPositionalArgs
          (''too many arguments in call to '' @ quoted name @ '' (expected '' @ show_nat (length params) @ '')'')
          (expression_range e) az))"
  by pat_completeness auto

termination
  by (relation "measure (\<lambda>x. case x of
      Inl (Inl (e, _)) \<Rightarrow> size e | Inl (Inr (Inl (va, _))) \<Rightarrow> size va | Inl (Inr (Inr (ps, _))) \<Rightarrow> size_list size ps
    | Inr (Inl (es, _)) \<Rightarrow> size_list size es | Inr (Inr (Inl (fc, _))) \<Rightarrow> size fc
    | Inr (Inr (Inr (as, _))) \<Rightarrow> size_list size as)") simp_all

lemmas check_induct = check_expression_check_variable_access_check_parts_check_indices_check_function_call_check_args.induct

end
