(* ===== verification/Analyze_Stmt.thy ===== *)
theory Analyze_Stmt
  imports Analyze_Expr
begin

section \<open>Checking declarations and statements: crates/st-semantics/src/analyze.rs\<close>

text \<open>A loop that changes the analyser's state at each element and may not return.\<close>

primrec ofold :: "('a \<Rightarrow> 's \<Rightarrow> 's option) \<Rightarrow> 'a list \<Rightarrow> 's \<Rightarrow> 's option" where
  "ofold f [] s = Some s"
| "ofold f (x # xs) s = Option.bind (f x s) (ofold f xs)"

subsection \<open>Resolving data types\<close>

text \<open>
  Integer constants of type declarations. Negating the least integer, which no literal denotes,
  wraps here.
\<close>

fun const_eval_int :: "expression \<Rightarrow> i64 option" where
  "const_eval_int (E_Literal l) = (case li_kind l of L_Integer v \<Rightarrow> Some v | _ \<Rightarrow> None)"
| "const_eval_int (E_Unary U_Neg e _) = map_option uminus (const_eval_int e)"
| "const_eval_int _ = None"

definition const_or_0 :: "expression \<Rightarrow> i64" where
  "const_or_0 e = (case const_eval_int e of Some v \<Rightarrow> v | None \<Rightarrow> 0)"

definition resolve_user_type :: "symbol_table \<Rightarrow> string \<Rightarrow> ty" where
  "resolve_user_type st name =
     (case resolve_type st name of
        Some sy \<Rightarrow> sy_ty sy
      | None \<Rightarrow> (case resolve_pou st name of Some sy \<Rightarrow> sy_ty sy | None \<Rightarrow> Ty_Unknown))"

fun resolve_data_type :: "symbol_table \<Rightarrow> data_type \<Rightarrow> ty" where
  "resolve_data_type st (D_Elementary e) = Ty_Elementary e"
| "resolve_data_type st (D_Array (ArrayType rs el r)) =
     Ty_Array (map (\<lambda>g. (const_or_0 (rg_lower g), const_or_0 (rg_upper g))) rs) (resolve_data_type st el)"
| "resolve_data_type st (D_String s) =
     Ty_String (st_wide s)
       (case st_length s of None \<Rightarrow> None | Some e \<Rightarrow> map_option (\<lambda>v. ucast v) (const_eval_int e))"
| "resolve_data_type st (D_Ref t) = Ty_Unknown"
| "resolve_data_type st (D_UserDefined q) = resolve_user_type st (qn_as_str q)"

definition resolve_type_def_kind :: "symbol_table \<Rightarrow> type_def_kind \<Rightarrow> string \<Rightarrow> ty" where
  "resolve_type_def_kind st k name =
     (case k of
        TK_Struct fs _ \<Rightarrow>
          Ty_Struct name (map (\<lambda>f. FieldDef (id_name (sf_name f)) (resolve_data_type st (sf_ty f))) fs)
      | TK_Enum vs _ \<Rightarrow> Ty_Enum name (map (\<lambda>v. id_name (ev_name v)) vs)
      | TK_Subrange b lo hi _ \<Rightarrow> Ty_Subrange name b (const_or_0 lo) (const_or_0 hi)
      | TK_Alias dt \<Rightarrow> Ty_Alias name (resolve_data_type st dt))"

definition collect_params_by_kind :: "symbol_table \<Rightarrow> (var_kind \<Rightarrow> bool) \<Rightarrow> var_block list \<Rightarrow> param_def list" where
  "collect_params_by_kind st P vbs =
     concat (map (\<lambda>vb. concat (map (\<lambda>d.
         map (\<lambda>n. \<lparr>pm_name = id_name n, pm_ty = resolve_data_type st (vd_ty d), pm_kind = vb_kind vb\<rparr>) (vd_names d))
       (vb_declarations vb))) (filter (\<lambda>vb. P (vb_kind vb)) vbs))"

definition is_input_kind :: "var_kind \<Rightarrow> bool" where
  "is_input_kind k \<longleftrightarrow> k \<in> {VarInput, VarInOut}"

definition collect_params :: "symbol_table \<Rightarrow> var_block list \<Rightarrow> param_def list" where
  "collect_params st = collect_params_by_kind st is_input_kind"

subsection \<open>Variable blocks\<close>

definition az_define :: "scope_id \<Rightarrow> symbol \<Rightarrow> analyzer \<Rightarrow> (symbol option \<times> analyzer) option" where
  "az_define i sy az =
     map_option (\<lambda>(prev, st). (prev, az\<lparr>az_symbols := st\<rparr>)) (table_define i sy (az_symbols az))"

text \<open>Define a symbol and report, with the given words, that the name was taken.\<close>

definition define_or_report :: "scope_id \<Rightarrow> symbol \<Rightarrow> string \<Rightarrow> text_range \<Rightarrow> analyzer \<Rightarrow> analyzer option" where
  "define_or_report i sy what r az =
     map_option (\<lambda>(prev, az).
       if prev = None then az
       else report_error DuplicateDeclaration (''duplicate '' @ what @ '' declaration '' @ quoted (sy_name sy)) r az)
     (az_define i sy az)"

text \<open>A warning when the name is visible in an outer scope.\<close>

definition warn_shadowing :: "scope_id \<Rightarrow> ident \<Rightarrow> analyzer \<Rightarrow> analyzer option" where
  "warn_shadowing i x az =
     Option.bind (resolve (az_symbols az) i (id_name x)) (\<lambda>res. Some (
       case res of
         Some (j, _) \<Rightarrow>
           if j \<noteq> i
           then report_warning ShadowedVariable (quoted (id_name x) @ '' shadows a variable in an outer scope'')
             (id_range x) az
           else az
       | None \<Rightarrow> az))"

definition var_symbol :: "var_kind \<Rightarrow> ty \<Rightarrow> bool \<Rightarrow> ident \<Rightarrow> symbol" where
  "var_symbol k t initialised x =
     \<lparr>sy_name = id_name x, sy_ty = t, sy_kind = K_Variable k, sy_range = id_range x, sy_used = False,
      sy_assigned = (initialised \<or> k \<in> {VarInput, VarInOut, VarExternal})\<rparr>"

definition define_var :: "scope_id \<Rightarrow> var_kind \<Rightarrow> ty \<Rightarrow> bool \<Rightarrow> ident \<Rightarrow> analyzer \<Rightarrow> analyzer option" where
  "define_var i k t initialised x az =
     Option.bind (warn_shadowing i x az)
       (define_or_report i (var_symbol k t initialised x) ''variable'' (id_range x))"

definition check_initial_value :: "ty \<Rightarrow> expression \<Rightarrow> analyzer \<Rightarrow> analyzer option" where
  "check_initial_value t e az =
     Option.bind (check_expression e az) (\<lambda>(it, az). Some (
       if \<not> is_type_compatible it t \<and> it \<noteq> Ty_Unknown \<and> \<not> literal_fits_in_target e t
       then report_error TypeMismatchAssignment
         (''cannot initialize '' @ quoted (display_name t) @ '' variable with '' @ quoted (display_name it) @ '' value'')
         (expression_range e) az
       else az))"

definition report_constant :: "ident \<Rightarrow> analyzer \<Rightarrow> analyzer" where
  "report_constant x =
     report_error AssignmentToConstant (''CONSTANT '' @ quoted (id_name x) @ '' must have an initial value'') (id_range x)"

definition define_declaration :: "scope_id \<Rightarrow> var_block \<Rightarrow> var_declaration \<Rightarrow> analyzer \<Rightarrow> analyzer option" where
  "define_declaration i vb d az =
     (let t = resolve_data_type (az_symbols az) (vd_ty d);
          init = vd_initial_value d in
      Option.bind (ofold (define_var i (vb_kind vb) t (init \<noteq> None)) (vd_names d) az) (\<lambda>az.
      Option.bind (case init of None \<Rightarrow> Some az | Some e \<Rightarrow> check_initial_value t e az) (\<lambda>az. Some (
        if Constant \<in> set (vb_qualifiers vb) \<and> init = None
        then fold report_constant (vd_names d) az
        else az))))"

definition define_var_block :: "scope_id \<Rightarrow> var_block \<Rightarrow> analyzer \<Rightarrow> analyzer option" where
  "define_var_block i vb = ofold (define_declaration i vb) (vb_declarations vb)"

subsection \<open>Statements\<close>

definition check_variable_access_for_write :: "variable_access \<Rightarrow> analyzer \<Rightarrow> (ty \<times> analyzer) option" where
  "check_variable_access_for_write va az =
     Option.bind (check_variable_access va az) (\<lambda>(t, az).
       case va_parts va of
         A_Identifier x # _ \<Rightarrow>
           Option.bind (az_resolve az (id_name x)) (\<lambda>res.
             case res of
               None \<Rightarrow> Some (t, az)
             | Some _ \<Rightarrow> map_option (\<lambda>az. (t, az)) (az_mark_assigned (id_name x) az))
       | _ \<Rightarrow> Some (t, az))"

definition analyze_assignment :: "variable_access \<Rightarrow> expression \<Rightarrow> text_range \<Rightarrow> analyzer \<Rightarrow> analyzer option" where
  "analyze_assignment target e r az =
     Option.bind (check_variable_access_for_write target az) (\<lambda>(tt, az).
     Option.bind (check_expression e az) (\<lambda>(vt, az). Some (
       if tt \<noteq> Ty_Unknown \<and> vt \<noteq> Ty_Unknown \<and> \<not> is_type_compatible vt tt \<and> \<not> literal_fits_in_target e tt
       then report_error TypeMismatchAssignment
         (''cannot assign '' @ quoted (display_name vt) @ '' to '' @ quoted (display_name tt)) r az
       else az)))"

definition expect_bool :: "ty \<Rightarrow> text_range \<Rightarrow> analyzer \<Rightarrow> analyzer" where
  "expect_bool t r az =
     (if \<not> ty_is_bool t \<and> t \<noteq> Ty_Unknown
      then report_error TypeMismatchCondition (''condition must be BOOL, found '' @ quoted (display_name t)) r az
      else az)"

definition check_condition :: "expression \<Rightarrow> analyzer \<Rightarrow> analyzer option" where
  "check_condition c az =
     Option.bind (check_expression c az) (\<lambda>(t, az). Some (expect_bool t (expression_range c) az))"

definition check_selector_type :: "string \<Rightarrow> ty \<Rightarrow> ty \<Rightarrow> text_range \<Rightarrow> analyzer \<Rightarrow> analyzer" where
  "check_selector_type what et t r az =
     (if t \<noteq> Ty_Unknown \<and> et \<noteq> Ty_Unknown \<and> \<not> is_type_compatible t et
      then report_error CaseSelectorTypeMismatch
        (what @ '' type '' @ quoted (display_name t) @ '' incompatible with expression type ''
           @ quoted (display_name et)) r az
      else az)"

fun check_selector :: "ty \<Rightarrow> case_selector \<Rightarrow> analyzer \<Rightarrow> analyzer option" where
  "check_selector et (Single e) az =
     Option.bind (check_expression e az) (\<lambda>(t, az).
       Some (check_selector_type ''case selector'' et t (expression_range e) az))"
| "check_selector et (Range lo hi) az =
     Option.bind (check_expression lo az) (\<lambda>(lt, az).
     Option.bind (check_expression hi az) (\<lambda>(ht, az).
       Some (check_selector_type ''case range'' et ht (expression_range hi)
         (check_selector_type ''case range'' et lt (expression_range lo) az))))"

definition check_for_variable :: "ident \<Rightarrow> analyzer \<Rightarrow> analyzer option" where
  "check_for_variable x az =
     Option.bind (az_resolve az (id_name x)) (\<lambda>res.
       case res of
         None \<Rightarrow> Some (report_undeclared x az)
       | Some (_, sy) \<Rightarrow>
           Option.bind (az_mark_used (id_name x)
             (if \<not> ty_is_integer (sy_ty sy) \<and> sy_ty sy \<noteq> Ty_Unknown
              then report_error ForVariableNotInteger
                (''FOR variable '' @ quoted (id_name x) @ '' must be an integer type, found ''
                   @ quoted (display_name (sy_ty sy))) (id_range x) az
              else az)) (az_mark_assigned (id_name x)))"

definition check_for_bound :: "string \<Rightarrow> ty \<Rightarrow> text_range \<Rightarrow> analyzer \<Rightarrow> analyzer" where
  "check_for_bound what t r az =
     (if \<not> ty_is_integer t \<and> t \<noteq> Ty_Unknown
      then report_error TypeMismatch
        (''FOR '' @ quoted what @ '' must be integer, found '' @ quoted (display_name t)) r az
      else az)"

text \<open>Both bounds are checked before either is reported; the step follows.\<close>

definition check_for_bounds :: "expression \<Rightarrow> expression \<Rightarrow> expression option \<Rightarrow> analyzer \<Rightarrow> analyzer option" where
  "check_for_bounds start stop step az =
     Option.bind (check_expression start az) (\<lambda>(ft, az).
     Option.bind (check_expression stop az) (\<lambda>(tt, az).
       let az = check_for_bound ''to'' tt (expression_range stop)
                  (check_for_bound ''from'' ft (expression_range start) az)
       in case step of
            None \<Rightarrow> Some az
          | Some e \<Rightarrow>
              Option.bind (check_expression e az) (\<lambda>(bt, az).
                Some (check_for_bound ''by'' bt (expression_range e) az))))"

definition enter_loop :: "analyzer \<Rightarrow> analyzer" where
  "enter_loop az = az\<lparr>az_in_loop := True\<rparr>"

definition leave_loop :: "bool \<Rightarrow> analyzer \<Rightarrow> analyzer" where
  "leave_loop saved az = az\<lparr>az_in_loop := saved\<rparr>"

fun is_return :: "statement \<Rightarrow> bool" where
  "is_return (S_Return _) = True"
| "is_return _ = False"

definition warn_dead :: "bool \<Rightarrow> statement \<Rightarrow> analyzer \<Rightarrow> analyzer" where
  "warn_dead seen s az =
     (if seen then report_warning DeadCode ''unreachable code after RETURN'' (statement_range s) az else az)"

fun analyze_statement :: "statement \<Rightarrow> analyzer \<Rightarrow> analyzer option"
  and analyze_seq :: "statement list \<Rightarrow> bool \<Rightarrow> analyzer \<Rightarrow> analyzer option"
  and analyze_elsifs :: "elsif_clause list \<Rightarrow> analyzer \<Rightarrow> analyzer option"
  and analyze_branches :: "case_branch list \<Rightarrow> ty \<Rightarrow> analyzer \<Rightarrow> analyzer option" where
  "analyze_statement (S_Assignment target e r) az = analyze_assignment target e r az"
| "analyze_statement (S_FunctionCall fc) az = map_option snd (check_function_call fc az)"
| "analyze_statement (S_If c body es els r) az =
     Option.bind (check_condition c az) (\<lambda>az.
     Option.bind (analyze_seq body False az) (\<lambda>az.
     Option.bind (analyze_elsifs es az) (\<lambda>az.
       case els of None \<Rightarrow> Some az | Some sts \<Rightarrow> analyze_seq sts False az)))"
| "analyze_statement (S_Case e bs els r) az =
     Option.bind (check_expression e az) (\<lambda>(t, az).
     Option.bind (analyze_branches bs t az) (\<lambda>az.
       case els of None \<Rightarrow> Some az | Some sts \<Rightarrow> analyze_seq sts False az))"
| "analyze_statement (S_For x start stop step body r) az =
     Option.bind (check_for_variable x az) (\<lambda>az.
     Option.bind (check_for_bounds start stop step az) (\<lambda>az.
       map_option (leave_loop (az_in_loop az)) (analyze_seq body False (enter_loop az))))"
| "analyze_statement (S_While c body r) az =
     Option.bind (check_condition c az) (\<lambda>az.
       map_option (leave_loop (az_in_loop az)) (analyze_seq body False (enter_loop az)))"
| "analyze_statement (S_Repeat body c r) az =
     Option.bind (map_option (leave_loop (az_in_loop az)) (analyze_seq body False (enter_loop az)))
       (check_condition c)"
| "analyze_statement (S_Return r) az = Some az"
| "analyze_statement (S_Exit r) az =
     Some (if az_in_loop az then az
           else report_error ExitOutsideLoop ''EXIT statement is only allowed inside a loop'' r az)"
| "analyze_statement (S_Empty r) az = Some az"
| "analyze_seq [] seen az = Some az"
| "analyze_seq (s # ss) seen az =
     Option.bind (analyze_statement s (warn_dead seen s az)) (analyze_seq ss (seen \<or> is_return s))"
| "analyze_elsifs [] az = Some az"
| "analyze_elsifs (ElsifClause c body r # es) az =
     Option.bind (check_condition c az) (\<lambda>az.
     Option.bind (analyze_seq body False az) (analyze_elsifs es))"
| "analyze_branches [] t az = Some az"
| "analyze_branches (CaseBranch sels body r # bs) t az =
     Option.bind (ofold (check_selector t) sels az) (\<lambda>az.
     Option.bind (analyze_seq body False az) (analyze_branches bs t))"

definition analyze_statements :: "statement list \<Rightarrow> analyzer \<Rightarrow> analyzer option" where
  "analyze_statements ss = analyze_seq ss False"

end
