(* ===== verification/Literals.thy ===== *)
theory Literals
  imports Ast
begin

section \<open>Literals: the end of crates/st-compiler/src/compile.rs\<close>

text \<open>
  From the text of a TIME, DATE, TOD or DT literal to milliseconds. The integer arithmetic
  is Rust's on \<open>i64\<close>: an overflow panics in a checked build and wraps in another. Parsing a
  decimal fraction is the standard library's \<open>f64\<close> parser, a parameter. Texts are bytes; the
  parsers compare and fold ASCII characters only, and take a character beyond ASCII for an
  unknown unit, byte by byte.
\<close>

record build =
  bd_checks :: bool
  bd_parse_f64 :: "string \<Rightarrow> f64 option"

subsection \<open>Checked arithmetic\<close>

definition i64_add :: "build \<Rightarrow> i64 \<Rightarrow> i64 \<Rightarrow> i64 chk" where
  "i64_add b x y = i64_result (bd_checks b) (sint x + sint y)"

definition i64_minus :: "build \<Rightarrow> i64 \<Rightarrow> i64 \<Rightarrow> i64 chk" where
  "i64_minus b x y = i64_result (bd_checks b) (sint x - sint y)"

definition i64_mul :: "build \<Rightarrow> i64 \<Rightarrow> i64 \<Rightarrow> i64 chk" where
  "i64_mul b x y = i64_result (bd_checks b) (sint x * sint y)"

text \<open>Division by a constant that is neither 0 nor -1.\<close>

definition i64_quot :: "i64 \<Rightarrow> int \<Rightarrow> i64" where
  "i64_quot x n = word_of_int (tdiv (sint x) n)"

subsection \<open>Splitting\<close>

text \<open>\<open>str::split\<close> and \<open>str::splitn\<close> on one character.\<close>

fun split_on :: "char \<Rightarrow> string \<Rightarrow> string list" where
  "split_on c [] = [[]]"
| "split_on c (x # xs) =
     (if x = c then [] # split_on c xs
      else case split_on c xs of [] \<Rightarrow> [[x]] | p # ps \<Rightarrow> (x # p) # ps)"

definition split_once :: "char \<Rightarrow> string \<Rightarrow> (string \<times> string) option" where
  "split_once c s = map_option (\<lambda>i. (take i s, drop (i + 1) s)) (find_index (\<lambda>x. x = c) s)"

fun splitn :: "nat \<Rightarrow> char \<Rightarrow> string \<Rightarrow> string list" where
  "splitn 0 c s = []"
| "splitn (Suc 0) c s = [s]"
| "splitn (Suc (Suc n)) c s =
     (case split_once c s of None \<Rightarrow> [s] | Some (a, b) \<Rightarrow> a # splitn (Suc n) c b)"

definition strip_prefix :: "string \<Rightarrow> string \<Rightarrow> string option" where
  "strip_prefix p s = (if take (length p) s = p then Some (drop (length p) s) else None)"

fun first_prefix :: "string list \<Rightarrow> string \<Rightarrow> string" where
  "first_prefix [] s = s"
| "first_prefix (p # ps) s = (case strip_prefix p s of Some rest \<Rightarrow> rest | None \<Rightarrow> first_prefix ps s)"

subsection \<open>TIME\<close>

definition parse_num :: "build \<Rightarrow> string \<Rightarrow> f64" where
  "parse_num b s = (case bd_parse_f64 b s of Some r \<Rightarrow> r | None \<Rightarrow> f64_zero False)"

definition unit_ms :: "string \<Rightarrow> f64 \<Rightarrow> i64" where
  "unit_ms u num =
     (if u = ''d'' then f64_to_i64 (f64_mul num (f64_of_int 86400000))
      else if u = ''h'' then f64_to_i64 (f64_mul num (f64_of_int 3600000))
      else if u = ''m'' then f64_to_i64 (f64_mul num (f64_of_int 60000))
      else if u = ''s'' then f64_to_i64 (f64_mul num (f64_of_int 1000))
      else if u = ''ms'' then f64_to_i64 num
      else if u = ''us'' then f64_to_i64 (f64_div num (f64_of_int 1000))
      else 0)"

definition is_num_char :: "char \<Rightarrow> bool" where
  "is_num_char c \<longleftrightarrow> is_digit c \<or> c = CHR ''.'' \<or> c = CHR ''_''"

text \<open>The loop over the characters, with the number read so far.\<close>

fun time_loop :: "build \<Rightarrow> string \<Rightarrow> string \<Rightarrow> i64 \<Rightarrow> i64 chk" where
  "time_loop b [] buf tot =
     (if buf = [] then Res tot else i64_add b tot (f64_to_i64 (parse_num b buf)))"
| "time_loop b [c] buf tot =
     (if is_num_char c then time_loop b [] (if c = CHR ''_'' then buf else buf @ [c]) tot
      else chk_bind (i64_add b tot (unit_ms (to_lower [c]) (parse_num b buf)))
             (time_loop b [] []))"
| "time_loop b (c # d # cs) buf tot =
     (if is_num_char c then time_loop b (d # cs) (if c = CHR ''_'' then buf else buf @ [c]) tot
      else if to_lower [c, d] = ''ms'' \<or> to_lower [c, d] = ''us''
        then chk_bind (i64_add b tot (unit_ms (to_lower [c, d]) (parse_num b buf)))
               (time_loop b cs [])
      else chk_bind (i64_add b tot (unit_ms (to_lower [c]) (parse_num b buf)))
             (time_loop b (d # cs) []))"

definition time_prefixes :: "string list" where
  "time_prefixes = [''T#'', ''t#'', ''TIME#'', ''time#'', ''LT#'', ''lt#'', ''LTIME#'', ''ltime#'']"

definition parse_time_literal :: "build \<Rightarrow> string \<Rightarrow> i64 chk" where
  "parse_time_literal b s = time_loop b (first_prefix time_prefixes (trim_str s)) [] 0"

subsection \<open>DATE, TOD and DT\<close>

definition ymd_to_epoch_ms :: "build \<Rightarrow> i64 \<Rightarrow> i64 \<Rightarrow> i64 \<Rightarrow> i64 chk" where
  "ymd_to_epoch_ms b year month day =
     chk_bind (if sint month \<le> 2 then i64_minus b year 1 else Res year) (\<lambda>y.
     chk_bind (if sint month \<le> 2 then i64_add b month 9 else i64_minus b month 3) (\<lambda>m.
     chk_bind (i64_mul b 365 y) (\<lambda>d1.
     chk_bind (i64_add b d1 (i64_quot y 4)) (\<lambda>d2.
     chk_bind (i64_minus b d2 (i64_quot y 100)) (\<lambda>d3.
     chk_bind (i64_add b d3 (i64_quot y 400)) (\<lambda>d4.
     chk_bind (i64_mul b m 306) (\<lambda>m1.
     chk_bind (i64_add b m1 5) (\<lambda>m2.
     chk_bind (i64_add b d4 (i64_quot m2 10)) (\<lambda>d5.
     chk_bind (i64_minus b day 1) (\<lambda>dd.
     chk_bind (i64_add b d5 dd) (\<lambda>d6.
     chk_bind (i64_minus b d6 719468) (\<lambda>days.
     i64_mul b days 86400000))))))))))))"

definition parse_or :: "i64 \<Rightarrow> string \<Rightarrow> i64" where
  "parse_or d s = (case parse_i64 s of Some v \<Rightarrow> v | None \<Rightarrow> d)"

definition last_part :: "string \<Rightarrow> string" where
  "last_part s = last (split_on (CHR ''#'') (trim_str s))"

definition parse_date_literal :: "build \<Rightarrow> string \<Rightarrow> i64 chk" where
  "parse_date_literal b s =
     (case split_on (CHR ''-'') (last_part s) of
        y # m # d # _ \<Rightarrow> ymd_to_epoch_ms b (parse_or 1970 y) (parse_or 1 m) (parse_or 1 d)
      | _ \<Rightarrow> Res 0)"

definition part_or_0 :: "string list \<Rightarrow> nat \<Rightarrow> i64" where
  "part_or_0 ps i = (case vec_at ps i of None \<Rightarrow> 0 | Some s \<Rightarrow> parse_or 0 s)"

definition parse_tod_literal :: "build \<Rightarrow> string \<Rightarrow> i64 chk" where
  "parse_tod_literal b s =
     (let body = last_part s;
          (time_part, frac) = (case split_once (CHR ''.'') body of
             Some (t, f) \<Rightarrow> (t, parse_num b (''0.'' @ f))
           | None \<Rightarrow> (body, f64_zero False));
          ps = split_on (CHR '':'') time_part
      in chk_bind (i64_mul b (part_or_0 ps 0) 3600000) (\<lambda>h.
         chk_bind (i64_mul b (part_or_0 ps 1) 60000) (\<lambda>m.
         chk_bind (i64_add b h m) (\<lambda>hm.
         chk_bind (i64_mul b (part_or_0 ps 2) 1000) (\<lambda>sec.
         chk_bind (i64_add b hm sec) (\<lambda>hms.
         chk_bind (i64_add b hms (f64_to_i64 (f64_mul frac (f64_of_int 1000)))) (\<lambda>tot.
         Res (word_of_int (sint tot mod 86400000)))))))))"

definition parse_dt_literal :: "build \<Rightarrow> string \<Rightarrow> i64 chk" where
  "parse_dt_literal b s =
     (case splitn 4 (CHR ''-'') (last_part s) of
        [y, m, d, rest] \<Rightarrow>
          chk_bind (ymd_to_epoch_ms b (parse_or 1970 y) (parse_or 1 m) (parse_or 1 d)) (\<lambda>date.
          chk_bind (parse_tod_literal b (''TOD#'' @ rest)) (\<lambda>tod.
          i64_add b date tod))
      | _ \<Rightarrow> Res 0)"

definition literal_to_value :: "build \<Rightarrow> literal \<Rightarrow> val chk" where
  "literal_to_value b l =
     (case li_kind l of
        L_Integer v \<Rightarrow> Res (V_Int v)
      | L_Real r \<Rightarrow> Res (V_Real r)
      | L_Bool v \<Rightarrow> Res (V_Bool v)
      | L_String s \<Rightarrow> Res (V_String s)
      | L_Time s \<Rightarrow> chk_bind (parse_time_literal b s) (\<lambda>t. Res (V_Time t))
      | L_Date s \<Rightarrow> chk_bind (parse_date_literal b s) (\<lambda>t. Res (V_Time t))
      | L_Tod s \<Rightarrow> chk_bind (parse_tod_literal b s) (\<lambda>t. Res (V_Time t))
      | L_Dt s \<Rightarrow> chk_bind (parse_dt_literal b s) (\<lambda>t. Res (V_Time t))
      | L_Null \<Rightarrow> Res V_Null
      | L_Typed _ raw \<Rightarrow>
          (case parse_i64 raw of
             Some v \<Rightarrow> Res (V_Int v)
           | None \<Rightarrow> (case bd_parse_f64 b raw of Some r \<Rightarrow> Res (V_Real r) | None \<Rightarrow> Res (V_Int 0))))"

end
