(* ===== verification/Vm_Ops.thy ===== *)
theory Vm_Ops
  imports Vm_State
begin

section \<open>Operations on values: the pure part of \<open>execute\<close> in crates/st-engine/src/vm.rs\<close>

text \<open>
  What each arithmetic, comparison, logic, conversion, string and bit instruction
  computes from the values of its registers. Operations that can panic return \<open>chk\<close>;
  \<open>checks\<close> says whether the build traps overflow (Rust's debug profile).
\<close>

unbundle bit_operations_syntax

subsection \<open>Arithmetic\<close>

text \<open>\<open>/\<close> and \<open>%\<close> on \<open>i64\<close> panic on zero and on \<open>MIN / -1\<close> in every build.\<close>

definition i64_div :: "i64 \<Rightarrow> i64 \<Rightarrow> i64 chk" where
  "i64_div a b =
     (if b = 0 \<or> \<not> i64_in_range (tdiv (sint a) (sint b)) then Panic ArithPanic
      else Res (word_of_int (tdiv (sint a) (sint b))))"

definition i64_rem :: "i64 \<Rightarrow> i64 \<Rightarrow> i64 chk" where
  "i64_rem a b =
     (if b = 0 \<or> \<not> i64_in_range (tdiv (sint a) (sint b)) then Panic ArithPanic
      else Res (word_of_int (trem (sint a) (sint b))))"

fun is_real :: "val \<Rightarrow> bool" where
  "is_real (V_Real _) = True"
| "is_real _ = False"

fun is_time :: "val \<Rightarrow> bool" where
  "is_time (V_Time _) = True"
| "is_time _ = False"

fun is_integer_val :: "val \<Rightarrow> bool" where
  "is_integer_val (V_Int _) = True"
| "is_integer_val (V_UInt _) = True"
| "is_integer_val _ = False"

definition arith_op ::
  "(i64 \<Rightarrow> i64 \<Rightarrow> i64 chk) \<Rightarrow> (f64 \<Rightarrow> f64 \<Rightarrow> f64) \<Rightarrow> val \<Rightarrow> val \<Rightarrow> val chk" where
  "arith_op int_op real_op l r =
     (if is_real l \<or> is_real r then Res (V_Real (real_op (as_real l) (as_real r)))
      else if is_time l \<or> is_time r
        then chk_bind (int_op (as_int l) (as_int r)) (\<lambda>i. Res (V_Time i))
      else chk_bind (int_op (as_int l) (as_int r)) (\<lambda>i. Res (V_Int i)))"

definition wrapping_add :: "i64 \<Rightarrow> i64 \<Rightarrow> i64 chk" where
  "wrapping_add a b = Res (a + b)"

definition wrapping_sub :: "i64 \<Rightarrow> i64 \<Rightarrow> i64 chk" where
  "wrapping_sub a b = Res (a - b)"

definition wrapping_mul :: "i64 \<Rightarrow> i64 \<Rightarrow> i64 chk" where
  "wrapping_mul a b = Res (a * b)"

definition val_add :: "val \<Rightarrow> val \<Rightarrow> val chk" where
  "val_add = arith_op wrapping_add f64_add"

definition val_sub :: "val \<Rightarrow> val \<Rightarrow> val chk" where
  "val_sub = arith_op wrapping_sub f64_sub"

definition val_mul :: "val \<Rightarrow> val \<Rightarrow> val chk" where
  "val_mul = arith_op wrapping_mul f64_mul"

definition val_div :: "val \<Rightarrow> val \<Rightarrow> val chk" where
  "val_div = arith_op i64_div f64_div"

fun val_neg :: "bool \<Rightarrow> val \<Rightarrow> val chk" where
  "val_neg checks (V_Int i) = chk_bind (i64_result checks (- sint i)) (\<lambda>j. Res (V_Int j))"
| "val_neg checks (V_Real r) = Res (V_Real (f64_neg r))"
| "val_neg checks v = chk_bind (i64_result checks (- sint (as_int v))) (\<lambda>j. Res (V_Int j))"

subsection \<open>Comparison\<close>

fun cmp_op :: "(i64 \<Rightarrow> i64 \<Rightarrow> bool) \<Rightarrow> (f64 \<Rightarrow> f64 \<Rightarrow> bool) \<Rightarrow> val \<Rightarrow> val \<Rightarrow> bool" where
  "cmp_op int_cmp real_cmp V_Null V_Null = int_cmp 0 0"
| "cmp_op int_cmp real_cmp (V_Ref _ _) V_Null = int_cmp 1 0"
| "cmp_op int_cmp real_cmp V_Null (V_Ref _ _) = int_cmp 1 0"
| "cmp_op int_cmp real_cmp (V_Ref t1 s1) (V_Ref t2 s2) =
     (if t1 = t2 \<and> s1 = s2 then int_cmp 0 0 else int_cmp 1 0)"
| "cmp_op int_cmp real_cmp l r =
     (if is_real l \<or> is_real r then real_cmp (as_real l) (as_real r)
      else int_cmp (as_int l) (as_int r))"

definition cmp_eq :: "val \<Rightarrow> val \<Rightarrow> bool" where
  "cmp_eq = cmp_op (\<lambda>a b. a = b) f64_eq"

definition cmp_ne :: "val \<Rightarrow> val \<Rightarrow> bool" where
  "cmp_ne = cmp_op (\<lambda>a b. a \<noteq> b) (\<lambda>a b. \<not> f64_eq a b)"

definition cmp_lt :: "val \<Rightarrow> val \<Rightarrow> bool" where
  "cmp_lt = cmp_op (\<lambda>a b. sint a < sint b) f64_lt"

definition cmp_gt :: "val \<Rightarrow> val \<Rightarrow> bool" where
  "cmp_gt = cmp_op (\<lambda>a b. sint b < sint a) (\<lambda>a b. f64_lt b a)"

definition cmp_le :: "val \<Rightarrow> val \<Rightarrow> bool" where
  "cmp_le = cmp_op (\<lambda>a b. sint a \<le> sint b) f64_le"

definition cmp_ge :: "val \<Rightarrow> val \<Rightarrow> bool" where
  "cmp_ge = cmp_op (\<lambda>a b. sint b \<le> sint a) (\<lambda>a b. f64_le b a)"

subsection \<open>Dates\<close>

definition day_ms :: int where
  "day_ms = 86400000"

definition to_tod :: "i64 \<Rightarrow> i64" where
  "to_tod ms = word_of_int (sint ms mod day_ms)"

definition dt_extract_date :: "bool \<Rightarrow> i64 \<Rightarrow> i64 chk" where
  "dt_extract_date checks ms = i64_result checks (sint ms div day_ms * day_ms)"

definition day_of_week :: "i64 \<Rightarrow> i64" where
  "day_of_week ms = word_of_int ((sint ms div day_ms + 4) mod 7)"

subsection \<open>Strings\<close>

fun reg_str :: "val \<Rightarrow> string" where
  "reg_str (V_String s) = s"
| "reg_str _ = []"

text \<open>\<open>n.max(0).min(s.len())\<close>.\<close>

definition clamp_len :: "i64 \<Rightarrow> string \<Rightarrow> nat" where
  "clamp_len n s = nat (min (max (sint n) 0) (int (length s)))"

definition string_left :: "string \<Rightarrow> i64 \<Rightarrow> string chk" where
  "string_left s n = slice s 0 (clamp_len n s)"

definition string_right :: "string \<Rightarrow> i64 \<Rightarrow> string chk" where
  "string_right s n = slice s (length s - clamp_len n s) (length s)"

definition string_mid :: "string \<Rightarrow> i64 \<Rightarrow> i64 \<Rightarrow> string chk" where
  "string_mid s len pos =
     (if sint pos < 1 \<or> sint len \<le> 0 \<or> int (length s) < sint pos then Res []
      else let start = nat (sint pos - 1)
           in slice s start (min (start + nat (sint len)) (length s)))"

definition string_find :: "string \<Rightarrow> string \<Rightarrow> i64" where
  "string_find hay needle =
     (if needle = [] then 0
      else case find_sub hay needle of Some i \<Rightarrow> of_nat i + 1 | None \<Rightarrow> 0)"

definition string_insert :: "string \<Rightarrow> string \<Rightarrow> i64 \<Rightarrow> string chk" where
  "string_insert s1 s2 pos =
     (let cut = clamp_len pos s1
      in chk_bind (slice s1 0 cut) (\<lambda>a.
         chk_bind (slice s1 cut (length s1)) (\<lambda>b. Res (a @ s2 @ b))))"

definition string_delete :: "string \<Rightarrow> i64 \<Rightarrow> i64 \<Rightarrow> string chk" where
  "string_delete s len pos =
     (if sint pos < 1 \<or> sint len \<le> 0 \<or> int (length s) < sint pos then Res s
      else let start = nat (sint pos - 1); end = min (start + nat (sint len)) (length s)
           in chk_bind (slice s 0 start) (\<lambda>a.
              chk_bind (slice s end (length s)) (\<lambda>b. Res (a @ b))))"

definition string_replace :: "string \<Rightarrow> string \<Rightarrow> i64 \<Rightarrow> i64 \<Rightarrow> string chk" where
  "string_replace s1 s2 len pos =
     (let cut = (if sint pos < 1 then 0 else min (nat (sint pos - 1)) (length s1));
          drop_end = min (cut + nat (max (sint len) 0)) (length s1)
      in chk_bind (slice s1 0 cut) (\<lambda>a.
         chk_bind (slice s1 drop_end (length s1)) (\<lambda>b. Res (a @ s2 @ b))))"

definition bool_text :: "bool \<Rightarrow> string" where
  "bool_text b = (if b then ''TRUE'' else ''FALSE'')"

definition string_to_int :: "string \<Rightarrow> i64" where
  "string_to_int s = (case parse_i64 (trim_str s) of Some i \<Rightarrow> i | None \<Rightarrow> 0)"

definition string_to_uint :: "string \<Rightarrow> u64" where
  "string_to_uint s = (case parse_u64 (trim_str s) of Some u \<Rightarrow> u | None \<Rightarrow> 0)"

definition string_to_real :: "rt_env \<Rightarrow> string \<Rightarrow> f64" where
  "string_to_real env s =
     (case env_parse_f64 env (trim_str s) of Some r \<Rightarrow> r | None \<Rightarrow> f64_zero False)"

definition string_to_bool :: "string \<Rightarrow> bool" where
  "string_to_bool s \<longleftrightarrow> eq_ignore_ascii_case (trim_str s) ''TRUE'' \<or> trim_str s = ''1''"

fun any_to_string :: "rt_env \<Rightarrow> val \<Rightarrow> string" where
  "any_to_string env (V_String s) = s"
| "any_to_string env (V_Int i) = show_int (sint i)"
| "any_to_string env (V_UInt u) = show_nat (unat u)"
| "any_to_string env (V_Real r) = env_fmt_debug env r"
| "any_to_string env (V_Bool b) = bool_text b"
| "any_to_string env (V_Time ms) = show_int (sint ms)"
| "any_to_string env _ = []"

subsection \<open>Bits\<close>

text \<open>A shift by 64 or more panics in a checked build and is taken modulo 64 otherwise.\<close>

definition shift_amount :: "bool \<Rightarrow> nat \<Rightarrow> nat chk" where
  "shift_amount checks n =
     (if n < 64 then Res n else if checks then Panic ArithPanic else Res (n mod 64))"

definition extract_bit :: "bool \<Rightarrow> i64 \<Rightarrow> u8 \<Rightarrow> bool chk" where
  "extract_bit checks v idx =
     chk_bind (shift_amount checks (unat idx)) (\<lambda>n. Res (signed_drop_bit n v AND 1 \<noteq> 0))"

definition insert_bit :: "bool \<Rightarrow> i64 \<Rightarrow> u8 \<Rightarrow> bool \<Rightarrow> i64 chk" where
  "insert_bit checks base idx b =
     chk_bind (shift_amount checks (unat idx))
       (\<lambda>n. Res (if b then base OR push_bit n 1 else base AND NOT (push_bit n 1)))"

definition partial_mask :: "bool \<Rightarrow> u8 \<Rightarrow> i64 chk" where
  "partial_mask checks size_bits =
     (if unat size_bits \<ge> 64 then Res (-1)
      else i64_result checks (sint (push_bit (unat size_bits) 1 :: i64) - 1))"

definition extract_partial :: "bool \<Rightarrow> i64 \<Rightarrow> u8 \<Rightarrow> u8 \<Rightarrow> i64 chk" where
  "extract_partial checks v index size_bits =
     chk_bind (partial_mask checks size_bits) (\<lambda>mask.
     chk_bind (shift_amount checks (unat index * unat size_bits))
       (\<lambda>n. Res (signed_drop_bit n v AND mask)))"

definition insert_partial :: "bool \<Rightarrow> i64 \<Rightarrow> u8 \<Rightarrow> u8 \<Rightarrow> i64 \<Rightarrow> i64 chk" where
  "insert_partial checks base index size_bits new =
     chk_bind (partial_mask checks size_bits) (\<lambda>mask.
     chk_bind (shift_amount checks (unat index * unat size_bits))
       (\<lambda>n. Res ((base AND NOT (push_bit n mask)) OR push_bit n (new AND mask))))"

end
