(* ===== verification/Narrow.thy ===== *)
theory Narrow
  imports Vm_State
begin

section \<open>What \<open>narrow_value\<close> computes\<close>

text \<open>
  The abstract reading of a stored integer: a value denotes a mathematical integer, a
  declared width is a range and a number of bits, and narrowing a value takes it to the
  one integer of the range that is congruent to it modulo two to the bits.
\<close>

fun int_of_val :: "val \<Rightarrow> int option" where
  "int_of_val (V_Int i) = Some (sint i)"
| "int_of_val (V_UInt u) = Some (uint u)"
| "int_of_val _ = None"

fun width_bits :: "int_width \<Rightarrow> nat" where
  "width_bits W_None = 64"
| "width_bits I8 = 8" | "width_bits U8 = 8"
| "width_bits I16 = 16" | "width_bits U16 = 16"
| "width_bits I32 = 32" | "width_bits U32 = 32"
| "width_bits I64 = 64" | "width_bits U64 = 64"

fun width_signed :: "int_width \<Rightarrow> bool" where
  "width_signed I8 = True" | "width_signed I16 = True"
| "width_signed I32 = True" | "width_signed I64 = True"
| "width_signed _ = False"

definition width_min :: "int_width \<Rightarrow> int" where
  "width_min w = (if width_signed w then - (2 ^ (width_bits w - 1)) else 0)"

definition in_width :: "int_width \<Rightarrow> int \<Rightarrow> bool" where
  "in_width w i \<longleftrightarrow> width_min w \<le> i \<and> i < width_min w + 2 ^ width_bits w"

text \<open>The two ways of cutting a 64-bit word down and widening it again.\<close>

lemma ucast_sint:
  "LENGTH('a::len) \<le> 64 \<Longrightarrow> (unsigned (i :: i64) :: 'a word) = word_of_int (sint i)"
  by transfer (simp add: take_bit_signed_take_bit)

lemma sint_cut:
  assumes "LENGTH('a::len) \<le> 64"
  shows "sint (signed (unsigned (i :: i64) :: 'a word) :: i64) =
    (sint i + 2 ^ (LENGTH('a) - 1)) mod 2 ^ LENGTH('a) - 2 ^ (LENGTH('a) - 1)"
proof -
  have "sint (signed (unsigned i :: 'a word) :: i64) = sint (unsigned i :: 'a word)"
    by (rule sint_up_scast) (use assms in \<open>simp add: is_up\<close>)
  also have "\<dots> = sint (word_of_int (sint i) :: 'a word)"
    by (simp only: ucast_sint [OF assms])
  finally show ?thesis by (simp only: int_word_sint)
qed

lemma uint_cut:
  assumes "LENGTH('a::len) \<le> 64"
  shows "uint (unsigned (unsigned (i :: i64) :: 'a word) :: u64) = sint i mod 2 ^ LENGTH('a)"
proof -
  have "uint (unsigned (unsigned i :: 'a word) :: u64) = uint (unsigned i :: 'a word)"
    by (rule uint_up_ucast) (use assms in \<open>simp add: is_up\<close>)
  also have "\<dots> = uint (word_of_int (sint i) :: 'a word)"
    by (simp only: ucast_sint [OF assms])
  finally show ?thesis by (simp only: uint_word_of_int)
qed

lemmas sint_sext =
  sint_cut [where 'a = 8, folded sext8_def, simplified]
  sint_cut [where 'a = 16, folded sext16_def, simplified]
  sint_cut [where 'a = 32, folded sext32_def, simplified]

lemmas uint_zext =
  uint_cut [where 'a = 8, folded zext8_def, simplified]
  uint_cut [where 'a = 16, folded zext16_def, simplified]
  uint_cut [where 'a = 32, folded zext32_def, simplified]

lemma uint_sint_cong: "(2 ^ 64 :: int) dvd uint (w :: i64) - sint w"
proof -
  have "sint w = (uint w + 2 ^ 63) mod 2 ^ 64 - 2 ^ 63"
    using int_word_sint [of "uint w", where 'a = 64] by simp
  then have "uint w - sint w = 2 ^ 64 * ((uint w + 2 ^ 63) div 2 ^ 64)"
    by (simp add: minus_mod_eq_mult_div [symmetric])
  then show ?thesis by (metis dvd_triv_left)
qed

lemma dvd_wrap: "(b :: int) dvd ((x + h) mod b - h) - x"
proof -
  have "((x + h) mod b - h) - x = b * (- ((x + h) div b))"
    by (simp add: minus_div_mult_eq_mod [symmetric] algebra_simps)
  then show ?thesis by (metis dvd_triv_left)
qed

lemma dvd_mod: "(b :: int) dvd x mod b - x"
  using dvd_wrap [of b x 0] by simp

lemma sext_cong:
  "256 dvd sint (sext8 i) - sint i" "65536 dvd sint (sext16 i) - sint i"
  "4294967296 dvd sint (sext32 i) - sint i"
  by (simp_all only: sint_sext dvd_wrap)

lemma zext_cong:
  "256 dvd uint (zext8 i) - sint i" "65536 dvd uint (zext16 i) - sint i"
  "4294967296 dvd uint (zext32 i) - sint i"
  by (simp_all only: uint_zext dvd_mod)

lemma cong_uint:
  "256 dvd uint (w :: i64) - sint w" "65536 dvd uint w - sint w" "4294967296 dvd uint w - sint w"
  using uint_sint_cong [of w] by (auto intro: dvd_trans [where b = "2 ^ 64"])

lemma dvd_diff_chain: "(b :: int) dvd x - y \<Longrightarrow> b dvd z - y \<Longrightarrow> b dvd x - z"
  using dvd_diff [of b "x - y" "z - y"] by simp

lemma sext_range: "in_width I8 (sint (sext8 i))" "in_width I16 (sint (sext16 i))"
  "in_width I32 (sint (sext32 i))"
  by (simp_all add: sint_sext in_width_def width_min_def)

lemma zext_range: "in_width U8 (uint (zext8 i))" "in_width U16 (uint (zext16 i))"
  "in_width U32 (uint (zext32 i))"
  by (simp_all add: uint_zext in_width_def width_min_def)

lemma full_range: "in_width I64 (sint (w :: i64))" "in_width U64 (uint (w :: u64))"
  using sint_i64_range [of w] uint_lt2p [of w]
  by (simp_all add: i64_in_range_def in_width_def width_min_def)

lemma narrow_value_spec:
  assumes "int_of_val v = Some i" "w \<noteq> W_None"
  shows "\<exists>j. int_of_val (narrow_value v w) = Some j \<and> in_width w j \<and> 2 ^ width_bits w dvd j - i"
proof (cases v)
  case (V_Int x)
  with assms show ?thesis
    by (cases w) (auto simp: sext_range zext_range full_range sext_cong zext_cong
        uint_sint_cong [simplified])
next
  case (V_UInt x)
  have "b dvd y - uint x" if "b dvd y - sint x" "b dvd uint x - sint x" for b y
    using that by (rule dvd_diff_chain)
  moreover have "18446744073709551616 dvd sint x - uint x"
    using uint_sint_cong [of x] by (simp add: dvd_diff_commute)
  ultimately show ?thesis using V_UInt assms
    by (cases w) (auto simp: sext_range zext_range full_range sext_cong zext_cong cong_uint)
qed (use assms in auto)

text \<open>A value already in the range of the width keeps its meaning.\<close>

lemma in_width_unique:
  assumes "in_width w i" "in_width w j" "2 ^ width_bits w dvd j - i"
  shows "i = j"
proof -
  obtain k where k: "j - i = 2 ^ width_bits w * k" using assms(3) by (auto elim: dvdE)
  have "\<bar>j - i\<bar> < 2 ^ width_bits w" using assms(1,2) by (auto simp: in_width_def)
  then have "2 ^ width_bits w * \<bar>k\<bar> < 2 ^ width_bits w * 1" by (simp add: k abs_mult)
  then have "k = 0" by (simp add: mult_less_cancel_left)
  with k show ?thesis by simp
qed

lemma narrow_value_in_range:
  assumes "int_of_val v = Some i" "w \<noteq> W_None" "in_width w i"
  shows "int_of_val (narrow_value v w) = Some i"
  using narrow_value_spec [OF assms(1,2)] in_width_unique [OF assms(3)] by auto

lemma sint_inj: "sint a = sint (b :: i64) \<Longrightarrow> a = b"
  by (metis word_of_int_sint_i64)

lemma sext_twice [simp]:
  "sext8 (sext8 i) = sext8 i" "sext16 (sext16 i) = sext16 i" "sext32 (sext32 i) = sext32 i"
  using narrow_value_in_range [of "V_Int (sext8 i)" _ I8] narrow_value_in_range [of "V_Int (sext16 i)" _ I16]
    narrow_value_in_range [of "V_Int (sext32 i)" _ I32]
  by (simp_all add: sext_range sint_inj)

lemma zext_twice [simp]:
  "zext8 (zext8 i) = zext8 i" "zext16 (zext16 i) = zext16 i" "zext32 (zext32 i) = zext32 i"
  using narrow_value_in_range [of "V_UInt (zext8 i)" _ U8] narrow_value_in_range [of "V_UInt (zext16 i)" _ U16]
    narrow_value_in_range [of "V_UInt (zext32 i)" _ U32]
  by (simp_all add: zext_range word_uint_eq_iff)

lemma narrow_value_twice: "narrow_value (narrow_value v w) w = narrow_value v w"
  by (cases v; cases w) simp_all

end
