(* ===== verification/Vm_Exec.thy ===== *)
theory Vm_Exec
  imports Vm_Ops Narrow
begin

section \<open>Fetch, decode, execute: crates/st-engine/src/vm.rs\<close>

text \<open>
  One definition per arm of the interpreter's match, the calls and returns with the
  state they save, the dispatcher \<open>exec_instr\<close>, one round of the loop (\<open>vm_step\<close>) and the
  loop itself (\<open>execute\<close>, \<open>None\<close> where it does not return).

  An arm yields \<open>Next\<close> with the state after it, \<open>Done\<close> when the outermost function has
  returned, \<open>Fail\<close> with the error and the state the VM is left in (the call stack is not
  unwound), or \<open>Crash\<close> for a panic.
\<close>

datatype outcome = Next vm | Done vm val | Fail vm vm_error | Crash panic

primrec with_chk :: "'a chk \<Rightarrow> ('a \<Rightarrow> outcome) \<Rightarrow> outcome" where
  "with_chk (Res x) f = f x"
| "with_chk (Panic p) f = Crash p"

subsection \<open>Registers and locals of the running frame\<close>

definition top_frame :: "vm \<Rightarrow> frame chk" where
  "top_frame vm = (case vm_stack vm of [] \<Rightarrow> Panic IndexPanic | f # _ \<Rightarrow> Res f)"

definition set_top :: "frame \<Rightarrow> vm \<Rightarrow> vm" where
  "set_top f vm = vm\<lparr>vm_stack := f # tl (vm_stack vm)\<rparr>"

definition func_at :: "vm \<Rightarrow> u16 \<Rightarrow> func chk" where
  "func_at vm i = vec_get (vm_functions vm) (unat i)"

definition reg_get :: "vm \<Rightarrow> reg \<Rightarrow> val chk" where
  "reg_get vm r = chk_bind (top_frame vm) (\<lambda>f. vec_get (fr_regs f) (unat r))"

definition reg_set :: "reg \<Rightarrow> val \<Rightarrow> vm \<Rightarrow> vm chk" where
  "reg_set r v vm =
     chk_bind (top_frame vm) (\<lambda>f.
     chk_bind (vec_set (fr_regs f) (unat r) v) (\<lambda>rs. Res (set_top (f\<lparr>fr_regs := rs\<rparr>) vm)))"

definition local_get :: "vm \<Rightarrow> u16 \<Rightarrow> val chk" where
  "local_get vm s = chk_bind (top_frame vm) (\<lambda>f. vec_get (fr_locals f) (unat s))"

definition local_set :: "u16 \<Rightarrow> val \<Rightarrow> vm \<Rightarrow> vm chk" where
  "local_set s v vm =
     chk_bind (top_frame vm) (\<lambda>f.
     chk_bind (func_at vm (fr_func f)) (\<lambda>fn.
     chk_bind (vec_set (fr_locals f) (unat s)
         (narrow_value v (slot_width (fn_locals fn) (unat s)))) (\<lambda>ls.
     Res (set_top (f\<lparr>fr_locals := ls\<rparr>) vm))))"

definition put :: "reg \<Rightarrow> val \<Rightarrow> vm \<Rightarrow> outcome" where
  "put r v vm = with_chk (reg_set r v vm) Next"

definition op1 :: "(val \<Rightarrow> val chk) \<Rightarrow> reg \<Rightarrow> reg \<Rightarrow> vm \<Rightarrow> outcome" where
  "op1 f dst src vm =
     with_chk (reg_get vm src) (\<lambda>v. with_chk (f v) (\<lambda>x. put dst x vm))"

definition op2 :: "(val \<Rightarrow> val \<Rightarrow> val chk) \<Rightarrow> reg \<Rightarrow> reg \<Rightarrow> reg \<Rightarrow> vm \<Rightarrow> outcome" where
  "op2 f dst l r vm =
     with_chk (reg_get vm l) (\<lambda>a. with_chk (reg_get vm r) (\<lambda>b.
     with_chk (f a b) (\<lambda>x. put dst x vm)))"

definition op3 ::
  "(val \<Rightarrow> val \<Rightarrow> val \<Rightarrow> val chk) \<Rightarrow> reg \<Rightarrow> reg \<Rightarrow> reg \<Rightarrow> reg \<Rightarrow> vm \<Rightarrow> outcome" where
  "op3 f dst a b c vm =
     with_chk (reg_get vm a) (\<lambda>x. with_chk (reg_get vm b) (\<lambda>y. with_chk (reg_get vm c) (\<lambda>z.
     with_chk (f x y z) (\<lambda>w. put dst w vm))))"

definition string_chk :: "string chk \<Rightarrow> val chk" where
  "string_chk s = chk_bind s (\<lambda>t. Res (V_String t))"

definition math_fn :: "rt_env \<Rightarrow> math_fn \<Rightarrow> reg \<Rightarrow> reg \<Rightarrow> vm \<Rightarrow> outcome" where
  "math_fn env m = op1 (\<lambda>v. Res (V_Real (env_math env m (as_real v))))"

subsection \<open>Variables\<close>

text \<open>A load looks the slot's bare name up among the forced variables first.\<close>

definition forced_value :: "vm \<Rightarrow> var_slot list \<Rightarrow> u16 \<Rightarrow> val option" where
  "forced_value vm ss slot =
     (case vec_at ss (unat slot) of
        None \<Rightarrow> None
      | Some s \<Rightarrow> hm_get (vm_forced vm) (to_upper (vs_name s)))"

definition exec_LoadLocal :: "u16 \<Rightarrow> reg \<Rightarrow> u16 \<Rightarrow> vm \<Rightarrow> outcome" where
  "exec_LoadLocal fi dst slot vm =
     with_chk (func_at vm fi) (\<lambda>fn.
     case forced_value vm (slots (fn_locals fn)) slot of
       Some v \<Rightarrow> put dst v vm
     | None \<Rightarrow> with_chk (local_get vm slot) (\<lambda>v. put dst v vm))"

definition exec_StoreLocal :: "u16 \<Rightarrow> reg \<Rightarrow> vm \<Rightarrow> outcome" where
  "exec_StoreLocal slot src vm =
     with_chk (reg_get vm src) (\<lambda>v. with_chk (local_set slot v vm) Next)"

definition exec_LoadGlobal :: "reg \<Rightarrow> u16 \<Rightarrow> vm \<Rightarrow> outcome" where
  "exec_LoadGlobal dst slot vm =
     (case forced_value vm (global_slots vm) slot of
        Some v \<Rightarrow> put dst v vm
      | None \<Rightarrow> with_chk (vec_get (vm_globals vm) (unat slot)) (\<lambda>v. put dst v vm))"

definition exec_StoreGlobal :: "u16 \<Rightarrow> reg \<Rightarrow> vm \<Rightarrow> outcome" where
  "exec_StoreGlobal slot src vm =
     (if slot \<in> vm_forced_slots vm then Next vm
      else with_chk (reg_get vm src) (\<lambda>v.
        with_chk (vec_set (vm_globals vm) (unat slot)
            (narrow_value v (slot_width (md_globals (vm_module vm)) (unat slot))))
          (\<lambda>gs. Next (vm\<lparr>vm_globals := gs\<rparr>))))"

subsection \<open>Division\<close>

definition exec_Div :: "reg \<Rightarrow> reg \<Rightarrow> reg \<Rightarrow> vm \<Rightarrow> outcome" where
  "exec_Div dst l r vm =
     with_chk (reg_get vm r) (\<lambda>rv.
     if as_int rv = 0 \<and> is_integer_val rv then Fail vm DivisionByZero
     else op2 val_div dst l r vm)"

definition exec_Mod :: "reg \<Rightarrow> reg \<Rightarrow> reg \<Rightarrow> vm \<Rightarrow> outcome" where
  "exec_Mod dst l r vm =
     with_chk (reg_get vm r) (\<lambda>rv.
     if as_int rv = 0 then Fail vm DivisionByZero
     else op2 (\<lambda>a b. chk_bind (i64_rem (as_int a) (as_int b)) (\<lambda>i. Res (V_Int i))) dst l r vm)"

subsection \<open>Jumps\<close>

definition jump_to :: "label \<Rightarrow> vm \<Rightarrow> outcome" where
  "jump_to lbl vm =
     with_chk (top_frame vm) (\<lambda>f.
     with_chk (func_at vm (fr_func f)) (\<lambda>fn.
     case vec_at (fn_label_positions fn) (unat lbl) of
       None \<Rightarrow> Fail vm (InvalidLabel lbl)
     | Some t \<Rightarrow> Next (set_top (f\<lparr>fr_pc := t\<rparr>) vm)))"

definition exec_JumpIf :: "bool \<Rightarrow> reg \<Rightarrow> label \<Rightarrow> vm \<Rightarrow> outcome" where
  "exec_JumpIf sense r lbl vm =
     with_chk (reg_get vm r) (\<lambda>v. if as_bool v = sense then jump_to lbl vm else Next vm)"

subsection \<open>Calls\<close>

definition fresh_frame ::
  "u16 \<Rightarrow> func \<Rightarrow> val list \<Rightarrow> nat \<Rightarrow> u16 option \<Rightarrow> frame" where
  "fresh_frame fi fn ls pc inst =
     \<lparr>fr_func = fi, fr_regs = replicate (max (unat (fn_register_count fn)) 1) default_val,
      fr_locals = ls, fr_pc = pc, fr_return_reg = None, fr_instance = inst\<rparr>"

text \<open>Arguments are stored one after the other; a slot out of range is skipped.\<close>

fun pass_args :: "vm \<Rightarrow> (nat \<times> reg) list \<Rightarrow> val list \<Rightarrow> val list chk" where
  "pass_args vm [] ls = Res ls"
| "pass_args vm ((slot, r) # args) ls =
     chk_bind (reg_get vm r) (\<lambda>v.
       pass_args vm args (if slot < length ls then ls[slot := v] else ls))"

definition slot_args :: "(u16 \<times> reg) list \<Rightarrow> (nat \<times> reg) list" where
  "slot_args args = map (\<lambda>(s, r). (unat s, r)) args"

definition call_function :: "u16 \<Rightarrow> reg option \<Rightarrow> (u16 \<times> reg) list \<Rightarrow> vm \<Rightarrow> outcome" where
  "call_function fi ret args vm =
     (if length (vm_stack vm) \<ge> max_call_depth (vm_conf vm)
      then Fail vm (StackOverflow (max_call_depth (vm_conf vm)))
      else case vec_at (vm_functions vm) (unat fi) of
        None \<Rightarrow> Fail vm (InvalidFunction fi)
      | Some fn \<Rightarrow>
          with_chk (pass_args vm (slot_args args) (default_locals (fn_locals fn))) (\<lambda>ls.
          let vm1 = (case (ret, vm_stack vm) of
                (Some r, f # rest) \<Rightarrow> vm\<lparr>vm_stack := f\<lparr>fr_return_reg := Some r\<rparr> # rest\<rparr>
              | _ \<Rightarrow> vm)
          in Next (vm1\<lparr>vm_stack := fresh_frame fi fn ls 0 None # vm_stack vm1\<rparr>)))"

text \<open>The locals of a native block have its arrays expanded in place.\<close>

definition array_elem_type :: "ir_module \<Rightarrow> u16 \<Rightarrow> var_type" where
  "array_elem_type m td =
     (case vec_at (md_type_defs m) (unat td) of Some (TD_Array el _) \<Rightarrow> el | _ \<Rightarrow> T_Int)"

definition slot_defaults :: "ir_module \<Rightarrow> var_slot \<Rightarrow> val list" where
  "slot_defaults m s =
     (case vs_ty s of
        T_Array td \<Rightarrow> replicate (vs_size s) (default_for_type (array_elem_type m td))
      | ty \<Rightarrow> [default_for_type ty])"

definition native_defaults :: "ir_module \<Rightarrow> memory_layout \<Rightarrow> val list" where
  "native_defaults m l = concat (map (slot_defaults m) (slots l))"

text \<open>
  After a native block has run, forced fields (\<open>Program.instance.field\<close>) overwrite what
  it wrote.
\<close>

definition reapply_forced :: "vm \<Rightarrow> u16 \<Rightarrow> func \<Rightarrow> val list \<Rightarrow> val list chk" where
  "reapply_forced vm inst fb ls =
     (if vm_forced vm = [] then Res ls
      else case vm_stack vm of
        [] \<Rightarrow> Res ls
      | caller # _ \<Rightarrow>
          chk_bind (func_at vm (fr_func caller)) (\<lambda>prog.
          case vec_at (slots (fn_locals prog)) (unat inst) of
            None \<Rightarrow> Res ls
          | Some sd \<Rightarrow>
              Res (fold (\<lambda>(i, s) acc.
                  let vi = expanded_index (fn_locals fb) i;
                      q = fn_name prog @ ''.'' @ vs_name sd @ ''.'' @ vs_name s
                  in case hm_get (vm_forced vm) (to_upper q) of
                       None \<Rightarrow> acc
                     | Some v \<Rightarrow> if vi < length acc then acc[vi := v] else acc)
                (enumerate 0 (slots (fn_locals fb))) ls)))"

definition call_fb ::
  "rt_env \<Rightarrow> u16 \<Rightarrow> u16 \<Rightarrow> (u16 \<times> reg) list \<Rightarrow> vm \<Rightarrow> outcome" where
  "call_fb env fi inst args vm =
     (if length (vm_stack vm) \<ge> max_call_depth (vm_conf vm)
      then Fail vm (StackOverflow (max_call_depth (vm_conf vm)))
      else case vec_at (vm_functions vm) (unat fi) of
        None \<Rightarrow> Fail vm (InvalidFunction fi)
      | Some fn \<Rightarrow>
          let key = (caller_identity vm, inst);
              native = fi \<in> set (md_native_fb_indices (vm_module vm));
              start = (case hm_get (vm_fb vm) key of
                  Some st \<Rightarrow> st
                | None \<Rightarrow> if native then native_defaults (vm_module vm) (fn_locals fn)
                          else default_locals (fn_locals fn));
              start = pad_to (length (slots (fn_locals fn))) default_val start
          in with_chk (pass_args vm (slot_args args) start) (\<lambda>ls.
             if native then
               let ls1 = (case env_native env (fn_name fn) of None \<Rightarrow> ls | Some run \<Rightarrow> run ls)
               in with_chk (reapply_forced vm inst fn ls1) (\<lambda>ls2.
                    Next (vm\<lparr>vm_fb := hm_insert key ls2 (vm_fb vm)\<rparr>))
             else Next (vm\<lparr>vm_stack :=
                    fresh_frame fi fn ls (fn_body_start_pc fn) (Some inst) # vm_stack vm\<rparr>)))"

subsection \<open>Class instances\<close>

text \<open>The name of a method is \<open>Class.Method\<close>; the part before the dot is its class.\<close>

definition before_dot :: "string \<Rightarrow> string option" where
  "before_dot s = map_option (\<lambda>i. take i s) (find_index (\<lambda>c. c = CHR ''.'') s)"

definition find_method_class_var_count :: "vm \<Rightarrow> u16 \<Rightarrow> u16 \<Rightarrow> nat chk" where
  "find_method_class_var_count vm method instance_class =
     chk_bind (func_at vm method) (\<lambda>fn.
     case (case before_dot (fn_name fn) of
             None \<Rightarrow> None | Some c \<Rightarrow> find_function (vm_module vm) c) of
       Some (_, cls) \<Rightarrow> Res (length (slots (fn_locals cls)))
     | None \<Rightarrow> chk_bind (func_at vm instance_class) (\<lambda>c. Res (length (slots (fn_locals c)))))"

text \<open>
  The initial values of a class: only \<open>LoadConst\<close> and \<open>StoreLocal\<close> are interpreted, on a
  register file of 256.
\<close>

fun run_class_init ::
  "nat \<Rightarrow> instruction list \<Rightarrow> val list \<Rightarrow> val list \<Rightarrow> val list chk" where
  "run_class_init n [] regs ls = Res ls"
| "run_class_init n (ins # rest) regs ls =
     (case ins of
        LoadConst dst v \<Rightarrow>
          chk_bind (vec_set regs (unat dst) v) (\<lambda>rs. run_class_init n rest rs ls)
      | StoreLocal slot src \<Rightarrow>
          (if unat slot < n \<and> unat slot < length ls
           then chk_bind (vec_get regs (unat src))
                  (\<lambda>v. run_class_init n rest regs (ls[unat slot := v]))
           else run_class_init n rest regs ls)
      | RetVoid \<Rightarrow> Res ls
      | Ret _ \<Rightarrow> Res ls
      | _ \<Rightarrow> run_class_init n rest regs ls)"

definition init_class_instance :: "vm \<Rightarrow> u16 \<Rightarrow> nat \<Rightarrow> val list \<Rightarrow> val list chk" where
  "init_class_instance vm cls n ls =
     chk_bind (func_at vm cls) (\<lambda>fn.
       run_class_init n (fn_instructions fn) (replicate 256 default_val) ls)"

text \<open>Where an argument of a method goes: a \<open>u16\<close> sum past the class's variables.\<close>

fun method_args :: "bool \<Rightarrow> nat \<Rightarrow> (u16 \<times> reg) list \<Rightarrow> (nat \<times> reg) list chk" where
  "method_args checks n [] = Res []"
| "method_args checks n ((s, r) # args) =
     (if checks \<and> n mod 65536 + unat s \<ge> 65536 then Panic ArithPanic
      else chk_bind (method_args checks n args)
             (\<lambda>as. Res (((n mod 65536 + unat s) mod 65536, r) # as)))"

definition exec_CallMethod ::
  "rt_env \<Rightarrow> u16 \<Rightarrow> u16 \<Rightarrow> u16 \<Rightarrow> reg \<Rightarrow> (u16 \<times> reg) list \<Rightarrow> vm \<Rightarrow> outcome" where
  "exec_CallMethod env inst cls fi dst args vm =
     with_chk (func_at vm fi) (\<lambda>mf. with_chk (func_at vm cls) (\<lambda>cf.
     with_chk (find_method_class_var_count vm fi cls) (\<lambda>n.
     let key = (caller_identity vm, inst); defaults = default_locals (fn_locals mf)
     in with_chk
          (case hm_get (vm_fb vm) key of
             Some saved \<Rightarrow>
               Res (copy_prefix (min (min n (length saved)) (length defaults)) saved defaults, vm)
           | None \<Rightarrow>
               chk_bind (init_class_instance vm cls (length (slots (fn_locals cf)))
                   (replicate (length (slots (fn_locals cf))) default_val)) (\<lambda>st.
               Res (copy_prefix (min (min n (length st)) (length defaults)) st defaults,
                    vm\<lparr>vm_fb := hm_insert key st (vm_fb vm)\<rparr>)))
          (\<lambda>(ls, vm1).
        with_chk (chk_bind (method_args (env_checks env) n args)
                   (\<lambda>as. pass_args vm1 as ls)) (\<lambda>ls1.
        if length (vm_stack vm1) \<ge> max_call_depth (vm_conf vm1)
        then Fail vm1 (StackOverflow (max_call_depth (vm_conf vm1)))
        else with_chk (top_frame vm1) (\<lambda>f.
          Next (vm1\<lparr>vm_stack := fresh_frame fi mf ls1 0 (Some inst)
                   # f\<lparr>fr_return_reg := Some dst\<rparr> # tl (vm_stack vm1)\<rparr>)))))))"

subsection \<open>Returns\<close>

text \<open>What a frame leaves behind when it ends, by the kind of its function.\<close>

definition save_retained_locals :: "vm \<Rightarrow> vm chk" where
  "save_retained_locals vm =
     (case vm_stack vm of
        [] \<Rightarrow> Res vm
      | f # rest \<Rightarrow>
          chk_bind (func_at vm (fr_func f)) (\<lambda>fn.
          let caller = (case rest of [] \<Rightarrow> 0 | c # _ \<Rightarrow> frame_identity c)
          in case (fn_kind fn, fr_instance f) of
               (Pou_Program, _) \<Rightarrow>
                 Res (vm\<lparr>vm_retained := hm_insert (fr_func f) (fr_locals f) (vm_retained vm)\<rparr>)
             | (Pou_Function, _) \<Rightarrow> Res vm
             | (_, None) \<Rightarrow> Res vm
             | (Pou_Method, Some slot) \<Rightarrow>
                 (if rest = [] then Res vm
                  else chk_bind (find_method_class_var_count vm (fr_func f) 0) (\<lambda>n.
                    case hm_get (vm_fb vm) (caller, slot) of
                      Some st \<Rightarrow>
                        Res (vm\<lparr>vm_fb := hm_insert (caller, slot)
                          (copy_prefix (min (min n (length st)) (length (fr_locals f)))
                            (fr_locals f) st) (vm_fb vm)\<rparr>)
                    | None \<Rightarrow>
                        Res (vm\<lparr>vm_fb := hm_insert (caller, slot)
                          (take (min n (length (fr_locals f))) (fr_locals f)) (vm_fb vm)\<rparr>)))
             | (_, Some slot) \<Rightarrow>
                 (if rest = [] then Res vm
                  else Res (vm\<lparr>vm_fb := hm_insert (caller, slot) (fr_locals f) (vm_fb vm)\<rparr>))))"

text \<open>Hand a value to the caller's return register, if it waits for one.\<close>

definition deliver :: "val \<Rightarrow> vm \<Rightarrow> vm chk" where
  "deliver v vm =
     (case vm_stack vm of
        [] \<Rightarrow> Res vm
      | c # rest \<Rightarrow>
          (case fr_return_reg c of
             None \<Rightarrow> Res vm
           | Some r \<Rightarrow>
               chk_bind (vec_set (fr_regs c) (unat r) v) (\<lambda>rs.
                 Res (vm\<lparr>vm_stack := c\<lparr>fr_regs := rs, fr_return_reg := None\<rparr> # rest\<rparr>))))"

definition pop_frame :: "vm \<Rightarrow> vm" where
  "pop_frame vm = vm\<lparr>vm_stack := tl (vm_stack vm)\<rparr>"

definition implicit_return :: "vm \<Rightarrow> outcome" where
  "implicit_return vm =
     with_chk (save_retained_locals vm) (\<lambda>vm1. with_chk (deliver V_Void (pop_frame vm1)) Next)"

definition exec_Ret :: "reg \<Rightarrow> vm \<Rightarrow> outcome" where
  "exec_Ret r vm =
     with_chk (reg_get vm r) (\<lambda>v.
     with_chk (save_retained_locals vm) (\<lambda>vm1.
     with_chk (deliver v (pop_frame vm1)) (\<lambda>vm2.
     if vm_stack vm2 = [] then Done vm2 v else Next vm2)))"

definition exec_RetVoid :: "vm \<Rightarrow> outcome" where
  "exec_RetVoid vm =
     with_chk (save_retained_locals vm) (\<lambda>vm1.
     case vm_stack (pop_frame vm1) of
       [] \<Rightarrow> Done (pop_frame vm1) V_Void
     | c # rest \<Rightarrow> Next (vm1\<lparr>vm_stack := c\<lparr>fr_return_reg := None\<rparr> # rest\<rparr>))"

end
