(* ===== verification/Native_Fb.thy ===== *)
theory Native_Fb
  imports Literals Vm_Exec
begin

section \<open>Device profiles and native blocks: crates/st-comm-api\<close>

text \<open>
  A device profile lists the fields of a device; four functions turn it into the layout of a
  native function block, which the compiler turns into a memory layout. Arrays are stored in
  place, so that an offset is not a slot number. Reading a profile from YAML is serde's.
\<close>

subsection \<open>Profiles: profile.rs\<close>

datatype field_data_type =
    Fd_Bool | Fd_Sint | Fd_Int | Fd_Dint | Fd_Lint | Fd_Usint | Fd_Uint | Fd_Udint | Fd_Ulint
  | Fd_Real | Fd_Lreal | Fd_Byte | Fd_Word | Fd_Dword | Fd_Lword | Fd_String | Fd_Time

fun st_type_name :: "field_data_type \<Rightarrow> string" where
  "st_type_name Fd_Bool = ''BOOL''"
| "st_type_name Fd_Sint = ''SINT''"
| "st_type_name Fd_Int = ''INT''"
| "st_type_name Fd_Dint = ''DINT''"
| "st_type_name Fd_Lint = ''LINT''"
| "st_type_name Fd_Usint = ''USINT''"
| "st_type_name Fd_Uint = ''UINT''"
| "st_type_name Fd_Udint = ''UDINT''"
| "st_type_name Fd_Ulint = ''ULINT''"
| "st_type_name Fd_Real = ''REAL''"
| "st_type_name Fd_Lreal = ''LREAL''"
| "st_type_name Fd_Byte = ''BYTE''"
| "st_type_name Fd_Word = ''WORD''"
| "st_type_name Fd_Dword = ''DWORD''"
| "st_type_name Fd_Lword = ''LWORD''"
| "st_type_name Fd_String = ''STRING''"
| "st_type_name Fd_Time = ''TIME''"

datatype field_direction = Dir_Input | Dir_Output | Dir_Inout

datatype register_kind = Coil | Discrete_Input | Holding_Register | Input_Register | Virtual

datatype byte_order = Big_Endian | Little_Endian

record register_mapping =
  rm_address :: u32
  rm_kind :: register_kind
  rm_bit :: "u8 option"
  rm_scale :: "f64 option"
  rm_offset :: "f64 option"
  rm_unit :: "string option"
  rm_byte_order :: byte_order
  rm_word_count :: u8

record upp_field_binding =
  ub_command :: string
  ub_decoder :: string
  ub_channel :: "string option"

record profile_field =
  pf_name :: string
  pf_data_type :: field_data_type
  pf_direction :: field_direction
  pf_register :: "register_mapping option"
  pf_upp :: "upp_field_binding option"
  pf_count :: u16
  pf_description :: "string option"

record device_profile =
  dp_name :: string
  dp_vendor :: "string option"
  dp_protocol :: "string option"
  dp_description :: "string option"
  dp_fields :: "profile_field list"

definition input_fields :: "device_profile \<Rightarrow> profile_field list" where
  "input_fields p = filter (\<lambda>f. pf_direction f \<in> {Dir_Input, Dir_Inout}) (dp_fields p)"

definition output_fields :: "device_profile \<Rightarrow> profile_field list" where
  "output_fields p = filter (\<lambda>f. pf_direction f \<in> {Dir_Output, Dir_Inout}) (dp_fields p)"

subsection \<open>Layouts: native_fb.rs\<close>

datatype native_var_kind = Nfb_VarInput | Nfb_Var

record native_field =
  nf_name :: string
  nf_data_type :: field_data_type
  nf_var_kind :: native_var_kind
  nf_dimensions :: "(i64 \<times> i64) list option"

record native_layout =
  nl_type_name :: string
  nl_fields :: "native_field list"

definition scalar :: "native_var_kind \<Rightarrow> string \<Rightarrow> field_data_type \<Rightarrow> native_field" where
  "scalar k n ty = \<lparr>nf_name = n, nf_data_type = ty, nf_var_kind = k, nf_dimensions = None\<rparr>"

text \<open>The fields of the profile, arrays where there is more than one register.\<close>

definition io_field :: "profile_field \<Rightarrow> native_field" where
  "io_field pf =
     \<lparr>nf_name = pf_name pf, nf_data_type = pf_data_type pf, nf_var_kind = Nfb_Var,
      nf_dimensions = (if 1 < unat (pf_count pf) then Some [(0, word_of_int (uint (pf_count pf) - 1))] else None)\<rparr>"

definition with_profile :: "native_field list \<Rightarrow> device_profile \<Rightarrow> native_layout" where
  "with_profile fixed p = \<lparr>nl_type_name = dp_name p, nl_fields = fixed @ map io_field (dp_fields p)\<rparr>"

definition to_native_fb_layout :: "device_profile \<Rightarrow> native_layout" where
  "to_native_fb_layout = with_profile
     [scalar Nfb_VarInput ''refresh_rate'' Fd_Time, scalar Nfb_Var ''connected'' Fd_Bool,
      scalar Nfb_Var ''error_code'' Fd_Int, scalar Nfb_Var ''io_cycles'' Fd_Udint,
      scalar Nfb_Var ''last_response_ms'' Fd_Real]"

definition to_modbus_rtu_device_layout :: "device_profile \<Rightarrow> native_layout" where
  "to_modbus_rtu_device_layout = with_profile
     [scalar Nfb_VarInput ''link'' Fd_String, scalar Nfb_VarInput ''slave_id'' Fd_Int,
      scalar Nfb_VarInput ''refresh_rate'' Fd_Time, scalar Nfb_VarInput ''timeout'' Fd_Time,
      scalar Nfb_VarInput ''preamble'' Fd_Time,
      scalar Nfb_Var ''connected'' Fd_Bool, scalar Nfb_Var ''error_code'' Fd_Int,
      scalar Nfb_Var ''errors_count'' Fd_Udint, scalar Nfb_Var ''io_cycles'' Fd_Udint,
      scalar Nfb_Var ''last_response_ms'' Fd_Real]"

definition to_upp_device_layout :: "device_profile \<Rightarrow> native_layout" where
  "to_upp_device_layout = with_profile
     [scalar Nfb_VarInput ''link'' Fd_String, scalar Nfb_VarInput ''device_id'' Fd_Int,
      scalar Nfb_VarInput ''refresh_rate'' Fd_Time, scalar Nfb_VarInput ''timeout'' Fd_Time,
      scalar Nfb_VarInput ''cooldown'' Fd_Time,
      scalar Nfb_Var ''connected'' Fd_Bool, scalar Nfb_Var ''error_code'' Fd_Int,
      scalar Nfb_Var ''errors_count'' Fd_Udint, scalar Nfb_Var ''io_cycles'' Fd_Udint,
      scalar Nfb_Var ''last_response_ms'' Fd_Real]"

definition to_modbus_tcp_device_layout :: "device_profile \<Rightarrow> native_layout" where
  "to_modbus_tcp_device_layout = with_profile
     [scalar Nfb_VarInput ''host'' Fd_String, scalar Nfb_VarInput ''port'' Fd_Int,
      scalar Nfb_VarInput ''unit_id'' Fd_Int, scalar Nfb_VarInput ''refresh_rate'' Fd_Time,
      scalar Nfb_Var ''connected'' Fd_Bool, scalar Nfb_Var ''error_code'' Fd_Int,
      scalar Nfb_Var ''io_cycles'' Fd_Udint, scalar Nfb_Var ''last_response_ms'' Fd_Real]"

fun field_data_type_to_var_type :: "field_data_type \<Rightarrow> var_type" where
  "field_data_type_to_var_type Fd_Bool = T_Bool"
| "field_data_type_to_var_type Fd_Sint = T_Int"
| "field_data_type_to_var_type Fd_Int = T_Int"
| "field_data_type_to_var_type Fd_Dint = T_Int"
| "field_data_type_to_var_type Fd_Lint = T_Int"
| "field_data_type_to_var_type Fd_Real = T_Real"
| "field_data_type_to_var_type Fd_Lreal = T_Real"
| "field_data_type_to_var_type Fd_String = T_String"
| "field_data_type_to_var_type Fd_Time = T_Time"
| "field_data_type_to_var_type _ = T_UInt"

fun field_data_type_to_int_width :: "field_data_type \<Rightarrow> int_width" where
  "field_data_type_to_int_width Fd_Sint = I8"
| "field_data_type_to_int_width Fd_Usint = U8"
| "field_data_type_to_int_width Fd_Byte = U8"
| "field_data_type_to_int_width Fd_Int = I16"
| "field_data_type_to_int_width Fd_Uint = U16"
| "field_data_type_to_int_width Fd_Word = U16"
| "field_data_type_to_int_width Fd_Dint = I32"
| "field_data_type_to_int_width Fd_Udint = U32"
| "field_data_type_to_int_width Fd_Dword = U32"
| "field_data_type_to_int_width Fd_Lint = I64"
| "field_data_type_to_int_width Fd_Ulint = U64"
| "field_data_type_to_int_width Fd_Lword = U64"
| "field_data_type_to_int_width _ = W_None"

subsection \<open>Memory layouts\<close>

text \<open>A \<open>usize\<close> has 64 bits here; arithmetic that overflows panics in a checked build.\<close>

definition usize_result :: "build \<Rightarrow> nat \<Rightarrow> nat chk" where
  "usize_result b n = (if n < 2 ^ 64 then Res n else if bd_checks b then Panic ArithPanic else Res (n mod 2 ^ 64))"

definition range_count :: "build \<Rightarrow> i64 \<times> i64 \<Rightarrow> nat chk" where
  "range_count b r = chk_bind (i64_minus b (snd r) (fst r)) (\<lambda>d. chk_bind (i64_add b d 1) (\<lambda>n. Res (unat n)))"

fun element_count_from :: "build \<Rightarrow> nat \<Rightarrow> (i64 \<times> i64) list \<Rightarrow> nat chk" where
  "element_count_from b acc [] = Res acc"
| "element_count_from b acc (r # rs) =
     chk_bind (range_count b r) (\<lambda>n. chk_bind (usize_result b (acc * n)) (\<lambda>acc. element_count_from b acc rs))"

definition element_count :: "build \<Rightarrow> (i64 \<times> i64) list \<Rightarrow> nat chk" where
  "element_count b = element_count_from b 1"

definition native_slot :: "native_field \<Rightarrow> var_type \<Rightarrow> nat \<Rightarrow> nat \<Rightarrow> var_slot" where
  "native_slot f ty offset n =
     \<lparr>vs_name = nf_name f, vs_ty = ty, vs_offset = offset, vs_size = n, vs_retain = False,
      vs_persistent = False, vs_width = field_data_type_to_int_width (nf_data_type f)\<rparr>"

text \<open>The index of an array's type is \<open>type_def_base + type_defs.len()\<close>, in \<open>u16\<close>.\<close>

definition type_def_index :: "build \<Rightarrow> u16 \<Rightarrow> type_def list \<Rightarrow> u16 chk" where
  "type_def_index b base tds =
     (let i = of_nat (length tds) in
      if bd_checks b \<and> 2 ^ 16 \<le> unat base + unat (i :: u16) then Panic ArithPanic else Res (base + i))"

fun layout_slots :: "build \<Rightarrow> u16 \<Rightarrow> native_field list \<Rightarrow> nat \<Rightarrow> type_def list \<Rightarrow> (var_slot list \<times> type_def list) chk" where
  "layout_slots b base [] offset tds = Res ([], tds)"
| "layout_slots b base (f # fs) offset tds =
     (case nf_dimensions f of
        Some dims \<Rightarrow>
          chk_bind (type_def_index b base tds) (\<lambda>i.
          chk_bind (element_count b dims) (\<lambda>n.
          chk_bind (usize_result b (offset + n)) (\<lambda>offset'.
          chk_bind (layout_slots b base fs offset'
              (tds @ [TD_Array (field_data_type_to_var_type (nf_data_type f)) dims])) (\<lambda>(ss, tds).
            Res (native_slot f (T_Array i) offset n # ss, tds)))))
      | None \<Rightarrow>
          chk_bind (usize_result b (offset + 1)) (\<lambda>offset'.
          chk_bind (layout_slots b base fs offset' tds) (\<lambda>(ss, tds).
            Res (native_slot f (field_data_type_to_var_type (nf_data_type f)) offset 1 # ss, tds))))"

definition layout_to_memory_layout ::
  "build \<Rightarrow> native_layout \<Rightarrow> type_def list \<Rightarrow> u16 \<Rightarrow> (memory_layout \<times> type_def list) chk" where
  "layout_to_memory_layout b l tds base =
     chk_bind (layout_slots b base (nl_fields l) 0 tds) (\<lambda>(ss, tds). Res (\<lparr>slots = ss\<rparr>, tds))"

fun field_counts :: "build \<Rightarrow> native_field list \<Rightarrow> nat chk" where
  "field_counts b [] = Res 0"
| "field_counts b (f # fs) =
     chk_bind (case nf_dimensions f of Some dims \<Rightarrow> element_count b dims | None \<Rightarrow> Res 1) (\<lambda>n.
     chk_bind (field_counts b fs) (\<lambda>m. usize_result b (n + m)))"

definition expanded_field_count :: "build \<Rightarrow> native_layout \<Rightarrow> nat chk" where
  "expanded_field_count b l = field_counts b (nl_fields l)"

subsection \<open>The slice a native block gets\<close>

lemma usize_result_checked [simp]: "bd_checks b \<Longrightarrow> usize_result b n = Res k \<longleftrightarrow> k = n \<and> n < 2 ^ 64"
  by (auto simp: usize_result_def)

lemma slot_defaults_native [simp]:
  "length (slot_defaults m (native_slot f (T_Array i) offset n)) = n"
  "length (slot_defaults m (native_slot f (field_data_type_to_var_type ty) offset (Suc 0))) = Suc 0"
proof -
  show "length (slot_defaults m (native_slot f (field_data_type_to_var_type ty) offset (Suc 0))) = Suc 0"
    by (cases ty) (simp_all add: slot_defaults_def native_slot_def)
qed (simp add: slot_defaults_def native_slot_def)

lemma vs_native_slot [simp]:
  "vs_offset (native_slot f ty offset n) = offset" "vs_size (native_slot f ty offset n) = n"
  "vs_name (native_slot f ty offset n) = nf_name f" "vs_ty (native_slot f ty offset n) = ty"
  by (simp_all add: native_slot_def)

definition expands :: "ir_module \<Rightarrow> nat \<Rightarrow> var_slot list \<Rightarrow> bool" where
  "expands m offset ss \<longleftrightarrow>
     (\<forall>i < length ss. vs_offset (ss ! i) = offset + length (concat (map (slot_defaults m) (take i ss))))"

lemma expands_Cons:
  "vs_offset s = offset \<Longrightarrow> expands m (offset + length (slot_defaults m s)) ss \<Longrightarrow> expands m offset (s # ss)"
  unfolding expands_def
proof (intro allI impI)
  fix i assume 1: "vs_offset s = offset"
    "\<forall>i<length ss. vs_offset (ss ! i) =
       offset + length (slot_defaults m s) + length (concat (map (slot_defaults m) (take i ss)))"
    "i < length (s # ss)"
  show "vs_offset ((s # ss) ! i) = offset + length (concat (map (slot_defaults m) (take i (s # ss))))"
    using 1 by (cases i) simp_all
qed

lemma layout_slots_expand:
  "layout_slots b base fs offset tds = Res (ss, tds') \<Longrightarrow> bd_checks b \<Longrightarrow> offset < 2 ^ 64 \<Longrightarrow>
     length ss = length fs \<and> expands m offset ss \<and>
     offset + length (concat (map (slot_defaults m) ss)) < 2 ^ 64 \<and>
     field_counts b fs = Res (length (concat (map (slot_defaults m) ss)))"
proof (induction b base fs offset tds arbitrary: ss tds' rule: layout_slots.induct)
  case (2 b base f fs offset tds)
  show ?case
  proof (cases "nf_dimensions f")
    case None
    with "2.prems" obtain ss1 where 1: "layout_slots b base fs (offset + 1) tds = Res (ss1, tds')" "offset + 1 < 2 ^ 64"
      "ss = native_slot f (field_data_type_to_var_type (nf_data_type f)) offset 1 # ss1"
      by auto
    from "2.IH"(1) [OF None 1(1) "2.prems"(2) 1(2)] None 1(2,3) "2.prems"(2) show ?thesis
      using expands_Cons [of "native_slot f (field_data_type_to_var_type (nf_data_type f)) offset 1" offset m ss1] by simp
  next
    case (Some dims)
    with "2.prems" obtain i n ss1 where 1: "type_def_index b base tds = Res i" "element_count b dims = Res n"
      "layout_slots b base fs (offset + n) (tds @ [TD_Array (field_data_type_to_var_type (nf_data_type f)) dims]) = Res (ss1, tds')"
      "offset + n < 2 ^ 64" "ss = native_slot f (T_Array i) offset n # ss1"
      by auto
    from "2.IH"(2) [OF Some 1(3) "2.prems"(2) 1(4)] Some 1(2,4,5) "2.prems"(2) show ?thesis
      using expands_Cons [of "native_slot f (T_Array i) offset n" offset m ss1] by simp
  qed
qed (simp add: expands_def)

text \<open>C40: the memory layout of a native block agrees with what the machine makes of it: the values the block
  gets are as many as its layout announces, one slot per field, and the values of a field begin at the
  offset of its slot, arrays in place.\<close>

theorem native_layout_expands:
  assumes "bd_checks b" "layout_to_memory_layout b l tds base = Res (ml, tds')"
  shows "expanded_field_count b l = Res (length (native_defaults m ml)) \<and>
    length (slots ml) = length (nl_fields l) \<and>
    (\<forall>i < length (slots ml). vs_offset (slots ml ! i) = length (concat (map (slot_defaults m) (take i (slots ml)))))"
proof -
  obtain ss where ss: "layout_slots b base (nl_fields l) 0 tds = Res (ss, tds')" "ml = \<lparr>slots = ss\<rparr>"
    using assms(2) by (auto simp: layout_to_memory_layout_def)
  from layout_slots_expand [OF ss(1) assms(1), of m] show ?thesis
    by (simp add: expanded_field_count_def native_defaults_def ss(2) expands_def)
qed

definition meter_profile :: device_profile where
  "meter_profile =
     \<lparr>dp_name = ''Meter'', dp_vendor = None, dp_protocol = None, dp_description = None,
      dp_fields = [\<lparr>pf_name = ''volts'', pf_data_type = Fd_Real, pf_direction = Dir_Input, pf_register = None,
        pf_upp = None, pf_count = 3, pf_description = None\<rparr>]\<rparr>"

definition meter_layout :: memory_layout where
  "meter_layout = \<lparr>slots =
     [native_slot (scalar Nfb_VarInput ''refresh_rate'' Fd_Time) T_Time 0 1,
      native_slot (scalar Nfb_Var ''connected'' Fd_Bool) T_Bool 1 1,
      native_slot (scalar Nfb_Var ''error_code'' Fd_Int) T_Int 2 1,
      native_slot (scalar Nfb_Var ''io_cycles'' Fd_Udint) T_UInt 3 1,
      native_slot (scalar Nfb_Var ''last_response_ms'' Fd_Real) T_Real 4 1,
      native_slot (io_field (hd (dp_fields meter_profile))) (T_Array 0) 5 3]\<rparr>"

theorem native_layout_expands_witness:
  "\<forall>m. expanded_field_count \<lparr>bd_checks = True, bd_parse_f64 = (\<lambda>_. None)\<rparr> (to_native_fb_layout meter_profile) =
     Res (length (native_defaults m meter_layout))"
proof -
  let ?b = "\<lparr>bd_checks = True, bd_parse_f64 = (\<lambda>_. None)\<rparr>"
  have "layout_to_memory_layout ?b (to_native_fb_layout meter_profile) [] 0 = Res (meter_layout, [TD_Array T_Real [(0, 2)]])"
    by (simp add: layout_to_memory_layout_def to_native_fb_layout_def with_profile_def meter_profile_def io_field_def
        scalar_def meter_layout_def type_def_index_def element_count_def range_count_def i64_minus_def i64_add_def
        i64_result_def i64_in_range_def numeral_2_eq_2 [symmetric])
  from native_layout_expands [OF _ this] show ?thesis by simp
qed

subsection \<open>The types of array fields\<close>

definition arrays_before :: "nat \<Rightarrow> native_field list \<Rightarrow> nat" where
  "arrays_before i fs = length (filter (\<lambda>f. nf_dimensions f \<noteq> None) (take i fs))"

lemma arrays_before_simps [simp]:
  "arrays_before 0 fs = 0"
  "arrays_before (Suc i) (f # fs) = (if nf_dimensions f = None then 0 else 1) + arrays_before i fs"
  by (auto simp: arrays_before_def)

lemma layout_slots_prefix: "layout_slots b base fs offset tds = Res (ss, tds') \<Longrightarrow> prefix tds tds'"
proof (induction b base fs offset tds arbitrary: ss tds' rule: layout_slots.induct)
  case (2 b base f fs offset tds)
  show ?case
  proof (cases "nf_dimensions f")
    case (Some d)
    with 2(3) obtain n ss1 where
      "layout_slots b base fs n (tds @ [TD_Array (field_data_type_to_var_type (nf_data_type f)) d]) = Res (ss1, tds')"
      by auto
    from "2.IH"(2) [OF Some this] show ?thesis by (rule append_prefixD)
  qed (use 2 in auto)
qed simp

lemma type_def_index_Res: "type_def_index b base tds = Res i \<Longrightarrow> i = base + of_nat (length tds)"
  by (auto simp: type_def_index_def Let_def split: if_split_asm)

lemma layout_slots_types:
  "layout_slots b base fs offset tds = Res (ss, tds') \<Longrightarrow> i < length fs \<Longrightarrow> nf_dimensions (fs ! i) = Some dims \<Longrightarrow>
     vs_ty (ss ! i) = T_Array (base + of_nat (length tds + arrays_before i fs)) \<and>
     length tds + arrays_before i fs < length tds' \<and>
     tds' ! (length tds + arrays_before i fs) = TD_Array (field_data_type_to_var_type (nf_data_type (fs ! i))) dims"
proof (induction b base fs offset tds arbitrary: ss tds' i rule: layout_slots.induct)
  case (2 b base f fs offset tds)
  show ?case
  proof (cases "nf_dimensions f")
    case None
    with 2(3) obtain n ss1 where 1: "layout_slots b base fs n tds = Res (ss1, tds')"
      "ss = native_slot f (field_data_type_to_var_type (nf_data_type f)) offset 1 # ss1"
      by auto
    show ?thesis using "2.IH"(1) [OF None 1(1)] 1(2) "2.prems"(2,3) None by (cases i) auto
  next
    case (Some d)
    let ?td = "TD_Array (field_data_type_to_var_type (nf_data_type f)) d"
    from Some 2(3) obtain j k n ss1 where 1: "type_def_index b base tds = Res j"
      "layout_slots b base fs n (tds @ [?td]) = Res (ss1, tds')" "ss = native_slot f (T_Array j) offset k # ss1"
      by auto
    have p: "prefix (tds @ [?td]) tds'" using layout_slots_prefix [OF 1(2)] .
    show ?thesis
    proof (cases i)
      case 0
      have "length tds < length tds' \<and> tds' ! length tds = ?td"
        using p by (auto simp: prefix_def nth_append)
      then show ?thesis using 0 Some 1(1,3) "2.prems"(3) by (simp add: type_def_index_Res)
    next
      case (Suc i')
      show ?thesis using "2.IH"(2) [OF Some 1(2), of i'] Suc Some 1(3) "2.prems"(2,3) by (simp add: add.assoc)
    qed
  qed
qed simp

text \<open>The index of an array's type counts the definitions that are there already twice, so that it is right only
  for the first blocks to have an array.\<close>

theorem native_array_type_index:
  assumes "layout_to_memory_layout b l tds (of_nat (length tds)) = Res (ml, tds')"
    "i < length (nl_fields l)" "nf_dimensions (nl_fields l ! i) = Some dims" "k = arrays_before i (nl_fields l)"
  shows "vs_ty (slots ml ! i) = T_Array (of_nat (length tds + length tds + k)) \<and> length tds + k < length tds' \<and>
    tds' ! (length tds + k) = TD_Array (field_data_type_to_var_type (nf_data_type (nl_fields l ! i))) dims"
  using assms layout_slots_types [of b "of_nat (length tds)" "nl_fields l" 0 tds "slots ml" tds' i dims]
  by (auto simp: layout_to_memory_layout_def add.assoc)

theorem native_array_type_index_witness:
  "\<exists>ml. layout_to_memory_layout \<lparr>bd_checks = True, bd_parse_f64 = (\<lambda>_. None)\<rparr> (to_native_fb_layout meter_profile)
      [TD_Array T_Real [(0, 2)]] 1 = Res (ml, [TD_Array T_Real [(0, 2)], TD_Array T_Real [(0, 2)]]) \<and>
    vs_ty (slots ml ! 5) = T_Array 2"
proof -
  let ?b = "\<lparr>bd_checks = True, bd_parse_f64 = (\<lambda>_. None)\<rparr>" and ?td = "TD_Array T_Real [(0, 2)]"
  have "\<exists>ml. layout_to_memory_layout ?b (to_native_fb_layout meter_profile) [?td] 1 = Res (ml, [?td, ?td])"
    by (simp add: layout_to_memory_layout_def to_native_fb_layout_def with_profile_def meter_profile_def io_field_def
        scalar_def type_def_index_def element_count_def range_count_def i64_minus_def i64_add_def
        i64_result_def i64_in_range_def numeral_2_eq_2 [symmetric])
  then obtain ml where ml: "layout_to_memory_layout ?b (to_native_fb_layout meter_profile) [?td] 1 = Res (ml, [?td, ?td])" ..
  have "vs_ty (slots ml ! 5) = T_Array 2"
    using native_array_type_index [of ?b "to_native_fb_layout meter_profile" "[?td]" ml "[?td, ?td]" 5 "[(0, 2)]" 0] ml
    by (simp add: to_native_fb_layout_def with_profile_def meter_profile_def io_field_def scalar_def arrays_before_def)
  with ml show ?thesis by blast
qed

end
