(* ===== verification/Intrinsics.thy ===== *)
theory Intrinsics
  imports Analyze_Stmt Native_Fb
begin

section \<open>Built-in functions: register\_intrinsics of crates/st-semantics/src/analyze.rs\<close>

text \<open>
  The functions the analyser knows before it reads a program, in the order of the source: the
  names that share a signature, the parameters and the result. Native function blocks of a
  registry follow.
\<close>

abbreviation (input) t_int :: ty where "t_int \<equiv> Ty_Elementary ET_Int"
abbreviation (input) t_real :: ty where "t_real \<equiv> Ty_Elementary ET_Real"
abbreviation (input) t_bool :: ty where "t_bool \<equiv> Ty_Elementary ET_Bool"
abbreviation (input) t_time :: ty where "t_time \<equiv> Ty_Elementary ET_Time"
abbreviation (input) t_date :: ty where "t_date \<equiv> Ty_Elementary ET_Date"
abbreviation (input) t_tod :: ty where "t_tod \<equiv> Ty_Elementary ET_Tod"
abbreviation (input) t_dt :: ty where "t_dt \<equiv> Ty_Elementary ET_Dt"
abbreviation (input) t_string :: ty where "t_string \<equiv> Ty_String False None"

definition number_intrinsics :: "(string list \<times> (string \<times> ty) list \<times> ty) list" where
  "number_intrinsics =
    [([''SQRT'', ''SIN'', ''COS'', ''TAN'', ''ASIN'', ''ACOS'', ''ATAN'', ''LN'', ''LOG'', ''EXP''],
        [(''IN1'', t_real)], t_real),
     ([''INT_TO_REAL'', ''SINT_TO_REAL'', ''DINT_TO_REAL'', ''LINT_TO_REAL'', ''UINT_TO_REAL'',
        ''USINT_TO_REAL'', ''UDINT_TO_REAL'', ''ULINT_TO_REAL'', ''BOOL_TO_REAL'', ''INT_TO_LREAL'',
        ''SINT_TO_LREAL'', ''DINT_TO_LREAL'', ''LINT_TO_LREAL'', ''REAL_TO_LREAL''], [(''IN1'', t_int)],
        t_real),
     ([''REAL_TO_INT'', ''LREAL_TO_INT'', ''REAL_TO_DINT'', ''LREAL_TO_DINT'', ''REAL_TO_LINT'',
        ''LREAL_TO_LINT'', ''REAL_TO_SINT'', ''LREAL_TO_SINT''], [(''IN1'', t_real)], t_int),
     ([''BOOL_TO_INT'', ''BOOL_TO_DINT'', ''BOOL_TO_LINT''], [(''IN1'', t_bool)], t_int),
     ([''UINT_TO_INT'', ''UDINT_TO_DINT'', ''ULINT_TO_LINT'', ''INT_TO_DINT'', ''INT_TO_LINT'',
        ''DINT_TO_LINT'', ''SINT_TO_INT'', ''SINT_TO_DINT'', ''SINT_TO_LINT''], [(''IN1'', t_int)], t_int),
     ([''INT_TO_BOOL'', ''DINT_TO_BOOL'', ''LINT_TO_BOOL''], [(''IN1'', t_int)], t_bool),
     ([''REAL_TO_BOOL''], [(''IN1'', t_real)], t_bool),
     ([''TIME_TO_INT'', ''TIME_TO_SINT'', ''TIME_TO_DINT'', ''TIME_TO_LINT'', ''TIME_TO_UINT'',
        ''TIME_TO_USINT'', ''TIME_TO_UDINT'', ''TIME_TO_ULINT''], [(''IN1'', t_time)], t_int),
     ([''TIME_TO_REAL'', ''TIME_TO_LREAL''], [(''IN1'', t_time)], t_real),
     ([''TIME_TO_BOOL''], [(''IN1'', t_time)], t_bool),
     ([''INT_TO_TIME'', ''SINT_TO_TIME'', ''DINT_TO_TIME'', ''LINT_TO_TIME'', ''UINT_TO_TIME'',
        ''USINT_TO_TIME'', ''UDINT_TO_TIME'', ''ULINT_TO_TIME''], [(''IN1'', t_int)], t_time),
     ([''REAL_TO_TIME'', ''LREAL_TO_TIME''], [(''IN1'', t_real)], t_time),
     ([''BOOL_TO_TIME''], [(''IN1'', t_bool)], t_time),
     ([''TO_INT'', ''TO_SINT'', ''TO_DINT'', ''TO_LINT'', ''TO_UINT'', ''TO_USINT'', ''TO_UDINT'',
        ''TO_ULINT'', ''ANY_TO_INT'', ''ANY_TO_SINT'', ''ANY_TO_DINT'', ''ANY_TO_LINT'', ''ANY_TO_UINT'',
        ''ANY_TO_USINT'', ''ANY_TO_UDINT'', ''ANY_TO_ULINT''], [(''IN1'', Ty_Unknown)], t_int),
     ([''TO_REAL'', ''TO_LREAL'', ''ANY_TO_REAL'', ''ANY_TO_LREAL''], [(''IN1'', Ty_Unknown)], t_real),
     ([''TO_BOOL'', ''ANY_TO_BOOL''], [(''IN1'', Ty_Unknown)], t_bool),
     ([''TO_TIME'', ''ANY_TO_TIME''], [(''IN1'', Ty_Unknown)], t_time)]"

definition date_intrinsics :: "(string list \<times> (string \<times> ty) list \<times> ty) list" where
  "date_intrinsics =
    [([''DATE_TO_INT'', ''DATE_TO_SINT'', ''DATE_TO_DINT'', ''DATE_TO_LINT'', ''DATE_TO_UINT'',
        ''DATE_TO_USINT'', ''DATE_TO_UDINT'', ''DATE_TO_ULINT''], [(''IN1'', t_date)], t_int),
     ([''DATE_TO_REAL'', ''DATE_TO_LREAL''], [(''IN1'', t_date)], t_real),
     ([''DATE_TO_BOOL''], [(''IN1'', t_date)], t_bool),
     ([''INT_TO_DATE'', ''SINT_TO_DATE'', ''DINT_TO_DATE'', ''LINT_TO_DATE'', ''UINT_TO_DATE'',
        ''USINT_TO_DATE'', ''UDINT_TO_DATE'', ''ULINT_TO_DATE''], [(''IN1'', t_int)], t_date),
     ([''REAL_TO_DATE'', ''LREAL_TO_DATE''], [(''IN1'', t_real)], t_date),
     ([''TOD_TO_INT'', ''TOD_TO_SINT'', ''TOD_TO_DINT'', ''TOD_TO_LINT'', ''TOD_TO_UINT'', ''TOD_TO_USINT'',
        ''TOD_TO_UDINT'', ''TOD_TO_ULINT''], [(''IN1'', t_tod)], t_int),
     ([''TOD_TO_REAL'', ''TOD_TO_LREAL''], [(''IN1'', t_tod)], t_real),
     ([''TOD_TO_BOOL''], [(''IN1'', t_tod)], t_bool),
     ([''INT_TO_TOD'', ''SINT_TO_TOD'', ''DINT_TO_TOD'', ''LINT_TO_TOD'', ''UINT_TO_TOD'', ''USINT_TO_TOD'',
        ''UDINT_TO_TOD'', ''ULINT_TO_TOD''], [(''IN1'', t_int)], t_tod),
     ([''REAL_TO_TOD'', ''LREAL_TO_TOD''], [(''IN1'', t_real)], t_tod),
     ([''DT_TO_INT'', ''DT_TO_SINT'', ''DT_TO_DINT'', ''DT_TO_LINT'', ''DT_TO_UINT'', ''DT_TO_USINT'',
        ''DT_TO_UDINT'', ''DT_TO_ULINT''], [(''IN1'', t_dt)], t_int),
     ([''DT_TO_REAL'', ''DT_TO_LREAL''], [(''IN1'', t_dt)], t_real),
     ([''DT_TO_BOOL''], [(''IN1'', t_dt)], t_bool),
     ([''INT_TO_DT'', ''SINT_TO_DT'', ''DINT_TO_DT'', ''LINT_TO_DT'', ''UINT_TO_DT'', ''USINT_TO_DT'',
        ''UDINT_TO_DT'', ''ULINT_TO_DT''], [(''IN1'', t_int)], t_dt),
     ([''REAL_TO_DT'', ''LREAL_TO_DT''], [(''IN1'', t_real)], t_dt),
     ([''DT_TO_DATE''], [(''IN1'', t_dt)], t_date),
     ([''DT_TO_TOD''], [(''IN1'', t_dt)], t_tod),
     ([''DATE_TO_DT''], [(''IN1'', t_date)], t_dt),
     ([''TIME_TO_DATE''], [(''IN1'', t_time)], t_date),
     ([''TIME_TO_TOD''], [(''IN1'', t_time)], t_tod),
     ([''TIME_TO_DT''], [(''IN1'', t_time)], t_dt),
     ([''DATE_TO_TIME''], [(''IN1'', t_date)], t_time),
     ([''TOD_TO_TIME''], [(''IN1'', t_tod)], t_time),
     ([''DT_TO_TIME''], [(''IN1'', t_dt)], t_time),
     ([''DAY_OF_WEEK''], [(''IN1'', t_date)], t_int),
     ([''TO_DATE'', ''ANY_TO_DATE''], [(''IN1'', Ty_Unknown)], t_date),
     ([''TO_TOD'', ''ANY_TO_TOD''], [(''IN1'', Ty_Unknown)], t_tod),
     ([''TO_DT'', ''ANY_TO_DT''], [(''IN1'', Ty_Unknown)], t_dt)]"

definition two_argument_intrinsics :: "(string list \<times> (string \<times> ty) list \<times> ty) list" where
  "two_argument_intrinsics =
    [([''ADD_TOD_TIME''], [(''IN1'', t_tod), (''IN2'', t_time)], t_tod),
     ([''ADD_DT_TIME''], [(''IN1'', t_dt), (''IN2'', t_time)], t_dt),
     ([''SUB_TOD_TIME''], [(''IN1'', t_tod), (''IN2'', t_time)], t_tod),
     ([''SUB_DATE_DATE''], [(''IN1'', t_date), (''IN2'', t_date)], t_time),
     ([''SUB_TOD_TOD''], [(''IN1'', t_tod), (''IN2'', t_tod)], t_time),
     ([''SUB_DT_TIME''], [(''IN1'', t_dt), (''IN2'', t_time)], t_dt),
     ([''SUB_DT_DT''], [(''IN1'', t_dt), (''IN2'', t_dt)], t_time),
     ([''CONCAT_DATE_TOD''], [(''IN1'', t_date), (''IN2'', t_tod)], t_dt),
     ([''MULTIME''], [(''IN1'', t_time), (''IN2'', t_int)], t_time),
     ([''DIVTIME''], [(''IN1'', t_time), (''IN2'', t_int)], t_time)]"

definition string_intrinsics :: "(string list \<times> (string \<times> ty) list \<times> ty) list" where
  "string_intrinsics =
    [([''LEN''], [(''IN'', t_string)], t_int),
     ([''LEFT''], [(''STR'', t_string), (''SIZE'', t_int)], t_string),
     ([''RIGHT''], [(''STR'', t_string), (''SIZE'', t_int)], t_string),
     ([''MID''], [(''STR'', t_string), (''LEN'', t_int), (''POS'', t_int)], t_string),
     ([''CONCAT''], [(''STR1'', t_string), (''STR2'', t_string)], t_string),
     ([''INSERT''], [(''STR1'', t_string), (''STR2'', t_string), (''POS'', t_int)], t_string),
     ([''DELETE''], [(''STR'', t_string), (''LEN'', t_int), (''POS'', t_int)], t_string),
     ([''REPLACE''], [(''STR1'', t_string), (''STR2'', t_string), (''LEN'', t_int), (''POS'', t_int)],
        t_string),
     ([''FIND''], [(''STR1'', t_string), (''STR2'', t_string)], t_int),
     ([''TO_UPPER'', ''UPPER_CASE'', ''TO_LOWER'', ''LOWER_CASE'', ''TRIM'', ''LTRIM'', ''RTRIM''], [(''IN'',
        t_string)], t_string),
     ([''INT_TO_STRING'', ''SINT_TO_STRING'', ''DINT_TO_STRING'', ''LINT_TO_STRING'', ''UINT_TO_STRING'',
        ''USINT_TO_STRING'', ''UDINT_TO_STRING'', ''ULINT_TO_STRING'', ''REAL_TO_STRING'',
        ''LREAL_TO_STRING'', ''BOOL_TO_STRING''], [(''IN'', Ty_Unknown)], t_string),
     ([''STRING_TO_INT'', ''STRING_TO_SINT'', ''STRING_TO_DINT'', ''STRING_TO_LINT'', ''STRING_TO_UINT'',
        ''STRING_TO_USINT'', ''STRING_TO_UDINT'', ''STRING_TO_ULINT''], [(''IN'', t_string)], t_int),
     ([''STRING_TO_REAL'', ''STRING_TO_LREAL''], [(''IN'', t_string)], t_real),
     ([''STRING_TO_BOOL''], [(''IN'', t_string)], t_bool),
     ([''TO_STRING'', ''ANY_TO_STRING''], [(''IN'', Ty_Unknown)], t_string)]"

definition intrinsic_table :: "(string list \<times> (string \<times> ty) list \<times> ty) list" where
  "intrinsic_table = number_intrinsics @ date_intrinsics @ two_argument_intrinsics @ string_intrinsics"

definition no_range :: text_range where
  "no_range = \<lparr>tr_start = 0, tr_end = 0\<rparr>"

definition builtin_symbol :: "string \<Rightarrow> ty \<Rightarrow> symbol_kind \<Rightarrow> symbol" where
  "builtin_symbol name t k =
     \<lparr>sy_name = name, sy_ty = t, sy_kind = k, sy_range = no_range, sy_used = True, sy_assigned = True\<rparr>"

definition builtin_function :: "(string \<times> ty) list \<Rightarrow> ty \<Rightarrow> string \<Rightarrow> symbol" where
  "builtin_function ps t name =
     builtin_symbol name t
       (K_Function t (map (\<lambda>(n, pt). \<lparr>pm_name = n, pm_ty = pt, pm_kind = VarInput\<rparr>) ps))"

definition builtin_symbols :: "symbol list" where
  "builtin_symbols =
     concat (map (\<lambda>(names, ps, t). map (builtin_function ps t) names) intrinsic_table) @
     [builtin_function [(''IN1'', Ty_Unknown)] Ty_Unknown ''REF'', builtin_function [] t_time ''SYSTEM_TIME'']"

text \<open>Defining a symbol in the global scope, whose previous owner of the name is forgotten.\<close>

definition define_global :: "symbol \<Rightarrow> symbol_table \<Rightarrow> symbol_table" where
  "define_global sy st = (case st of [] \<Rightarrow> [] | sc # scs \<Rightarrow> snd (scope_define sy sc) # scs)"

definition register_intrinsics :: "symbol_table \<Rightarrow> symbol_table" where
  "register_intrinsics = fold define_global builtin_symbols"

subsection \<open>Native function blocks\<close>

fun field_data_type_to_semantic_ty :: "field_data_type \<Rightarrow> ty" where
  "field_data_type_to_semantic_ty Fd_Bool = Ty_Elementary ET_Bool"
| "field_data_type_to_semantic_ty Fd_Sint = Ty_Elementary ET_Sint"
| "field_data_type_to_semantic_ty Fd_Int = Ty_Elementary ET_Int"
| "field_data_type_to_semantic_ty Fd_Dint = Ty_Elementary ET_Dint"
| "field_data_type_to_semantic_ty Fd_Lint = Ty_Elementary ET_Lint"
| "field_data_type_to_semantic_ty Fd_Usint = Ty_Elementary ET_Usint"
| "field_data_type_to_semantic_ty Fd_Uint = Ty_Elementary ET_Uint"
| "field_data_type_to_semantic_ty Fd_Udint = Ty_Elementary ET_Udint"
| "field_data_type_to_semantic_ty Fd_Ulint = Ty_Elementary ET_Ulint"
| "field_data_type_to_semantic_ty Fd_Real = Ty_Elementary ET_Real"
| "field_data_type_to_semantic_ty Fd_Lreal = Ty_Elementary ET_Lreal"
| "field_data_type_to_semantic_ty Fd_Byte = Ty_Elementary ET_Byte"
| "field_data_type_to_semantic_ty Fd_Word = Ty_Elementary ET_Word"
| "field_data_type_to_semantic_ty Fd_Dword = Ty_Elementary ET_Dword"
| "field_data_type_to_semantic_ty Fd_Lword = Ty_Elementary ET_Lword"
| "field_data_type_to_semantic_ty Fd_String = Ty_String False None"
| "field_data_type_to_semantic_ty Fd_Time = Ty_Elementary ET_Time"

definition native_param :: "native_field \<Rightarrow> param_def" where
  "native_param f =
     \<lparr>pm_name = nf_name f,
      pm_ty = (let t = field_data_type_to_semantic_ty (nf_data_type f)
               in case nf_dimensions f of Some dims \<Rightarrow> Ty_Array dims t | None \<Rightarrow> t),
      pm_kind = (case nf_var_kind f of Nfb_VarInput \<Rightarrow> VarInput | Nfb_Var \<Rightarrow> Var)\<rparr>"

definition native_symbol :: "native_layout \<Rightarrow> symbol" where
  "native_symbol l =
     builtin_symbol (nl_type_name l) (Ty_FunctionBlock (nl_type_name l))
       (K_FunctionBlock (map native_param (filter (\<lambda>f. nf_var_kind f = Nfb_VarInput) (nl_fields l)))
          (map native_param (filter (\<lambda>f. nf_var_kind f = Nfb_Var) (nl_fields l))))"

definition register_native_fbs :: "native_layout list \<Rightarrow> symbol_table \<Rightarrow> symbol_table" where
  "register_native_fbs ls = fold (define_global \<circ> native_symbol) ls"

end
