(* ===== verification/Analyze.thy ===== *)
theory Analyze
  imports Intrinsics
begin

section \<open>The semantic analyser: crates/st-semantics/src/analyze.rs\<close>

text \<open>
  Two passes over a source file: every top-level name is registered in the global scope, then
  every body is analysed in a scope of its own; at the end unused variables are reported. The
  analysis does not return (\<open>None\<close>) when it walks up a class hierarchy that has a cycle.
\<close>

subsection \<open>Registering\<close>

definition top_symbol :: "ident \<Rightarrow> ty \<Rightarrow> symbol_kind \<Rightarrow> text_range \<Rightarrow> symbol" where
  "top_symbol x t k r =
     \<lparr>sy_name = id_name x, sy_ty = t, sy_kind = k, sy_range = r, sy_used = False, sy_assigned = False\<rparr>"

definition register_symbol :: "string \<Rightarrow> ident \<Rightarrow> ty \<Rightarrow> symbol_kind \<Rightarrow> text_range \<Rightarrow> analyzer \<Rightarrow> analyzer option" where
  "register_symbol what x t k r = define_or_report global_scope_id (top_symbol x t k r) what (id_range x)"

definition return_type_or_void :: "symbol_table \<Rightarrow> data_type option \<Rightarrow> ty" where
  "return_type_or_void st dt = (case dt of Some dt \<Rightarrow> resolve_data_type st dt | None \<Rightarrow> Ty_Void)"

fun access_of :: "access_specifier \<Rightarrow> access_level" where
  "access_of Public = Lv_Public"
| "access_of Private = Lv_Private"
| "access_of Protected = Lv_Protected"
| "access_of Internal = Lv_Internal"

definition method_def_of :: "symbol_table \<Rightarrow> method_decl \<Rightarrow> method_def" where
  "method_def_of st m =
     \<lparr>md_method = id_name (me_name m), md_return_type = return_type_or_void st (me_return_type m),
      md_params = collect_params_by_kind st is_input_kind (me_var_blocks m), md_access = access_of (me_access m),
      md_is_abstract = me_is_abstract m, md_is_final = me_is_final m, md_is_override = me_is_override m\<rparr>"

definition prototype_def_of :: "symbol_table \<Rightarrow> method_prototype \<Rightarrow> method_def" where
  "prototype_def_of st m =
     \<lparr>md_method = id_name (mp_name m), md_return_type = return_type_or_void st (mp_return_type m),
      md_params = collect_params_by_kind st is_input_kind (mp_var_blocks m), md_access = Lv_Public,
      md_is_abstract = False, md_is_final = False, md_is_override = False\<rparr>"

definition class_info_of :: "symbol_table \<Rightarrow> class_decl \<Rightarrow> class_info" where
  "class_info_of st cls =
     \<lparr>ci_params = collect_params_by_kind st is_input_kind (cl_var_blocks cls),
      ci_outputs = collect_params_by_kind st (\<lambda>k. k = VarOutput) (cl_var_blocks cls),
      ci_vars = collect_params_by_kind st (\<lambda>k. k \<in> {Var, VarTemp}) (cl_var_blocks cls),
      ci_methods = map (method_def_of st) (cl_methods cls), ci_base_class = cl_base_class cls,
      ci_interfaces = cl_interfaces cls, ci_is_abstract = cl_is_abstract cls, ci_is_final = cl_is_final cls\<rparr>"

definition register_type_definition :: "type_definition \<Rightarrow> analyzer \<Rightarrow> analyzer option" where
  "register_type_definition td az =
     register_symbol ''type'' (tn_name td)
       (resolve_type_def_kind (az_symbols az) (tn_ty td) (id_name (tn_name td))) K_Type (tn_range td) az"

fun register_top_level :: "top_level_item \<Rightarrow> analyzer \<Rightarrow> analyzer option" where
  "register_top_level (TI_TypeDeclaration tds _) az = ofold register_type_definition tds az"
| "register_top_level (TI_Function f) az =
     (let t = resolve_data_type (az_symbols az) (fd_return_type f) in
      register_symbol ''function'' (fd_name f) t
        (K_Function t (collect_params (az_symbols az) (fd_var_blocks f))) (fd_range f) az)"
| "register_top_level (TI_FunctionBlock fb) az =
     register_symbol ''function block'' (bd_name fb) (Ty_FunctionBlock (id_name (bd_name fb)))
       (K_FunctionBlock (collect_params_by_kind (az_symbols az) is_input_kind (bd_var_blocks fb))
          (collect_params_by_kind (az_symbols az) (\<lambda>k. k = VarOutput) (bd_var_blocks fb))) (bd_range fb) az"
| "register_top_level (TI_Class cls) az =
     register_symbol ''class'' (cl_name cls) (Ty_Class (id_name (cl_name cls)))
       (K_Class (class_info_of (az_symbols az) cls)) (cl_range cls) az"
| "register_top_level (TI_Interface i) az =
     register_symbol ''interface'' (in_name i) (Ty_Interface (id_name (in_name i)))
       (K_Interface (map (prototype_def_of (az_symbols az)) (in_methods i)) (in_base_interfaces i)) (in_range i) az"
| "register_top_level (TI_Program p) az =
     register_symbol ''program'' (pd_name p) Ty_Void
       (K_Program (collect_params (az_symbols az) (pd_var_blocks p))) (pd_range p) az"
| "register_top_level (TI_GlobalVarDeclaration vb) az = define_var_block global_scope_id vb az"

subsection \<open>Bodies\<close>

text \<open>Run a check in a new scope below the current one, and come back.\<close>

definition in_new_scope :: "scope_id \<Rightarrow> string \<Rightarrow> (scope_id \<Rightarrow> analyzer \<Rightarrow> analyzer option) \<Rightarrow> analyzer \<Rightarrow> analyzer option" where
  "in_new_scope parent name f az =
     (let (i, st) = create_scope parent name (az_symbols az) in
      map_option (\<lambda>az'. az'\<lparr>az_scope := az_scope az\<rparr>) (f i (az\<lparr>az_symbols := st, az_scope := i\<rparr>)))"

definition set_return_type :: "ty option \<Rightarrow> analyzer \<Rightarrow> analyzer" where
  "set_return_type t az = az\<lparr>az_return_type := t\<rparr>"

text \<open>\<open>SymbolTable::define\<close> with its result dropped.\<close>

definition az_put :: "scope_id \<Rightarrow> symbol \<Rightarrow> analyzer \<Rightarrow> analyzer option" where
  "az_put i sy az = map_option snd (az_define i sy az)"

definition result_symbol :: "ident \<Rightarrow> ty \<Rightarrow> symbol" where
  "result_symbol x t =
     \<lparr>sy_name = id_name x, sy_ty = t, sy_kind = K_Variable Var, sy_range = id_range x, sy_used = True,
      sy_assigned = False\<rparr>"

text \<open>Variable blocks and then a body.\<close>

definition analyze_body :: "var_block list \<Rightarrow> statement list \<Rightarrow> scope_id \<Rightarrow> analyzer \<Rightarrow> analyzer option" where
  "analyze_body vbs body i az = Option.bind (ofold (define_var_block i) vbs az) (analyze_statements body)"

definition analyze_program :: "program_decl \<Rightarrow> analyzer \<Rightarrow> analyzer option" where
  "analyze_program p =
     in_new_scope global_scope_id (id_name (pd_name p)) (\<lambda>i az.
       analyze_body (pd_var_blocks p) (pd_body p) i (set_return_type None az))"

definition analyze_function :: "function_decl \<Rightarrow> analyzer \<Rightarrow> analyzer option" where
  "analyze_function f az =
     map_option (set_return_type None)
       (in_new_scope global_scope_id (id_name (fd_name f)) (\<lambda>i az.
          let t = resolve_data_type (az_symbols az) (fd_return_type f) in
          Option.bind (az_put i (result_symbol (fd_name f) t) (set_return_type (Some t) az))
            (analyze_body (fd_var_blocks f) (fd_body f) i)) az)"

definition analyze_function_block :: "function_block_decl \<Rightarrow> analyzer \<Rightarrow> analyzer option" where
  "analyze_function_block fb =
     in_new_scope global_scope_id (id_name (bd_name fb)) (\<lambda>i az.
       analyze_body (bd_var_blocks fb) (bd_body fb) i (set_return_type None az))"

subsection \<open>Classes\<close>

definition check_base_class :: "class_decl \<Rightarrow> analyzer \<Rightarrow> analyzer" where
  "check_base_class cls az =
     (case cl_base_class cls of
        None \<Rightarrow> az
      | Some base \<Rightarrow>
          (case resolve_class (az_symbols az) base of
             None \<Rightarrow> report_error UndeclaredType (''undeclared base class '' @ quoted base) (id_range (cl_name cls)) az
           | Some sy \<Rightarrow>
               (case sy_kind sy of
                  K_Class ci \<Rightarrow>
                    if ci_is_final ci
                    then report_error CannotExtendFinalClass (''cannot extend FINAL class '' @ quoted base)
                      (id_range (cl_name cls)) az
                    else az
                | _ \<Rightarrow> az)))"

definition check_interface_name :: "string \<Rightarrow> text_range \<Rightarrow> string \<Rightarrow> analyzer \<Rightarrow> analyzer" where
  "check_interface_name what r name az =
     (if resolve_interface (az_symbols az) name = None
      then report_error UndeclaredType (what @ quoted name) r az
      else az)"

definition implements :: "class_decl \<Rightarrow> string \<Rightarrow> bool" where
  "implements cls m \<longleftrightarrow> list_ex (\<lambda>d. eq_ignore_ascii_case (id_name (me_name d)) m) (cl_methods cls)"

definition check_conformance :: "class_decl \<Rightarrow> string \<Rightarrow> analyzer \<Rightarrow> analyzer" where
  "check_conformance cls name az =
     (case resolve_interface (az_symbols az) name of
        None \<Rightarrow> az
      | Some sy \<Rightarrow>
          (case sy_kind sy of
             K_Interface ms _ \<Rightarrow>
               fold (\<lambda>m az.
                 if implements cls (md_method m) then az
                 else report_error InterfaceNotImplemented
                   (''class '' @ quoted (id_name (cl_name cls)) @ '' does not implement method ''
                      @ quoted (md_method m) @ '' from interface '' @ quoted name) (id_range (cl_name cls)) az) ms az
           | _ \<Rightarrow> az))"

definition check_abstract_method :: "class_decl \<Rightarrow> method_decl \<Rightarrow> analyzer \<Rightarrow> analyzer" where
  "check_abstract_method cls m az =
     (if \<not> cl_is_abstract cls \<and> me_is_abstract m
      then report_error AbstractMethodInNonAbstractClass
        (''abstract method '' @ quoted (id_name (me_name m)) @ '' in non-abstract class ''
           @ quoted (id_name (cl_name cls))) (id_range (me_name m)) az
      else az)"

text \<open>The classes above a class, from the nearest; \<open>None\<close> if the walk never ends.\<close>

partial_function (option) class_chain :: "symbol_table \<Rightarrow> string option \<Rightarrow> class_info list option" where
  "class_chain st base =
     (case base of
        None \<Rightarrow> Some []
      | Some name \<Rightarrow>
          (case resolve_class st name of
             None \<Rightarrow> Some []
           | Some sy \<Rightarrow>
               (case sy_kind sy of
                  K_Class ci \<Rightarrow> Option.bind (class_chain st (ci_base_class ci)) (\<lambda>cis. Some (ci # cis))
                | _ \<Rightarrow> Some [])))"

definition inherited_symbol :: "param_def \<Rightarrow> symbol" where
  "inherited_symbol p = builtin_symbol (pm_name p) (pm_ty p) (K_Variable (pm_kind p))"

definition define_inherited :: "scope_id \<Rightarrow> param_def \<Rightarrow> analyzer \<Rightarrow> analyzer option" where
  "define_inherited i p az =
     (case vec_at (az_symbols az) i of
        None \<Rightarrow> None
      | Some sc \<Rightarrow> (if lookup_local sc (pm_name p) = None then az_put i (inherited_symbol p) az else Some az))"

definition define_inherited_vars :: "scope_id \<Rightarrow> string option \<Rightarrow> analyzer \<Rightarrow> analyzer option" where
  "define_inherited_vars i base az =
     Option.bind (class_chain (az_symbols az) base) (\<lambda>cis.
       ofold (\<lambda>ci. ofold (define_inherited i) (ci_params ci @ ci_outputs ci @ ci_vars ci)) (rev cis) az)"

definition base_method :: "symbol_table \<Rightarrow> string \<Rightarrow> string \<Rightarrow> method_def option" where
  "base_method st base m =
     (case resolve_class st base of
        None \<Rightarrow> None
      | Some sy \<Rightarrow> (case sy_kind sy of K_Class ci \<Rightarrow> find_method m (ci_methods ci) | _ \<Rightarrow> None))"

definition check_override :: "method_decl \<Rightarrow> string \<Rightarrow> string option \<Rightarrow> analyzer \<Rightarrow> analyzer" where
  "check_override m cls base az =
     (let name = id_name (me_name m); r = id_range (me_name m) in
      if \<not> me_is_override m then az
      else case base of
        None \<Rightarrow> report_error InvalidOverride
          (''method '' @ quoted name @ '' marked OVERRIDE but class '' @ quoted cls @ '' has no base class'') r az
      | Some b \<Rightarrow>
          (case base_method (az_symbols az) b name of
             None \<Rightarrow> report_error InvalidOverride
               (''method '' @ quoted name @ '' marked OVERRIDE but no matching method in base class '' @ quoted b) r az
           | Some d \<Rightarrow>
               if md_is_final d
               then report_error CannotOverrideFinalMethod
                 (''cannot override FINAL method '' @ quoted name @ '' from base class '' @ quoted b) r az
               else az))"

definition analyze_method :: "string \<Rightarrow> string option \<Rightarrow> method_decl \<Rightarrow> analyzer \<Rightarrow> analyzer option" where
  "analyze_method cls base m az =
     map_option (set_return_type None)
       (in_new_scope (az_scope az) (id_name (me_name m)) (\<lambda>i az.
          let t = map_option (resolve_data_type (az_symbols az)) (me_return_type m);
              az = set_return_type t az
          in Option.bind (case t of None \<Rightarrow> Some az | Some t \<Rightarrow> az_put i (result_symbol (me_name m) t) az) (\<lambda>az.
             analyze_body (me_var_blocks m) (if me_is_abstract m then [] else me_body m) i
               (check_override m cls base az))) az)"

definition setter_symbol :: "ident \<Rightarrow> ty \<Rightarrow> symbol" where
  "setter_symbol x t =
     \<lparr>sy_name = id_name x, sy_ty = t, sy_kind = K_Variable VarInput, sy_range = id_range x, sy_used = False,
      sy_assigned = True\<rparr>"

definition analyze_accessor :: "string \<Rightarrow> symbol \<Rightarrow> property_accessor option \<Rightarrow> analyzer \<Rightarrow> analyzer option" where
  "analyze_accessor name sy acc az =
     (case acc of
        None \<Rightarrow> Some az
      | Some a \<Rightarrow>
          in_new_scope (az_scope az) name (\<lambda>i az.
            Option.bind (az_put i sy az) (analyze_body (pa_var_blocks a) (pa_body a) i)) az)"

definition analyze_property :: "property_decl \<Rightarrow> analyzer \<Rightarrow> analyzer option" where
  "analyze_property p az =
     (let t = resolve_data_type (az_symbols az) (pr_ty p); name = id_name (pr_name p) in
      Option.bind (analyze_accessor (name @ ''.GET'') (result_symbol (pr_name p) t) (pr_get_body p) az)
        (analyze_accessor (name @ ''.SET'') (setter_symbol (pr_name p) t) (pr_set_body p)))"

definition analyze_class_body :: "class_decl \<Rightarrow> scope_id \<Rightarrow> analyzer \<Rightarrow> analyzer option" where
  "analyze_class_body cls i az =
     (let az = check_base_class cls az;
          az = fold (check_interface_name ''undeclared interface '' (id_range (cl_name cls))) (cl_interfaces cls) az;
          az = fold (check_conformance cls) (cl_interfaces cls) az;
          az = fold (check_abstract_method cls) (cl_methods cls) az
      in Option.bind (define_inherited_vars i (cl_base_class cls) az) (\<lambda>az.
         Option.bind (ofold (define_var_block i) (cl_var_blocks cls) az) (\<lambda>az.
         Option.bind (ofold (analyze_method (id_name (cl_name cls)) (cl_base_class cls)) (cl_methods cls) az)
           (ofold analyze_property (cl_properties cls)))))"

definition analyze_class :: "class_decl \<Rightarrow> analyzer \<Rightarrow> analyzer option" where
  "analyze_class cls az =
     map_option (\<lambda>az'. az'\<lparr>az_class := az_class az\<rparr>)
       (in_new_scope global_scope_id (id_name (cl_name cls)) (\<lambda>i az.
          analyze_class_body cls i (az\<lparr>az_class := Some (id_name (cl_name cls)), az_return_type := None\<rparr>)) az)"

text \<open>The types of the method prototypes are resolved and dropped, which reports nothing.\<close>

definition analyze_interface :: "interface_decl \<Rightarrow> analyzer \<Rightarrow> analyzer" where
  "analyze_interface i =
     fold (check_interface_name ''undeclared base interface '' (id_range (in_name i))) (in_base_interfaces i)"

fun analyze_top_level :: "top_level_item \<Rightarrow> analyzer \<Rightarrow> analyzer option" where
  "analyze_top_level (TI_Program p) az = analyze_program p az"
| "analyze_top_level (TI_Function f) az = analyze_function f az"
| "analyze_top_level (TI_FunctionBlock fb) az = analyze_function_block fb az"
| "analyze_top_level (TI_Class cls) az = analyze_class cls az"
| "analyze_top_level (TI_Interface i) az = Some (analyze_interface i az)"
| "analyze_top_level (TI_TypeDeclaration _ _) az = Some az"
| "analyze_top_level (TI_GlobalVarDeclaration _) az = Some az"

definition analyze_source_file :: "source_file \<Rightarrow> analyzer \<Rightarrow> analyzer option" where
  "analyze_source_file sf az =
     Option.bind (ofold register_top_level (sf_items sf) az) (ofold analyze_top_level (sf_items sf))"

subsection \<open>Unused variables\<close>

text \<open>The order of the warnings within a scope is the order of its map, which the source does not fix.\<close>

fun is_instance :: "ty \<Rightarrow> bool" where
  "is_instance (Ty_FunctionBlock _) = True"
| "is_instance (Ty_Class _) = True"
| "is_instance _ = False"

definition unused_warnings :: "symbol \<Rightarrow> diagnostic list" where
  "unused_warnings sy =
     (case sy_kind sy of
        K_Variable k \<Rightarrow>
          (if \<not> sy_used sy \<and> \<not> (case sy_name sy of c # _ \<Rightarrow> c = CHR ''_'' | [] \<Rightarrow> False)
           then [diagnostic_warning (if k \<in> {VarInput, VarOutput} then UnusedParameter else UnusedVariable)
             (''unused variable '' @ quoted (sy_name sy)) (sy_range sy)]
           else []) @
          (if \<not> sy_assigned sy \<and> \<not> is_instance (sy_ty sy) \<and> k \<notin> {VarInput, VarInOut, VarExternal} \<and> sy_used sy
           then [diagnostic_warning VariableNeverAssigned
             (''variable '' @ quoted (sy_name sy) @ '' is used but never assigned'') (sy_range sy)]
           else [])
      | _ \<Rightarrow> [])"

definition check_unused :: "analyzer \<Rightarrow> analyzer" where
  "check_unused az =
     az\<lparr>az_diagnostics := az_diagnostics az @
       concat (map (\<lambda>sc. if sc_id sc = global_scope_id then []
                         else concat (map (unused_warnings \<circ> snd) (sc_symbols sc))) (az_symbols az))\<rparr>"

subsection \<open>The analysis\<close>

definition analyzer_new :: analyzer where
  "analyzer_new =
     \<lparr>az_symbols = symbol_table_new, az_diagnostics = [], az_scope = global_scope_id, az_in_loop = False,
      az_return_type = None, az_class = None\<rparr>"

definition analyze_with_native_fbs :: "source_file \<Rightarrow> native_layout list option \<Rightarrow> (symbol_table \<times> diagnostic list) option" where
  "analyze_with_native_fbs sf reg =
     (let st = register_intrinsics symbol_table_new;
          st = (case reg of None \<Rightarrow> st | Some ls \<Rightarrow> register_native_fbs ls st)
      in map_option (\<lambda>az. let az = check_unused az in (az_symbols az, az_diagnostics az))
           (analyze_source_file sf (analyzer_new\<lparr>az_symbols := st\<rparr>)))"

definition analyze :: "source_file \<Rightarrow> (symbol_table \<times> diagnostic list) option" where
  "analyze sf = analyze_with_native_fbs sf None"

definition accepted :: "diagnostic list \<Rightarrow> bool" where
  "accepted ds \<longleftrightarrow> list_all (\<lambda>d. di_severity d \<noteq> Sev_Error) ds"

end
