(* ===== verification/Analyze_Props.thy ===== *)
theory Analyze_Props
  imports Analyze
begin

section \<open>The analysis returns, and depends on declarations only\<close>

text \<open>
  A check is \<open>stable\<close> when it returns on every well-formed state, only appends diagnostics and
  marks symbols, and does the same on two states that differ in usage flags and diagnostics. The
  rules below build stable checks from stable checks, so that the proof follows the code.
\<close>

subsection \<open>States\<close>

text \<open>
  \<open>rank\<close> orders the classes, a base below the classes that extend it: there is such an order iff
  the hierarchy has no cycle.
\<close>

definition ranked :: "(string \<Rightarrow> nat) \<Rightarrow> symbol_table \<Rightarrow> bool" where
  "ranked rank st \<longleftrightarrow> (\<forall>name sy ci base. resolve_class st name = Some sy \<longrightarrow> sy_kind sy = K_Class ci \<longrightarrow>
     ci_base_class ci = Some base \<longrightarrow> rank (to_upper base) < rank (to_upper name))"

definition az_good :: "(string \<Rightarrow> nat) \<Rightarrow> analyzer \<Rightarrow> bool" where
  "az_good rank az \<longleftrightarrow> table_ok (az_symbols az) \<and> az_scope az < length (az_symbols az) \<and> ranked rank (az_symbols az)"

definition same_az :: "analyzer \<Rightarrow> analyzer \<Rightarrow> bool" where
  "same_az a b \<longleftrightarrow> same_table (az_symbols a) (az_symbols b) \<and> az_scope a = az_scope b \<and>
     az_in_loop a = az_in_loop b \<and> az_return_type a = az_return_type b \<and> az_class a = az_class b"

definition lockstep :: "analyzer \<Rightarrow> analyzer \<Rightarrow> analyzer \<Rightarrow> analyzer \<Rightarrow> bool" where
  "lockstep a b a1 b1 \<longleftrightarrow> same_az a b \<and> same_az a a1 \<and> same_az b b1 \<and>
     (\<exists>ds. az_diagnostics a1 = az_diagnostics a @ ds \<and> az_diagnostics b1 = az_diagnostics b @ ds)"

definition stable :: "(string \<Rightarrow> nat) \<Rightarrow> (analyzer \<Rightarrow> ('a \<times> analyzer) option) \<Rightarrow> bool" where
  "stable rank f \<longleftrightarrow> (\<forall>a b. az_good rank a \<longrightarrow> same_az a b \<longrightarrow>
     (\<exists>x a1 b1. f a = Some (x, a1) \<and> f b = Some (x, b1) \<and> lockstep a b a1 b1))"

definition stable_step :: "(string \<Rightarrow> nat) \<Rightarrow> (analyzer \<Rightarrow> analyzer option) \<Rightarrow> bool" where
  "stable_step rank f \<longleftrightarrow> stable rank (\<lambda>az. map_option (Pair ()) (f az))"

lemma same_az_refl [simp]: "same_az a a"
  by (simp add: same_az_def)

lemma same_az_sym: "same_az a b \<Longrightarrow> same_az b a"
  by (auto simp: same_az_def intro: same_table_sym)

lemma same_az_trans [trans]: "same_az a b \<Longrightarrow> same_az b c \<Longrightarrow> same_az a c"
  by (auto simp: same_az_def intro: same_table_trans)

lemma ranked_same:
  assumes "same_table st st'" "ranked rank st"
  shows "ranked rank st'"
  unfolding ranked_def
proof (intro allI impI)
  fix name sy ci base
  assume *: "resolve_class st' name = Some sy" "sy_kind sy = K_Class ci" "ci_base_class ci = Some base"
  obtain sy0 where "resolve_class st name = Some sy0" "sym_sig sy0 = sym_sig sy"
    using resolve_kind_same(3) [OF assms(1), of name] *(1) by auto
  then show "rank (to_upper base) < rank (to_upper name)"
    using assms(2) * unfolding ranked_def by (auto simp: sym_sig_def)
qed

lemma az_good_same:
  assumes "same_az a b" "az_good rank a"
  shows "az_good rank b"
proof -
  have st: "same_table (az_symbols a) (az_symbols b)" and "az_scope a = az_scope b"
    using assms(1) unfolding same_az_def by blast+
  have good: "table_ok (az_symbols a)" "az_scope a < length (az_symbols a)" "ranked rank (az_symbols a)"
    using assms(2) unfolding az_good_def by blast+
  have "az_scope b < length (az_symbols b)"
    using good(2) same_table_length [OF st] \<open>az_scope a = az_scope b\<close> by argo
  then show ?thesis
    unfolding az_good_def using same_table_ok [OF st good(1)] ranked_same [OF st good(3)] by blast
qed

lemma lockstep_refl: "same_az a b \<Longrightarrow> lockstep a b a b"
  by (simp add: lockstep_def)

lemma lockstep_trans:
  assumes "lockstep a b a1 b1" "lockstep a1 b1 a2 b2"
  shows "lockstep a b a2 b2"
proof -
  have "same_az a a2" "same_az b b2"
    using assms same_az_trans unfolding lockstep_def by blast+
  then show ?thesis using assms by (auto simp: lockstep_def)
qed

lemma lockstep_same: "lockstep a b a1 b1 \<Longrightarrow> same_az a1 b1"
  unfolding lockstep_def using same_az_trans same_az_sym by blast

lemma lockstep_report:
  "same_az a b \<Longrightarrow> lockstep a b (report_error c m r a) (report_error c m r b)"
  "same_az a b \<Longrightarrow> lockstep a b (report_warning c m r a) (report_warning c m r b)"
  by (simp_all add: lockstep_def report_error_def report_warning_def same_az_def)

subsection \<open>Building stable checks\<close>

lemma stableI:
  "(\<And>a b. az_good rank a \<Longrightarrow> same_az a b \<Longrightarrow>
      \<exists>x a1 b1. f a = Some (x, a1) \<and> f b = Some (x, b1) \<and> lockstep a b a1 b1) \<Longrightarrow> stable rank f"
  by (simp add: stable_def)

lemma stable_stepI:
  "(\<And>a b. az_good rank a \<Longrightarrow> same_az a b \<Longrightarrow>
      \<exists>a1 b1. f a = Some a1 \<and> f b = Some b1 \<and> lockstep a b a1 b1) \<Longrightarrow> stable_step rank f"
  unfolding stable_step_def by (rule stableI) fastforce

lemma stableE:
  assumes "stable rank f" "az_good rank a" "same_az a b"
  obtains x a1 b1 where "f a = Some (x, a1)" "f b = Some (x, b1)" "lockstep a b a1 b1"
    "az_good rank a1" "same_az a1 b1"
proof -
  obtain x a1 b1 where *: "f a = Some (x, a1)" "f b = Some (x, b1)" "lockstep a b a1 b1"
    using assms unfolding stable_def by blast
  moreover have "az_good rank a1"
    using *(3) assms(2) az_good_same unfolding lockstep_def by blast
  ultimately show thesis using that lockstep_same by blast
qed

lemma stable_stepE:
  assumes "stable_step rank f" "az_good rank a" "same_az a b"
  obtains a1 b1 where "f a = Some a1" "f b = Some b1" "lockstep a b a1 b1" "az_good rank a1" "same_az a1 b1"
  using assms unfolding stable_step_def by (rule stableE) auto

lemma stable_cong: "(\<And>az. f az = g az) \<Longrightarrow> stable rank g \<Longrightarrow> stable rank f"
  by (simp add: stable_def)

lemma stable_step_cong: "(\<And>az. f az = g az) \<Longrightarrow> stable_step rank g \<Longrightarrow> stable_step rank f"
  by (simp add: stable_step_def stable_def)

lemma stable_return: "stable rank (\<lambda>az. Some (x, az))"
  by (rule stableI) (simp add: lockstep_refl)

lemma stable_step_return: "stable_step rank Some" "stable_step rank (\<lambda>az. Some az)"
  by (rule stable_stepI; simp add: lockstep_refl)+

lemma stable_bind:
  assumes "stable rank f" "\<And>x. stable rank (g x)"
  shows "stable rank (\<lambda>az. Option.bind (f az) (\<lambda>(x, az). g x az))"
proof (rule stableI)
  fix a b assume ab: "az_good rank a" "same_az a b"
  obtain x a1 b1 where 1: "f a = Some (x, a1)" "f b = Some (x, b1)" "lockstep a b a1 b1"
    "az_good rank a1" "same_az a1 b1" using stableE [OF assms(1) ab] .
  obtain y a2 b2 where 2: "g x a1 = Some (y, a2)" "g x b1 = Some (y, b2)" "lockstep a1 b1 a2 b2"
    using stableE [OF assms(2) 1(4,5)] by metis
  show "\<exists>y a2 b2. Option.bind (f a) (\<lambda>(x, az). g x az) = Some (y, a2) \<and>
      Option.bind (f b) (\<lambda>(x, az). g x az) = Some (y, b2) \<and> lockstep a b a2 b2"
    using 1 2 lockstep_trans by fastforce
qed

lemma stable_step_bind:
  assumes "stable rank f" "\<And>x. stable_step rank (g x)"
  shows "stable_step rank (\<lambda>az. Option.bind (f az) (\<lambda>(x, az). g x az))"
proof -
  have "(\<lambda>az. map_option (Pair ()) (Option.bind (f az) (\<lambda>(x, az). g x az))) =
      (\<lambda>az. Option.bind (f az) (\<lambda>(x, az). map_option (Pair ()) (g x az)))"
    by (rule ext) (auto split: bind_split)
  then show ?thesis
    using stable_bind [of rank f "\<lambda>x az. map_option (Pair ()) (g x az)"] assms by (simp add: stable_step_def)
qed

lemma stable_after_step:
  assumes "stable_step rank f" "stable rank g"
  shows "stable rank (\<lambda>az. Option.bind (f az) g)"
proof -
  have "(\<lambda>az. Option.bind (f az) g) = (\<lambda>az. Option.bind (map_option (Pair ()) (f az)) (\<lambda>(x, az). g az))"
    by (rule ext) (auto split: bind_split)
  then show ?thesis
    using stable_bind [of rank "\<lambda>az. map_option (Pair ()) (f az)" "\<lambda>_. g"] assms by (simp add: stable_step_def)
qed

lemma stable_step_after_step:
  assumes "stable_step rank f" "stable_step rank g"
  shows "stable_step rank (\<lambda>az. Option.bind (f az) g)"
proof -
  have "(\<lambda>az. map_option (Pair ()) (Option.bind (f az) g)) =
      (\<lambda>az. Option.bind (f az) (\<lambda>az. map_option (Pair ()) (g az)))"
    by (rule ext) (auto split: bind_split)
  then show ?thesis
    using stable_after_step [of rank f "\<lambda>az. map_option (Pair ()) (g az)"] assms by (simp add: stable_step_def)
qed

text \<open>A check may look at what two states that agree have in common.\<close>

lemma stable_read:
  assumes "\<And>a b. same_az a b \<Longrightarrow> h a = h b" "\<And>v. stable rank (F v)"
  shows "stable rank (\<lambda>az. F (h az) az)"
proof (rule stableI)
  fix a b assume ab: "az_good rank a" "same_az a b"
  show "\<exists>x a1 b1. F (h a) a = Some (x, a1) \<and> F (h b) b = Some (x, b1) \<and> lockstep a b a1 b1"
    using stableE [OF assms(2) ab, of "h a"] assms(1) [OF ab(2)] by metis
qed

lemma stable_step_read:
  assumes "\<And>a b. same_az a b \<Longrightarrow> h a = h b" "\<And>v. stable_step rank (F v)"
  shows "stable_step rank (\<lambda>az. F (h az) az)"
  using stable_read [of h rank "\<lambda>v az. map_option (Pair ()) (F v az)"] assms by (simp add: stable_step_def)

lemma stable_report: "stable_step rank (\<lambda>az. Some (report_error c m r az))"
  "stable_step rank (\<lambda>az. Some (report_warning c m r az))"
  by (rule stable_stepI; simp add: lockstep_report)+

lemma stable_if:
  "stable rank f \<Longrightarrow> stable rank g \<Longrightarrow> stable rank (\<lambda>az. if P then f az else g az)"
  by (cases P) simp_all

lemma stable_step_if:
  "stable_step rank f \<Longrightarrow> stable_step rank g \<Longrightarrow> stable_step rank (\<lambda>az. if P then f az else g az)"
  by (cases P) simp_all

text \<open>A change of the state that always returns, before a check or with a value.\<close>

definition reports :: "(analyzer \<Rightarrow> analyzer) \<Rightarrow> bool" where
  "reports f \<longleftrightarrow> (\<forall>a b. same_az a b \<longrightarrow> lockstep a b (f a) (f b))"

lemma reports_error: "reports (report_error c m r)"
  by (simp add: reports_def lockstep_report)

lemma reports_warning: "reports (report_warning c m r)"
  by (simp add: reports_def lockstep_report)

lemma reports_id: "reports (\<lambda>az. az)"
  by (simp add: reports_def lockstep_refl)

lemma reports_if: "reports f \<Longrightarrow> reports g \<Longrightarrow> reports (\<lambda>az. if P then f az else g az)"
  by (cases P) simp_all

lemma reports_step: "reports f \<Longrightarrow> stable_step rank (\<lambda>az. Some (f az))"
  by (rule stable_stepI) (auto simp: reports_def)

lemma reports_value: "reports f \<Longrightarrow> stable rank (\<lambda>az. Some (x, f az))"
  by (rule stableI) (auto simp: reports_def)

lemma reports_then:
  assumes "reports f" "stable rank g"
  shows "stable rank (\<lambda>az. g (f az))"
  using stable_after_step [OF reports_step [OF assms(1)] assms(2)] by simp

lemma reports_then_step:
  assumes "reports f" "stable_step rank g"
  shows "stable_step rank (\<lambda>az. g (f az))"
  using stable_step_after_step [OF reports_step [OF assms(1)] assms(2)] by simp

lemma reports_comp: "reports f \<Longrightarrow> reports g \<Longrightarrow> reports (\<lambda>az. f (g az))"
  unfolding reports_def using lockstep_trans lockstep_same by blast

lemma reports_fold: "(\<And>x. reports (f x)) \<Longrightarrow> reports (fold f xs)"
proof (induction xs)
  case Nil
  then show ?case by (simp add: reports_def lockstep_refl)
next
  case (Cons x xs)
  then show ?case using reports_comp [of "fold f xs" "f x"] by (simp add: o_def)
qed

lemma stable_step_map:
  "stable rank f \<Longrightarrow> stable_step rank (\<lambda>az. map_option snd (f az))"
  by (rule stable_stepI) (fastforce elim: stableE)

subsection \<open>Names and types\<close>

lemma az_good_resolve:
  assumes "az_good rank a" "same_az a b"
  obtains res res' where "az_resolve a x = Some res" "az_resolve b x = Some res'" "same_result res res'"
proof -
  have st: "same_table (az_symbols a) (az_symbols b)" and sc: "az_scope a = az_scope b"
    using assms(2) unfolding same_az_def by blast+
  have "table_ok (az_symbols a)" "az_scope a < length (az_symbols a)"
    using assms(1) unfolding az_good_def by blast+
  from resolve_same [OF st this, of x] show thesis
    using that unfolding az_resolve_def sc [symmetric] by blast
qed

lemma stable_resolve:
  assumes "stable rank (G None)" "\<And>i s. stable rank (G (Some (i, s)))"
    "\<And>i s s'. sym_sig s = sym_sig s' \<Longrightarrow> G (Some (i, s)) = G (Some (i, s'))"
  shows "stable rank (\<lambda>az. Option.bind (az_resolve az x) (\<lambda>res. G res az))"
proof (rule stableI)
  fix a b assume ab: "az_good rank a" "same_az a b"
  obtain res res' where r: "az_resolve a x = Some res" "az_resolve b x = Some res'" "same_result res res'"
    using az_good_resolve [OF ab] .
  have "G res = G res' \<and> stable rank (G res)"
    using r(3) by (cases rule: same_result_cases) (metis assms(1), metis assms(2,3))
  then have "G res = G res'" "stable rank (G res)" by blast+
  then show "\<exists>y a1 b1. Option.bind (az_resolve a x) (\<lambda>res. G res a) = Some (y, a1) \<and>
      Option.bind (az_resolve b x) (\<lambda>res. G res b) = Some (y, b1) \<and> lockstep a b a1 b1"
    using stableE [OF \<open>stable rank (G res)\<close> ab] r by (metis bind.bind_lunit)
qed

lemma stable_step_resolve:
  assumes "stable_step rank (G None)" "\<And>i s. stable_step rank (G (Some (i, s)))"
    "\<And>i s s'. sym_sig s = sym_sig s' \<Longrightarrow> G (Some (i, s)) = G (Some (i, s'))"
  shows "stable_step rank (\<lambda>az. Option.bind (az_resolve az x) (\<lambda>res. G res az))"
proof -
  have "(\<lambda>az. map_option (Pair ()) (Option.bind (az_resolve az x) (\<lambda>res. G res az))) =
      (\<lambda>az. Option.bind (az_resolve az x) (\<lambda>res. map_option (Pair ()) (G res az)))"
    by (rule ext) (auto split: bind_split)
  moreover have "stable rank (\<lambda>az. Option.bind (az_resolve az x) (\<lambda>res. map_option (Pair ()) (G res az)))"
  proof (rule stable_resolve)
    show "stable rank (\<lambda>az. map_option (Pair ()) (G None az))" using assms(1) by (simp add: stable_step_def)
    show "stable rank (\<lambda>az. map_option (Pair ()) (G (Some (i, s)) az))" for i s
      using assms(2) by (simp add: stable_step_def)
    show "(\<lambda>az. map_option (Pair ()) (G (Some (i, s)) az)) = (\<lambda>az. map_option (Pair ()) (G (Some (i, s')) az))"
      if "sym_sig s = sym_sig s'" for i s s' using assms(3) [OF that] by metis
  qed
  ultimately show ?thesis by (simp add: stable_step_def)
qed

lemma az_mark_stable: "stable_step rank (az_mark_used x)" "stable_step rank (az_mark_assigned x)"
proof -
  have "stable_step rank (\<lambda>az. map_option (\<lambda>st. az\<lparr>az_symbols := st\<rparr>) (f (az_scope az) x (az_symbols az)))"
    if f: "\<And>st i. table_ok st \<Longrightarrow> i < length st \<Longrightarrow> \<exists>st'. f i x st = Some st' \<and> same_table st st'" for f
  proof (rule stable_stepI)
    fix a b assume ab: "az_good rank a" "same_az a b"
    have b: "az_good rank b" using az_good_same [OF ab(2,1)] .
    obtain sa sb where "f (az_scope a) x (az_symbols a) = Some sa" "same_table (az_symbols a) sa"
      "f (az_scope b) x (az_symbols b) = Some sb" "same_table (az_symbols b) sb"
      using f ab(1) b unfolding az_good_def by meson
    then show "\<exists>a1 b1. map_option (\<lambda>st. a\<lparr>az_symbols := st\<rparr>) (f (az_scope a) x (az_symbols a)) = Some a1 \<and>
        map_option (\<lambda>st. b\<lparr>az_symbols := st\<rparr>) (f (az_scope b) x (az_symbols b)) = Some b1 \<and> lockstep a b a1 b1"
      using ab(2) by (auto simp: lockstep_def same_az_def)
  qed
  from this [of mark_used] this [of mark_assigned]
  show "stable_step rank (az_mark_used x)" "stable_step rank (az_mark_assigned x)"
    by (simp_all add: az_mark_used_def [abs_def] az_mark_assigned_def [abs_def] mark_used_Some mark_assigned_Some)
qed

lemma same_option_cases:
  assumes "map_option sym_sig x = map_option sym_sig y"
  obtains "x = None" "y = None" | s t where "x = Some s" "y = Some t" "sy_kind t = sy_kind s" "sy_ty t = sy_ty s"
  using assms by (cases x; cases y) (auto simp: sym_sig_def)

lemma member_type_same:
  assumes "same_table st st'"
  shows "member_type st x t = member_type st' x t"
proof -
  have p: "map_option sym_sig (resolve_pou st n) = map_option sym_sig (resolve_pou st' n)"
    and c: "map_option sym_sig (resolve_class st n) = map_option sym_sig (resolve_class st' n)" for n
    by (rule resolve_kind_same [OF assms])+
  show ?thesis
  proof (cases "resolved t")
    case (Ty_FunctionBlock n)
    show ?thesis using p [of n] by (cases rule: same_option_cases) (simp_all add: member_type_def Ty_FunctionBlock)
  next
    case (Ty_Class n)
    show ?thesis using c [of n] by (cases rule: same_option_cases) (simp_all add: member_type_def Ty_Class)
  qed (simp_all add: member_type_def)
qed

lemma class_base_same:
  assumes "same_table st st'"
  shows "class_base st c = class_base st' c"
  using resolve_kind_same(3) [OF assms, of c] by (cases rule: same_option_cases) (simp_all add: class_base_def)

lemma class_method_same:
  assumes "same_table st st'" "ranked rank st"
  shows "\<exists>r. resolve_class_method st cls m = Some r \<and> resolve_class_method st' cls m = Some r"
proof (induction "rank (to_upper cls)" arbitrary: cls rule: less_induct)
  case less
  from resolve_kind_same(3) [OF assms(1), of cls] show ?case
  proof (cases rule: same_option_cases)
    case 1
    then show ?thesis by (simp add: resolve_class_method.simps)
  next
    case (2 s t)
    show ?thesis
    proof (cases "sy_kind s")
      case (K_Class ci)
      then have ih: "ci_base_class ci = Some b \<Longrightarrow>
          \<exists>r. resolve_class_method st b m = Some r \<and> resolve_class_method st' b m = Some r" for b
        using less assms(2) 2(1) unfolding ranked_def by blast
      show ?thesis
        using 2 K_Class ih
        by (cases "ci_base_class ci")
          (simp_all add: resolve_class_method.simps [of _ cls] split: option.splits)
    qed (use 2 in \<open>simp_all add: resolve_class_method.simps\<close>)
  qed
qed

lemma stable_class_method:
  assumes "\<And>r. stable rank (H r)"
  shows "stable rank (\<lambda>az. Option.bind (resolve_class_method (az_symbols az) c m) (\<lambda>r. H r az))"
proof (rule stableI)
  fix a b assume ab: "az_good rank a" "same_az a b"
  then obtain r where "resolve_class_method (az_symbols a) c m = Some r" "resolve_class_method (az_symbols b) c m = Some r"
    using class_method_same [of "az_symbols a" "az_symbols b" rank c m] by (auto simp: az_good_def same_az_def)
  then show "\<exists>x a1 b1. Option.bind (resolve_class_method (az_symbols a) c m) (\<lambda>r. H r a) = Some (x, a1) \<and>
      Option.bind (resolve_class_method (az_symbols b) c m) (\<lambda>r. H r b) = Some (x, b1) \<and> lockstep a b a1 b1"
    using stableE [OF assms ab, of r] by (metis bind.bind_lunit)
qed

lemma stable_receiver:
  assumes "\<And>r. stable rank (H r)"
  shows "stable rank (\<lambda>az. Option.bind (method_receiver az q) (\<lambda>r. H r az))"
proof -
  consider (two) obj m where "qn_parts q = [obj, m]" | (other) "\<And>az. method_receiver az q = Some None"
    by (cases "qn_parts q" rule: remdups_adj.cases; cases "tl (tl (qn_parts q))")
      (auto simp: method_receiver_def)
  then show ?thesis
  proof cases
    case two
    let ?F = "\<lambda>res. case res of
        None \<Rightarrow> None
      | Some (_, sy) \<Rightarrow> (case resolved (sy_ty sy) of Ty_Class cls \<Rightarrow> Some (id_name obj, cls, m) | _ \<Rightarrow> None)"
    have "stable rank (\<lambda>az. Option.bind (az_resolve az (id_name obj)) (\<lambda>res. H (?F res) az))"
      by (rule stable_resolve) (use assms in \<open>auto simp: sym_sig_def\<close>)
    then show ?thesis by (simp add: method_receiver_def two)
  qed (use assms in simp)
qed

lemma callee_sig:
  assumes "sym_sig s = sym_sig s'"
  shows "callee name r s = callee name r s'"
proof -
  have "sy_kind s = sy_kind s'" "sy_ty s = sy_ty s'" using assms by (simp_all add: sym_sig_def)
  then show ?thesis unfolding callee_def by metis
qed

lemma report_abstract_reports: "reports (report_abstract ab name r)"
  by (cases ab) (simp_all add: report_abstract_def [abs_def] reports_if reports_error reports_id)

lemma stable_callee:
  assumes "stable rank F" "\<And>n ps t. stable rank (G n ps t)"
  shows "stable rank (\<lambda>az. case callee name r s az of None \<Rightarrow> F az | Some (n, ps, t, az) \<Rightarrow> G n ps t az)"
proof (rule stableI)
  fix a b assume ab: "az_good rank a" "same_az a b"
  have st: "same_table (az_symbols a) (az_symbols b)" using ab(2) by (simp add: same_az_def)
  have abstract: "lockstep a b (report_abstract p n r a) (report_abstract p n r b)" for p n
    using report_abstract_reports ab(2) by (simp add: reports_def)
  consider (no) "callee name r s a = None" "callee name r s b = None"
    | (yes) n ps t a1 b1 where "callee name r s a = Some (n, ps, t, a1)" "callee name r s b = Some (n, ps, t, b1)"
        "lockstep a b a1 b1"
  proof (cases "sy_kind s")
    case (K_Variable k)
    show thesis
    proof (cases "resolved (sy_ty s)")
      case (Ty_FunctionBlock n)
      from resolve_kind_same(2) [OF st, of n] show thesis
        by (cases rule: same_option_cases)
          (use that(2) K_Variable Ty_FunctionBlock ab(2) in \<open>auto simp: callee_def lockstep_refl\<close>)
    next
      case (Ty_Class n)
      from resolve_kind_same(3) [OF st, of n] show thesis
      proof (cases rule: same_option_cases)
        case (2 u v)
        then show thesis
          using that(2) K_Variable Ty_Class ab(2) abstract
          by (cases "sy_kind u") (auto simp: callee_def lockstep_refl)
      qed (use that(2) K_Variable Ty_Class ab(2) in \<open>simp add: callee_def lockstep_refl\<close>)
    qed (use that(1) K_Variable in \<open>simp_all add: callee_def\<close>)
  qed (use that ab(2) abstract in \<open>auto simp: callee_def lockstep_refl\<close>)
  then show "\<exists>x a1 b1. (case callee name r s a of None \<Rightarrow> F a | Some (n, ps, t, az) \<Rightarrow> G n ps t az) = Some (x, a1) \<and>
      (case callee name r s b of None \<Rightarrow> F b | Some (n, ps, t, az) \<Rightarrow> G n ps t az) = Some (x, b1) \<and> lockstep a b a1 b1"
  proof cases
    case no
    then show ?thesis using stableE [OF assms(1) ab] by simp metis
  next
    case (yes n ps t a1 b1)
    have "az_good rank a1" using yes(3) ab(1) az_good_same unfolding lockstep_def by blast
    then obtain x a2 b2 where "G n ps t a1 = Some (x, a2)" "G n ps t b1 = Some (x, b2)" "lockstep a1 b1 a2 b2"
      using stableE [OF assms(2) _ lockstep_same [OF yes(3)], of n ps t] by metis
    then show ?thesis using yes lockstep_trans [OF yes(3)] by auto
  qed
qed

subsection \<open>Expressions\<close>

lemmas operator_simps = unary_type_def binary_type_def arithmetic_type_def logic_type_def comparison_type_def
  operand_error_def if_distrib [of snd] if_distrib [of fst] reports_if reports_error reports_id

lemma operator_reports:
  "reports (\<lambda>az. snd (unary_type op r t az))" "fst (unary_type op r t a) = fst (unary_type op r t b)"
  "reports (\<lambda>az. snd (binary_type bop e1 e2 r lt rt az))"
  "fst (binary_type bop e1 e2 r lt rt a) = fst (binary_type bop e1 e2 r lt rt b)"
  by (cases op; simp add: operator_simps; fail | simp add: operator_simps)+

lemma stable_pair:
  assumes "reports (\<lambda>az. snd (f az))" "\<And>a b. fst (f a) = fst (f b)"
  shows "stable rank (\<lambda>az. Some (f az))"
proof -
  have "f = (\<lambda>az. (fst (f undefined), snd (f az)))" by (rule ext) (metis assms(2) prod.collapse)
  then show ?thesis using reports_value [OF assms(1), of rank "fst (f undefined)"] by metis
qed

lemma stable_operators:
  "stable rank (\<lambda>az. Some (unary_type op r t az))" "stable rank (\<lambda>az. Some (binary_type bop e1 e2 r lt rt az))"
  by (rule stable_pair; rule operator_reports)+

lemma stable_this: "stable rank (\<lambda>az. Some (check_this r az))"
proof (rule stableI)
  fix a b assume "az_good rank a" and ab: "same_az a b"
  have "az_class a = az_class b" using ab unfolding same_az_def by blast
  then show "\<exists>x a1 b1. Some (check_this r a) = Some (x, a1) \<and> Some (check_this r b) = Some (x, b1) \<and> lockstep a b a1 b1"
    using lockstep_report(1) [OF ab] lockstep_refl [OF ab] by (simp add: check_this_def split: option.split)
qed

lemma stable_super: "stable rank (\<lambda>az. Some (check_super r az))"
proof (rule stableI)
  fix a b assume "az_good rank a" and ab: "same_az a b"
  have "az_class a = az_class b" "same_table (az_symbols a) (az_symbols b)" using ab unfolding same_az_def by blast+
  then show "\<exists>x a1 b1. Some (check_super r a) = Some (x, a1) \<and> Some (check_super r b) = Some (x, b1) \<and> lockstep a b a1 b1"
    using lockstep_report(1) [OF ab] lockstep_refl [OF ab] class_base_same [of "az_symbols a" "az_symbols b"]
    by (auto simp: check_super_def split: option.split)
qed

lemma check_reports:
  "reports (check_index_type w t r)" "reports (report_dimensions n k r)" "reports (report_undeclared x)"
  "reports (check_param_type w p t r)"
  by (simp_all add: check_index_type_def [abs_def] report_dimensions_def [abs_def] report_undeclared_def [abs_def]
      check_param_type_def [abs_def] reports_if reports_error reports_id)

lemma check_required_reports: "reports (check_required name r ps seen n)"
  unfolding check_required_def [abs_def] by (rule reports_fold) (simp add: reports_if reports_error reports_id)

lemma stable_indices:
  "(\<And>e. e \<in> set es \<Longrightarrow> stable rank (check_expression e)) \<Longrightarrow> stable_step rank (check_indices es w)"
proof (induction es)
  case Nil
  have "check_indices [] w = Some" by (rule ext) simp
  then show ?case by (simp add: stable_step_return)
next
  case (Cons e es)
  have "check_indices (e # es) w = (\<lambda>az. Option.bind (check_expression e az) (\<lambda>(t, az).
      check_indices es w (check_index_type w t (expression_range e) az)))" by (rule ext) simp
  moreover have "stable_step rank \<dots>"
    by (rule stable_step_bind) (use Cons in \<open>auto intro: reports_then_step check_reports\<close>)
  ultimately show ?case by simp
qed

definition part_stable :: "(string \<Rightarrow> nat) \<Rightarrow> access_part \<Rightarrow> bool" where
  "part_stable rank p \<longleftrightarrow> (\<forall>parts rg first t. (\<forall>first t. stable rank (check_parts parts rg first t)) \<longrightarrow>
     stable rank (check_parts (p # parts) rg first t))"

lemma part_stable_parts:
  "(\<And>p. p \<in> set parts \<Longrightarrow> part_stable rank p) \<Longrightarrow> stable rank (check_parts parts rg first t)"
proof (induction parts arbitrary: first t)
  case Nil
  have "check_parts [] rg first t = (\<lambda>az. Some (t, az))" by (rule ext) simp
  then show ?case by (simp add: stable_return)
next
  case (Cons p parts)
  then show ?case by (simp add: part_stable_def)
qed

lemma part_stable_identifier: "part_stable rank (A_Identifier x)"
  unfolding part_stable_def
proof (intro allI impI)
  fix parts rg first t
  assume ih: "\<forall>first t. stable rank (check_parts parts rg first t)"
  show "stable rank (check_parts (A_Identifier x # parts) rg first t)"
  proof (cases first)
    case True
    have "stable rank (\<lambda>az. Option.bind (az_resolve az (id_name x)) (\<lambda>res. (\<lambda>res az. case res of
        None \<Rightarrow> Some (Ty_Unknown, report_undeclared x az)
      | Some (_, sy) \<Rightarrow>
          Option.bind (az_mark_used (id_name x) az) (\<lambda>az. check_parts parts rg False (sy_ty sy) az)) res az))"
      by (rule stable_resolve)
        (use ih in \<open>auto simp: sym_sig_def reports_value check_reports intro!: stable_after_step az_mark_stable\<close>)
    moreover have "check_parts (A_Identifier x # parts) rg first t = (\<lambda>az. Option.bind (az_resolve az (id_name x)) (\<lambda>res. (\<lambda>res az. case res of
        None \<Rightarrow> Some (Ty_Unknown, report_undeclared x az)
      | Some (_, sy) \<Rightarrow>
          Option.bind (az_mark_used (id_name x) az) (\<lambda>az. check_parts parts rg False (sy_ty sy) az)) res az))"
      by (rule ext) (simp add: True)
    ultimately show ?thesis by simp
  next
    case False
    have "stable rank (\<lambda>az. (\<lambda>m az. case m of
           Member t \<Rightarrow> check_parts parts rg False t az
         | No_Member (c, m) \<Rightarrow> Some (Ty_Unknown, report_error c m (id_range x) az)
         | Unresolved \<Rightarrow> Some (Ty_Unknown, az)) (member_type (az_symbols az) (id_name x) t) az)"
    proof (rule stable_read [where h = "\<lambda>az. member_type (az_symbols az) (id_name x) t"], goal_cases)
      case (1 a b)
      then show ?case using member_type_same unfolding same_az_def by blast
    next
      case (2 v)
      show ?case by (cases v) (use ih in \<open>auto simp: stable_return reports_value reports_error\<close>)
    qed
    moreover have "check_parts (A_Identifier x # parts) rg first t = (\<lambda>az. (\<lambda>m az. case m of
           Member t \<Rightarrow> check_parts parts rg False t az
         | No_Member (c, m) \<Rightarrow> Some (Ty_Unknown, report_error c m (id_range x) az)
         | Unresolved \<Rightarrow> Some (Ty_Unknown, az)) (member_type (az_symbols az) (id_name x) t) az)"
      by (rule ext) (simp add: False)
    ultimately show ?thesis by simp
  qed
qed

lemma part_stable_index:
  assumes "\<And>e. e \<in> set es \<Longrightarrow> stable rank (check_expression e)"
  shows "part_stable rank (A_Index es)"
  unfolding part_stable_def
proof (intro allI impI)
  fix parts rg first t
  assume ih: "\<forall>first t. stable rank (check_parts parts rg first t)"
  have idx: "stable_step rank (check_indices es w)" for w by (rule stable_indices) (rule assms)
  have array: "stable rank (\<lambda>az. Option.bind (check_indices es ''array'' (report_dimensions n k rg az))
      (check_parts parts rg False el))" for n k el
    using reports_then_step [OF check_reports(2) idx] ih by (intro stable_after_step) auto
  have string: "stable rank (\<lambda>az. Option.bind (check_indices es ''string'' az) (check_parts parts rg False u))" for u
    using idx ih by (intro stable_after_step) auto
  show "stable rank (check_parts (A_Index es # parts) rg first t)"
  proof (cases "resolved t")
    case (Ty_Array ranges el)
    show ?thesis by (rule stable_cong [OF _ array [of "length ranges" "length es" el]]) (simp add: Ty_Array)
  next
    case (Ty_String w n)
    show ?thesis by (rule stable_cong [OF _ string [of "elem ET_Byte"]]) (simp add: Ty_String)
  next
    case Ty_Unknown
    show ?thesis by (rule stable_cong [OF _ ih [rule_format, of False t]]) (simp add: Ty_Unknown)
  qed (rule stable_cong [OF _ reports_value [OF reports_error [of IndexOnNonArray
      "''cannot index into type '' @ quoted (display_name t)" rg], of rank Ty_Unknown]]; simp)+
qed

lemma part_stable_rest: "part_stable rank A_Deref" "part_stable rank (A_Partial k n)"
  unfolding part_stable_def
  by (intro allI impI, rule stable_cong, rule check_parts.simps, simp)+

definition arg_stable :: "(string \<Rightarrow> nat) \<Rightarrow> argument \<Rightarrow> bool" where
  "arg_stable rank a \<longleftrightarrow> (\<forall>args name ps seen n. (\<forall>seen n. stable rank (check_args args name ps seen n)) \<longrightarrow>
     stable rank (check_args (a # args) name ps seen n))"

lemma arg_stable_args:
  "(\<And>a. a \<in> set args \<Longrightarrow> arg_stable rank a) \<Longrightarrow> stable rank (check_args args name ps seen n)"
proof (induction args arbitrary: seen n)
  case Nil
  show ?case by (rule stable_cong [OF _ stable_return]) simp
next
  case (Cons a args)
  then show ?case by (simp add: arg_stable_def)
qed

lemma arg_stable_named:
  assumes e: "stable rank (check_expression e)"
  shows "arg_stable rank (Named x e)"
  unfolding arg_stable_def
proof (intro allI impI)
  fix args name ps seen n
  assume ih: "\<forall>seen n. stable rank (check_args args name ps seen n)"
  let ?seen = "seen @ [to_upper (id_name x)]"
  have some: "stable rank (\<lambda>az. Option.bind (check_expression e az) (\<lambda>(t, az).
      check_args args name ps ?seen n
        (check_param_type (''parameter '' @ quoted (id_name x)) (pm_ty p) t (expression_range e) az)))" for p
    by (rule stable_bind [OF e]) (use ih in \<open>auto intro: reports_then check_reports\<close>)
  have err: "stable rank (\<lambda>az. check_args args name ps seen' n (report_error c m r az))" for seen' c m r
    by (rule reports_then [OF reports_error]) (use ih in auto)
  show "stable rank (check_args (Named x e # args) name ps seen n)"
  proof (cases "to_upper (id_name x) \<in> set seen")
    case True
    then show ?thesis
      by (intro stable_cong [OF _ err [of seen DuplicateParam
        "''duplicate parameter '' @ quoted (id_name x) @ '' in call to '' @ quoted name" "id_range x"]]) simp
  next
    case False
    show ?thesis
    proof (cases "find_param (id_name x) ps")
      case None
      then show ?thesis
        by (intro stable_cong [OF _ err [of ?seen UnknownParam
          "''unknown parameter '' @ quoted (id_name x) @ '' in call to '' @ quoted name" "id_range x"]]) (simp add: False)
    next
      case (Some p)
      then show ?thesis by (intro stable_cong [OF _ some [of p]]) (simp add: False)
    qed
  qed
qed

lemma arg_stable_positional:
  assumes e: "stable rank (check_expression e)"
  shows "arg_stable rank (Positional e)"
  unfolding arg_stable_def
proof (intro allI impI)
  fix args name ps seen n
  assume ih: "\<forall>seen n. stable rank (check_args args name ps seen n)"
  have some: "stable rank (\<lambda>az. Option.bind (check_expression e az) (\<lambda>(t, az).
      check_args args name ps seen (n + 1)
        (check_param_type (''argument '' @ show_nat (n + 1)) (pm_ty (ps ! n)) t (expression_range e) az)))"
    by (rule stable_bind [OF e]) (use ih in \<open>auto intro: reports_then check_reports\<close>)
  have err: "stable rank (\<lambda>az. check_args args name ps seen n (report_error c m r az))" for c m r
    by (rule reports_then [OF reports_error]) (use ih in auto)
  show "stable rank (check_args (Positional e # args) name ps seen n)"
  proof (cases "n < length ps")
    case True
    then show ?thesis by (intro stable_cong [OF _ some]) simp
  next
    case False
    then show ?thesis
      by (intro stable_cong [OF _ err [of TooManyPositionalArgs "''too many arguments in call to '' @ quoted name @
        '' (expected '' @ show_nat (length ps) @ '')''" "expression_range e"]]) simp
  qed
qed

lemma stable_call_args:
  assumes "\<And>a. a \<in> set args \<Longrightarrow> arg_stable rank a"
  shows "stable rank (\<lambda>az. Option.bind (check_args args name ps [] 0 az) (\<lambda>((seen, n), az).
    Some (t, check_required name r ps seen n az)))"
  by (rule stable_bind [OF arg_stable_args [OF assms]]) (auto intro: reports_value check_required_reports)

lemma stable_call:
  assumes args: "\<And>a. a \<in> set args \<Longrightarrow> arg_stable rank a"
  shows "stable rank (check_function_call (FunctionCallExpr q args r))"
proof (rule stable_cong [OF check_function_call.simps], rule stable_receiver)
  fix recv :: "(string \<times> string \<times> ident) option"
  show "stable rank (\<lambda>az. case recv of
         Some (obj, cls, m) \<Rightarrow>
           Option.bind (az_mark_used obj az) (\<lambda>az.
           Option.bind (resolve_class_method (az_symbols az) cls (id_name m)) (\<lambda>found.
             case found of
               None \<Rightarrow> Some (Ty_Unknown,
                 report_error NoSuchField
                   (''no method '' @ quoted (id_name m) @ '' on class '' @ quoted cls) (id_range m) az)
             | Some (_, d) \<Rightarrow>
                 Option.bind (check_args args (cls @ ''.'' @ id_name m) (md_params d) [] 0 az)
                   (\<lambda>((seen, n), az).
                     Some (md_return_type d,
                       check_required (cls @ ''.'' @ id_name m) r (md_params d) seen n az))))
       | None \<Rightarrow>
           Option.bind (az_resolve az (qn_as_str q)) (\<lambda>res.
             case res of
               None \<Rightarrow> Some (Ty_Unknown,
                 report_error UndeclaredPou
                   (''undeclared function or function block '' @ quoted (qn_as_str q)) (qn_range q) az)
             | Some (_, sy) \<Rightarrow>
                 Option.bind (az_mark_used (qn_as_str q) az) (\<lambda>az.
                   case callee (qn_as_str q) r sy az of
                     None \<Rightarrow> Some (Ty_Unknown,
                       report_error NotCallable (quoted (qn_as_str q) @ '' is not callable'') r az)
                   | Some (name, params, t, az) \<Rightarrow>
                       Option.bind (check_args args name params [] 0 az) (\<lambda>((seen, n), az).
                         Some (t, check_required name r params seen n az)))))"
  proof (cases recv)
    case None
    have "stable rank (\<lambda>az. Option.bind (az_resolve az (qn_as_str q)) (\<lambda>res. (\<lambda>res az.
             case res of
               None \<Rightarrow> Some (Ty_Unknown,
                 report_error UndeclaredPou
                   (''undeclared function or function block '' @ quoted (qn_as_str q)) (qn_range q) az)
             | Some (_, sy) \<Rightarrow>
                 Option.bind (az_mark_used (qn_as_str q) az) (\<lambda>az.
                   case callee (qn_as_str q) r sy az of
                     None \<Rightarrow> Some (Ty_Unknown,
                       report_error NotCallable (quoted (qn_as_str q) @ '' is not callable'') r az)
                   | Some (name, params, t, az) \<Rightarrow>
                       Option.bind (check_args args name params [] 0 az) (\<lambda>((seen, n), az).
                         Some (t, check_required name r params seen n az)))) res az))"
    proof (rule stable_resolve, goal_cases)
      case 3
      show ?case using callee_sig [OF 3] by simp
    qed (auto intro!: reports_value reports_error stable_after_step az_mark_stable stable_callee stable_call_args args)
    then show ?thesis unfolding None option.case(1) .
  next
    case (Some p)
    obtain obj cls m where p: "p = (obj, cls, m)" by (cases p) auto
    have "stable rank (\<lambda>az. Option.bind (az_mark_used obj az) (\<lambda>az.
           Option.bind (resolve_class_method (az_symbols az) cls (id_name m)) (\<lambda>found. (\<lambda>found az.
             case found of
               None \<Rightarrow> Some (Ty_Unknown,
                 report_error NoSuchField
                   (''no method '' @ quoted (id_name m) @ '' on class '' @ quoted cls) (id_range m) az)
             | Some (_, d) \<Rightarrow>
                 Option.bind (check_args args (cls @ ''.'' @ id_name m) (md_params d) [] 0 az)
                   (\<lambda>((seen, n), az).
                     Some (md_return_type d,
                       check_required (cls @ ''.'' @ id_name m) r (md_params d) seen n az))) found az)))"
    proof (intro stable_after_step az_mark_stable stable_class_method, goal_cases)
      case (1 found)
      show ?case by (cases found) (auto intro!: reports_value reports_error stable_call_args args)
    qed
    then show ?thesis unfolding Some p option.case(2) prod.case .
  qed
qed

subsection \<open>Every expression\<close>

lemma check_stable:
  "stable rank (check_expression e)" "stable rank (check_variable_access va)" "part_stable rank p"
  "stable rank (check_function_call fc)" "arg_stable rank a"
proof (induction e and va and p and fc and a)
  case (E_Literal l)
  show ?case by (rule stable_cong [OF check_expression.simps(1) stable_return])
next
  case (E_Variable va)
  show ?case by (rule stable_cong [OF check_expression.simps(2) E_Variable])
next
  case (E_FunctionCall fc)
  show ?case by (rule stable_cong [OF check_expression.simps(3) E_FunctionCall])
next
  case (E_Unary op e r)
  show ?case
    by (rule stable_cong [OF check_expression.simps(4)], rule stable_bind [OF E_Unary], rule stable_operators)
next
  case (E_Binary op l r rg)
  show ?case
    by (rule stable_cong [OF check_expression.simps(5)], rule stable_bind [OF E_Binary(1)],
        rule stable_bind [OF E_Binary(2)], rule stable_operators)
next
  case (E_Parenthesized e)
  show ?case by (rule stable_cong [OF check_expression.simps(6) E_Parenthesized])
next
  case (E_This r)
  show ?case by (rule stable_cong [OF check_expression.simps(7) stable_this])
next
  case (E_Super r)
  show ?case by (rule stable_cong [OF check_expression.simps(8) stable_super])
next
  case (VariableAccess parts r)
  show ?case by (rule stable_cong [OF check_variable_access.simps part_stable_parts]) (rule VariableAccess)
next
  case (FunctionCallExpr q args r)
  show ?case by (rule stable_call) (rule FunctionCallExpr)
qed (simp_all add: part_stable_identifier part_stable_index part_stable_rest arg_stable_positional
  arg_stable_named)

end
