(* ===== verification/Analyze_Returns.thy ===== *)
theory Analyze_Returns
  imports Analyze_Props
begin

section \<open>The analysis of a source file returns\<close>

subsection \<open>Statements are stable\<close>

lemmas expression_stable = check_stable(1) and access_stable = check_stable(2) and call_stable = check_stable(4)

lemma stable_step_value:
  "(\<And>x. reports (f x)) \<Longrightarrow> stable rank g \<Longrightarrow> stable_step rank (\<lambda>az. Option.bind (g az) (\<lambda>(x, az). Some (f x az)))"
  by (rule stable_step_bind) (auto intro: reports_step)

lemma statement_reports:
  "reports (expect_bool t r)" "reports (check_selector_type w et t r)" "reports (check_for_bound w t r)"
  "reports (warn_dead seen s)"
  by (simp_all add: expect_bool_def [abs_def] check_selector_type_def [abs_def] check_for_bound_def [abs_def]
      warn_dead_def [abs_def] reports_if reports_error reports_warning reports_id)

lemma condition_stable: "stable_step rank (check_condition c)"
  unfolding check_condition_def [abs_def] by (rule stable_step_value [OF statement_reports(1) expression_stable])

lemma stable_map_value: "stable_step rank f \<Longrightarrow> stable rank (\<lambda>az. map_option (\<lambda>az. (t, az)) (f az))"
  by (rule stableI) (fastforce elim: stable_stepE)

lemma write_stable: "stable rank (check_variable_access_for_write va)"
proof -
  have res: "stable rank (\<lambda>az. Option.bind (az_resolve az x) (\<lambda>res. (\<lambda>res az. case res of
      None \<Rightarrow> Some (t, az) | Some _ \<Rightarrow> map_option (\<lambda>az. (t, az)) (az_mark_assigned x az)) res az))" for x t
  proof (rule stable_resolve, goal_cases)
    case (2 i s)
    show ?case unfolding option.case(2) by (rule stable_map_value [OF az_mark_stable(2)])
  qed (simp_all add: stable_return)
  show ?thesis
    unfolding check_variable_access_for_write_def [abs_def]
  proof (rule stable_bind [OF access_stable], goal_cases)
    case (1 t)
    show ?case
      by (cases "va_parts va"; cases "hd (va_parts va)")
        (use res stable_return in \<open>auto\<close>)
  qed
qed

lemma assignment_stable: "stable_step rank (analyze_assignment target e r)"
  unfolding analyze_assignment_def [abs_def]
  by (intro stable_step_bind write_stable expression_stable reports_step reports_if reports_error reports_id)

lemma selector_stable: "stable_step rank (check_selector et sel)"
proof (cases sel)
  case (Single e)
  show ?thesis
    unfolding Single by (rule stable_step_cong [OF check_selector.simps(1)])
      (intro stable_step_value expression_stable statement_reports)
next
  case (Range lo hi)
  show ?thesis
    unfolding Range by (rule stable_step_cong [OF check_selector.simps(2)])
      (intro stable_step_bind expression_stable reports_step
        reports_comp [OF statement_reports(2) statement_reports(2)])
qed

lemma ofold_stable: "(\<And>x. x \<in> set xs \<Longrightarrow> stable_step rank (f x)) \<Longrightarrow> stable_step rank (ofold f xs)"
proof (induction xs)
  case Nil
  show ?case by (rule stable_step_cong [OF _ stable_step_return(2)]) simp
next
  case (Cons x xs)
  show ?case
    by (rule stable_step_cong [OF ofold.simps(2)], rule stable_step_after_step) (use Cons in auto)
qed

lemma for_variable_stable: "stable_step rank (check_for_variable x)"
proof -
  let ?err = "\<lambda>sy. report_error ForVariableNotInteger
    (''FOR variable '' @ quoted (id_name x) @ '' must be an integer type, found ''
       @ quoted (display_name (sy_ty sy))) (id_range x)"
  have "stable_step rank (\<lambda>az. Option.bind (az_resolve az (id_name x)) (\<lambda>res. (\<lambda>res az. case res of
         None \<Rightarrow> Some (report_undeclared x az)
       | Some (_, sy) \<Rightarrow>
           Option.bind (az_mark_used (id_name x)
             (if \<not> ty_is_integer (sy_ty sy) \<and> sy_ty sy \<noteq> Ty_Unknown then ?err sy az else az))
             (az_mark_assigned (id_name x))) res az))"
  proof (rule stable_step_resolve, goal_cases)
    case 1
    show ?case by (simp add: reports_step check_reports)
  next
    case (2 i s)
    have "stable_step rank (\<lambda>az. az_mark_used (id_name x)
        (if \<not> ty_is_integer (sy_ty s) \<and> sy_ty s \<noteq> Ty_Unknown then ?err s az else az))"
      by (rule reports_then_step [OF reports_if [OF reports_error reports_id] az_mark_stable(1)])
    then show ?case unfolding option.case(2) prod.case by (rule stable_step_after_step [OF _ az_mark_stable(2)])
  next
    case (3 i s s')
    then have "sy_ty s = sy_ty s'" by (simp add: sym_sig_def)
    then show ?case unfolding option.case(2) prod.case by (rule arg_cong)
  qed
  then show ?thesis by (simp only: check_for_variable_def [abs_def])
qed

lemma for_bounds_stable: "stable_step rank (check_for_bounds start stop step)"
proof -
  have "stable_step rank (\<lambda>az. (case step of
            None \<Rightarrow> Some az
          | Some e \<Rightarrow>
              Option.bind (check_expression e az) (\<lambda>(bt, az).
                Some (check_for_bound ''by'' bt (expression_range e) az))))"
    by (cases step) (auto intro: stable_step_return stable_step_value statement_reports expression_stable)
  then show ?thesis
    unfolding check_for_bounds_def [abs_def] Let_def
    by (intro stable_step_bind expression_stable)
      (rule reports_then_step [OF reports_comp [OF statement_reports(3) statement_reports(3)]])
qed

lemma loop_stable:
  assumes "stable_step rank f"
  shows "stable_step rank (\<lambda>az. map_option (leave_loop (az_in_loop az)) (f (enter_loop az)))"
proof (rule stable_stepI)
  fix a b assume ab: "az_good rank a" "same_az a b"
  then have "az_good rank (enter_loop a)" "same_az (enter_loop a) (enter_loop b)"
    by (auto simp: az_good_def same_az_def enter_loop_def)
  from stable_stepE [OF assms this] obtain a1 b1 where
    "f (enter_loop a) = Some a1" "f (enter_loop b) = Some b1" "lockstep (enter_loop a) (enter_loop b) a1 b1" .
  then show "\<exists>a1 b1. map_option (leave_loop (az_in_loop a)) (f (enter_loop a)) = Some a1 \<and>
      map_option (leave_loop (az_in_loop b)) (f (enter_loop b)) = Some b1 \<and> lockstep a b a1 b1"
    using ab(2) by (auto simp: lockstep_def same_az_def enter_loop_def leave_loop_def)
qed

lemma seq_stable:
  "(\<And>s. s \<in> set ss \<Longrightarrow> stable_step rank (analyze_statement s)) \<Longrightarrow> stable_step rank (analyze_seq ss seen)"
proof (induction ss arbitrary: seen)
  case Nil
  show ?case by (rule stable_step_cong [OF _ stable_step_return(2)]) simp
next
  case (Cons s ss)
  show ?case
    by (rule stable_step_cong [OF analyze_seq.simps(2)], rule stable_step_after_step)
      (use Cons in \<open>auto intro: reports_then_step statement_reports\<close>)
qed

lemma optional_seq_stable:
  assumes "\<And>sts s. els = Some sts \<Longrightarrow> s \<in> set sts \<Longrightarrow> stable_step rank (analyze_statement s)"
  shows "stable_step rank (\<lambda>az. case els of None \<Rightarrow> Some az | Some sts \<Rightarrow> analyze_seq sts False az)"
  using assms by (cases els) (auto intro: stable_step_return seq_stable)

definition elsif_stable :: "(string \<Rightarrow> nat) \<Rightarrow> elsif_clause \<Rightarrow> bool" where
  "elsif_stable rank e \<longleftrightarrow>
     (\<forall>es. stable_step rank (analyze_elsifs es) \<longrightarrow> stable_step rank (analyze_elsifs (e # es)))"

definition branch_stable :: "(string \<Rightarrow> nat) \<Rightarrow> case_branch \<Rightarrow> bool" where
  "branch_stable rank b \<longleftrightarrow>
     (\<forall>bs t. stable_step rank (analyze_branches bs t) \<longrightarrow> stable_step rank (analyze_branches (b # bs) t))"

lemma elsifs_stable: "(\<And>e. e \<in> set es \<Longrightarrow> elsif_stable rank e) \<Longrightarrow> stable_step rank (analyze_elsifs es)"
proof (induction es)
  case Nil
  show ?case by (rule stable_step_cong [OF _ stable_step_return(2)]) simp
qed (simp add: elsif_stable_def)

lemma branches_stable: "(\<And>b. b \<in> set bs \<Longrightarrow> branch_stable rank b) \<Longrightarrow> stable_step rank (analyze_branches bs t)"
proof (induction bs)
  case Nil
  show ?case by (rule stable_step_cong [OF _ stable_step_return(2)]) simp
qed (simp add: branch_stable_def)

lemma statement_stable:
  "stable_step rank (analyze_statement s)" "elsif_stable rank e" "branch_stable rank b"
proof (induction s and e and b)
  case (S_Assignment target e r)
  show ?case by (rule stable_step_cong [OF analyze_statement.simps(1) assignment_stable])
next
  case (S_FunctionCall fc)
  show ?case by (rule stable_step_cong [OF analyze_statement.simps(2) stable_step_map [OF call_stable]])
next
  case (S_If c body es els r)
  show ?case
    by (rule stable_step_cong [OF analyze_statement.simps(3)])
      (intro stable_step_after_step condition_stable seq_stable elsifs_stable optional_seq_stable,
        auto intro: S_If)
next
  case (S_Case e bs els r)
  show ?case
    by (rule stable_step_cong [OF analyze_statement.simps(4)])
      (intro stable_step_bind stable_step_after_step expression_stable branches_stable optional_seq_stable,
        auto intro: S_Case)
next
  case (S_For x start stop step body r)
  show ?case
    by (rule stable_step_cong [OF analyze_statement.simps(5)])
      (intro stable_step_after_step for_variable_stable for_bounds_stable loop_stable seq_stable, auto intro: S_For)
next
  case (S_While c body r)
  show ?case
    by (rule stable_step_cong [OF analyze_statement.simps(6)])
      (intro stable_step_after_step condition_stable loop_stable seq_stable, auto intro: S_While)
next
  case (S_Repeat body c r)
  show ?case
    by (rule stable_step_cong [OF analyze_statement.simps(7)])
      (intro stable_step_after_step condition_stable loop_stable seq_stable, auto intro: S_Repeat)
next
  case (S_Return r)
  show ?case by (rule stable_step_cong [OF analyze_statement.simps(8) stable_step_return(2)])
next
  case (S_Exit r)
  show ?case
  proof (rule stable_stepI)
    fix a b assume "az_good rank a" and ab: "same_az a b"
    have "az_in_loop a = az_in_loop b" using ab unfolding same_az_def by blast
    then show "\<exists>a1 b1. analyze_statement (S_Exit r) a = Some a1 \<and> analyze_statement (S_Exit r) b = Some b1 \<and>
        lockstep a b a1 b1"
      using lockstep_refl [OF ab] lockstep_report(1) [OF ab] by simp
  qed
next
  case (S_Empty r)
  show ?case by (rule stable_step_cong [OF analyze_statement.simps(10) stable_step_return(2)])
next
  case (ElsifClause c body r)
  show ?case
    unfolding elsif_stable_def
    by (intro allI impI, rule stable_step_cong [OF analyze_elsifs.simps(2)])
      (intro stable_step_after_step condition_stable seq_stable, auto intro: ElsifClause)
next
  case (CaseBranch sels body r)
  show ?case
    unfolding branch_stable_def
    by (intro allI impI, rule stable_step_cong [OF analyze_branches.simps(2)])
      (intro stable_step_after_step ofold_stable selector_stable seq_stable, auto intro: CaseBranch)
qed

lemma statements_stable: "stable_step rank (analyze_statements ss)"
  unfolding analyze_statements_def by (rule seq_stable) (rule statement_stable)


subsection \<open>Operations that extend the symbol table\<close>

text \<open>
  \<open>runs rank i f\<close>: on a well-formed state that has scope \<open>i\<close>, \<open>f\<close> returns a well-formed state
  with at least the scopes and the diagnostics there were.
\<close>

definition az_extends :: "analyzer \<Rightarrow> analyzer \<Rightarrow> bool" where
  "az_extends a b \<longleftrightarrow> az_scope a = az_scope b \<and> length (az_symbols a) \<le> length (az_symbols b) \<and>
     (\<exists>ds. az_diagnostics b = az_diagnostics a @ ds)"

definition runs :: "(string \<Rightarrow> nat) \<Rightarrow> scope_id \<Rightarrow> (analyzer \<Rightarrow> analyzer option) \<Rightarrow> bool" where
  "runs rank i f \<longleftrightarrow> (\<forall>a. az_good rank a \<longrightarrow> i < length (az_symbols a) \<longrightarrow>
     (\<exists>b. f a = Some b \<and> az_good rank b \<and> az_extends a b))"

lemma az_extends_refl [simp]: "az_extends a a"
  by (simp add: az_extends_def)

lemma az_extends_trans: "az_extends a b \<Longrightarrow> az_extends b c \<Longrightarrow> az_extends a c"
  by (auto simp: az_extends_def)

lemma runsI:
  "(\<And>a. az_good rank a \<Longrightarrow> i < length (az_symbols a) \<Longrightarrow> \<exists>b. f a = Some b \<and> az_good rank b \<and> az_extends a b) \<Longrightarrow>
     runs rank i f"
  by (simp add: runs_def)

lemma runsE:
  assumes "runs rank i f" "az_good rank a" "i < length (az_symbols a)"
  obtains b where "f a = Some b" "az_good rank b" "az_extends a b" "i < length (az_symbols b)"
  using assms unfolding runs_def az_extends_def by (meson order.strict_trans2)

lemma runs_cong: "(\<And>az. f az = g az) \<Longrightarrow> runs rank i g \<Longrightarrow> runs rank i f"
  by (simp add: runs_def)

lemma runs_return: "runs rank i Some" "runs rank i (\<lambda>az. Some az)"
  by (simp_all add: runs_def)

lemma runs_bind:
  assumes "runs rank i f" "runs rank i g"
  shows "runs rank i (\<lambda>az. Option.bind (f az) g)"
proof (rule runsI)
  fix a assume "az_good rank a" "i < length (az_symbols a)"
  from runsE [OF assms(1) this] obtain b where
    b: "f a = Some b" "az_good rank b" "az_extends a b" "i < length (az_symbols b)" .
  from runsE [OF assms(2) b(2,4)] obtain c where "g b = Some c" "az_good rank c" "az_extends b c" .
  then show "\<exists>c. Option.bind (f a) g = Some c \<and> az_good rank c \<and> az_extends a c"
    using b az_extends_trans by auto
qed

lemma runs_ofold: "(\<And>x. x \<in> set xs \<Longrightarrow> runs rank i (f x)) \<Longrightarrow> runs rank i (ofold f xs)"
proof (induction xs)
  case Nil
  show ?case by (rule runs_cong [OF _ runs_return(2)]) simp
next
  case (Cons x xs)
  show ?case by (rule runs_cong [OF ofold.simps(2)], rule runs_bind) (use Cons in auto)
qed

lemma stable_step_runs:
  assumes "stable_step rank f"
  shows "runs rank i f"
proof (rule runsI)
  fix a assume a: "az_good rank a"
  from stable_stepE [OF assms a same_az_refl] obtain b b' where
    "f a = Some b" "lockstep a a b b'" "az_good rank b" .
  then show "\<exists>b. f a = Some b \<and> az_good rank b \<and> az_extends a b"
    using same_table_length by (auto simp: lockstep_def same_az_def az_extends_def)
qed

lemma reports_runs: "reports f \<Longrightarrow> runs rank i (\<lambda>az. Some (f az))"
  by (rule stable_step_runs [OF reports_step])

text \<open>Defining a symbol, which must respect the order if it is a class.\<close>

definition rank_ok :: "(string \<Rightarrow> nat) \<Rightarrow> symbol \<Rightarrow> bool" where
  "rank_ok rank s \<longleftrightarrow> (\<forall>ci base. sy_kind s = K_Class ci \<longrightarrow> ci_base_class ci = Some base \<longrightarrow>
     rank (to_upper base) < rank (to_upper (sy_name s)))"

lemma table_define_Some:
  "i < length st \<Longrightarrow> table_define i s st =
     Some (fst (scope_define s (st ! i)), st[i := snd (scope_define s (st ! i))])"
  by (simp add: table_define_def vec_at_def split_beta)

lemma global_lookup_update:
  "global_lookup (st[i := snd (scope_define s (st ! i))]) name =
     (if i = 0 \<and> st \<noteq> [] \<and> to_upper name = to_upper (sy_name s) then Some s else global_lookup st name)"
  by (cases st; cases i)
    (auto simp: global_lookup_def scope_define_def Let_def lookup_local_def hm_get_insert)

lemma ranked_define:
  assumes "ranked rank st" "rank_ok rank s"
  shows "ranked rank (st[i := snd (scope_define s (st ! i))])"
  unfolding ranked_def
proof (intro allI impI)
  fix name sy ci base
  assume *: "resolve_class (st[i := snd (scope_define s (st ! i))]) name = Some sy" "sy_kind sy = K_Class ci"
    "ci_base_class ci = Some base"
  show "rank (to_upper base) < rank (to_upper name)"
  proof (cases "i = 0 \<and> st \<noteq> [] \<and> to_upper name = to_upper (sy_name s)")
    case True
    then have "sy = s" using *(1) by (simp add: resolve_class_def global_lookup_update of_kind_def split: if_splits)
    then show ?thesis using assms(2) * True unfolding rank_ok_def by auto
  next
    case False
    then have "resolve_class st name = Some sy"
      using *(1) unfolding resolve_class_def global_lookup_update if_not_P [OF False] by blast
    then show ?thesis using assms(1) * unfolding ranked_def by blast
  qed
qed

lemma az_define_good:
  assumes "az_good rank a" "i < length (az_symbols a)" "rank_ok rank s"
  obtains prev b where "az_define i s a = Some (prev, b)" "az_good rank b" "az_extends a b"
proof -
  let ?st = "(az_symbols a)[i := snd (scope_define s (az_symbols a ! i))]"
  have "table_ok ?st"
    by (rule table_ok_update) (use assms in \<open>simp_all add: az_good_def scope_define_def Let_def\<close>)
  then show thesis
    using that [OF _, of "fst (scope_define s (az_symbols a ! i))" "a\<lparr>az_symbols := ?st\<rparr>"] assms
    by (simp add: az_define_def table_define_Some az_good_def az_extends_def ranked_define)
qed

lemma define_or_report_runs: "rank_ok rank s \<Longrightarrow> runs rank i (define_or_report i s what r)"
proof (rule runsI)
  fix a assume s: "rank_ok rank s" and a: "az_good rank a" "i < length (az_symbols a)"
  from az_define_good [OF a s] obtain prev b where "az_define i s a = Some (prev, b)" "az_good rank b" "az_extends a b" .
  then show "\<exists>b. define_or_report i s what r a = Some b \<and> az_good rank b \<and> az_extends a b"
    by (auto simp: define_or_report_def report_error_def az_good_def az_extends_def)
qed

lemma az_put_runs: "rank_ok rank s \<Longrightarrow> runs rank i (az_put i s)"
proof (rule runsI)
  fix a assume s: "rank_ok rank s" and a: "az_good rank a" "i < length (az_symbols a)"
  from az_define_good [OF a s] obtain prev b where "az_define i s a = Some (prev, b)" "az_good rank b" "az_extends a b" .
  then show "\<exists>b. az_put i s a = Some b \<and> az_good rank b \<and> az_extends a b" by (simp add: az_put_def)
qed

lemma rank_ok_variable [simp]:
  "rank_ok rank (var_symbol k t init x)" "rank_ok rank (result_symbol x t)" "rank_ok rank (setter_symbol x t)"
  "rank_ok rank (inherited_symbol p)"
  by (simp_all add: rank_ok_def var_symbol_def result_symbol_def setter_symbol_def inherited_symbol_def
      builtin_symbol_def)

subsection \<open>Variable blocks\<close>

lemma warn_shadowing_runs: "runs rank i (warn_shadowing i x)"
proof (rule runsI)
  fix a assume a: "az_good rank a" "i < length (az_symbols a)"
  then obtain res where "resolve (az_symbols a) i (id_name x) = Some res"
    using table_declares declares_resolve unfolding az_good_def by blast
  then show "\<exists>b. warn_shadowing i x a = Some b \<and> az_good rank b \<and> az_extends a b"
    using a by (auto simp: warn_shadowing_def report_warning_def az_good_def az_extends_def split: option.split)
qed

lemma define_var_runs: "runs rank i (define_var i k t init x)"
  unfolding define_var_def [abs_def] by (intro runs_bind warn_shadowing_runs define_or_report_runs) simp

lemma initial_value_runs: "runs rank i (check_initial_value t e)"
  unfolding check_initial_value_def [abs_def]
  by (rule stable_step_runs, rule stable_step_bind [OF expression_stable])
    (rule reports_step [OF reports_if [OF reports_error reports_id]])

lemma constants_reports: "reports (fold report_constant xs)"
  by (rule reports_fold) (simp add: report_constant_def [abs_def] reports_error)

lemma declaration_runs: "runs rank i (define_declaration i vb d)"
proof -
  have init: "runs rank i (\<lambda>az. case vd_initial_value d of None \<Rightarrow> Some az | Some e \<Rightarrow> check_initial_value t e az)" for t
    by (cases "vd_initial_value d") (simp_all add: runs_return initial_value_runs)
  have "runs rank i (\<lambda>az. Option.bind (ofold (define_var i (vb_kind vb) t (vd_initial_value d \<noteq> None)) (vd_names d) az) (\<lambda>az.
      Option.bind (case vd_initial_value d of None \<Rightarrow> Some az | Some e \<Rightarrow> check_initial_value t e az) (\<lambda>az. Some (
        if Constant \<in> set (vb_qualifiers vb) \<and> vd_initial_value d = None
        then fold report_constant (vd_names d) az
        else az))))" for t
    by (intro runs_bind runs_ofold define_var_runs init reports_runs reports_if [OF constants_reports reports_id])
  then show ?thesis unfolding runs_def define_declaration_def Let_def by blast
qed

lemma var_block_runs: "runs rank i (define_var_block i vb)"
  unfolding define_var_block_def by (intro runs_ofold declaration_runs)

lemma body_runs: "runs rank i (analyze_body vbs body i)"
  unfolding analyze_body_def [abs_def]
  by (intro runs_bind runs_ofold var_block_runs stable_step_runs statements_stable)

subsection \<open>Registering\<close>

text \<open>The condition on a source file: the order puts the base of every class below it.\<close>

fun class_ok :: "(string \<Rightarrow> nat) \<Rightarrow> top_level_item \<Rightarrow> bool" where
  "class_ok rank (TI_Class cls) =
     (case cl_base_class cls of
        None \<Rightarrow> True
      | Some base \<Rightarrow> rank (to_upper base) < rank (to_upper (id_name (cl_name cls))))"
| "class_ok rank _ = True"

lemma register_symbol_runs:
  "(\<And>s. s = top_symbol x t k r \<Longrightarrow> rank_ok rank s) \<Longrightarrow> runs rank global_scope_id (register_symbol what x t k r)"
  unfolding register_symbol_def by (intro define_or_report_runs) simp

lemma runs_dep:
  assumes "\<And>v. runs rank i (f v)"
  shows "runs rank i (\<lambda>az. f (h az) az)"
  using assms unfolding runs_def by blast

lemma type_definition_runs: "runs rank global_scope_id (register_type_definition td)"
  unfolding register_type_definition_def [abs_def]
  by (rule runs_dep [where h = "\<lambda>az. resolve_type_def_kind (az_symbols az) (tn_ty td) (id_name (tn_name td))"])
    (rule register_symbol_runs, simp add: rank_ok_def top_symbol_def)

lemma register_runs:
  assumes "class_ok rank item"
  shows "runs rank global_scope_id (register_top_level item)"
proof -
  have plain: "runs rank global_scope_id (register_symbol what x t k r)" if "\<not> is_class_kind k" for what x t k r
    by (rule register_symbol_runs) (use that in \<open>auto simp: rank_ok_def top_symbol_def\<close>)
  have "\<exists>b. register_top_level item a = Some b \<and> az_good rank b \<and> az_extends a b"
    if a: "az_good rank a" "global_scope_id < length (az_symbols a)" for a
  proof (cases item)
    case (TI_Class cls)
    have "rank_ok rank (top_symbol (cl_name cls) t (K_Class (class_info_of st cls)) r)" for t st r
      using assms by (auto simp: TI_Class rank_ok_def top_symbol_def class_info_of_def)
    then have "runs rank global_scope_id (register_symbol what (cl_name cls) t (K_Class (class_info_of st cls)) r)"
      for what t st r by (intro register_symbol_runs) simp
    from runsE [OF this a] show ?thesis unfolding TI_Class register_top_level.simps by metis
  next
    case (TI_TypeDeclaration tds r)
    have "runs rank global_scope_id (ofold register_type_definition tds)"
      by (intro runs_ofold type_definition_runs)
    then show ?thesis using a unfolding TI_TypeDeclaration register_top_level.simps runs_def by blast
  next
    case (TI_GlobalVarDeclaration vb)
    show ?thesis using runsE [OF var_block_runs a] unfolding TI_GlobalVarDeclaration register_top_level.simps by metis
  next
    case (TI_Program p)
    show ?thesis using runsE [OF plain a] unfolding TI_Program register_top_level.simps by (metis is_class_kind.simps(5))
  next
    case (TI_Function f)
    show ?thesis
      using runsE [OF plain a] unfolding TI_Function register_top_level.simps Let_def by (metis is_class_kind.simps(3))
  next
    case (TI_FunctionBlock fb)
    show ?thesis
      using runsE [OF plain a] unfolding TI_FunctionBlock register_top_level.simps by (metis is_class_kind.simps(4))
  next
    case (TI_Interface i)
    show ?thesis using runsE [OF plain a] unfolding TI_Interface register_top_level.simps by (metis is_class_kind.simps(6))
  qed
  then show ?thesis by (simp add: runs_def)
qed

subsection \<open>Bodies\<close>

lemma new_scope_runs:
  assumes "\<And>i. runs rank i (f i)"
  shows "runs rank parent (in_new_scope parent name f)"
proof (rule runsI)
  fix a assume a: "az_good rank a" "parent < length (az_symbols a)"
  let ?i = "length (az_symbols a)"
  let ?st = "az_symbols a @ [scope_new ?i (Some parent) name]"
  let ?a = "a\<lparr>az_symbols := ?st, az_scope := ?i\<rparr>"
  have "az_symbols a \<noteq> []" using a(1) by (auto simp: az_good_def)
  then have "global_lookup ?st n = global_lookup (az_symbols a) n" for n
    by (cases "az_symbols a") (simp_all add: global_lookup_def)
  then have "ranked rank ?st" using a(1) by (simp add: az_good_def ranked_def resolve_class_def)
  moreover have "table_ok ?st"
    using table_ok_create [of "az_symbols a" parent name] a by (simp add: az_good_def create_scope_def)
  ultimately have "az_good rank ?a" by (simp add: az_good_def)
  then obtain b where b: "f ?i ?a = Some b" "az_good rank b" "az_extends ?a b"
    using runsE [OF assms, of ?a ?i] by auto
  then show "\<exists>b. in_new_scope parent name f a = Some b \<and> az_good rank b \<and> az_extends a b"
    using a(1) by (auto simp: in_new_scope_def create_scope_def az_good_def az_extends_def)
qed

lemma set_return_runs:
  assumes "runs rank i f"
  shows "runs rank i (\<lambda>az. f (set_return_type t az))"
proof (rule runsI)
  fix a assume "az_good rank a" "i < length (az_symbols a)"
  then have "az_good rank (set_return_type t a)" "i < length (az_symbols (set_return_type t a))"
    by (simp_all add: az_good_def set_return_type_def)
  from runsE [OF assms this] obtain b where
    "f (set_return_type t a) = Some b" "az_good rank b" "az_extends (set_return_type t a) b" .
  then show "\<exists>b. f (set_return_type t a) = Some b \<and> az_good rank b \<and> az_extends a b"
    by (simp add: az_extends_def set_return_type_def)
qed

lemma map_return_runs: "runs rank i f \<Longrightarrow> runs rank i (\<lambda>az. map_option (set_return_type t) (f az))"
  unfolding runs_def by (fastforce simp: az_good_def az_extends_def set_return_type_def)

lemma program_runs: "runs rank global_scope_id (analyze_program p)"
  unfolding analyze_program_def by (intro new_scope_runs set_return_runs body_runs)

lemma function_block_runs: "runs rank global_scope_id (analyze_function_block fb)"
  unfolding analyze_function_block_def by (intro new_scope_runs set_return_runs body_runs)

lemma function_runs: "runs rank global_scope_id (analyze_function f)"
proof -
  have "runs rank i (\<lambda>az. Option.bind (az_put i (result_symbol (fd_name f) t) (set_return_type (Some t) az))
      (analyze_body (fd_var_blocks f) (fd_body f) i))" for i t
    by (intro runs_bind set_return_runs az_put_runs body_runs) simp
  then have "runs rank i (\<lambda>az. let t = resolve_data_type (az_symbols az) (fd_return_type f) in
      Option.bind (az_put i (result_symbol (fd_name f) t) (set_return_type (Some t) az))
        (analyze_body (fd_var_blocks f) (fd_body f) i))" for i
    unfolding runs_def Let_def by blast
  then show ?thesis unfolding analyze_function_def [abs_def] by (intro map_return_runs new_scope_runs)
qed

lemma class_chain_Some:
  assumes "ranked rank st"
  shows "\<exists>cis. class_chain st base = Some cis"
proof (cases base)
  case None
  then show ?thesis by (simp add: class_chain.simps)
next
  case (Some name)
  have "\<exists>cis. class_chain st (Some name) = Some cis"
  proof (induction "rank (to_upper name)" arbitrary: name rule: less_induct)
    case less
    show ?case
    proof (cases "resolve_class st name")
      case None
      then show ?thesis by (simp add: class_chain.simps)
    next
      case (Some s)
      show ?thesis
      proof (cases "sy_kind s")
        case (K_Class ci)
        have "\<exists>cis. class_chain st (ci_base_class ci) = Some cis"
        proof (cases "ci_base_class ci")
          case None
          then show ?thesis by (simp add: class_chain.simps)
        next
          case (Some base)
          then have "rank (to_upper base) < rank (to_upper name)"
            using assms \<open>resolve_class st name = Some s\<close> K_Class unfolding ranked_def by blast
          then show ?thesis using less Some by simp
        qed
        then show ?thesis using Some K_Class by (subst class_chain.simps) auto
      qed (use Some in \<open>simp_all add: class_chain.simps\<close>)
    qed
  qed
  then show ?thesis using Some by simp
qed

lemma define_inherited_runs: "runs rank i (define_inherited i p)"
proof (rule runsI)
  fix a assume a: "az_good rank a" "i < length (az_symbols a)"
  from runsE [OF az_put_runs [OF rank_ok_variable(4)] a] obtain b where
    "az_put i (inherited_symbol p) a = Some b" "az_good rank b" "az_extends a b" .
  then show "\<exists>b. define_inherited i p a = Some b \<and> az_good rank b \<and> az_extends a b"
    using a by (auto simp: define_inherited_def vec_at_def)
qed

lemma inherited_runs: "runs rank i (define_inherited_vars i base)"
proof (rule runsI)
  fix a assume a: "az_good rank a" "i < length (az_symbols a)"
  then obtain cis where "class_chain (az_symbols a) base = Some cis"
    using class_chain_Some unfolding az_good_def by blast
  moreover have "runs rank i (ofold (\<lambda>ci. ofold (define_inherited i) (ci_params ci @ ci_outputs ci @ ci_vars ci)) (rev cis))"
    by (intro runs_ofold define_inherited_runs)
  ultimately show "\<exists>b. define_inherited_vars i base a = Some b \<and> az_good rank b \<and> az_extends a b"
    using a unfolding runs_def define_inherited_vars_def by simp
qed

text \<open>A check that reports, looking at the symbol table.\<close>

lemma report_extends:
  "az_good rank a \<Longrightarrow> az_good rank (report_error c m r a) \<and> az_extends a (report_error c m r a)"
  by (simp add: az_good_def az_extends_def report_error_def)

definition quiet :: "(string \<Rightarrow> nat) \<Rightarrow> (analyzer \<Rightarrow> analyzer) \<Rightarrow> bool" where
  "quiet rank f \<longleftrightarrow> (\<forall>a. az_good rank a \<longrightarrow> az_good rank (f a) \<and> az_extends a (f a))"

lemma quiet_fold: "(\<And>x. quiet rank (f x)) \<Longrightarrow> quiet rank (fold f xs)"
proof (induction xs)
  case (Cons x xs)
  then show ?case unfolding quiet_def fold.simps comp_def using az_extends_trans by blast
qed (simp add: quiet_def)

lemma quiet_comp: "quiet rank f \<Longrightarrow> quiet rank g \<Longrightarrow> quiet rank (\<lambda>az. f (g az))"
  unfolding quiet_def using az_extends_trans by blast

lemma quiet_runs: "quiet rank g \<Longrightarrow> runs rank i f \<Longrightarrow> runs rank i (\<lambda>az. f (g az))"
  unfolding quiet_def runs_def using az_extends_trans by (meson az_extends_def order.strict_trans2)

lemma quiet_checks:
  "quiet rank (check_base_class cls)" "quiet rank (check_interface_name w r n)" "quiet rank (check_conformance cls n)"
  "quiet rank (check_abstract_method cls m)" "quiet rank (check_override m cn base)"
proof -
  have "quiet rank (fold (\<lambda>m az. if implements cls (md_method m) then az
      else report_error InterfaceNotImplemented
        (''class '' @ quoted (id_name (cl_name cls)) @ '' does not implement method ''
           @ quoted (md_method m) @ '' from interface '' @ quoted n) (id_range (cl_name cls)) az) ms)" for ms
    by (rule quiet_fold) (auto simp: quiet_def report_extends)
  then show "quiet rank (check_conformance cls n)"
    by (auto simp: quiet_def check_conformance_def split: option.split symbol_kind.split)
qed (auto simp: quiet_def check_base_class_def check_interface_name_def check_abstract_method_def check_override_def
    Let_def report_extends split: option.split symbol_kind.split)

lemma method_runs: "runs rank i (analyze_method cn base m)"
proof -
  have put: "runs rank i (\<lambda>az. case t of None \<Rightarrow> Some az | Some t \<Rightarrow> az_put i (result_symbol (me_name m) t) az)" for i t
    by (cases t) (simp_all add: runs_return az_put_runs)
  have "runs rank i (\<lambda>az. Option.bind
      (case t of None \<Rightarrow> Some (set_return_type t az)
       | Some u \<Rightarrow> az_put i (result_symbol (me_name m) u) (set_return_type t az))
      (\<lambda>az. analyze_body (me_var_blocks m) (if me_is_abstract m then [] else me_body m) i (check_override m cn base az)))"
    for i t
    by (rule runs_bind [OF set_return_runs [OF put] quiet_runs [OF quiet_checks(5) body_runs]])
  then have "runs rank i (\<lambda>az.
      let t = map_option (resolve_data_type (az_symbols az)) (me_return_type m);
          az = set_return_type t az
      in Option.bind (case t of None \<Rightarrow> Some az | Some t \<Rightarrow> az_put i (result_symbol (me_name m) t) az) (\<lambda>az.
         analyze_body (me_var_blocks m) (if me_is_abstract m then [] else me_body m) i
           (check_override m cn base az)))" for i
    unfolding runs_def Let_def by blast
  from map_return_runs [OF new_scope_runs [OF this]]
  have "runs rank p (\<lambda>az. map_option (set_return_type None) (in_new_scope p (id_name (me_name m)) (\<lambda>i az.
      let t = map_option (resolve_data_type (az_symbols az)) (me_return_type m);
          az = set_return_type t az
      in Option.bind (case t of None \<Rightarrow> Some az | Some t \<Rightarrow> az_put i (result_symbol (me_name m) t) az) (\<lambda>az.
         analyze_body (me_var_blocks m) (if me_is_abstract m then [] else me_body m) i
           (check_override m cn base az))) az))" for p .
  then show ?thesis unfolding runs_def analyze_method_def by (simp add: az_good_def)
qed

lemma accessor_runs: "rank_ok rank s \<Longrightarrow> runs rank i (analyze_accessor name s acc)"
proof (cases acc)
  case (Some x)
  assume s: "rank_ok rank s"
  have "runs rank p (in_new_scope p name (\<lambda>i az.
      Option.bind (az_put i s az) (analyze_body (pa_var_blocks x) (pa_body x) i)))" for p
    by (intro new_scope_runs runs_bind az_put_runs body_runs s)
  then show ?thesis unfolding runs_def analyze_accessor_def Some by (simp add: az_good_def)
qed (simp add: runs_def analyze_accessor_def)

lemma property_runs: "runs rank i (analyze_property p)"
proof -
  have "runs rank i (\<lambda>az. Option.bind (analyze_accessor g (result_symbol (pr_name p) t) (pr_get_body p) az)
      (analyze_accessor u (setter_symbol (pr_name p) t) (pr_set_body p)))" for g u t
    by (intro runs_bind accessor_runs rank_ok_variable)
  then show ?thesis unfolding runs_def analyze_property_def Let_def by blast
qed

lemma class_runs: "runs rank global_scope_id (analyze_class cls)"
proof -
  let ?checks = "\<lambda>az. fold (check_abstract_method cls) (cl_methods cls) (fold (check_conformance cls) (cl_interfaces cls)
      (fold (check_interface_name ''undeclared interface '' (id_range (cl_name cls))) (cl_interfaces cls)
        (check_base_class cls az)))"
  have checks: "quiet rank ?checks"
    by (intro quiet_comp [OF quiet_fold [OF quiet_checks(4)]] quiet_comp [OF quiet_fold [OF quiet_checks(3)]]
        quiet_comp [OF quiet_fold [OF quiet_checks(2)] quiet_checks(1)])
  have rest: "runs rank i (\<lambda>az. Option.bind (define_inherited_vars i (cl_base_class cls) az) (\<lambda>az.
      Option.bind (ofold (define_var_block i) (cl_var_blocks cls) az) (\<lambda>az.
      Option.bind (ofold (analyze_method (id_name (cl_name cls)) (cl_base_class cls)) (cl_methods cls) az)
        (ofold analyze_property (cl_properties cls)))))" for i
    by (intro runs_bind inherited_runs runs_ofold var_block_runs method_runs property_runs)
  have body: "runs rank i (analyze_class_body cls i)" for i
    unfolding analyze_class_body_def [abs_def] Let_def by (rule quiet_runs [OF checks rest])
  have "runs rank i (\<lambda>az. analyze_class_body cls i (az\<lparr>az_class := Some n, az_return_type := None\<rparr>))" for i n
  proof (rule runsI)
    fix a assume "az_good rank a" "i < length (az_symbols a)"
    then have "az_good rank (a\<lparr>az_class := Some n, az_return_type := None\<rparr>)"
      "i < length (az_symbols (a\<lparr>az_class := Some n, az_return_type := None\<rparr>))"
      by (simp_all add: az_good_def)
    from runsE [OF body this] obtain b where "analyze_class_body cls i (a\<lparr>az_class := Some n, az_return_type := None\<rparr>) = Some b"
      "az_good rank b" "az_extends (a\<lparr>az_class := Some n, az_return_type := None\<rparr>) b" .
    then show "\<exists>b. analyze_class_body cls i (a\<lparr>az_class := Some n, az_return_type := None\<rparr>) = Some b \<and>
        az_good rank b \<and> az_extends a b" by (simp add: az_extends_def)
  qed
  from new_scope_runs [OF this] show ?thesis
    unfolding runs_def analyze_class_def by (fastforce simp: az_good_def az_extends_def)
qed

lemma top_level_runs: "runs rank global_scope_id (analyze_top_level item)"
proof (cases item)
  case (TI_Interface i)
  have "quiet rank (analyze_interface i)" unfolding analyze_interface_def by (intro quiet_fold quiet_checks)
  then show ?thesis unfolding TI_Interface by (auto simp: runs_def quiet_def)
qed (auto simp: runs_return intro: runs_cong [OF analyze_top_level.simps(1)] runs_cong [OF analyze_top_level.simps(2)]
    runs_cong [OF analyze_top_level.simps(3)] runs_cong [OF analyze_top_level.simps(4)]
    runs_cong [OF analyze_top_level.simps(6)] runs_cong [OF analyze_top_level.simps(7)]
    program_runs function_runs function_block_runs class_runs)

subsection \<open>The whole analysis\<close>

definition good_table :: "(string \<Rightarrow> nat) \<Rightarrow> symbol_table \<Rightarrow> bool" where
  "good_table rank st \<longleftrightarrow> table_ok st \<and> ranked rank st"

lemma good_table_new: "good_table rank symbol_table_new"
proof -
  have "resolve_class symbol_table_new name = None" for name
    by (simp add: resolve_class_def global_lookup_def symbol_table_new_def scope_new_def lookup_local_def of_kind_def)
  then show ?thesis by (simp add: good_table_def ranked_def)
qed

lemma define_global_update:
  "st \<noteq> [] \<Longrightarrow> define_global s st = st[0 := snd (scope_define s (st ! 0))]"
  by (cases st) (simp_all add: define_global_def)

lemma good_table_define: "good_table rank st \<Longrightarrow> rank_ok rank s \<Longrightarrow> good_table rank (define_global s st)"
proof -
  assume st: "good_table rank st" and s: "rank_ok rank s"
  then have ne: "st \<noteq> []" by (auto simp: good_table_def table_ok_def)
  have "table_ok (st[0 := snd (scope_define s (st ! 0))])"
    by (rule table_ok_update) (use st ne in \<open>simp_all add: good_table_def scope_define_def Let_def\<close>)
  then show ?thesis
    using st s ne by (simp add: good_table_def define_global_update ranked_define)
qed

lemma good_table_fold:
  "(\<And>s. s \<in> set ss \<Longrightarrow> rank_ok rank s) \<Longrightarrow> good_table rank st \<Longrightarrow> good_table rank (fold define_global ss st)"
  by (induction ss arbitrary: st) (simp_all add: good_table_define)

lemma builtin_rank_ok: "s \<in> set builtin_symbols \<Longrightarrow> rank_ok rank s"
  by (auto simp: builtin_symbols_def builtin_function_def builtin_symbol_def rank_ok_def)

lemma native_rank_ok: "rank_ok rank (native_symbol l)"
  by (simp add: native_symbol_def builtin_symbol_def rank_ok_def)

lemma initial_good:
  "good_table rank (case reg of None \<Rightarrow> register_intrinsics symbol_table_new
     | Some ls \<Rightarrow> register_native_fbs ls (register_intrinsics symbol_table_new))"
proof -
  have *: "good_table rank (register_intrinsics symbol_table_new)"
    unfolding register_intrinsics_def by (rule good_table_fold [OF builtin_rank_ok good_table_new])
  moreover have "good_table rank (fold define_global (map native_symbol ls) (register_intrinsics symbol_table_new))" for ls
    by (rule good_table_fold [OF _ *]) (auto simp: native_rank_ok)
  then have "good_table rank (register_native_fbs ls (register_intrinsics symbol_table_new))" for ls
    by (simp add: register_native_fbs_def fold_map)
  ultimately show ?thesis by (simp split: option.split)
qed

lemma source_file_runs:
  "list_all (class_ok rank) (sf_items sf) \<Longrightarrow> runs rank global_scope_id (analyze_source_file sf)"
  unfolding analyze_source_file_def [abs_def]
  by (intro runs_bind runs_ofold register_runs top_level_runs) (simp add: list_all_iff)

lemma analysis_returns_aux:
  assumes "list_all (class_ok rank) (sf_items sf)"
  shows "\<exists>st ds. analyze_with_native_fbs sf reg = Some (st, ds) \<and> table_ok st"
proof -
  let ?st = "case reg of None \<Rightarrow> register_intrinsics symbol_table_new
     | Some ls \<Rightarrow> register_native_fbs ls (register_intrinsics symbol_table_new)"
  have "good_table rank ?st" by (rule initial_good)
  then have good: "az_good rank (analyzer_new\<lparr>az_symbols := ?st\<rparr>)" "global_scope_id < length (az_symbols (analyzer_new\<lparr>az_symbols := ?st\<rparr>))"
    by (auto simp: good_table_def az_good_def analyzer_new_def global_scope_id_def table_ok_def)
  from runsE [OF source_file_runs [OF assms] good] obtain b where
    "analyze_source_file sf (analyzer_new\<lparr>az_symbols := ?st\<rparr>) = Some b" "az_good rank b" .
  then show ?thesis
    by (auto simp: analyze_with_native_fbs_def Let_def check_unused_def az_good_def)
qed

text \<open>C4: The analysis of a source file returns, whatever the file holds, if its class hierarchy has
  no cycle, that is if some order puts the base of every class below it: no lookup fails, no loop
  is endless, and the symbol table is well-formed, with every scope below its parent.
\<close>

theorem analysis_returns:
  assumes "list_all (class_ok rank) (sf_items sf)"
  shows "\<exists>st ds. analyze_with_native_fbs sf reg = Some (st, ds) \<and> table_ok st"
  by (rule analysis_returns_aux [OF assms])

definition sample_ident :: "string \<Rightarrow> ident" where
  "sample_ident x = \<lparr>id_name = x, id_range = no_range\<rparr>"

definition sample_class :: "string \<Rightarrow> string option \<Rightarrow> class_decl" where
  "sample_class x base =
     \<lparr>cl_name = sample_ident x, cl_base_class = base, cl_interfaces = [], cl_is_abstract = False, cl_is_final = False,
      cl_var_blocks = [], cl_methods = [], cl_properties = [], cl_range = no_range\<rparr>"

definition sample_file :: "class_decl list \<Rightarrow> source_file" where
  "sample_file cs = \<lparr>sf_items = map TI_Class cs, sf_file_range = no_range\<rparr>"

theorem analysis_returns_witness:
  "\<exists>st ds. analyze_with_native_fbs (sample_file [sample_class ''Derived'' (Some ''Base''), sample_class ''Base'' None]) None
     = Some (st, ds) \<and> table_ok st"
  by (rule analysis_returns [of length])
    (simp add: sample_file_def sample_class_def sample_ident_def to_upper_def)

subsection \<open>A cyclic hierarchy\<close>

definition inherits :: "symbol_table \<Rightarrow> string \<Rightarrow> string \<Rightarrow> bool" where
  "inherits st a b \<longleftrightarrow> class_base st a = Some b"

lemma class_chain_step:
  assumes "inherits st a b" "class_chain st (Some a) = Some cis"
  obtains ci rest where "cis = ci # rest" "class_chain st (Some b) = Some rest"
proof -
  obtain s ci where s: "resolve_class st a = Some s" "sy_kind s = K_Class ci" "ci_base_class ci = Some b"
    using assms(1) by (auto simp: inherits_def class_base_def split: option.splits symbol_kind.splits)
  have "class_chain st (Some a) = Option.bind (class_chain st (Some b)) (\<lambda>cis. Some (ci # cis))"
    by (subst class_chain.simps) (simp add: s)
  then show thesis using that assms(2) by (cases "class_chain st (Some b)") auto
qed

lemma endless_chain:
  assumes "\<forall>a \<in> S. \<exists>b \<in> S. inherits st a b" "a \<in> S"
  shows "class_chain st (Some a) = None"
proof -
  have False if "class_chain st (Some a) = Some cis" "a \<in> S" for a cis
    using that
  proof (induction cis arbitrary: a)
    case Nil
    then obtain b where "inherits st a b" using assms(1) by blast
    from class_chain_step [OF this Nil.prems(1)] show ?case by blast
  next
    case (Cons ci cis)
    then obtain b where b: "b \<in> S" "inherits st a b" using assms(1) by blast
    from class_chain_step [OF b(2) Cons.prems(1)] have "class_chain st (Some b) = Some cis" by blast
    then show ?case using Cons.IH b(1) by blast
  qed
  then show ?thesis using assms(2) by (cases "class_chain st (Some a)") auto
qed

lemma class_base_append: "st \<noteq> [] \<Longrightarrow> class_base (st @ scs) a = class_base st a"
  by (cases st) (simp_all add: class_base_def resolve_class_def global_lookup_def)

lemma report_keeps_symbols [simp]: "az_symbols (report_error c m r az) = az_symbols az"
  by (simp add: report_error_def)

lemma fold_keeps_symbols:
  "(\<And>x az. az_symbols (f x az) = az_symbols az) \<Longrightarrow> az_symbols (fold f xs az) = az_symbols az"
  by (induction xs arbitrary: az) simp_all

lemma checks_keep_symbols:
  "az_symbols (check_base_class cls az) = az_symbols az"
  "az_symbols (check_interface_name w r n az) = az_symbols az"
  "az_symbols (check_conformance cls n az) = az_symbols az"
  "az_symbols (check_abstract_method cls m az) = az_symbols az"
  by (auto simp: check_base_class_def check_interface_name_def check_conformance_def check_abstract_method_def
      fold_keeps_symbols split: option.split symbol_kind.split)


definition cyclic_analyzer :: analyzer where
  "cyclic_analyzer =
     analyzer_new\<lparr>az_symbols := fold define_global
       (map (\<lambda>(a, b). top_symbol (sample_ident a) (Ty_Class a) (K_Class (class_info_of [] (sample_class a (Some b)))) no_range)
         [(''A'', ''B''), (''B'', ''A'')]) symbol_table_new\<rparr>"


subsection \<open>What a statement is checked against\<close>

text \<open>C5: Checking statements reports the same errors and warnings whichever variables have been read
  or written before: the diagnostics depend on declarations only, are appended to those there
  were, and no check adds, removes or retypes a symbol.
\<close>

theorem statement_checks_stable:
  assumes "az_good rank a" "same_az a b"
  shows "\<exists>a1 b1 ds. analyze_statements ss a = Some a1 \<and> analyze_statements ss b = Some b1 \<and>
    az_diagnostics a1 = az_diagnostics a @ ds \<and> az_diagnostics b1 = az_diagnostics b @ ds \<and>
    same_az a a1 \<and> same_az b b1"
proof -
  from stable_stepE [OF statements_stable assms] obtain a1 b1 where
    "analyze_statements ss a = Some a1" "analyze_statements ss b = Some b1" "lockstep a b a1 b1" .
  then show ?thesis unfolding lockstep_def by blast
qed

theorem statement_checks_stable_witness:
  "\<exists>a1 ds. analyze_statements [S_Exit no_range] analyzer_new = Some a1 \<and> az_diagnostics a1 = az_diagnostics analyzer_new @ ds \<and>
     same_az analyzer_new a1"
proof -
  have "az_good (\<lambda>_. 0) analyzer_new"
    using good_table_new by (simp add: az_good_def good_table_def analyzer_new_def global_scope_id_def)
      (simp add: symbol_table_new_def)
  from statement_checks_stable [OF this same_az_refl, of "[S_Exit no_range]"] show ?thesis by blast
qed

end
