(* ===== verification/Vm_Step.thy ===== *)
theory Vm_Step
  imports Vm_Exec
begin

section \<open>Memory instructions, the dispatcher and the loop: crates/st-engine/src/vm.rs\<close>

subsection \<open>Arrays\<close>

text \<open>
  The elements of a local array live in \<open>fb_instances\<close> under the frame's identity and
  the slot. Bounds come from the type definition of the slot; arithmetic on \<open>i64\<close> and
  \<open>usize\<close> traps or wraps with the build.
\<close>

definition i64_sub :: "bool \<Rightarrow> i64 \<Rightarrow> i64 \<Rightarrow> i64 chk" where
  "i64_sub checks a b = i64_result checks (sint a - sint b)"

definition usize_result :: "bool \<Rightarrow> nat \<Rightarrow> nat chk" where
  "usize_result checks n =
     (if n < 2 ^ 64 then Res n else if checks then Panic ArithPanic else Res (n mod 2 ^ 64))"

definition dim_size :: "bool \<Rightarrow> i64 \<times> i64 \<Rightarrow> nat chk" where
  "dim_size checks d =
     (case d of (lo, hi) \<Rightarrow>
        chk_bind (i64_sub checks hi lo) (\<lambda>w.
        chk_bind (i64_result checks (sint w + 1)) (\<lambda>n. Res (nat (max (sint n) 0)))))"

fun dims_total :: "bool \<Rightarrow> (i64 \<times> i64) list \<Rightarrow> nat \<Rightarrow> nat chk" where
  "dims_total checks [] acc = Res acc"
| "dims_total checks (d # ds) acc =
     chk_bind (dim_size checks d) (\<lambda>n.
     chk_bind (usize_result checks (acc * n)) (dims_total checks ds))"

definition array_dims :: "vm \<Rightarrow> func \<Rightarrow> u16 \<Rightarrow> (i64 \<times> i64) list option" where
  "array_dims vm fn slot =
     (case vec_at (slots (fn_locals fn)) (unat slot) of
        None \<Rightarrow> None
      | Some s \<Rightarrow>
          (case vs_ty s of
             T_Array td \<Rightarrow>
               (case vec_at (md_type_defs (vm_module vm)) (unat td) of
                  Some (TD_Array _ dims) \<Rightarrow> Some dims
                | _ \<Rightarrow> None)
           | _ \<Rightarrow> None))"

definition first_lo :: "(i64 \<times> i64) list \<Rightarrow> i64" where
  "first_lo dims = (case dims of [] \<Rightarrow> 0 | (lo, _) # _ \<Rightarrow> lo)"

definition array_lo :: "vm \<Rightarrow> func \<Rightarrow> u16 \<Rightarrow> i64" where
  "array_lo vm fn slot = (case array_dims vm fn slot of None \<Rightarrow> 0 | Some dims \<Rightarrow> first_lo dims)"

definition array_total :: "bool \<Rightarrow> vm \<Rightarrow> func \<Rightarrow> u16 \<Rightarrow> nat chk" where
  "array_total checks vm fn slot =
     (case array_dims vm fn slot of None \<Rightarrow> Res 0 | Some dims \<Rightarrow> dims_total checks dims 1)"

definition stored_at :: "vm \<Rightarrow> fb_key \<Rightarrow> nat \<Rightarrow> val" where
  "stored_at vm key i =
     (case hm_get (vm_fb vm) key of
        None \<Rightarrow> V_Int 0
      | Some st \<Rightarrow> (case vec_at st i of None \<Rightarrow> V_Int 0 | Some v \<Rightarrow> v))"

definition exec_LoadArray :: "rt_env \<Rightarrow> reg \<Rightarrow> u16 \<Rightarrow> reg \<Rightarrow> vm \<Rightarrow> outcome" where
  "exec_LoadArray env dst slot idx vm =
     with_chk (reg_get vm idx) (\<lambda>i. with_chk (top_frame vm) (\<lambda>f.
     with_chk (func_at vm (fr_func f)) (\<lambda>fn.
     with_chk (i64_sub (env_checks env) (as_int i) (array_lo vm fn slot)) (\<lambda>flat.
     put dst (stored_at vm (caller_identity vm, slot) (unat flat)) vm))))"

definition exec_StoreArray :: "rt_env \<Rightarrow> u16 \<Rightarrow> reg \<Rightarrow> reg \<Rightarrow> vm \<Rightarrow> outcome" where
  "exec_StoreArray env slot idx src vm =
     with_chk (reg_get vm idx) (\<lambda>i. with_chk (reg_get vm src) (\<lambda>v. with_chk (top_frame vm) (\<lambda>f.
     with_chk (func_at vm (fr_func f)) (\<lambda>fn.
     with_chk (array_total (env_checks env) vm fn slot) (\<lambda>total.
     with_chk (i64_sub (env_checks env) (as_int i) (array_lo vm fn slot)) (\<lambda>flat.
     let key = (caller_identity vm, slot);
         st = (case hm_get (vm_fb vm) key of Some st \<Rightarrow> st | None \<Rightarrow> replicate total (V_Int 0));
         st' = (if unat flat < length st then st[unat flat := v] else st)
     in Next (vm\<lparr>vm_fb := hm_insert key st' (vm_fb vm)\<rparr>)))))))"

subsection \<open>Fields\<close>

definition exec_LoadField :: "reg \<Rightarrow> u16 \<Rightarrow> u16 \<Rightarrow> vm \<Rightarrow> outcome" where
  "exec_LoadField dst inst fld vm =
     put dst (stored_at vm (caller_identity vm, inst) (unat fld)) vm"

text \<open>Write position \<open>i\<close> of an instance, growing it with default values as needed.\<close>

definition store_in_instance :: "vm \<Rightarrow> fb_key \<Rightarrow> nat \<Rightarrow> val \<Rightarrow> vm" where
  "store_in_instance vm key i v =
     (let st = (case hm_get (vm_fb vm) key of
                  Some st \<Rightarrow> st | None \<Rightarrow> replicate (i + 1) default_val)
      in vm\<lparr>vm_fb := hm_insert key ((pad_to (i + 1) default_val st)[i := v]) (vm_fb vm)\<rparr>)"

definition exec_StoreField :: "u16 \<Rightarrow> u16 \<Rightarrow> reg \<Rightarrow> vm \<Rightarrow> outcome" where
  "exec_StoreField inst fld src vm =
     with_chk (reg_get vm src)
       (\<lambda>v. Next (store_in_instance vm (caller_identity vm, inst) (unat fld) v))"

text \<open>\<open>base_offset as usize + raw_idx as usize\<close>: a negative index becomes a huge one.\<close>

definition field_index :: "bool \<Rightarrow> u16 \<Rightarrow> i64 \<Rightarrow> nat chk" where
  "field_index checks base i = usize_result checks (unat base + unat i)"

definition exec_LoadFieldIndex :: "rt_env \<Rightarrow> reg \<Rightarrow> u16 \<Rightarrow> u16 \<Rightarrow> reg \<Rightarrow> vm \<Rightarrow> outcome" where
  "exec_LoadFieldIndex env dst inst base idx vm =
     with_chk (reg_get vm idx) (\<lambda>i.
     with_chk (field_index (env_checks env) base (as_int i)) (\<lambda>flat.
     put dst (stored_at vm (caller_identity vm, inst) flat) vm))"

text \<open>
  The first write creates \<open>vec![default; flat + 1]\<close>: with \<open>flat = usize::MAX\<close> the sum
  overflows (and a length above \<open>isize::MAX\<close> elements panics in the allocator, like
  the unbounded growth below it; memory exhaustion is not modelled).
\<close>

definition exec_StoreFieldIndex :: "rt_env \<Rightarrow> u16 \<Rightarrow> u16 \<Rightarrow> reg \<Rightarrow> reg \<Rightarrow> vm \<Rightarrow> outcome" where
  "exec_StoreFieldIndex env inst base idx src vm =
     with_chk (reg_get vm idx) (\<lambda>i.
     with_chk (field_index (env_checks env) base (as_int i)) (\<lambda>flat.
     with_chk (reg_get vm src) (\<lambda>v.
     Next (store_in_instance vm (caller_identity vm, inst) flat v))))"

subsection \<open>Pointers\<close>

text \<open>A local's scope tag is its frame's position in the stack plus 2, in \<open>u16\<close>.\<close>

definition frame_tag :: "bool \<Rightarrow> nat \<Rightarrow> u16 chk" where
  "frame_tag checks depth =
     (let n = depth mod 65536
      in if checks \<and> (n = 0 \<or> n + 1 \<ge> 65536) then Panic ArithPanic
         else Res (of_nat n - 1 + 2))"

definition exec_MakeRefLocal :: "rt_env \<Rightarrow> reg \<Rightarrow> u16 \<Rightarrow> vm \<Rightarrow> outcome" where
  "exec_MakeRefLocal env dst slot vm =
     with_chk (frame_tag (env_checks env) (length (vm_stack vm))) (\<lambda>t. put dst (V_Ref t slot) vm)"

definition deref :: "vm \<Rightarrow> val \<Rightarrow> val" where
  "deref vm p =
     (case p of
        V_Ref tag slot \<Rightarrow>
          if tag = 0 \<or> tag = 1 then
            (case vec_at (vm_globals vm) (unat slot) of None \<Rightarrow> V_Void | Some v \<Rightarrow> v)
          else
            (case frame_at vm (unat (tag - 2)) of
               None \<Rightarrow> V_Int 0
             | Some f \<Rightarrow> (case vec_at (fr_locals f) (unat slot) of None \<Rightarrow> V_Int 0 | Some v \<Rightarrow> v))
      | _ \<Rightarrow> V_Int 0)"

definition exec_Deref :: "reg \<Rightarrow> reg \<Rightarrow> vm \<Rightarrow> outcome" where
  "exec_Deref dst ptr vm = with_chk (reg_get vm ptr) (\<lambda>p. put dst (deref vm p) vm)"

definition set_frame_local :: "vm \<Rightarrow> nat \<Rightarrow> nat \<Rightarrow> val \<Rightarrow> vm" where
  "set_frame_local vm i slot v =
     (let n = length (vm_stack vm)
      in if i < n then
           (let f = vm_stack vm ! (n - 1 - i)
            in if slot < length (fr_locals f)
               then vm\<lparr>vm_stack := (vm_stack vm)[n - 1 - i := f\<lparr>fr_locals := (fr_locals f)[slot := v]\<rparr>]\<rparr>
               else vm)
         else vm)"

text \<open>Tag 0 indexes the globals without a bounds check; tag 1 is checked.\<close>

definition exec_DerefStore :: "reg \<Rightarrow> reg \<Rightarrow> vm \<Rightarrow> outcome" where
  "exec_DerefStore ptr src vm =
     with_chk (reg_get vm ptr) (\<lambda>p. with_chk (reg_get vm src) (\<lambda>v.
     case p of
       V_Ref tag slot \<Rightarrow>
         if tag = 0 then
           with_chk (vec_set (vm_globals vm) (unat slot) v) (\<lambda>gs. Next (vm\<lparr>vm_globals := gs\<rparr>))
         else if tag = 1 then
           (if unat slot < length (vm_globals vm)
            then Next (vm\<lparr>vm_globals := (vm_globals vm)[unat slot := v]\<rparr>) else Next vm)
         else Next (set_frame_local vm (unat (tag - 2)) (unat slot) v)
     | _ \<Rightarrow> Next vm))"

end
