(* ===== verification/Vm_Loop.thy ===== *)
theory Vm_Loop
  imports Vm_Step
begin

section \<open>The dispatcher, one step and the loop: crates/st-engine/src/vm.rs\<close>

definition exec_instr :: "rt_env \<Rightarrow> u16 \<Rightarrow> instruction \<Rightarrow> vm \<Rightarrow> outcome" where
  "exec_instr env fi ins vm =
     (case ins of
        Nop \<Rightarrow> Next vm
      | LoadConst dst v \<Rightarrow> put dst v vm
      | Move dst src \<Rightarrow> op1 Res dst src vm
      | LoadLocal dst slot \<Rightarrow> exec_LoadLocal fi dst slot vm
      | StoreLocal slot src \<Rightarrow> exec_StoreLocal slot src vm
      | LoadGlobal dst slot \<Rightarrow> exec_LoadGlobal dst slot vm
      | StoreGlobal slot src \<Rightarrow> exec_StoreGlobal slot src vm
      | Add dst l r \<Rightarrow> op2 val_add dst l r vm
      | Sub dst l r \<Rightarrow> op2 val_sub dst l r vm
      | Mul dst l r \<Rightarrow> op2 val_mul dst l r vm
      | Div dst l r \<Rightarrow> exec_Div dst l r vm
      | Mod dst l r \<Rightarrow> exec_Mod dst l r vm
      | Pow dst l r \<Rightarrow> op2 (\<lambda>a b. Res (V_Real (env_powf env (as_real a) (as_real b)))) dst l r vm
      | Neg dst src \<Rightarrow> op1 (val_neg (env_checks env)) dst src vm
      | CmpEq dst l r \<Rightarrow> op2 (\<lambda>a b. Res (V_Bool (cmp_eq a b))) dst l r vm
      | CmpNe dst l r \<Rightarrow> op2 (\<lambda>a b. Res (V_Bool (cmp_ne a b))) dst l r vm
      | CmpLt dst l r \<Rightarrow> op2 (\<lambda>a b. Res (V_Bool (cmp_lt a b))) dst l r vm
      | CmpGt dst l r \<Rightarrow> op2 (\<lambda>a b. Res (V_Bool (cmp_gt a b))) dst l r vm
      | CmpLe dst l r \<Rightarrow> op2 (\<lambda>a b. Res (V_Bool (cmp_le a b))) dst l r vm
      | CmpGe dst l r \<Rightarrow> op2 (\<lambda>a b. Res (V_Bool (cmp_ge a b))) dst l r vm
      | And dst l r \<Rightarrow> op2 (\<lambda>a b. Res (V_Bool (as_bool a \<and> as_bool b))) dst l r vm
      | Or dst l r \<Rightarrow> op2 (\<lambda>a b. Res (V_Bool (as_bool a \<or> as_bool b))) dst l r vm
      | Xor dst l r \<Rightarrow> op2 (\<lambda>a b. Res (V_Bool (as_bool a \<noteq> as_bool b))) dst l r vm
      | Not dst src \<Rightarrow> op1 (\<lambda>a. Res (V_Bool (\<not> as_bool a))) dst src vm
      | Sqrt dst src \<Rightarrow> math_fn env M_Sqrt dst src vm
      | Sin dst src \<Rightarrow> math_fn env M_Sin dst src vm
      | Cos dst src \<Rightarrow> math_fn env M_Cos dst src vm
      | Tan dst src \<Rightarrow> math_fn env M_Tan dst src vm
      | Asin dst src \<Rightarrow> math_fn env M_Asin dst src vm
      | Acos dst src \<Rightarrow> math_fn env M_Acos dst src vm
      | Atan dst src \<Rightarrow> math_fn env M_Atan dst src vm
      | SystemTime dst \<Rightarrow> put dst (V_Time (vm_elapsed vm)) vm
      | Ln dst src \<Rightarrow> math_fn env M_Ln dst src vm
      | Log dst src \<Rightarrow> math_fn env M_Log10 dst src vm
      | Exp dst src \<Rightarrow> math_fn env M_Exp dst src vm
      | ToInt dst src \<Rightarrow> op1 (\<lambda>a. Res (V_Int (as_int a))) dst src vm
      | ToReal dst src \<Rightarrow> op1 (\<lambda>a. Res (V_Real (as_real a))) dst src vm
      | ToBool dst src \<Rightarrow> op1 (\<lambda>a. Res (V_Bool (as_bool a))) dst src vm
      | ToTime dst src \<Rightarrow> op1 (\<lambda>a. Res (V_Time (as_time a))) dst src vm
      | ToTod dst src \<Rightarrow> op1 (\<lambda>a. Res (V_Time (to_tod (as_time a)))) dst src vm
      | DtExtractDate dst src \<Rightarrow>
          op1 (\<lambda>a. chk_bind (dt_extract_date (env_checks env) (as_time a)) (\<lambda>t. Res (V_Time t)))
            dst src vm
      | DtExtractTod dst src \<Rightarrow> op1 (\<lambda>a. Res (V_Time (to_tod (as_time a)))) dst src vm
      | DayOfWeek dst src \<Rightarrow> op1 (\<lambda>a. Res (V_Int (day_of_week (as_time a)))) dst src vm
      | StringLen dst src \<Rightarrow> op1 (\<lambda>a. Res (V_Int (of_nat (length (reg_str a))))) dst src vm
      | StringConcat dst l r \<Rightarrow> op2 (\<lambda>a b. Res (V_String (reg_str a @ reg_str b))) dst l r vm
      | StringLeft dst s n \<Rightarrow>
          op2 (\<lambda>a b. string_chk (string_left (reg_str a) (as_int b))) dst s n vm
      | StringRight dst s n \<Rightarrow>
          op2 (\<lambda>a b. string_chk (string_right (reg_str a) (as_int b))) dst s n vm
      | StringMid dst s len pos \<Rightarrow>
          op3 (\<lambda>a b c. string_chk (string_mid (reg_str a) (as_int b) (as_int c))) dst s len pos vm
      | StringFind dst h n \<Rightarrow>
          op2 (\<lambda>a b. Res (V_Int (string_find (reg_str a) (reg_str b)))) dst h n vm
      | StringInsert dst s1 s2 pos \<Rightarrow>
          op3 (\<lambda>a b c. string_chk (string_insert (reg_str a) (reg_str b) (as_int c)))
            dst s1 s2 pos vm
      | StringDelete dst s len pos \<Rightarrow>
          op3 (\<lambda>a b c. string_chk (string_delete (reg_str a) (as_int b) (as_int c)))
            dst s len pos vm
      | StringReplace dst s1 s2 len pos \<Rightarrow>
          with_chk (reg_get vm s1) (\<lambda>a.
          op3 (\<lambda>b c d. string_chk (string_replace (reg_str a) (reg_str b) (as_int c) (as_int d)))
            dst s2 len pos vm)
      | StringTrim dst src \<Rightarrow> op1 (\<lambda>a. Res (V_String (trim_str (reg_str a)))) dst src vm
      | StringLTrim dst src \<Rightarrow> op1 (\<lambda>a. Res (V_String (trim_start (reg_str a)))) dst src vm
      | StringRTrim dst src \<Rightarrow> op1 (\<lambda>a. Res (V_String (trim_end (reg_str a)))) dst src vm
      | StringToUpper dst src \<Rightarrow> op1 (\<lambda>a. Res (V_String (to_upper (reg_str a)))) dst src vm
      | StringToLower dst src \<Rightarrow> op1 (\<lambda>a. Res (V_String (to_lower (reg_str a)))) dst src vm
      | IntToString dst src \<Rightarrow> op1 (\<lambda>a. Res (V_String (show_int (sint (as_int a))))) dst src vm
      | UIntToString dst src \<Rightarrow> op1 (\<lambda>a. Res (V_String (show_nat (unat (as_uint a))))) dst src vm
      | RealToString dst src \<Rightarrow> op1 (\<lambda>a. Res (V_String (env_fmt_debug env (as_real a)))) dst src vm
      | BoolToString dst src \<Rightarrow> op1 (\<lambda>a. Res (V_String (bool_text (as_bool a)))) dst src vm
      | StringToInt dst src \<Rightarrow> op1 (\<lambda>a. Res (V_Int (string_to_int (reg_str a)))) dst src vm
      | StringToUInt dst src \<Rightarrow> op1 (\<lambda>a. Res (V_UInt (string_to_uint (reg_str a)))) dst src vm
      | StringToReal dst src \<Rightarrow> op1 (\<lambda>a. Res (V_Real (string_to_real env (reg_str a)))) dst src vm
      | StringToBool dst src \<Rightarrow> op1 (\<lambda>a. Res (V_Bool (string_to_bool (reg_str a)))) dst src vm
      | ToString dst src \<Rightarrow> op1 (\<lambda>a. Res (V_String (any_to_string env a))) dst src vm
      | Jump lbl \<Rightarrow> jump_to lbl vm
      | JumpIf r lbl \<Rightarrow> exec_JumpIf True r lbl vm
      | JumpIfNot r lbl \<Rightarrow> exec_JumpIf False r lbl vm
      | Call f dst args \<Rightarrow> call_function f (Some dst) args vm
      | CallFb inst f args \<Rightarrow> call_fb env f inst args vm
      | Ret r \<Rightarrow> exec_Ret r vm
      | CallMethod inst cls f dst args \<Rightarrow> exec_CallMethod env inst cls f dst args vm
      | RetVoid \<Rightarrow> exec_RetVoid vm
      | MakeRefLocal dst slot \<Rightarrow> exec_MakeRefLocal env dst slot vm
      | MakeRefGlobal dst slot \<Rightarrow> put dst (V_Ref 0 slot) vm
      | Deref dst ptr \<Rightarrow> exec_Deref dst ptr vm
      | DerefStore ptr src \<Rightarrow> exec_DerefStore ptr src vm
      | LoadNull dst \<Rightarrow> put dst V_Null vm
      | ExtractBit dst src i \<Rightarrow>
          op1 (\<lambda>a. chk_bind (extract_bit (env_checks env) (as_int a) i) (\<lambda>b. Res (V_Bool b)))
            dst src vm
      | InsertBit dst src i b \<Rightarrow>
          op2 (\<lambda>a v. chk_bind (insert_bit (env_checks env) (as_int a) i (as_bool v))
            (\<lambda>w. Res (V_Int w))) dst src b vm
      | ExtractPartial dst src i n \<Rightarrow>
          op1 (\<lambda>a. chk_bind (extract_partial (env_checks env) (as_int a) i n)
            (\<lambda>w. Res (V_Int w))) dst src vm
      | InsertPartial dst src i n b \<Rightarrow>
          op2 (\<lambda>a v. chk_bind (insert_partial (env_checks env) (as_int a) i n (as_int v))
            (\<lambda>w. Res (V_Int w))) dst src b vm
      | LoadArray dst slot idx \<Rightarrow> exec_LoadArray env dst slot idx vm
      | StoreArray slot idx src \<Rightarrow> exec_StoreArray env slot idx src vm
      | LoadField dst inst fld \<Rightarrow> exec_LoadField dst inst fld vm
      | StoreField inst fld src \<Rightarrow> exec_StoreField inst fld src vm
      | LoadFieldIndex dst inst base idx \<Rightarrow> exec_LoadFieldIndex env dst inst base idx vm
      | StoreFieldIndex inst base idx src \<Rightarrow> exec_StoreFieldIndex env inst base idx src vm)"

text \<open>One round of the loop, on a stack that is not empty.\<close>

definition fetch_execute :: "rt_env \<Rightarrow> frame \<Rightarrow> func \<Rightarrow> vm \<Rightarrow> outcome" where
  "fetch_execute env f fn vm =
     (let (pause, d) = should_pause (fr_func f) (fr_pc f) (length (vm_stack vm))
                         (fn_source_map fn) (vm_debug vm)
      in case pause of
           Some reason \<Rightarrow> Fail (vm\<lparr>vm_debug := mark_paused reason d\<rparr>) Halt
         | None \<Rightarrow>
             let vm1 = (set_top (f\<lparr>fr_pc := fr_pc f + 1\<rparr>) vm)
                         \<lparr>vm_debug := d, vm_count := vm_count vm + 1\<rparr>
             in if max_instructions (vm_conf vm) > 0
                   \<and> vm_count vm1 > max_instructions (vm_conf vm)
                then Fail vm1 (ExecutionLimit (max_instructions (vm_conf vm)))
                else exec_instr env (fr_func f) (fn_instructions fn ! fr_pc f) vm1)"

definition vm_step :: "rt_env \<Rightarrow> vm \<Rightarrow> outcome" where
  "vm_step env vm =
     (case vm_stack vm of
        [] \<Rightarrow> Done vm V_Void
      | f # _ \<Rightarrow>
          with_chk (func_at vm (fr_func f)) (\<lambda>fn.
          if fr_pc f \<ge> length (fn_instructions fn) then implicit_return vm
          else fetch_execute env f fn vm))"

datatype run_end = Finished vm val | Failed vm vm_error | Crashed panic

partial_function (option) execute :: "rt_env \<Rightarrow> vm \<Rightarrow> run_end option" where
  "execute env vm =
     (case vm_step env vm of
        Next vm' \<Rightarrow> execute env vm'
      | Done vm' v \<Rightarrow> Some (Finished vm' v)
      | Fail vm' e \<Rightarrow> Some (Failed vm' e)
      | Crash p \<Rightarrow> Some (Crashed p))"

text \<open>The states a run goes through, and how its last step ends it.\<close>

inductive vm_reach :: "rt_env \<Rightarrow> vm \<Rightarrow> vm \<Rightarrow> bool" for env :: rt_env and vm :: vm where
  reach_refl: "vm_reach env vm vm"
| reach_step: "vm_reach env vm vm' \<Longrightarrow> vm_step env vm' = Next vm'' \<Longrightarrow> vm_reach env vm vm''"

primrec run_end_of :: "outcome \<Rightarrow> run_end option" where
  "run_end_of (Next vm) = None"
| "run_end_of (Done vm v) = Some (Finished vm v)"
| "run_end_of (Fail vm e) = Some (Failed vm e)"
| "run_end_of (Crash p) = Some (Crashed p)"

lemma vm_reach_Next:
  "vm_reach env vm1 vm' \<Longrightarrow> vm_step env vm = Next vm1 \<Longrightarrow> vm_reach env vm vm'"
  by (induction rule: vm_reach.induct) (auto intro: vm_reach.intros)

lemma execute_Next: "vm_step env vm = Next vm' \<Longrightarrow> execute env vm = execute env vm'"
  by (simp add: execute.simps)

lemma execute_last:
  "run_end_of (vm_step env vm) = Some r \<Longrightarrow> execute env vm = Some r"
  by (cases "vm_step env vm") (simp_all add: execute.simps)

lemma execute_reach:
  assumes "execute env vm = Some r"
  shows "\<exists>vm'. vm_reach env vm vm' \<and> run_end_of (vm_step env vm') = Some r"
proof (rule execute.raw_induct [OF _ assms, where P =
      "\<lambda>env vm r. \<exists>vm'. vm_reach env vm vm' \<and> run_end_of (vm_step env vm') = Some r"], goal_cases)
  case (1 execute env vm r)
  show ?case
  proof (cases "vm_step env vm")
    case (Next vm1)
    with 1(2) have "execute env vm1 = Some r" by simp
    from 1(1) [OF this] obtain vm' where
      "vm_reach env vm1 vm'" "run_end_of (vm_step env vm') = Some r" by blast
    with vm_reach_Next [OF _ Next] show ?thesis by blast
  qed (use 1 in \<open>auto intro!: exI [of _ vm] reach_refl\<close>)
qed

lemma execute_along: "vm_reach env vm vm' \<Longrightarrow> execute env vm = execute env vm'"
  by (induction rule: vm_reach.induct) (simp_all add: execute_Next)

subsection \<open>Entry points\<close>

text \<open>The frame \<open>run\<close> pushes: a PROGRAM resumes its retained locals past the init code.\<close>

definition entry_frame :: "vm \<Rightarrow> u16 \<Rightarrow> func \<Rightarrow> frame" where
  "entry_frame vm fi fn =
     (case (if fn_kind fn = Pou_Program then hm_get (vm_retained vm) fi else None) of
        Some ls \<Rightarrow> fresh_frame fi fn ls (fn_body_start_pc fn) None
      | None \<Rightarrow> fresh_frame fi fn (default_locals (fn_locals fn)) 0 None)"

definition vm_run :: "rt_env \<Rightarrow> string \<Rightarrow> vm \<Rightarrow> run_end option" where
  "vm_run env name vm =
     (case find_function (vm_module vm) name of
        None \<Rightarrow> Some (Failed vm (InvalidFunction 0))
      | Some (fi, fn) \<Rightarrow>
          execute env (vm\<lparr>vm_stack := entry_frame vm fi fn # vm_stack vm\<rparr>))"

definition continue_execution :: "rt_env \<Rightarrow> vm \<Rightarrow> run_end option" where
  "continue_execution env vm =
     (if vm_stack vm = [] then Some (Finished vm V_Void) else execute env vm)"

definition scan_cycle :: "rt_env \<Rightarrow> string \<Rightarrow> vm \<Rightarrow> run_end option" where
  "scan_cycle env name vm = vm_run env name vm"

definition global_init_name :: string where
  "global_init_name = ''__global_init''"

definition run_global_init :: "rt_env \<Rightarrow> vm \<Rightarrow> run_end option" where
  "run_global_init env vm =
     (if find_function (vm_module vm) global_init_name = None then Some (Finished vm V_Void)
      else vm_run env global_init_name vm)"

definition call_depth :: "vm \<Rightarrow> nat" where
  "call_depth vm = length (vm_stack vm)"

definition reset_instruction_count :: "vm \<Rightarrow> vm" where
  "reset_instruction_count vm = vm\<lparr>vm_count := 0\<rparr>"

definition set_elapsed_time_ms :: "i64 \<Rightarrow> vm \<Rightarrow> vm" where
  "set_elapsed_time_ms t vm = vm\<lparr>vm_elapsed := t\<rparr>"

definition clear_call_stack :: "vm \<Rightarrow> vm" where
  "clear_call_stack vm = vm\<lparr>vm_stack := []\<rparr>"

end
