(* ===== verification/Vm_Term.thy ===== *)
theory Vm_Term
  imports Vm_Loop
begin

section \<open>What an instruction leaves alone, and why a run ends\<close>

text \<open>
  No instruction changes the configuration, the module, the debugger's state, the forced
  variables or the instruction counter, and the call stack grows by one frame at most,
  below the configured depth only. With an instruction limit every run therefore ends:
  an instruction brings the counter nearer to the limit, and a return off the end of a
  function, which does not count, takes a frame away.
\<close>

named_theorems kept_intros \<open>one arm of the interpreter leaves the rest alone\<close>

definition depth_step :: "vm \<Rightarrow> vm \<Rightarrow> bool" where
  "depth_step vm vm' \<longleftrightarrow>
     call_depth vm' \<le> call_depth vm \<or>
     (call_depth vm' = call_depth vm + 1 \<and> call_depth vm < max_call_depth (vm_conf vm))"

definition kept :: "vm \<Rightarrow> vm \<Rightarrow> bool" where
  "kept vm vm' \<longleftrightarrow>
     vm_conf vm' = vm_conf vm \<and> vm_module vm' = vm_module vm \<and> vm_debug vm' = vm_debug vm \<and>
     vm_forced vm' = vm_forced vm \<and> vm_forced_slots vm' = vm_forced_slots vm \<and>
     vm_elapsed vm' = vm_elapsed vm \<and> vm_count vm' = vm_count vm \<and>
     length (vm_globals vm') = length (vm_globals vm) \<and> depth_step vm vm'"

primrec out_kept :: "vm \<Rightarrow> outcome \<Rightarrow> bool" where
  "out_kept vm (Next vm') \<longleftrightarrow> kept vm vm'"
| "out_kept vm (Done vm' v) \<longleftrightarrow> kept vm vm'"
| "out_kept vm (Fail vm' e) \<longleftrightarrow> kept vm vm'"
| "out_kept vm (Crash p) \<longleftrightarrow> True"

lemma kept_refl [simp, intro]: "kept vm vm"
  by (simp add: kept_def depth_step_def)

lemma with_chk_kept:
  "(\<And>x. c = Res x \<Longrightarrow> out_kept vm (k x)) \<Longrightarrow> out_kept vm (with_chk c k)"
  by (cases c) auto

lemma top_frame_Res [simp]:
  "top_frame vm = Res f \<longleftrightarrow> vm_stack vm \<noteq> [] \<and> f = hd (vm_stack vm)"
  by (auto simp: top_frame_def split: list.split)

lemma kept_set_top [simp]: "vm_stack vm \<noteq> [] \<Longrightarrow> kept vm (set_top f vm)"
  by (auto simp: kept_def set_top_def depth_step_def call_depth_def)

lemma kept_fields [simp]:
  "kept vm (vm\<lparr>vm_fb := fb\<rparr>)" "kept vm (vm\<lparr>vm_retained := r\<rparr>)"
  "kept vm (vm\<lparr>vm_globals := (vm_globals vm)[i := v]\<rparr>)"
  by (auto simp: kept_def depth_step_def call_depth_def)

lemma put_kept [kept_intros]: "out_kept vm (put r v vm)"
  by (auto simp: put_def reg_set_def intro!: with_chk_kept)

lemma op_kept [kept_intros]:
  "out_kept vm (op1 f dst a vm)" "out_kept vm (op2 g dst a b vm)" "out_kept vm (op3 h dst a b c vm)"
  by (auto simp: op1_def op2_def op3_def intro!: with_chk_kept put_kept)

lemma variables_kept [kept_intros]:
  "out_kept vm (exec_LoadLocal fi dst slot vm)" "out_kept vm (exec_StoreLocal slot src vm)"
  "out_kept vm (exec_LoadGlobal dst slot vm)" "out_kept vm (exec_StoreGlobal slot src vm)"
  by (auto simp: exec_LoadLocal_def exec_StoreLocal_def exec_LoadGlobal_def exec_StoreGlobal_def
      local_set_def intro!: with_chk_kept put_kept split: option.split)

lemma control_kept [kept_intros]:
  "out_kept vm (exec_Div dst l r vm)" "out_kept vm (exec_Mod dst l r vm)"
  "out_kept vm (jump_to lbl vm)" "out_kept vm (exec_JumpIf sense r lbl vm)"
  by (auto simp: exec_Div_def exec_Mod_def jump_to_def exec_JumpIf_def
      intro!: with_chk_kept op_kept split: option.split)

lemma kept_push:
  "call_depth vm < max_call_depth (vm_conf vm) \<Longrightarrow> length st = call_depth vm + 1 \<Longrightarrow>
     kept vm (vm\<lparr>vm_stack := st\<rparr>)"
  by (simp add: kept_def depth_step_def call_depth_def)

lemma call_function_kept [kept_intros]: "out_kept vm (call_function fi (Some dst) args vm)"
  by (cases "vm_stack vm")
    (auto simp: call_function_def call_depth_def intro!: with_chk_kept kept_push
      split: option.split)

lemma call_fb_kept [kept_intros]: "out_kept vm (call_fb env fi inst args vm)"
  by (auto simp: call_fb_def Let_def call_depth_def intro!: with_chk_kept kept_push
      split: option.split)

lemma kept_push_fb:
  "call_depth vm < max_call_depth (vm_conf vm) \<Longrightarrow> length st = call_depth vm + 1 \<Longrightarrow>
     kept vm (vm\<lparr>vm_fb := fb, vm_stack := st\<rparr>)"
  by (simp add: kept_def depth_step_def call_depth_def)

lemma exec_CallMethod_kept [kept_intros]: "out_kept vm (exec_CallMethod env inst cls fi dst args vm)"
  by (auto simp: exec_CallMethod_def Let_def not_le call_depth_def
      intro!: with_chk_kept kept_push kept_push_fb split: option.splits)

lemma save_retained_locals_keeps:
  "save_retained_locals vm = Res vm1 \<Longrightarrow> kept vm vm1 \<and> vm_stack vm1 = vm_stack vm"
proof (cases "vm_stack vm")
  case (Cons f rest)
  assume "save_retained_locals vm = Res vm1"
  with Cons obtain fn where "func_at vm (fr_func f) = Res fn"
    by (auto simp: save_retained_locals_def)
  with \<open>save_retained_locals vm = Res vm1\<close> Cons show ?thesis
    by (cases "fn_kind fn"; cases "fr_instance f")
      (auto simp: save_retained_locals_def Let_def split: option.splits if_splits)
qed (simp add: save_retained_locals_def)

lemma deliver_keeps:
  "deliver v vm = Res vm1 \<Longrightarrow> kept vm vm1 \<and> length (vm_stack vm1) = length (vm_stack vm)"
  by (auto simp: deliver_def kept_def depth_step_def call_depth_def split: list.splits option.splits)

lemma kept_return:
  "kept vm vm1 \<Longrightarrow> vm_stack vm1 = vm_stack vm \<Longrightarrow> kept (pop_frame vm1) vm2 \<Longrightarrow>
     length (vm_stack vm2) = length (vm_stack (pop_frame vm1)) \<Longrightarrow>
     kept vm vm2 \<and> call_depth vm2 = call_depth vm - 1"
  by (auto simp: kept_def depth_step_def call_depth_def pop_frame_def)

lemma implicit_return_keeps:
  "implicit_return vm = Next vm' \<Longrightarrow> kept vm vm' \<and> call_depth vm' = call_depth vm - 1"
  by (cases "save_retained_locals vm"; cases "deliver V_Void (pop_frame (case save_retained_locals vm of Res x \<Rightarrow> x))")
    (auto simp: implicit_return_def dest!: save_retained_locals_keeps deliver_keeps
      dest: kept_return)

lemma exec_Ret_kept [kept_intros]: "out_kept vm (exec_Ret r vm)"
  by (auto simp: exec_Ret_def intro!: with_chk_kept dest!: save_retained_locals_keeps deliver_keeps
      dest: kept_return)

lemma tl_ConsD: "tl xs = y # ys \<Longrightarrow> length xs = Suc (Suc (length ys))"
  by (cases xs) auto

lemma exec_RetVoid_kept [kept_intros]: "out_kept vm (exec_RetVoid vm)"
  by (auto simp: exec_RetVoid_def pop_frame_def kept_def depth_step_def call_depth_def
      intro!: with_chk_kept dest!: save_retained_locals_keeps tl_ConsD split: list.split)

lemma memory_kept [kept_intros]:
  "out_kept vm (exec_LoadArray env dst slot idx vm)" "out_kept vm (exec_StoreArray env slot idx src vm)"
  "out_kept vm (exec_LoadField dst inst fld vm)" "out_kept vm (exec_StoreField inst fld src vm)"
  "out_kept vm (exec_LoadFieldIndex env dst inst base idx vm)"
  "out_kept vm (exec_StoreFieldIndex env inst base idx src vm)"
  by (auto simp: exec_LoadArray_def exec_StoreArray_def exec_LoadField_def exec_StoreField_def
      exec_LoadFieldIndex_def exec_StoreFieldIndex_def store_in_instance_def Let_def
      intro!: with_chk_kept put_kept)

lemma pointer_kept [kept_intros]:
  "out_kept vm (exec_MakeRefLocal env dst slot vm)" "out_kept vm (exec_Deref dst ptr vm)"
  "out_kept vm (exec_DerefStore ptr src vm)"
  by (auto simp: exec_MakeRefLocal_def exec_Deref_def exec_DerefStore_def set_frame_local_def Let_def
      kept_def depth_step_def call_depth_def intro!: with_chk_kept put_kept split: val.split)

lemma exec_instr_kept: "out_kept vm (exec_instr env fi ins vm)"
  by (cases ins) (simp_all add: exec_instr_def math_fn_def kept_intros with_chk_kept)

subsection \<open>One step of the loop\<close>

definition instruction_limit :: "vm \<Rightarrow> nat" where
  "instruction_limit vm = max_instructions (vm_conf vm)"

lemma fetch_execute_Next:
  assumes "vm_stack vm = f # rest" "fetch_execute env f fn vm = Next vm'"
  shows "vm_conf vm' = vm_conf vm \<and> vm_module vm' = vm_module vm \<and>
    vm_forced vm' = vm_forced vm \<and> vm_forced_slots vm' = vm_forced_slots vm \<and>
    vm_elapsed vm' = vm_elapsed vm \<and>
    vm_count vm' = vm_count vm + 1 \<and> (0 < instruction_limit vm \<longrightarrow> vm_count vm' \<le> instruction_limit vm) \<and>
    depth_step vm vm'"
proof -
  obtain d where d: "should_pause (fr_func f) (fr_pc f) (length (vm_stack vm))
      (fn_source_map fn) (vm_debug vm) = (None, d)"
    using assms(2) by (auto simp: fetch_execute_def split: prod.splits option.splits)
  define vm1 where "vm1 = (set_top (f\<lparr>fr_pc := fr_pc f + 1\<rparr>) vm)
      \<lparr>vm_debug := d, vm_count := vm_count vm + 1\<rparr>"
  have 1: "0 < instruction_limit vm \<longrightarrow> vm_count vm1 \<le> instruction_limit vm"
    and run: "exec_instr env (fr_func f) (fn_instructions fn ! fr_pc f) vm1 = Next vm'"
    using assms(2) unfolding fetch_execute_def d prod.case Let_def option.case vm1_def [symmetric]
    by (auto simp: instruction_limit_def split: if_splits)
  have "kept vm1 vm'"
    using exec_instr_kept [of vm1 env "fr_func f" "fn_instructions fn ! fr_pc f"] run by simp
  then show ?thesis
    using 1 assms(1) by (auto simp: kept_def vm1_def set_top_def depth_step_def call_depth_def)
qed

lemma vm_step_Next:
  assumes "vm_step env vm = Next vm'"
  shows "(vm_count vm' = vm_count vm + 1 \<and> depth_step vm vm' \<and>
      (0 < instruction_limit vm \<longrightarrow> vm_count vm' \<le> instruction_limit vm)) \<or>
    (vm_count vm' = vm_count vm \<and> call_depth vm' + 1 = call_depth vm)"
    and "vm_conf vm' = vm_conf vm" "vm_module vm' = vm_module vm" "vm_forced vm' = vm_forced vm"
    "vm_forced_slots vm' = vm_forced_slots vm" "vm_elapsed vm' = vm_elapsed vm"
proof -
  obtain f rest where st: "vm_stack vm = f # rest"
    using assms by (auto simp: vm_step_def split: list.splits)
  obtain fn where fn: "func_at vm (fr_func f) = Res fn"
    using assms st by (cases "func_at vm (fr_func f)") (auto simp: vm_step_def)
  consider "implicit_return vm = Next vm'" | "fetch_execute env f fn vm = Next vm'"
    using assms st fn by (auto simp: vm_step_def split: if_splits)
  then have "((vm_count vm' = vm_count vm + 1 \<and> depth_step vm vm' \<and>
      (0 < instruction_limit vm \<longrightarrow> vm_count vm' \<le> instruction_limit vm)) \<or>
    (vm_count vm' = vm_count vm \<and> call_depth vm' + 1 = call_depth vm)) \<and>
    vm_conf vm' = vm_conf vm \<and> vm_module vm' = vm_module vm \<and> vm_forced vm' = vm_forced vm \<and>
    vm_forced_slots vm' = vm_forced_slots vm \<and> vm_elapsed vm' = vm_elapsed vm"
  proof cases
    case 1
    with implicit_return_keeps [OF 1] st show ?thesis by (simp add: kept_def call_depth_def)
  next
    case 2
    with fetch_execute_Next [OF st 2] show ?thesis by auto
  qed
  then show "(vm_count vm' = vm_count vm + 1 \<and> depth_step vm vm' \<and>
      (0 < instruction_limit vm \<longrightarrow> vm_count vm' \<le> instruction_limit vm)) \<or>
    (vm_count vm' = vm_count vm \<and> call_depth vm' + 1 = call_depth vm)"
    and "vm_conf vm' = vm_conf vm" "vm_module vm' = vm_module vm" "vm_forced vm' = vm_forced vm"
    "vm_forced_slots vm' = vm_forced_slots vm" "vm_elapsed vm' = vm_elapsed vm" by blast+
qed

subsection \<open>Termination and bounds\<close>

definition fuel_left :: "vm \<Rightarrow> nat" where
  "fuel_left vm = 2 * (instruction_limit vm - vm_count vm) + call_depth vm"

lemma vm_step_fuel:
  "vm_step env vm = Next vm' \<Longrightarrow> 0 < instruction_limit vm \<Longrightarrow> fuel_left vm' < fuel_left vm"
  using vm_step_Next [of env vm vm']
  by (auto simp: fuel_left_def depth_step_def instruction_limit_def)

lemma execute_returns:
  "0 < instruction_limit vm \<Longrightarrow> \<exists>r. execute env vm = Some r"
proof (induction "fuel_left vm" arbitrary: vm rule: less_induct)
  case less
  show ?case
  proof (cases "vm_step env vm")
    case (Next vm1)
    have "0 < instruction_limit vm1"
      using less.prems vm_step_Next(2) [OF Next] by (simp add: instruction_limit_def)
    with less.hyps [OF vm_step_fuel [OF Next less.prems]] show ?thesis
      by (simp add: execute_Next [OF Next])
  qed (simp_all add: execute.simps)
qed

lemma vm_reach_kept:
  "vm_reach env vm vm' \<Longrightarrow>
     vm_conf vm' = vm_conf vm \<and> vm_module vm' = vm_module vm \<and> vm_forced vm' = vm_forced vm \<and>
     vm_forced_slots vm' = vm_forced_slots vm \<and> vm_elapsed vm' = vm_elapsed vm \<and>
     call_depth vm' \<le> max (call_depth vm) (max_call_depth (vm_conf vm)) \<and>
     vm_count vm \<le> vm_count vm' \<and>
     (0 < instruction_limit vm \<longrightarrow> vm_count vm' \<le> max (vm_count vm) (instruction_limit vm))"
proof (induction rule: vm_reach.induct)
  case reach_refl
  then show ?case by simp
next
  case (reach_step vm1 vm2)
  with vm_step_Next [OF reach_step.hyps(2)] show ?case
    by (auto simp: depth_step_def instruction_limit_def)
qed

lemma vm_step_globals_length:
  assumes "vm_step env vm = Next vm'"
  shows "length (vm_globals vm') = length (vm_globals vm)"
proof -
  obtain f rest where st: "vm_stack vm = f # rest"
    using assms by (auto simp: vm_step_def split: list.splits)
  obtain fn where fn: "func_at vm (fr_func f) = Res fn"
    using assms st by (cases "func_at vm (fr_func f)") (auto simp: vm_step_def)
  obtain p d where d: "should_pause (fr_func f) (fr_pc f) (length (vm_stack vm))
      (fn_source_map fn) (vm_debug vm) = (p, d)" by force
  let ?vm1 = "(set_top (f\<lparr>fr_pc := fr_pc f + 1\<rparr>) vm)\<lparr>vm_debug := d, vm_count := vm_count vm + 1\<rparr>"
  consider "implicit_return vm = Next vm'" | "fetch_execute env f fn vm = Next vm'"
    using assms st fn by (auto simp: vm_step_def split: if_splits)
  then show ?thesis
  proof cases
    case 1
    with implicit_return_keeps [OF 1] show ?thesis by (simp add: kept_def)
  next
    case 2
    then have "exec_instr env (fr_func f) (fn_instructions fn ! fr_pc f) ?vm1 = Next vm'"
      unfolding fetch_execute_def d Let_def prod.case by (auto split: option.splits if_splits)
    with exec_instr_kept [of ?vm1 env "fr_func f" "fn_instructions fn ! fr_pc f"] show ?thesis
      by (simp add: kept_def set_top_def)
  qed
qed

lemma vm_reach_globals_length: "vm_reach env vm vm' \<Longrightarrow> length (vm_globals vm') = length (vm_globals vm)"
  by (induction rule: vm_reach.induct) (simp_all add: vm_step_globals_length)

end
