(* ===== verification/Vm_Safe.thy ===== *)
theory Vm_Safe
  imports Vm_Loop
begin

section \<open>Well-formed modules run without an out-of-bounds access\<close>

text \<open>
  The interpreter indexes registers, locals, globals and functions with Rust's panicking
  \<open>[]\<close>. \<open>module_ok\<close> is what the compiler has to guarantee about the operands of every
  instruction; \<open>vm_ok\<close> is the invariant of the machine; the theorems of this theory show
  that every step keeps the invariant and never takes an index panic.
\<close>

named_theorems ok_simps \<open>the invariant's predicates\<close>
named_theorems ok_intros \<open>one arm of the interpreter keeps the invariant\<close>

subsection \<open>The invariant\<close>

text \<open>\<open>DerefStore\<close> indexes the globals with the slot of a reference of tag 0.\<close>

definition val_ok :: "nat \<Rightarrow> val \<Rightarrow> bool" where
  "val_ok n v = (case v of V_Ref t s \<Rightarrow> t = 0 \<longrightarrow> unat s < n | _ \<Rightarrow> True)"

abbreviation vals_ok :: "nat \<Rightarrow> val list \<Rightarrow> bool" where
  "vals_ok n \<equiv> list_all (val_ok n)"

definition reg_count :: "func \<Rightarrow> nat" where
  "reg_count fn = max (unat (fn_register_count fn)) 1"

definition instr_regs :: "instruction \<Rightarrow> reg list" where
  "instr_regs ins =
     (case ins of
        Nop \<Rightarrow> [] | LoadConst a _ \<Rightarrow> [a] | Move a b \<Rightarrow> [a, b]
      | LoadLocal a _ \<Rightarrow> [a] | StoreLocal _ a \<Rightarrow> [a] | LoadGlobal a _ \<Rightarrow> [a] | StoreGlobal _ a \<Rightarrow> [a]
      | Add a b c \<Rightarrow> [a, b, c] | Sub a b c \<Rightarrow> [a, b, c] | Mul a b c \<Rightarrow> [a, b, c]
      | Div a b c \<Rightarrow> [a, b, c] | Mod a b c \<Rightarrow> [a, b, c] | Pow a b c \<Rightarrow> [a, b, c] | Neg a b \<Rightarrow> [a, b]
      | CmpEq a b c \<Rightarrow> [a, b, c] | CmpNe a b c \<Rightarrow> [a, b, c] | CmpLt a b c \<Rightarrow> [a, b, c]
      | CmpGt a b c \<Rightarrow> [a, b, c] | CmpLe a b c \<Rightarrow> [a, b, c] | CmpGe a b c \<Rightarrow> [a, b, c]
      | And a b c \<Rightarrow> [a, b, c] | Or a b c \<Rightarrow> [a, b, c] | Xor a b c \<Rightarrow> [a, b, c] | Not a b \<Rightarrow> [a, b]
      | Sqrt a b \<Rightarrow> [a, b] | Sin a b \<Rightarrow> [a, b] | Cos a b \<Rightarrow> [a, b] | Tan a b \<Rightarrow> [a, b]
      | Asin a b \<Rightarrow> [a, b] | Acos a b \<Rightarrow> [a, b] | Atan a b \<Rightarrow> [a, b] | SystemTime a \<Rightarrow> [a]
      | Ln a b \<Rightarrow> [a, b] | Log a b \<Rightarrow> [a, b] | Exp a b \<Rightarrow> [a, b]
      | ToInt a b \<Rightarrow> [a, b] | ToReal a b \<Rightarrow> [a, b] | ToBool a b \<Rightarrow> [a, b] | ToTime a b \<Rightarrow> [a, b]
      | ToTod a b \<Rightarrow> [a, b] | DtExtractDate a b \<Rightarrow> [a, b] | DtExtractTod a b \<Rightarrow> [a, b]
      | DayOfWeek a b \<Rightarrow> [a, b]
      | StringLen a b \<Rightarrow> [a, b] | StringConcat a b c \<Rightarrow> [a, b, c] | StringLeft a b c \<Rightarrow> [a, b, c]
      | StringRight a b c \<Rightarrow> [a, b, c] | StringMid a b c d \<Rightarrow> [a, b, c, d]
      | StringFind a b c \<Rightarrow> [a, b, c] | StringInsert a b c d \<Rightarrow> [a, b, c, d]
      | StringDelete a b c d \<Rightarrow> [a, b, c, d] | StringReplace a b c d e \<Rightarrow> [a, b, c, d, e]
      | StringTrim a b \<Rightarrow> [a, b] | StringLTrim a b \<Rightarrow> [a, b] | StringRTrim a b \<Rightarrow> [a, b]
      | StringToUpper a b \<Rightarrow> [a, b] | StringToLower a b \<Rightarrow> [a, b]
      | IntToString a b \<Rightarrow> [a, b] | UIntToString a b \<Rightarrow> [a, b] | RealToString a b \<Rightarrow> [a, b]
      | BoolToString a b \<Rightarrow> [a, b] | StringToInt a b \<Rightarrow> [a, b] | StringToUInt a b \<Rightarrow> [a, b]
      | StringToReal a b \<Rightarrow> [a, b] | StringToBool a b \<Rightarrow> [a, b] | ToString a b \<Rightarrow> [a, b]
      | Jump _ \<Rightarrow> [] | JumpIf a _ \<Rightarrow> [a] | JumpIfNot a _ \<Rightarrow> [a]
      | Call _ a args \<Rightarrow> a # map snd args | CallFb _ _ args \<Rightarrow> map snd args | Ret a \<Rightarrow> [a]
      | CallMethod _ _ _ a args \<Rightarrow> a # map snd args | RetVoid \<Rightarrow> []
      | MakeRefLocal a _ \<Rightarrow> [a] | MakeRefGlobal a _ \<Rightarrow> [a] | Deref a b \<Rightarrow> [a, b]
      | DerefStore a b \<Rightarrow> [a, b] | LoadNull a \<Rightarrow> [a]
      | ExtractBit a b _ \<Rightarrow> [a, b] | InsertBit a b _ c \<Rightarrow> [a, b, c]
      | ExtractPartial a b _ _ \<Rightarrow> [a, b] | InsertPartial a b _ _ c \<Rightarrow> [a, b, c]
      | LoadArray a _ b \<Rightarrow> [a, b] | StoreArray _ a b \<Rightarrow> [a, b] | LoadField a _ _ \<Rightarrow> [a]
      | StoreField _ _ a \<Rightarrow> [a] | LoadFieldIndex a _ _ b \<Rightarrow> [a, b] | StoreFieldIndex _ _ a b \<Rightarrow> [a, b])"

definition global_count :: "ir_module \<Rightarrow> nat" where
  "global_count m = length (slots (md_globals m))"

definition is_class :: "ir_module \<Rightarrow> u16 \<Rightarrow> bool" where
  "is_class m i \<longleftrightarrow>
     unat i < length (md_functions m) \<and> fn_kind (md_functions m ! unat i) = Pou_Class"

definition operands_ok :: "ir_module \<Rightarrow> func \<Rightarrow> instruction \<Rightarrow> bool" where
  "operands_ok m fn ins =
     (case ins of
        LoadConst _ v \<Rightarrow> val_ok (global_count m) v
      | LoadLocal _ s \<Rightarrow> unat s < length (slots (fn_locals fn))
      | StoreLocal s _ \<Rightarrow> unat s < length (slots (fn_locals fn))
      | LoadGlobal _ s \<Rightarrow> unat s < global_count m
      | StoreGlobal s _ \<Rightarrow> unat s < global_count m
      | MakeRefGlobal _ s \<Rightarrow> unat s < global_count m
      | CallMethod _ c f _ _ \<Rightarrow> is_class m c \<and> unat f < length (md_functions m)
      | _ \<Rightarrow> True)"

definition instr_ok :: "ir_module \<Rightarrow> func \<Rightarrow> instruction \<Rightarrow> bool" where
  "instr_ok m fn ins \<longleftrightarrow>
     list_all (\<lambda>r. unat r < reg_count fn) (instr_regs ins) \<and> operands_ok m fn ins"

text \<open>\<open>init_class_instance\<close> has a register file of 256, whatever the class declares.\<close>

definition func_ok :: "ir_module \<Rightarrow> func \<Rightarrow> bool" where
  "func_ok m fn \<longleftrightarrow> list_all (instr_ok m fn) (fn_instructions fn) \<and>
     (fn_kind fn = Pou_Class \<longrightarrow> unat (fn_register_count fn) \<le> 256)"

definition module_ok :: "ir_module \<Rightarrow> bool" where
  "module_ok m \<longleftrightarrow> list_all (func_ok m) (md_functions m)"

definition frame_ok :: "ir_module \<Rightarrow> frame \<Rightarrow> bool" where
  "frame_ok m f \<longleftrightarrow>
     unat (fr_func f) < length (md_functions m) \<and>
     (let fn = md_functions m ! unat (fr_func f)
      in length (fr_regs f) = reg_count fn \<and> length (slots (fn_locals fn)) \<le> length (fr_locals f)) \<and>
     vals_ok (global_count m) (fr_regs f) \<and> vals_ok (global_count m) (fr_locals f) \<and>
     (case fr_return_reg f of None \<Rightarrow> True | Some r \<Rightarrow> unat r < length (fr_regs f))"

definition retained_ok :: "ir_module \<Rightarrow> u16 \<times> val list \<Rightarrow> bool" where
  "retained_ok m e = (case e of (i, ls) \<Rightarrow>
     unat i < length (md_functions m) \<and> vals_ok (global_count m) ls \<and>
     length (slots (fn_locals (md_functions m ! unat i))) \<le> length ls)"

definition fb_ok :: "ir_module \<Rightarrow> fb_key \<times> val list \<Rightarrow> bool" where
  "fb_ok m e = vals_ok (global_count m) (snd e)"

text \<open>
  A stack of 65535 frames would turn the tag of a reference to a local into 0, that of a
  global: the bound on the call depth (256 by default) excludes it.
\<close>

abbreviation max_frames :: nat where
  "max_frames \<equiv> 65535"

definition vm_ok :: "vm \<Rightarrow> bool" where
  "vm_ok vm \<longleftrightarrow>
     module_ok (vm_module vm) \<and>
     length (vm_stack vm) < max_frames \<and> max_call_depth (vm_conf vm) < max_frames \<and>
     length (vm_globals vm) = global_count (vm_module vm) \<and>
     vals_ok (global_count (vm_module vm)) (vm_globals vm) \<and>
     list_all (frame_ok (vm_module vm)) (vm_stack vm) \<and>
     list_all (retained_ok (vm_module vm)) (vm_retained vm) \<and>
     list_all (fb_ok (vm_module vm)) (vm_fb vm) \<and>
     list_all (\<lambda>e. val_ok (global_count (vm_module vm)) (snd e)) (vm_forced vm)"

text \<open>The registry's blocks do not make up references of their own.\<close>

definition env_ok :: "rt_env \<Rightarrow> nat \<Rightarrow> bool" where
  "env_ok env n \<longleftrightarrow>
     (\<forall>name run ls. env_native env name = Some run \<longrightarrow> vals_ok n ls \<longrightarrow> vals_ok n (run ls))"

primrec outcome_ok :: "ir_module \<Rightarrow> outcome \<Rightarrow> bool" where
  "outcome_ok m (Next vm) \<longleftrightarrow> vm_ok vm \<and> vm_module vm = m"
| "outcome_ok m (Done vm v) \<longleftrightarrow> vm_ok vm \<and> vm_module vm = m"
| "outcome_ok m (Fail vm e) \<longleftrightarrow> vm_ok vm \<and> vm_module vm = m"
| "outcome_ok m (Crash p) \<longleftrightarrow> p \<noteq> IndexPanic"

subsection \<open>Values\<close>

lemma val_ok_simps [simp]:
  "val_ok n (V_Bool b)" "val_ok n (V_Int i)" "val_ok n (V_UInt u)" "val_ok n (V_Real r)"
  "val_ok n (V_String str)" "val_ok n (V_Time ms)" "val_ok n V_Null" "val_ok n V_Void"
  "val_ok n (V_Ref t s) \<longleftrightarrow> (t = 0 \<longrightarrow> unat s < n)"
  by (simp_all add: val_ok_def)

lemma val_ok_default [simp]: "val_ok n default_val" "val_ok n (default_for_type ty)"
  by (simp add: default_val_def) (cases ty; simp)

lemma val_ok_narrow [simp]: "val_ok n (narrow_value v w) = val_ok n v"
  by (cases v; cases w) simp_all

lemma vals_ok_default_locals [simp]: "vals_ok n (default_locals l)"
  by (simp add: default_locals_def list_all_iff)

lemma vals_ok_replicate [simp]: "val_ok n v \<Longrightarrow> vals_ok n (replicate k v)"
  by (simp add: list_all_iff)

lemma list_all_update:
  "list_all P xs \<Longrightarrow> P x \<Longrightarrow> list_all P (xs[i := x])"
  by (auto simp: list_all_iff dest!: set_update_subset_insert [THEN subsetD])

lemma list_all_nth: "list_all P xs \<Longrightarrow> i < length xs \<Longrightarrow> P (xs ! i)"
  by (simp add: list_all_length)

lemma vals_ok_pad_to [simp]: "vals_ok n xs \<Longrightarrow> val_ok n d \<Longrightarrow> vals_ok n (pad_to k d xs)"
  by (simp add: pad_to_def)

lemma vals_ok_copy_prefix [simp]:
  "vals_ok n a \<Longrightarrow> vals_ok n b \<Longrightarrow> vals_ok n (copy_prefix k a b)"
  by (auto simp: copy_prefix_def list_all_iff dest: in_set_takeD in_set_dropD)

lemma vals_ok_take [simp]: "vals_ok n a \<Longrightarrow> vals_ok n (take k a)"
  by (auto simp: list_all_iff dest: in_set_takeD)

lemma list_all_hm_insert: "list_all P m \<Longrightarrow> P (k, v) \<Longrightarrow> list_all P (hm_insert k v m)"
  using set_hm_insert [of k v m] by (auto simp: list_all_iff)

lemma list_all_hm_get: "list_all P m \<Longrightarrow> hm_get m k = Some v \<Longrightarrow> P (k, v)"
  by (auto simp: list_all_iff dest: map_of_SomeD)

lemma vals_ok_slot_defaults [simp]: "vals_ok n (native_defaults m l)"
  by (auto simp: native_defaults_def slot_defaults_def list_all_iff split: var_type.splits)

subsection \<open>Reading and writing the running frame\<close>

abbreviation gcount :: "vm \<Rightarrow> nat" where
  "gcount vm \<equiv> global_count (vm_module vm)"

definition regs_in :: "vm \<Rightarrow> reg list \<Rightarrow> bool" where
  "regs_in vm rs \<longleftrightarrow>
     (case vm_stack vm of [] \<Rightarrow> False | f # _ \<Rightarrow> list_all (\<lambda>r. unat r < length (fr_regs f)) rs)"

lemma regs_in_Cons [simp]:
  "regs_in vm (r # r' # rs) \<longleftrightarrow> regs_in vm [r] \<and> regs_in vm (r' # rs)"
  by (auto simp: regs_in_def split: list.splits)

lemma vm_ok_stack: "vm_ok vm \<Longrightarrow> vm_stack vm = f # rest \<Longrightarrow>
    frame_ok (vm_module vm) f \<and> list_all (frame_ok (vm_module vm)) rest"
  by (simp add: vm_ok_def)

lemma vm_ok_set_stack:
  "vm_ok vm \<Longrightarrow> list_all (frame_ok (vm_module vm)) st \<Longrightarrow> length st < max_frames \<Longrightarrow>
     vm_ok (vm\<lparr>vm_stack := st\<rparr>)"
  by (simp add: vm_ok_def)

lemma vm_ok_length: "vm_ok vm \<Longrightarrow> length (vm_stack vm) < max_frames"
  and vm_ok_depth: "vm_ok vm \<Longrightarrow> max_call_depth (vm_conf vm) < max_frames"
  by (simp_all add: vm_ok_def)

lemma vm_ok_set_top:
  "vm_ok vm \<Longrightarrow> vm_stack vm = f # rest \<Longrightarrow> frame_ok (vm_module vm) f' \<Longrightarrow> vm_ok (set_top f' vm)"
  by (simp add: set_top_def vm_ok_def)

lemma vm_module_set_top [simp]: "vm_module (set_top f vm) = vm_module vm"
  by (simp add: set_top_def)

lemma vm_ok_set_fb:
  "vm_ok vm \<Longrightarrow> vals_ok (gcount vm) ls \<Longrightarrow> vm_ok (vm\<lparr>vm_fb := hm_insert k ls (vm_fb vm)\<rparr>)"
  by (simp add: vm_ok_def list_all_hm_insert fb_ok_def)

lemma vm_ok_fb_get: "vm_ok vm \<Longrightarrow> hm_get (vm_fb vm) k = Some ls \<Longrightarrow> vals_ok (gcount vm) ls"
  by (auto simp: vm_ok_def fb_ok_def dest: list_all_hm_get)

lemma vm_ok_set_globals:
  "vm_ok vm \<Longrightarrow> val_ok (gcount vm) v \<Longrightarrow> vm_ok (vm\<lparr>vm_globals := (vm_globals vm)[i := v]\<rparr>)"
  by (simp add: vm_ok_def list_all_update)

lemma vm_ok_globals_length: "vm_ok vm \<Longrightarrow> length (vm_globals vm) = gcount vm"
  by (simp add: vm_ok_def)

lemma vm_ok_global_nth: "vm_ok vm \<Longrightarrow> i < length (vm_globals vm) \<Longrightarrow> val_ok (gcount vm) (vm_globals vm ! i)"
  by (simp add: vm_ok_def list_all_nth)

lemma vm_ok_forced_get: "vm_ok vm \<Longrightarrow> hm_get (vm_forced vm) k = Some v \<Longrightarrow> val_ok (gcount vm) v"
  by (auto simp: vm_ok_def dest: list_all_hm_get)

lemma frame_ok_func_at:
  "frame_ok (vm_module vm) f \<Longrightarrow> func_at vm (fr_func f) = Res (vm_functions vm ! unat (fr_func f))"
  by (simp add: frame_ok_def func_at_def vec_get_def)

lemma reg_get_ok:
  assumes "vm_ok vm" "regs_in vm [r]"
  shows "\<exists>v. reg_get vm r = Res v \<and> val_ok (gcount vm) v"
proof -
  from assms(2) obtain f rest where f: "vm_stack vm = f # rest" "unat r < length (fr_regs f)"
    by (auto simp: regs_in_def split: list.splits)
  with vm_ok_stack [OF assms(1) f(1)] show ?thesis
    by (auto simp: reg_get_def top_frame_def vec_get_def frame_ok_def list_all_nth)
qed

lemma reg_set_ok:
  assumes "vm_ok vm" "regs_in vm [r]" "val_ok (gcount vm) v"
  shows "\<exists>vm'. reg_set r v vm = Res vm' \<and> vm_ok vm' \<and> vm_module vm' = vm_module vm"
proof -
  from assms(2) obtain f rest where f: "vm_stack vm = f # rest" "unat r < length (fr_regs f)"
    by (auto simp: regs_in_def split: list.splits)
  with vm_ok_stack [OF assms(1) f(1)] assms(3)
  have "frame_ok (vm_module vm) (f\<lparr>fr_regs := (fr_regs f)[unat r := v]\<rparr>)"
    by (auto simp: frame_ok_def list_all_update Let_def split: option.splits)
  then have "vm_ok (set_top (f\<lparr>fr_regs := (fr_regs f)[unat r := v]\<rparr>) vm)"
    by (rule vm_ok_set_top [OF assms(1) f(1)])
  with f show ?thesis by (simp add: reg_set_def top_frame_def vec_set_def)
qed

lemma with_chk_ok:
  "c \<noteq> Panic IndexPanic \<Longrightarrow> (\<And>x. c = Res x \<Longrightarrow> outcome_ok m (k x)) \<Longrightarrow> outcome_ok m (with_chk c k)"
  by (cases c) auto

lemma put_ok [ok_intros]:
  assumes "vm_ok vm" "regs_in vm [r]" "val_ok (gcount vm) v"
  shows "outcome_ok (vm_module vm) (put r v vm)"
  using reg_set_ok [OF assms] by (auto simp: put_def)

lemma with_reg_ok:
  assumes "vm_ok vm" "regs_in vm [r]"
    "\<And>v. val_ok (gcount vm) v \<Longrightarrow> outcome_ok (vm_module vm) (k v)"
  shows "outcome_ok (vm_module vm) (with_chk (reg_get vm r) k)"
  using reg_get_ok [OF assms(1,2)] assms(3) by auto

lemma reg_get_no_index [simp]:
  "vm_ok vm \<Longrightarrow> regs_in vm [r] \<Longrightarrow> reg_get vm r \<noteq> Panic IndexPanic"
  using reg_get_ok by fastforce

lemma reg_get_val_ok:
  "reg_get vm r = Res v \<Longrightarrow> vm_ok vm \<Longrightarrow> regs_in vm [r] \<Longrightarrow> val_ok (gcount vm) v"
  using reg_get_ok by fastforce

text \<open>A value computed from good values: no index panic and a good result.\<close>

definition result_ok :: "nat \<Rightarrow> val chk \<Rightarrow> bool" where
  "result_ok n c = (case c of Res v \<Rightarrow> val_ok n v | Panic p \<Rightarrow> p \<noteq> IndexPanic)"

lemma put_result_ok:
  assumes "vm_ok vm" "regs_in vm [r]" "result_ok (gcount vm) c"
  shows "outcome_ok (vm_module vm) (with_chk c (\<lambda>x. put r x vm))"
  using assms by (cases c) (auto simp: result_ok_def intro: put_ok)

lemma op1_ok [ok_intros]:
  assumes "vm_ok vm" "regs_in vm [dst, src]"
    "\<And>v. val_ok (gcount vm) v \<Longrightarrow> result_ok (gcount vm) (f v)"
  shows "outcome_ok (vm_module vm) (op1 f dst src vm)"
  using assms by (auto simp: op1_def intro!: with_reg_ok put_result_ok)

lemma op2_ok [ok_intros]:
  assumes "vm_ok vm" "regs_in vm [dst, l, r]"
    "\<And>a b. val_ok (gcount vm) a \<Longrightarrow> val_ok (gcount vm) b \<Longrightarrow> result_ok (gcount vm) (f a b)"
  shows "outcome_ok (vm_module vm) (op2 f dst l r vm)"
  using assms by (auto simp: op2_def intro!: with_reg_ok put_result_ok)

lemma op3_ok [ok_intros]:
  assumes "vm_ok vm" "regs_in vm [dst, a, b, c]"
    "\<And>x y z. val_ok (gcount vm) x \<Longrightarrow> val_ok (gcount vm) y \<Longrightarrow> val_ok (gcount vm) z
       \<Longrightarrow> result_ok (gcount vm) (f x y z)"
  shows "outcome_ok (vm_module vm) (op3 f dst a b c vm)"
  using assms by (auto simp: op3_def intro!: with_reg_ok put_result_ok)

subsection \<open>Results of the value operations\<close>

lemma result_ok_Res [simp]: "result_ok n (Res v) = val_ok n v"
  and result_ok_Panic [simp]: "result_ok n (Panic p) \<longleftrightarrow> p \<noteq> IndexPanic"
  by (simp_all add: result_ok_def)

lemma result_ok_bind:
  "c \<noteq> Panic IndexPanic \<Longrightarrow> (\<And>x. c = Res x \<Longrightarrow> result_ok n (g x)) \<Longrightarrow> result_ok n (chk_bind c g)"
  by (cases c) auto

lemma i64_result_no_index [simp]: "i64_result c i \<noteq> Panic IndexPanic"
  by (simp add: i64_result_def)

lemma i64_div_no_index [simp]: "i64_div a b \<noteq> Panic IndexPanic" "i64_rem a b \<noteq> Panic IndexPanic"
  by (simp_all add: i64_div_def i64_rem_def)

lemma shift_amount_no_index [simp]: "shift_amount c n \<noteq> Panic IndexPanic"
  by (simp add: shift_amount_def)

lemma usize_result_no_index [simp]: "usize_result c n \<noteq> Panic IndexPanic"
  by (simp add: usize_result_def)

lemma partial_mask_no_index [simp]: "partial_mask c n \<noteq> Panic IndexPanic"
  by (simp add: partial_mask_def)

lemma arith_op_ok:
  "(\<And>a b. int_op a b \<noteq> Panic IndexPanic) \<Longrightarrow> result_ok n (arith_op int_op real_op l r)"
  by (auto simp: arith_op_def intro!: result_ok_bind)

lemma val_arith_ok [simp]: "result_ok n (val_add l r)" "result_ok n (val_sub l r)"
  "result_ok n (val_mul l r)" "result_ok n (val_div l r)"
  by (auto simp: val_add_def val_sub_def val_mul_def val_div_def wrapping_add_def
      wrapping_sub_def wrapping_mul_def intro!: arith_op_ok)

lemma val_neg_ok [simp]: "result_ok n (val_neg c v)"
  by (cases v) (auto intro!: result_ok_bind)

lemma string_ops_no_index [simp]: "string_left s i \<noteq> Panic IndexPanic"
  "string_right s i \<noteq> Panic IndexPanic" "string_mid s i j \<noteq> Panic IndexPanic"
  "string_insert s t i \<noteq> Panic IndexPanic" "string_delete s i j \<noteq> Panic IndexPanic"
  "string_replace s t i j \<noteq> Panic IndexPanic"
  by (simp_all add: string_left_def string_right_def string_mid_def string_insert_def
      string_delete_def string_replace_def Let_def)

lemma string_chk_ok [simp]: "c \<noteq> Panic IndexPanic \<Longrightarrow> result_ok n (string_chk c)"
  by (auto simp: string_chk_def intro!: result_ok_bind)

lemma dt_extract_date_no_index [simp]: "dt_extract_date c t \<noteq> Panic IndexPanic"
  by (simp add: dt_extract_date_def)

lemma bit_ops_no_index [simp]: "extract_bit c v i \<noteq> Panic IndexPanic"
  "insert_bit c v i b \<noteq> Panic IndexPanic" "extract_partial c v i k \<noteq> Panic IndexPanic"
  "insert_partial c v i k w \<noteq> Panic IndexPanic"
  by (simp_all add: extract_bit_def insert_bit_def extract_partial_def insert_partial_def)

subsection \<open>Variables\<close>

lemma regs_in_member: "regs_in vm rs \<Longrightarrow> r \<in> set rs \<Longrightarrow> regs_in vm [r]"
  by (auto simp: regs_in_def list_all_iff split: list.splits)

lemma regs_in_args: "regs_in vm (r # rs) \<Longrightarrow> rs \<noteq> [] \<Longrightarrow> regs_in vm rs"
  by (auto simp: regs_in_def list_all_iff split: list.splits)

lemma regs_in_cong: "vm_stack vm' = vm_stack vm \<Longrightarrow> regs_in vm' rs = regs_in vm rs"
  by (simp add: regs_in_def)

lemma forced_value_ok:
  "vm_ok vm \<Longrightarrow> forced_value vm ss slot = Some v \<Longrightarrow> val_ok (gcount vm) v"
  by (auto simp: forced_value_def vm_ok_forced_get split: option.splits)

lemma local_get_ok:
  assumes "vm_ok vm" "vm_stack vm = f # rest"
    "unat slot < length (slots (fn_locals (vm_functions vm ! unat (fr_func f))))"
  shows "\<exists>v. local_get vm slot = Res v \<and> val_ok (gcount vm) v"
proof -
  have "unat slot < length (fr_locals f)" "vals_ok (gcount vm) (fr_locals f)"
    using vm_ok_stack [OF assms(1,2)] assms(3) by (auto simp: frame_ok_def Let_def)
  with assms(2) show ?thesis by (simp add: local_get_def top_frame_def list_all_nth)
qed

lemma local_set_ok:
  assumes "vm_ok vm" "vm_stack vm = f # rest" "val_ok (gcount vm) v"
    "unat slot < length (slots (fn_locals (vm_functions vm ! unat (fr_func f))))"
  shows "\<exists>vm'. local_set slot v vm = Res vm' \<and> vm_ok vm' \<and> vm_module vm' = vm_module vm"
proof -
  note ok = vm_ok_stack [OF assms(1,2)]
  let ?x = "narrow_value v (slot_width (fn_locals (vm_functions vm ! unat (fr_func f))) (unat slot))"
  have "frame_ok (vm_module vm) (f\<lparr>fr_locals := (fr_locals f)[unat slot := ?x]\<rparr>)"
    using ok assms(3) by (auto simp: frame_ok_def Let_def list_all_update split: option.splits)
  then have "vm_ok (set_top (f\<lparr>fr_locals := (fr_locals f)[unat slot := ?x]\<rparr>) vm)"
    by (rule vm_ok_set_top [OF assms(1,2)])
  moreover have "unat slot < length (fr_locals f)" "unat (fr_func f) < length (vm_functions vm)"
    using ok assms(4) by (auto simp: frame_ok_def Let_def)
  ultimately show ?thesis
    using assms(2) by (simp add: local_set_def top_frame_def func_at_def panic_simps)
qed

lemma exec_LoadLocal_ok [ok_intros]:
  assumes "vm_ok vm" "vm_stack vm = f # rest" "regs_in vm [dst]"
    "unat slot < length (slots (fn_locals (vm_functions vm ! unat (fr_func f))))"
  shows "outcome_ok (vm_module vm) (exec_LoadLocal (fr_func f) dst slot vm)"
  using local_get_ok [OF assms(1,2,4)] frame_ok_func_at vm_ok_stack [OF assms(1,2)]
  by (auto simp: exec_LoadLocal_def assms forced_value_ok intro!: put_ok split: option.split)

lemma exec_StoreLocal_ok [ok_intros]:
  assumes "vm_ok vm" "vm_stack vm = f # rest" "regs_in vm [src]"
    "unat slot < length (slots (fn_locals (vm_functions vm ! unat (fr_func f))))"
  shows "outcome_ok (vm_module vm) (exec_StoreLocal slot src vm)"
  unfolding exec_StoreLocal_def
  using local_set_ok [OF assms(1,2) _ assms(4)] by (fastforce intro!: with_reg_ok assms)

lemma exec_LoadGlobal_ok [ok_intros]:
  assumes "vm_ok vm" "regs_in vm [dst]" "unat slot < gcount vm"
  shows "outcome_ok (vm_module vm) (exec_LoadGlobal dst slot vm)"
  using assms by (auto simp: exec_LoadGlobal_def forced_value_ok vec_get_in vm_ok_globals_length
      vm_ok_global_nth intro!: put_ok split: option.split)

lemma exec_StoreGlobal_ok [ok_intros]:
  assumes "vm_ok vm" "regs_in vm [src]" "unat slot < gcount vm"
  shows "outcome_ok (vm_module vm) (exec_StoreGlobal slot src vm)"
  unfolding exec_StoreGlobal_def
  using assms by (auto simp: vec_set_in vm_ok_globals_length vm_ok_set_globals intro!: with_reg_ok)

subsection \<open>Division and jumps\<close>

lemma exec_Div_ok [ok_intros]:
  assumes "vm_ok vm" "regs_in vm [dst, l, r]"
  shows "outcome_ok (vm_module vm) (exec_Div dst l r vm)"
  unfolding exec_Div_def using assms by (auto intro!: with_reg_ok op2_ok)

lemma exec_Mod_ok [ok_intros]:
  assumes "vm_ok vm" "regs_in vm [dst, l, r]"
  shows "outcome_ok (vm_module vm) (exec_Mod dst l r vm)"
  unfolding exec_Mod_def using assms by (auto intro!: with_reg_ok op2_ok result_ok_bind)

lemma frame_ok_pc: "frame_ok m (f\<lparr>fr_pc := i\<rparr>) = frame_ok m f"
  by (simp add: frame_ok_def split: option.split)

lemma frame_ok_return_reg:
  "frame_ok m f \<Longrightarrow> unat r < length (fr_regs f) \<Longrightarrow> frame_ok m (f\<lparr>fr_return_reg := Some r\<rparr>)"
  "frame_ok m f \<Longrightarrow> frame_ok m (f\<lparr>fr_return_reg := None\<rparr>)"
  by (simp_all add: frame_ok_def split: option.split)

lemma jump_to_ok [ok_intros]:
  assumes "vm_ok vm" "vm_stack vm = f # rest"
  shows "outcome_ok (vm_module vm) (jump_to lbl vm)"
  using vm_ok_stack [OF assms] assms vm_ok_set_top [OF assms]
  by (simp add: jump_to_def top_frame_def frame_ok_func_at frame_ok_pc split: option.split)

lemma exec_JumpIf_ok [ok_intros]:
  assumes "vm_ok vm" "vm_stack vm = f # rest" "regs_in vm [r]"
  shows "outcome_ok (vm_module vm) (exec_JumpIf sense r lbl vm)"
  unfolding exec_JumpIf_def using assms by (auto intro!: with_reg_ok jump_to_ok)

subsection \<open>Calls\<close>

lemma fresh_frame_ok:
  assumes "unat fi < length (md_functions m)" "vals_ok (global_count m) ls"
    "length (slots (fn_locals (md_functions m ! unat fi))) \<le> length ls"
  shows "frame_ok m (fresh_frame fi (md_functions m ! unat fi) ls pc inst)"
  using assms by (simp add: frame_ok_def fresh_frame_def reg_count_def Let_def)

lemma pass_args_ok:
  "vm_ok vm \<Longrightarrow> \<forall>a\<in>set args. regs_in vm [snd a] \<Longrightarrow> vals_ok (gcount vm) ls \<Longrightarrow>
     \<exists>ls'. pass_args vm args ls = Res ls' \<and> length ls' = length ls \<and> vals_ok (gcount vm) ls'"
proof (induction args arbitrary: ls)
  case Nil
  then show ?case by simp
next
  case (Cons a args)
  obtain slot r where a: "a = (slot, r)" by (cases a)
  with Cons.prems obtain v where v: "reg_get vm r = Res v" "val_ok (gcount vm) v"
    using reg_get_ok [of vm r] by auto
  let ?ls = "if slot < length ls then ls[slot := v] else ls"
  have "vals_ok (gcount vm) ?ls" "length ?ls = length ls"
    using Cons.prems v by (auto simp: list_all_update)
  with Cons.IH [of ?ls] Cons.prems a v show ?case by auto
qed

lemma pass_slot_args_ok:
  "vm_ok vm \<Longrightarrow> \<forall>r\<in>snd ` set args. regs_in vm [r] \<Longrightarrow> vals_ok (gcount vm) ls \<Longrightarrow>
     \<exists>ls'. pass_args vm (slot_args args) ls = Res ls' \<and> length ls' = length ls \<and>
       vals_ok (gcount vm) ls'"
  by (rule pass_args_ok) (auto simp: slot_args_def)

lemma vec_at_functions:
  "vec_at (vm_functions vm) (unat fi) = Some fn \<longleftrightarrow>
     unat fi < length (vm_functions vm) \<and> fn = vm_functions vm ! unat fi"
  by simp

lemma call_function_ok [ok_intros]:
  assumes "vm_ok vm" "vm_stack vm = f # rest" "regs_in vm [dst]"
    "\<forall>r\<in>snd ` set args. regs_in vm [r]"
  shows "outcome_ok (vm_module vm) (call_function fi (Some dst) args vm)"
proof (cases "vec_at (vm_functions vm) (unat fi)")
  case None
  with assms(1) show ?thesis by (simp add: call_function_def del: vec_at_None_iff vec_at_Some_iff)
next
  case (Some fn)
  then have fn: "unat fi < length (vm_functions vm)" "fn = vm_functions vm ! unat fi" by auto
  obtain ls where ls: "pass_args vm (slot_args args) (default_locals (fn_locals fn)) = Res ls"
    "length ls = length (slots (fn_locals fn))" "vals_ok (gcount vm) ls"
    using pass_slot_args_ok [OF assms(1,4), of "default_locals (fn_locals fn)"] by auto
  have "frame_ok (vm_module vm) (f\<lparr>fr_return_reg := Some dst\<rparr>)"
    using vm_ok_stack [OF assms(1,2)] assms(2,3)
    by (auto simp: regs_in_def intro!: frame_ok_return_reg)
  moreover have "frame_ok (vm_module vm) (fresh_frame fi fn ls 0 None)"
    using fn ls by (auto intro: fresh_frame_ok)
  ultimately have "vm_ok (vm\<lparr>vm_stack := fresh_frame fi fn ls 0 None
      # f\<lparr>fr_return_reg := Some dst\<rparr> # rest\<rparr>)" if "length (vm_stack vm) < max_call_depth (vm_conf vm)"
    using vm_ok_stack [OF assms(1,2)] vm_ok_depth [OF assms(1)] that assms(2)
    by (intro vm_ok_set_stack assms(1)) simp_all
  with Some ls assms(1,2) show ?thesis
    by (simp add: call_function_def del: vec_at_None_iff vec_at_Some_iff)
qed

lemma fold_list_all:
  "(\<And>x acc. x \<in> set xs \<Longrightarrow> list_all P acc \<Longrightarrow> list_all P (g x acc)) \<Longrightarrow> list_all P a \<Longrightarrow>
     list_all P (fold g xs a)"
  by (induction xs arbitrary: a) auto

lemma reapply_forced_ok:
  assumes "vm_ok vm" "vals_ok (gcount vm) ls"
  shows "\<exists>ls'. reapply_forced vm inst fb ls = Res ls' \<and> vals_ok (gcount vm) ls'"
proof (cases "vm_stack vm")
  case Nil
  with assms show ?thesis by (simp add: reapply_forced_def)
next
  case (Cons f rest)
  with vm_ok_stack [OF assms(1)] frame_ok_func_at assms show ?thesis
    by (auto simp: reapply_forced_def Let_def vm_ok_forced_get list_all_update intro!: fold_list_all
        split: option.split)
qed

lemma call_fb_start_ok:
  assumes "vm_ok vm"
  shows "vals_ok (gcount vm)
    (case hm_get (vm_fb vm) key of Some st \<Rightarrow> st
     | None \<Rightarrow> if native then native_defaults m l else default_locals l')"
  using assms by (auto simp: vm_ok_fb_get split: option.split)

lemma call_fb_ok [ok_intros]:
  assumes "vm_ok vm" "env_ok env (gcount vm)" "\<forall>r\<in>snd ` set args. regs_in vm [r]"
  shows "outcome_ok (vm_module vm) (call_fb env fi inst args vm)"
proof (cases "vec_at (vm_functions vm) (unat fi)")
  case None
  with assms(1) show ?thesis by (simp add: call_fb_def del: vec_at_None_iff vec_at_Some_iff)
next
  case (Some fn)
  then have fn: "unat fi < length (vm_functions vm)" "fn = vm_functions vm ! unat fi" by auto
  define start where "start = pad_to (length (slots (fn_locals fn))) default_val
    (case hm_get (vm_fb vm) (caller_identity vm, inst) of Some st \<Rightarrow> st
     | None \<Rightarrow> if fi \<in> set (md_native_fb_indices (vm_module vm))
              then native_defaults (vm_module vm) (fn_locals fn) else default_locals (fn_locals fn))"
  have "vals_ok (gcount vm) start"
    unfolding start_def by (intro vals_ok_pad_to call_fb_start_ok assms(1)) simp
  then obtain ls where ls: "pass_args vm (slot_args args) start = Res ls"
    "length ls = length start" "vals_ok (gcount vm) ls"
    using pass_slot_args_ok [OF assms(1,3)] by blast
  then have "frame_ok (vm_module vm) (fresh_frame fi fn ls (fn_body_start_pc fn) (Some inst))"
    using fn by (auto intro!: fresh_frame_ok simp: start_def)
  then have interpreted: "vm_ok (vm\<lparr>vm_stack :=
      fresh_frame fi fn ls (fn_body_start_pc fn) (Some inst) # vm_stack vm\<rparr>)"
    if "length (vm_stack vm) < max_call_depth (vm_conf vm)"
    using assms(1) that by (intro vm_ok_set_stack) (auto simp: vm_ok_def)
  let ?ls1 = "case env_native env (fn_name fn) of None \<Rightarrow> ls | Some run \<Rightarrow> run ls"
  have "vals_ok (gcount vm) ?ls1"
    using ls(3) assms(2) by (auto simp: env_ok_def split: option.split)
  with reapply_forced_ok [OF assms(1)] obtain ls2 where
    "reapply_forced vm inst fn ?ls1 = Res ls2" "vals_ok (gcount vm) ls2" by blast
  with Some ls(1) interpreted assms(1) show ?thesis
    by (simp add: call_fb_def start_def [symmetric] Let_def vm_ok_set_fb
        del: vec_at_None_iff vec_at_Some_iff)
qed

subsection \<open>Class instances\<close>

lemma find_method_class_var_count_ok:
  "unat mi < length (vm_functions vm) \<Longrightarrow> unat ci < length (vm_functions vm) \<Longrightarrow>
     \<exists>n. find_method_class_var_count vm mi ci = Res n"
  by (auto simp: find_method_class_var_count_def func_at_def panic_simps split: option.split)

lemma run_class_init_ok:
  assumes "list_all (instr_ok m fn) inss" "reg_count fn \<le> length regs"
    "vals_ok (global_count m) regs" "vals_ok (global_count m) ls"
  shows "\<exists>ls'. run_class_init n inss regs ls = Res ls' \<and> vals_ok (global_count m) ls'"
  using assms
proof (induction inss arbitrary: regs ls)
  case Nil
  then show ?case by simp
next
  case (Cons ins inss)
  have step: "\<exists>ls'. run_class_init n inss rs l = Res ls' \<and> vals_ok (global_count m) ls'"
    if "vals_ok (global_count m) rs" "vals_ok (global_count m) l" "length rs = length regs" for rs l
    using Cons.IH [of rs l] Cons.prems that by simp
  show ?case
  proof (cases ins)
    case (LoadConst dst v)
    then have "unat dst < length regs" "val_ok (global_count m) v"
      using Cons.prems by (auto simp: instr_ok_def instr_regs_def operands_ok_def)
    with LoadConst step Cons.prems show ?thesis by (simp add: panic_simps list_all_update)
  next
    case (StoreLocal slot src)
    then have "unat src < length regs"
      using Cons.prems by (auto simp: instr_ok_def instr_regs_def)
    with StoreLocal step Cons.prems show ?thesis
      by (simp add: panic_simps list_all_update list_all_nth)
  qed (use step Cons.prems in simp_all)
qed

lemma init_class_instance_ok:
  assumes "vm_ok vm" "is_class (vm_module vm) cls" "vals_ok (gcount vm) ls"
  shows "\<exists>ls'. init_class_instance vm cls n ls = Res ls' \<and> vals_ok (gcount vm) ls'"
proof -
  let ?fn = "vm_functions vm ! unat cls"
  have "unat cls < length (vm_functions vm)" and k: "fn_kind ?fn = Pou_Class"
    using assms(2) by (auto simp: is_class_def)
  then have at: "func_at vm cls = Res ?fn" and "func_ok (vm_module vm) ?fn"
    using assms(1) by (auto simp: func_at_def panic_simps vm_ok_def module_ok_def list_all_nth)
  then have "list_all (instr_ok (vm_module vm) ?fn) (fn_instructions ?fn)" "reg_count ?fn \<le> 256"
    using k by (auto simp: func_ok_def reg_count_def)
  from run_class_init_ok [OF this(1), of "replicate 256 default_val" ls n] this(2) assms(3) at
  show ?thesis by (simp add: init_class_instance_def)
qed

lemma method_args_ok:
  "method_args c n args \<noteq> Panic IndexPanic \<and>
     (\<forall>as. method_args c n args = Res as \<longrightarrow> map snd as = map snd args)"
  by (induction c n args rule: method_args.induct) auto

lemma vals_ok_copy_prefix_take:
  "vals_ok n a \<Longrightarrow> vals_ok n (take k b) \<Longrightarrow> vals_ok n b \<Longrightarrow> vals_ok n (copy_prefix k a b)"
  by simp

definition method_start ::
  "vm \<Rightarrow> fb_key \<Rightarrow> u16 \<Rightarrow> nat \<Rightarrow> func \<Rightarrow> val list \<Rightarrow> (val list \<times> vm) chk" where
  "method_start vm key cls n cf defaults =
     (case hm_get (vm_fb vm) key of
        Some saved \<Rightarrow>
          Res (copy_prefix (min (min n (length saved)) (length defaults)) saved defaults, vm)
      | None \<Rightarrow>
          chk_bind (init_class_instance vm cls (length (slots (fn_locals cf)))
              (replicate (length (slots (fn_locals cf))) default_val)) (\<lambda>st.
          Res (copy_prefix (min (min n (length st)) (length defaults)) st defaults,
               vm\<lparr>vm_fb := hm_insert key st (vm_fb vm)\<rparr>)))"

lemma method_start_ok:
  assumes "vm_ok vm" "is_class (vm_module vm) cls" "vals_ok (gcount vm) defaults"
  shows "\<exists>ls vm1. method_start vm key cls n cf defaults = Res (ls, vm1) \<and>
    length ls = length defaults \<and> vals_ok (gcount vm) ls \<and> vm_ok vm1 \<and>
    vm_module vm1 = vm_module vm \<and> vm_stack vm1 = vm_stack vm \<and> vm_conf vm1 = vm_conf vm"
proof (cases "hm_get (vm_fb vm) key")
  case None
  obtain st where "init_class_instance vm cls (length (slots (fn_locals cf)))
      (replicate (length (slots (fn_locals cf))) default_val) = Res st" "vals_ok (gcount vm) st"
    using init_class_instance_ok [OF assms(1,2)] vals_ok_replicate val_ok_default(1) by blast
  with None assms show ?thesis by (simp add: method_start_def vm_ok_set_fb)
next
  case (Some saved)
  with assms show ?thesis by (simp add: method_start_def vm_ok_fb_get)
qed

lemma exec_CallMethod_ok [ok_intros]:
  assumes "vm_ok vm" "vm_stack vm = f # rest" "regs_in vm [dst]"
    "\<forall>r\<in>snd ` set args. regs_in vm [r]"
    "is_class (vm_module vm) cls" "unat fi < length (vm_functions vm)"
  shows "outcome_ok (vm_module vm) (exec_CallMethod env inst cls fi dst args vm)"
proof -
  let ?mf = "vm_functions vm ! unat fi" and ?cf = "vm_functions vm ! unat cls"
  let ?key = "(caller_identity vm, inst)" and ?d = "default_locals (fn_locals (vm_functions vm ! unat fi))"
  have at: "func_at vm fi = Res ?mf" "func_at vm cls = Res ?cf"
    using assms(5,6) by (auto simp: func_at_def panic_simps is_class_def)
  obtain n where n: "find_method_class_var_count vm fi cls = Res n"
    using find_method_class_var_count_ok assms(5,6) by (metis is_class_def)
  obtain ls vm1 where s: "method_start vm ?key cls n ?cf ?d = Res (ls, vm1)"
    "length ls = length ?d" "vals_ok (gcount vm) ls" "vm_ok vm1"
    "vm_module vm1 = vm_module vm" "vm_stack vm1 = vm_stack vm" "vm_conf vm1 = vm_conf vm"
    using method_start_ok [OF assms(1,5), of ?d ?key n ?cf] by auto
  have args: "\<exists>ls1. pass_args vm1 as ls = Res ls1 \<and> length ls1 = length ls \<and> vals_ok (gcount vm) ls1"
    if "method_args (env_checks env) n args = Res as" for as
  proof -
    have "snd ` set as = snd ` set args" using that method_args_ok by (metis image_set)
    then have "\<forall>a\<in>set as. regs_in vm1 [snd a]"
      using assms(4) regs_in_cong [OF s(6)] by (metis image_eqI)
    from pass_args_ok [OF s(4) this] s(3,5) show ?thesis by simp
  qed
  have "frame_ok (vm_module vm) (f\<lparr>fr_return_reg := Some dst\<rparr>)"
    using vm_ok_stack [OF assms(1,2)] assms(2,3)
    by (auto simp: regs_in_def intro!: frame_ok_return_reg)
  then have pushed: "vm_ok (vm1\<lparr>vm_stack := fresh_frame fi ?mf l 0 (Some inst)
      # f\<lparr>fr_return_reg := Some dst\<rparr> # rest\<rparr>)" if "length l = length ls" "vals_ok (gcount vm) l"
      "length (vm_stack vm) < max_call_depth (vm_conf vm)" for l
    using vm_ok_stack [OF assms(1,2)] that s assms(2,6) vm_ok_depth [OF assms(1)]
    by (intro vm_ok_set_stack s(4)) (auto intro!: fresh_frame_ok)
  show ?thesis
    using args pushed s assms(2) method_args_ok [of "env_checks env" n args]
    by (auto simp: exec_CallMethod_def at n Let_def method_start_def [symmetric] top_frame_def
        intro!: with_chk_ok)
qed

subsection \<open>Returns\<close>

lemma frame_ok_retained:
  "frame_ok m f \<Longrightarrow> retained_ok m (fr_func f, fr_locals f)"
  by (simp add: frame_ok_def retained_ok_def Let_def)

lemma vm_ok_set_retained:
  "vm_ok vm \<Longrightarrow> retained_ok (vm_module vm) (i, ls) \<Longrightarrow>
     vm_ok (vm\<lparr>vm_retained := hm_insert i ls (vm_retained vm)\<rparr>)"
  by (simp add: vm_ok_def list_all_hm_insert)

definition same_shape :: "vm \<Rightarrow> vm \<Rightarrow> bool" where
  "same_shape vm vm' \<longleftrightarrow>
     vm_module vm' = vm_module vm \<and> vm_stack vm' = vm_stack vm \<and> vm_conf vm' = vm_conf vm"

lemma save_retained_locals_ok:
  assumes "vm_ok vm"
  shows "\<exists>vm'. save_retained_locals vm = Res vm' \<and> vm_ok vm' \<and> same_shape vm vm'"
proof (cases "vm_stack vm")
  case Nil
  with assms show ?thesis by (simp add: save_retained_locals_def same_shape_def)
next
  case (Cons f rest)
  note f = vm_ok_stack [OF assms Cons, THEN conjunct1]
  let ?fn = "vm_functions vm ! unat (fr_func f)"
  have fi: "unat (fr_func f) < length (vm_functions vm)" "vals_ok (gcount vm) (fr_locals f)"
    using f by (auto simp: frame_ok_def)
  then obtain n where n: "find_method_class_var_count vm (fr_func f) 0 = Res n"
    using find_method_class_var_count_ok [of "fr_func f" vm 0] by force
  note upd = vm_ok_set_fb [OF assms] vm_ok_set_retained [OF assms frame_ok_retained [OF f]]
    vm_ok_fb_get [OF assms]
  show ?thesis
    using n fi upd assms
    by (cases "fn_kind ?fn"; cases "fr_instance f")
      (auto simp: save_retained_locals_def Cons frame_ok_func_at [OF f] same_shape_def Let_def
        split: option.split)
qed

lemma deliver_ok:
  assumes "vm_ok vm" "val_ok (gcount vm) v"
  shows "\<exists>vm'. deliver v vm = Res vm' \<and> vm_ok vm' \<and> vm_module vm' = vm_module vm"
proof (cases "vm_stack vm")
  case Nil
  with assms show ?thesis by (simp add: deliver_def)
next
  case (Cons c rest)
  note c = vm_ok_stack [OF assms(1) Cons]
  show ?thesis
  proof (cases "fr_return_reg c")
    case None
    with Cons assms show ?thesis by (simp add: deliver_def)
  next
    case (Some r)
    with c have "unat r < length (fr_regs c)" by (simp add: frame_ok_def)
    moreover have "frame_ok (vm_module vm)
        (c\<lparr>fr_regs := (fr_regs c)[unat r := v], fr_return_reg := None\<rparr>)"
      using c assms(2) by (auto simp: frame_ok_def Let_def list_all_update)
    then have "vm_ok (vm\<lparr>vm_stack :=
        c\<lparr>fr_regs := (fr_regs c)[unat r := v], fr_return_reg := None\<rparr> # rest\<rparr>)"
      using c Cons vm_ok_length [OF assms(1)] by (intro vm_ok_set_stack assms(1)) simp_all
    ultimately show ?thesis by (simp add: deliver_def Cons Some panic_simps)
  qed
qed

lemma pop_frame_ok: "vm_ok vm \<Longrightarrow> vm_ok (pop_frame vm) \<and> vm_module (pop_frame vm) = vm_module vm"
  by (cases "vm_stack vm") (auto simp: pop_frame_def vm_ok_def)

lemma implicit_return_ok:
  assumes "vm_ok vm"
  shows "outcome_ok (vm_module vm) (implicit_return vm)"
proof -
  obtain vm1 where 1: "save_retained_locals vm = Res vm1" "vm_ok vm1" "vm_module vm1 = vm_module vm"
    using save_retained_locals_ok [OF assms] by (auto simp: same_shape_def)
  with deliver_ok [of "pop_frame vm1" V_Void] pop_frame_ok [of vm1] show ?thesis
    by (auto simp: implicit_return_def)
qed

lemma exec_Ret_ok [ok_intros]:
  assumes "vm_ok vm" "regs_in vm [r]"
  shows "outcome_ok (vm_module vm) (exec_Ret r vm)"
  unfolding exec_Ret_def
proof (rule with_reg_ok [OF assms])
  fix v assume v: "val_ok (gcount vm) v"
  obtain vm1 where 1: "save_retained_locals vm = Res vm1" "vm_ok vm1" "vm_module vm1 = vm_module vm"
    using save_retained_locals_ok [OF assms(1)] by (auto simp: same_shape_def)
  with deliver_ok [of "pop_frame vm1" v] pop_frame_ok [of vm1] v
  show "outcome_ok (vm_module vm) (with_chk (save_retained_locals vm) (\<lambda>vm1.
      with_chk (deliver v (pop_frame vm1)) (\<lambda>vm2.
      if vm_stack vm2 = [] then Done vm2 v else Next vm2)))" by auto
qed

lemma exec_RetVoid_ok [ok_intros]:
  assumes "vm_ok vm"
  shows "outcome_ok (vm_module vm) (exec_RetVoid vm)"
proof -
  obtain vm1 where 1: "save_retained_locals vm = Res vm1" "vm_ok vm1" "vm_module vm1 = vm_module vm"
    using save_retained_locals_ok [OF assms] by (auto simp: same_shape_def)
  note p = pop_frame_ok [OF 1(2)]
  show ?thesis
  proof (cases "vm_stack (pop_frame vm1)")
    case Nil
    with 1 p show ?thesis by (simp add: exec_RetVoid_def)
  next
    case (Cons c rest)
    with vm_ok_stack [of "pop_frame vm1"] vm_ok_length [of "pop_frame vm1"] p 1
    have "vm_ok (vm1\<lparr>vm_stack := c\<lparr>fr_return_reg := None\<rparr> # rest\<rparr>)"
      by (intro vm_ok_set_stack) (auto intro: frame_ok_return_reg)
    with 1 Cons show ?thesis by (simp add: exec_RetVoid_def)
  qed
qed

subsection \<open>Arrays, fields and pointers\<close>

lemma stored_at_ok: "vm_ok vm \<Longrightarrow> val_ok (gcount vm) (stored_at vm key i)"
  by (auto simp: stored_at_def dest!: vm_ok_fb_get split: option.split intro: list_all_nth)

lemma dim_size_no_index [simp]: "dim_size c d \<noteq> Panic IndexPanic"
  by (auto simp: dim_size_def i64_sub_def split: prod.split)

lemma dims_total_no_index [simp]: "dims_total c ds acc \<noteq> Panic IndexPanic"
  by (induction c ds acc rule: dims_total.induct) auto

lemma array_total_no_index [simp]: "array_total c vm fn slot \<noteq> Panic IndexPanic"
  by (auto simp: array_total_def split: option.split)

lemma i64_sub_no_index [simp]: "i64_sub c a b \<noteq> Panic IndexPanic"
  by (simp add: i64_sub_def)

lemma with_top_func_ok:
  assumes "vm_ok vm" "vm_stack vm = f # rest"
    "outcome_ok m (k f (vm_functions vm ! unat (fr_func f)))"
  shows "outcome_ok m (with_chk (top_frame vm) (\<lambda>f. with_chk (func_at vm (fr_func f)) (k f)))"
  using assms vm_ok_stack [OF assms(1,2)] by (simp add: top_frame_def frame_ok_func_at)

lemma exec_LoadArray_ok [ok_intros]:
  assumes "vm_ok vm" "vm_stack vm = f # rest" "regs_in vm [dst, idx]"
  shows "outcome_ok (vm_module vm) (exec_LoadArray env dst slot idx vm)"
  unfolding exec_LoadArray_def
  by (rule with_reg_ok [OF assms(1)], use assms in simp, rule with_top_func_ok [OF assms(1,2)])
    (use assms in \<open>auto intro!: with_chk_ok put_ok stored_at_ok\<close>)

lemma exec_StoreArray_ok [ok_intros]:
  assumes "vm_ok vm" "vm_stack vm = f # rest" "regs_in vm [idx, src]"
  shows "outcome_ok (vm_module vm) (exec_StoreArray env slot idx src vm)"
  unfolding exec_StoreArray_def
  apply (rule with_reg_ok [OF assms(1)], use assms in simp)
  apply (rule with_reg_ok [OF assms(1)], use assms in simp)
  apply (rule with_top_func_ok [OF assms(1,2)])
  using assms by (auto simp: Let_def vm_ok_fb_get list_all_update
      intro!: with_chk_ok vm_ok_set_fb split: option.split)

lemma exec_LoadField_ok [ok_intros]:
  "vm_ok vm \<Longrightarrow> regs_in vm [dst] \<Longrightarrow> outcome_ok (vm_module vm) (exec_LoadField dst inst fld vm)"
  by (simp add: exec_LoadField_def put_ok stored_at_ok)

lemma store_in_instance_ok:
  "vm_ok vm \<Longrightarrow> val_ok (gcount vm) v \<Longrightarrow>
     vm_ok (store_in_instance vm key i v) \<and> vm_module (store_in_instance vm key i v) = vm_module vm"
  by (auto simp: store_in_instance_def Let_def vm_ok_fb_get simp del: replicate_Suc
      intro!: vm_ok_set_fb list_all_update vals_ok_pad_to vals_ok_replicate split: option.split)

lemma exec_StoreField_ok [ok_intros]:
  "vm_ok vm \<Longrightarrow> regs_in vm [src] \<Longrightarrow> outcome_ok (vm_module vm) (exec_StoreField inst fld src vm)"
  by (auto simp: exec_StoreField_def store_in_instance_ok intro!: with_reg_ok)

lemma field_index_no_index [simp]: "field_index c b i \<noteq> Panic IndexPanic"
  by (simp add: field_index_def)

lemma exec_LoadFieldIndex_ok [ok_intros]:
  "vm_ok vm \<Longrightarrow> regs_in vm [dst, idx] \<Longrightarrow>
     outcome_ok (vm_module vm) (exec_LoadFieldIndex env dst inst base idx vm)"
  by (auto simp: exec_LoadFieldIndex_def intro!: with_chk_ok put_ok stored_at_ok)

lemma exec_StoreFieldIndex_ok [ok_intros]:
  "vm_ok vm \<Longrightarrow> regs_in vm [idx, src] \<Longrightarrow>
     outcome_ok (vm_module vm) (exec_StoreFieldIndex env inst base idx src vm)"
  by (auto simp: exec_StoreFieldIndex_def store_in_instance_ok reg_get_val_ok intro!: with_chk_ok)

lemma vec_at_ok: "vals_ok n ls \<Longrightarrow> vec_at ls i = Some v \<Longrightarrow> val_ok n v"
  by (simp add: list_all_nth)

lemma deref_ok: "vm_ok vm \<Longrightarrow> val_ok (gcount vm) (deref vm p)"
proof -
  assume ok: "vm_ok vm"
  have g: "vals_ok (gcount vm) (vm_globals vm)" using ok by (simp add: vm_ok_def)
  have l: "vals_ok (gcount vm) (fr_locals f)" if "frame_at vm i = Some f" for i f
  proof -
    have "f \<in> set (vm_stack vm)" using that by (auto simp: frame_at_def split: if_splits)
    with ok show ?thesis by (auto simp: vm_ok_def list_all_iff frame_ok_def)
  qed
  show ?thesis
    using vec_at_ok [OF g] vec_at_ok [OF l] by (auto simp: deref_def split: val.split option.split
        simp del: vec_at_Some_iff vec_at_None_iff)
qed

lemma exec_Deref_ok [ok_intros]:
  "vm_ok vm \<Longrightarrow> regs_in vm [dst, ptr] \<Longrightarrow> outcome_ok (vm_module vm) (exec_Deref dst ptr vm)"
  by (auto simp: exec_Deref_def intro!: with_reg_ok put_ok deref_ok)

lemma exec_MakeRefLocal_ok [ok_intros]:
  assumes "vm_ok vm" "regs_in vm [dst]"
  shows "outcome_ok (vm_module vm) (exec_MakeRefLocal env dst slot vm)"
proof -
  have "unat t \<noteq> 0" if "frame_tag (env_checks env) (length (vm_stack vm)) = Res t" for t
  proof -
    have "length (vm_stack vm) mod 65536 = length (vm_stack vm)"
      using vm_ok_length [OF assms(1)] by simp
    with that have "t = of_nat (length (vm_stack vm) + 1)"
      by (auto simp: frame_tag_def Let_def split: if_splits)
    then have "unat t = length (vm_stack vm) + 1"
      using vm_ok_length [OF assms(1)] by (simp only: unat_of_nat) simp
    then show ?thesis by simp
  qed
  then have "frame_tag (env_checks env) (length (vm_stack vm)) = Res t \<Longrightarrow>
      val_ok (gcount vm) (V_Ref t slot)" for t
    by fastforce
  then show ?thesis
    using assms by (auto simp: exec_MakeRefLocal_def frame_tag_def Let_def intro!: with_chk_ok put_ok)
qed

lemma set_frame_local_ok:
  assumes "vm_ok vm" "val_ok (gcount vm) v"
  shows "vm_ok (set_frame_local vm i slot v) \<and> vm_module (set_frame_local vm i slot v) = vm_module vm"
proof -
  let ?f = "vm_stack vm ! (length (vm_stack vm) - 1 - i)"
  have "vm_ok (vm\<lparr>vm_stack := (vm_stack vm)[length (vm_stack vm) - 1 - i :=
      ?f\<lparr>fr_locals := (fr_locals ?f)[slot := v]\<rparr>]\<rparr>)" if "i < length (vm_stack vm)"
  proof (rule vm_ok_set_stack [OF assms(1)], goal_cases)
    case 1
    have st: "list_all (frame_ok (vm_module vm)) (vm_stack vm)" using assms(1) by (simp add: vm_ok_def)
    then have "frame_ok (vm_module vm) ?f" using that by (simp add: list_all_nth)
    then have "frame_ok (vm_module vm) (?f\<lparr>fr_locals := (fr_locals ?f)[slot := v]\<rparr>)"
      using assms(2) by (auto simp: frame_ok_def Let_def list_all_update split: option.splits)
    with st show "list_all (frame_ok (vm_module vm)) ((vm_stack vm)[length (vm_stack vm) - 1 - i :=
      ?f\<lparr>fr_locals := (fr_locals ?f)[slot := v]\<rparr>])" by (rule list_all_update)
  qed (use vm_ok_length [OF assms(1)] in simp)
  with assms(1) show ?thesis by (simp add: set_frame_local_def Let_def)
qed

lemma exec_DerefStore_ok [ok_intros]:
  "vm_ok vm \<Longrightarrow> regs_in vm [ptr, src] \<Longrightarrow> outcome_ok (vm_module vm) (exec_DerefStore ptr src vm)"
  by (auto simp: exec_DerefStore_def panic_simps vm_ok_globals_length vm_ok_set_globals
      set_frame_local_ok intro!: with_reg_ok split: val.split)

subsection \<open>One step, and the whole run\<close>

lemma regs_in_arg:
  "(s, r) \<in> set args \<Longrightarrow> regs_in vm (map snd args) \<Longrightarrow> regs_in vm [r]"
  "(s, r) \<in> set args \<Longrightarrow> regs_in vm (d # map snd args) \<Longrightarrow> regs_in vm [r]"
  "regs_in vm (d # rs) \<Longrightarrow> regs_in vm [d]"
  using regs_in_member [of vm "map snd args" r] regs_in_member [of vm "d # map snd args" r]
    regs_in_member [of vm "d # rs" d] by force+

lemma exec_instr_ok:
  assumes "vm_ok vm" "vm_stack vm = f # rest" "env_ok env (gcount vm)"
    "regs_in vm (instr_regs ins)"
    "operands_ok (vm_module vm) (vm_functions vm ! unat (fr_func f)) ins"
  shows "outcome_ok (vm_module vm) (exec_instr env (fr_func f) ins vm)"
  using assms
  by (cases ins) (simp_all only: exec_instr_def instr_regs_def operands_ok_def instruction.case,
    (auto simp: math_fn_def regs_in_arg intro!: ok_intros with_reg_ok result_ok_bind)+)

lemma fetch_execute_ok:
  assumes "vm_ok vm" "vm_stack vm = f # rest" "env_ok env (gcount vm)"
    "fn = vm_functions vm ! unat (fr_func f)" "fr_pc f < length (fn_instructions fn)"
  shows "outcome_ok (vm_module vm) (fetch_execute env f fn vm)"
proof -
  note f = vm_ok_stack [OF assms(1,2), THEN conjunct1]
  obtain pause d where p: "should_pause (fr_func f) (fr_pc f) (length (vm_stack vm))
      (fn_source_map fn) (vm_debug vm) = (pause, d)" by force
  define vm1 where "vm1 = (set_top (f\<lparr>fr_pc := fr_pc f + 1\<rparr>) vm)
      \<lparr>vm_debug := d, vm_count := vm_count vm + 1\<rparr>"
  have dbg: "vm_ok (vm\<lparr>vm_debug := x\<rparr>)" for x using assms(1) by (simp add: vm_ok_def)
  have "vm_ok (set_top (f\<lparr>fr_pc := fr_pc f + 1\<rparr>) vm)"
    using f by (intro vm_ok_set_top [OF assms(1,2)]) (simp add: frame_ok_pc)
  then have ok1: "vm_ok vm1" by (simp add: vm1_def vm_ok_def)
  have st1: "vm_stack vm1 = f\<lparr>fr_pc := fr_pc f + 1\<rparr> # rest" "vm_module vm1 = vm_module vm"
    using assms(2) by (simp_all add: vm1_def set_top_def)
  have "func_ok (vm_module vm) fn" and len: "length (fr_regs f) = reg_count fn"
    using assms(1,4) f by (auto simp: vm_ok_def module_ok_def list_all_nth frame_ok_def Let_def)
  then have ins: "instr_ok (vm_module vm) fn (fn_instructions fn ! fr_pc f)"
    using assms(5) by (simp add: func_ok_def list_all_nth)
  then have "regs_in vm1 (instr_regs (fn_instructions fn ! fr_pc f))"
    by (simp add: regs_in_def st1 len instr_ok_def)
  from exec_instr_ok [OF ok1 st1(1) _ this] ins assms(3,4) st1(2)
  have "outcome_ok (vm_module vm) (exec_instr env (fr_func f) (fn_instructions fn ! fr_pc f) vm1)"
    by (simp add: instr_ok_def)
  with ok1 st1 dbg show ?thesis
    unfolding fetch_execute_def p
    by (simp only: Let_def prod.case vm1_def [symmetric]) (simp split: option.split)
qed

lemma vm_step_ok:
  assumes "vm_ok vm" "env_ok env (gcount vm)"
  shows "outcome_ok (vm_module vm) (vm_step env vm)"
proof (cases "vm_stack vm")
  case Nil
  with assms show ?thesis by (simp add: vm_step_def)
next
  case (Cons f rest)
  note f = vm_ok_stack [OF assms(1) Cons, THEN conjunct1]
  show ?thesis
    using fetch_execute_ok [OF assms(1) Cons assms(2) refl] implicit_return_ok [OF assms(1)]
    by (simp add: vm_step_def Cons frame_ok_func_at [OF f])
qed

primrec end_ok :: "ir_module \<Rightarrow> run_end \<Rightarrow> bool" where
  "end_ok m (Finished vm v) \<longleftrightarrow> vm_ok vm \<and> vm_module vm = m"
| "end_ok m (Failed vm e) \<longleftrightarrow> vm_ok vm \<and> vm_module vm = m"
| "end_ok m (Crashed p) \<longleftrightarrow> p \<noteq> IndexPanic"

lemma vm_reach_ok:
  "vm_reach env vm vm' \<Longrightarrow> vm_ok vm \<Longrightarrow> env_ok env (gcount vm) \<Longrightarrow>
     vm_ok vm' \<and> vm_module vm' = vm_module vm"
  by (induction rule: vm_reach.induct) (auto dest: vm_step_ok)

lemma execute_ok:
  assumes "execute env vm = Some r" "vm_ok vm" "env_ok env (gcount vm)"
  shows "end_ok (vm_module vm) r"
proof -
  obtain vm' where r: "vm_reach env vm vm'" "run_end_of (vm_step env vm') = Some r"
    using execute_reach [OF assms(1)] by blast
  with vm_reach_ok [OF r(1) assms(2,3)] vm_step_ok [of vm' env] assms(3) show ?thesis
    by (cases "vm_step env vm'") auto
qed

lemma vm_new_ok:
  assumes "module_ok m" "max_call_depth c < max_frames"
  shows "vm_ok (vm_new m c)"
  using assms by (simp add: vm_ok_def vm_new_def global_count_def)

lemma entry_frame_ok:
  assumes "vm_ok vm" "find_function (vm_module vm) name = Some (fi, fn)"
    "length (vm_functions vm) \<le> 65536"
  shows "frame_ok (vm_module vm) (entry_frame vm fi fn)"
proof -
  have fi: "unat fi < length (vm_functions vm)" "vm_functions vm ! unat fi = fn"
    using find_function_SomeD [OF assms(2)] find_function_nth [OF assms(3,2)] by auto
  have "vals_ok (gcount vm) ls" "length (slots (fn_locals fn)) \<le> length ls"
    if "hm_get (vm_retained vm) fi = Some ls" for ls
    using that assms(1) fi by (auto simp: vm_ok_def retained_ok_def dest!: list_all_hm_get)
  then have "frame_ok (vm_module vm) (fresh_frame fi fn ls pc None)"
    if "hm_get (vm_retained vm) fi = Some ls \<or> ls = default_locals (fn_locals fn)" for ls pc
    using that fi fresh_frame_ok [of fi "vm_module vm" ls pc None] by auto
  then show ?thesis by (simp add: entry_frame_def split: option.split)
qed

end
