(* ===== verification/Sample.thy ===== *)
theory Sample
  imports Vm_Safe
begin

section \<open>A small module to run the model on\<close>

text \<open>
  The module of a short program, as the compiler lays one out: a SINT global, a PROGRAM
  that counts its scans, calls a function and a function block instance, and a block that
  sums its input. The concrete instances of the theorems use it.
\<close>

definition int_slot :: "string \<Rightarrow> int_width \<Rightarrow> var_slot" where
  "int_slot name w = \<lparr>vs_name = name, vs_ty = T_Int, vs_offset = 0, vs_size = 8,
     vs_retain = True, vs_persistent = False, vs_width = w\<rparr>"

definition fb_slot :: "string \<Rightarrow> u16 \<Rightarrow> var_slot" where
  "fb_slot name fb = \<lparr>vs_name = name, vs_ty = T_FbInstance fb, vs_offset = 8, vs_size = 0,
     vs_retain = False, vs_persistent = False, vs_width = W_None\<rparr>"

definition demo_func :: "string \<Rightarrow> pou_kind \<Rightarrow> u16 \<Rightarrow> instruction list \<Rightarrow> var_slot list \<Rightarrow> func" where
  "demo_func name kind regs inss ls =
     \<lparr>fn_name = name, fn_kind = kind, fn_register_count = regs, fn_instructions = inss,
      fn_label_positions = [], fn_locals = \<lparr>slots = ls\<rparr>, fn_source_map = [], fn_body_start_pc = 0\<rparr>"

definition demo_main :: func where
  "demo_main = demo_func ''Main'' Pou_Program 4
     [LoadLocal 0 0, LoadConst 1 (V_Int 1), Add 2 0 1, StoreLocal 0 2,
      Call 1 3 [(0, 2)], StoreGlobal 0 3, CallFb 1 2 [(0, 2)], RetVoid]
     [int_slot ''scans'' I16, fb_slot ''acc'' 2]"

definition demo_twice :: func where
  "demo_twice = demo_func ''Twice'' Pou_Function 2
     [LoadLocal 0 0, Add 1 0 0, Ret 1] [int_slot ''x'' I16]"

definition demo_acc :: func where
  "demo_acc = demo_func ''Acc'' Pou_FunctionBlock 3
     [LoadLocal 0 0, LoadLocal 1 1, Add 2 0 1, StoreLocal 1 2, RetVoid]
     [int_slot ''inp'' I16, int_slot ''total'' I16]"

definition demo_module :: ir_module where
  "demo_module = \<lparr>md_functions = [demo_main, demo_twice, demo_acc],
     md_globals = \<lparr>slots = [int_slot ''out'' I8]\<rparr>, md_type_defs = [], md_native_fb_indices = []\<rparr>"

definition demo_env :: rt_env where
  "demo_env = \<lparr>env_checks = True, env_native = (\<lambda>_. None), env_math = (\<lambda>_ x. x),
     env_powf = (\<lambda>x y. f64_mul x y), env_fmt_debug = (\<lambda>_. ''0.0''), env_parse_f64 = (\<lambda>_. None)\<rparr>"

definition demo_vm :: vm where
  "demo_vm = vm_new demo_module default_vm_config"

lemmas demo_defs = int_slot_def fb_slot_def demo_func_def demo_main_def demo_twice_def demo_acc_def
  demo_module_def

lemma demo_module_ok: "module_ok demo_module"
  by (simp add: demo_defs module_ok_def func_ok_def instr_ok_def instr_regs_def operands_ok_def
      reg_count_def global_count_def)

lemma demo_vm_ok: "vm_ok demo_vm"
  unfolding demo_vm_def by (rule vm_new_ok [OF demo_module_ok]) (simp add: default_vm_config_def)

lemma demo_module_vm [simp]: "vm_module demo_vm = demo_module"
  by (simp add: demo_vm_def vm_new_def)

lemma demo_env_ok: "env_ok demo_env n"
  by (simp add: env_ok_def demo_env_def)

lemma demo_names [simp]:
  "find_slot (md_globals demo_module) ''OUT'' = Some (0, int_slot ''out'' I8)"
proof -
  have "find_slot \<lparr>slots = [int_slot ''out'' I8]\<rparr> ''OUT'' = Some (0, int_slot ''out'' I8)" by code_simp
  then show ?thesis by (simp add: demo_module_def)
qed

lemma demo_main_name: "eq_ignore_ascii_case ''Main'' ''main''"
  by code_simp

lemma demo_find_main [simp]: "find_function demo_module ''main'' = Some (0, demo_main)"
  using demo_main_name by (simp add: find_function_def function_pos_def demo_module_def
      demo_main_def demo_func_def)

lemma should_pause_new [simp]: "should_pause fi pc depth [] debug_new = (None, debug_new)"
  by (simp add: should_pause_def check_breakpoint_def clear_suppression_def source_at_def debug_new_def Let_def vec_at_def)

end
