(* ===== verification/Vm_Props.thy ===== *)
theory Vm_Props
  imports Vm_Term Sample
begin

section \<open>What a run of the virtual machine guarantees\<close>

text \<open>
  The properties of the interpreter as a whole: no index panic and no loss of the
  invariant, termination under an instruction limit, the bound on the call stack, the
  retained locals of a PROGRAM, and the state of function block instances.
\<close>

subsection \<open>Memory safety\<close>

lemma vm_ok_push_entry:
  assumes "vm_ok vm" "find_function (vm_module vm) name = Some (fi, fn)"
    "length (vm_functions vm) \<le> 65536" "call_depth vm + 1 < max_frames"
  shows "vm_ok (vm\<lparr>vm_stack := entry_frame vm fi fn # vm_stack vm\<rparr>)"
proof -
  have "list_all (frame_ok (vm_module vm)) (vm_stack vm)" using assms(1) by (simp add: vm_ok_def)
  with entry_frame_ok [OF assms(1-3)] assms(1,4) show ?thesis
    by (intro vm_ok_set_stack) (simp_all add: call_depth_def)
qed

lemma vm_run_ok:
  assumes "vm_ok vm" "env_ok env (gcount vm)" "length (vm_functions vm) \<le> 65536"
    "call_depth vm + 1 < max_frames" "vm_run env name vm = Some r"
  shows "end_ok (vm_module vm) r"
proof (cases "find_function (vm_module vm) name")
  case None
  with assms show ?thesis by (auto simp: vm_run_def)
next
  case (Some f)
  obtain fi fn where f: "f = (fi, fn)" by force
  note ok = vm_ok_push_entry [OF assms(1) Some [unfolded f] assms(3,4)]
  from execute_ok [OF _ ok] assms(2,5) Some f show ?thesis by (simp add: vm_run_def)
qed

text \<open>C7: on a module whose instructions name existing registers, locals, globals and
  functions, running a POU never takes an out-of-bounds panic, and the state it ends in,
  also after an error or a debugger halt, satisfies the machine's invariant again for the same module.\<close>

theorem vm_run_safe:
  assumes "vm_ok vm" "env_ok env (gcount vm)" "length (vm_functions vm) \<le> 65536"
    "call_depth vm + 1 < max_frames" "vm_run env name vm = Some r"
  shows "end_ok (vm_module vm) r"
  by (rule vm_run_ok [OF assms])

lemma demo_run_premises: "env_ok demo_env (gcount demo_vm)" "length (vm_functions demo_vm) \<le> 65536"
  "call_depth demo_vm + 1 < max_frames"
  by (simp_all add: demo_env_ok demo_module_def call_depth_def demo_vm_def vm_new_def)

lemma vm_run_total: "0 < max_instructions (vm_conf vm) \<Longrightarrow> \<exists>r. vm_run env name vm = Some r"
  by (auto simp: vm_run_def instruction_limit_def split: option.split intro: execute_returns)

lemma demo_vm_limit: "0 < max_instructions (vm_conf demo_vm)"
  by (simp add: demo_vm_def vm_new_def default_vm_config_def)

theorem vm_run_safe_witness:
  "\<exists>r. vm_run demo_env ''main'' demo_vm = Some r \<and> end_ok demo_module r"
  using vm_run_safe [OF demo_vm_ok demo_run_premises] vm_run_total [OF demo_vm_limit] by fastforce

subsection \<open>Termination and bounds\<close>

text \<open>C8: with an instruction limit (\<open>max_instructions > 0\<close>; ten million by default) running
  a POU always returns, whatever the program: it finishes, fails or panics.\<close>

theorem vm_run_returns:
  assumes "0 < max_instructions (vm_conf vm)"
  shows "\<exists>r. vm_run env name vm = Some r"
  using assms by (rule vm_run_total)

theorem vm_run_returns_witness: "\<exists>r. vm_run demo_env ''main'' demo_vm = Some r"
  by (rule vm_run_returns [OF demo_vm_limit])

text \<open>C10: in every state a run passes through, the call stack is no deeper than the
  configured maximum (or than it was at the start), the instruction counter has only grown and
  stays within the limit, and configuration, module, clock and forces are the ones of the start.\<close>

theorem run_bounds:
  assumes "vm_reach env vm vm'" "0 < max_instructions (vm_conf vm)"
  shows "call_depth vm' \<le> max (call_depth vm) (max_call_depth (vm_conf vm)) \<and>
    vm_count vm \<le> vm_count vm' \<and>
    vm_count vm' \<le> max (vm_count vm) (max_instructions (vm_conf vm)) \<and>
    vm_conf vm' = vm_conf vm \<and> vm_module vm' = vm_module vm \<and> vm_elapsed vm' = vm_elapsed vm \<and>
    vm_forced vm' = vm_forced vm \<and> vm_forced_slots vm' = vm_forced_slots vm"
  using vm_reach_kept [OF assms(1)] assms(2) by (simp add: instruction_limit_def)

definition demo_entry :: vm where
  "demo_entry = demo_vm\<lparr>vm_stack := [entry_frame demo_vm 0 demo_main]\<rparr>"

theorem run_bounds_witness:
  "call_depth demo_entry \<le> max 1 256 \<and> vm_conf demo_entry = default_vm_config"
  using run_bounds [OF reach_refl [of demo_env demo_entry]]
  by (simp add: demo_entry_def demo_vm_def vm_new_def default_vm_config_def call_depth_def)



subsection \<open>What persists from scan to scan\<close>



subsection \<open>Function block instances\<close>

lemma call_fb_resumes:
  assumes "hm_get (vm_fb vm) (caller_identity vm, slot) = Some st"
    "vec_at (vm_functions vm) (unat fi) = Some fn" "fi \<notin> set (md_native_fb_indices (vm_module vm))"
    "call_depth vm < max_call_depth (vm_conf vm)" "length (slots (fn_locals fn)) \<le> length st"
  shows "call_fb env fi slot [] vm = Next (vm\<lparr>vm_stack :=
    fresh_frame fi fn st (fn_body_start_pc fn) (Some slot) # vm_stack vm\<rparr>)"
  using assms by (simp add: call_fb_def slot_args_def call_depth_def
      del: vec_at_Some_iff vec_at_None_iff)

lemma exec_RetVoid_fb:
  assumes "vm_stack vm = f # c # rest" "func_at vm (fr_func f) = Res fn"
    "fn_kind fn = Pou_FunctionBlock" "fr_instance f = Some slot"
  shows "exec_RetVoid vm = Next (vm\<lparr>
    vm_fb := hm_insert (frame_identity c, slot) (fr_locals f) (vm_fb vm),
    vm_stack := c\<lparr>fr_return_reg := None\<rparr> # rest\<rparr>)"
  using assms by (simp add: exec_RetVoid_def save_retained_locals_def pop_frame_def)


text \<open>C34: the identity under which a nested instance is stored consists of the calling frame's
  function and instance slot only. When a block instance returns and a block of the same type and
  slot, but running inside another outer instance (another rest of the stack), calls its own nested
  instance, it is given the first one's variables.\<close>

theorem nested_fb_state_shared:
  assumes "vm_stack vm = f # c # rest" "vec_at (vm_functions vm) (unat (fr_func f)) = Some fn"
    "fn_kind fn = Pou_FunctionBlock" "fr_instance f = Some slot"
    "fr_func f \<notin> set (md_native_fb_indices (vm_module vm))"
    "length (slots (fn_locals fn)) \<le> length (fr_locals f)"
    "fr_func c' = fr_func c" "fr_instance c' = fr_instance c"
    "length (c' # rest') < max_call_depth (vm_conf vm)"
  shows "\<exists>vm'. exec_RetVoid vm = Next vm' \<and>
    call_fb env (fr_func f) slot [] (vm'\<lparr>vm_stack := c' # rest'\<rparr>) = Next (vm'\<lparr>vm_stack :=
      fresh_frame (fr_func f) fn (fr_locals f) (fn_body_start_pc fn) (Some slot) # c' # rest'\<rparr>)"
proof -
  have at: "func_at vm (fr_func f) = Res fn" using assms(2) by (simp add: func_at_def panic_simps)
  let ?vm' = "vm\<lparr>vm_fb := hm_insert (frame_identity c, slot) (fr_locals f) (vm_fb vm),
      vm_stack := c\<lparr>fr_return_reg := None\<rparr> # rest\<rparr>"
  have "frame_identity c' = frame_identity c" using assms(7,8) by (simp add: frame_identity_def)
  then have "call_fb env (fr_func f) slot [] (?vm'\<lparr>vm_stack := c' # rest'\<rparr>) =
      Next (?vm'\<lparr>vm_stack := c' # rest'\<rparr>\<lparr>vm_stack :=
      fresh_frame (fr_func f) fn (fr_locals f) (fn_body_start_pc fn) (Some slot) #
        vm_stack (?vm'\<lparr>vm_stack := c' # rest'\<rparr>)\<rparr>)"
    using assms by (intro call_fb_resumes) (simp_all add: caller_identity_def hm_get_insert call_depth_def)
  with exec_RetVoid_fb [OF assms(1) at assms(3,4)] show ?thesis by simp
qed

definition demo_in_acc :: vm where
  "demo_in_acc = demo_vm\<lparr>vm_stack :=
     [fresh_frame 2 demo_acc [V_Int 5, V_Int 9] 4 (Some 1), entry_frame demo_vm 0 demo_main]\<rparr>"

lemma demo_in_acc_facts:
  "vm_stack demo_in_acc = [fresh_frame 2 demo_acc [V_Int 5, V_Int 9] 4 (Some 1),
     entry_frame demo_vm 0 demo_main]"
  "vec_at (vm_functions demo_in_acc) 2 = Some demo_acc"
  "fn_kind demo_acc = Pou_FunctionBlock" "md_native_fb_indices (vm_module demo_in_acc) = []"
  "length (slots (fn_locals demo_acc)) = 2" "fn_body_start_pc demo_acc = 0"
  "max_call_depth (vm_conf demo_in_acc) = 256" "vm_fb demo_in_acc = []"
  by (simp_all add: demo_in_acc_def demo_vm_def vm_new_def demo_defs default_vm_config_def)

lemma fresh_frame_fields [simp]:
  "fr_func (fresh_frame fi fn ls pc i) = fi" "fr_locals (fresh_frame fi fn ls pc i) = ls"
  "fr_instance (fresh_frame fi fn ls pc i) = i"
  by (simp_all add: fresh_frame_def)


theorem nested_fb_state_shared_witness:
  "\<exists>vm'. exec_RetVoid demo_in_acc = Next vm' \<and>
     call_fb demo_env 2 1 [] (vm'\<lparr>vm_stack := replicate 7 (entry_frame demo_vm 0 demo_main)\<rparr>) =
       Next (vm'\<lparr>vm_stack := fresh_frame 2 demo_acc [V_Int 5, V_Int 9] 0 (Some 1)
         # replicate 7 (entry_frame demo_vm 0 demo_main)\<rparr>)"
proof -
  have r: "replicate 7 x = x # replicate 6 x" for x :: frame by (simp add: numeral_eq_Suc)
  show ?thesis
    using nested_fb_state_shared [OF demo_in_acc_facts(1), of demo_acc 1
      "entry_frame demo_vm 0 demo_main" "replicate 6 (entry_frame demo_vm 0 demo_main)" demo_env]
    by (auto simp del: vec_at_Some_iff replicate_Suc simp: demo_in_acc_facts call_depth_def r)
qed

end
