(* ===== verification/Force.thy ===== *)
theory Force
  imports Vm_Props
begin

section \<open>Forcing variables and swapping the module: crates/st-engine/src/vm.rs\<close>

text \<open>
  Forcing a global writes its slot and marks it, so that later writes are dropped; forcing
  \<open>Program.local\<close> or \<open>Program.instance.field\<close> writes the retained value at once and is
  applied again after every scan. Names are folded with \<open>to_uppercase\<close>, which is the
  ASCII fold on the names the language admits.
\<close>

definition struct_type_fields :: "ir_module \<Rightarrow> u16 \<Rightarrow> (string \<times> var_slot list) option" where
  "struct_type_fields m td =
     (case vec_at (md_type_defs m) (unat td) of
        Some (TD_Struct name fs) \<Rightarrow> Some (name, fs)
      | _ \<Rightarrow> None)"

definition split_dot :: "string \<Rightarrow> (string \<times> string) option" where
  "split_dot s = map_option (\<lambda>i. (take i s, drop (i + 1) s)) (find_index (\<lambda>c. c = CHR ''.'') s)"

text \<open>\<open>if let Some(state) = get_mut(key) { if pos < state.len() { state[pos] = v } }\<close>.\<close>

definition write_field :: "fb_key \<Rightarrow> nat \<Rightarrow> val \<Rightarrow> vm \<Rightarrow> vm" where
  "write_field key pos v vm =
     (case hm_get (vm_fb vm) key of
        None \<Rightarrow> vm
      | Some st \<Rightarrow>
          if pos < length st then vm\<lparr>vm_fb := hm_insert key (st[pos := v]) (vm_fb vm)\<rparr> else vm)"

definition force_scalar :: "nat \<Rightarrow> func \<Rightarrow> string \<Rightarrow> val \<Rightarrow> vm \<Rightarrow> vm" where
  "force_scalar func_idx fn local_name v vm =
     (case hm_get (vm_retained vm) (of_nat func_idx) of
        None \<Rightarrow> vm
      | Some ls \<Rightarrow>
          (case find_index (\<lambda>(i, s). eq_ignore_ascii_case (vs_name s) local_name \<and> i < length ls)
                  (enumerate 0 (slots (fn_locals fn))) of
             None \<Rightarrow> vm
           | Some i \<Rightarrow> vm\<lparr>vm_retained := hm_insert (of_nat func_idx)
               (ls[i := narrow_value v (vs_width (slots (fn_locals fn) ! i))]) (vm_retained vm)\<rparr>))"

text \<open>
  A field of a struct or block instance of a PROGRAM: the position is the field's index in
  the declaration. \<open>None\<close>: the path names no instance, a scalar of that name is tried.
\<close>

definition force_field :: "nat \<Rightarrow> func \<Rightarrow> string \<Rightarrow> string \<Rightarrow> val \<Rightarrow> vm \<Rightarrow> vm chk option" where
  "force_field func_idx fn instance_name field_name v vm =
     (case slot_pos (fn_locals fn) instance_name of
        None \<Rightarrow> None
      | Some i \<Rightarrow>
          let key = (program_identity func_idx, of_nat i) in
          (case vs_ty (slots (fn_locals fn) ! i) of
             T_Struct td \<Rightarrow> Some (Res
               (case struct_type_fields (vm_module vm) td of
                  None \<Rightarrow> vm
                | Some (_, fs) \<Rightarrow>
                    (case find_index (\<lambda>f. eq_ignore_ascii_case (vs_name f) field_name) fs of
                       None \<Rightarrow> vm
                     | Some pos \<Rightarrow>
                         write_field key pos (narrow_value v (vs_width (fs ! pos))) vm)))
           | T_FbInstance fb \<Rightarrow> Some
               (chk_bind (func_at vm fb) (\<lambda>fbf.
                  Res (case find_slot (fn_locals fbf) field_name of
                         None \<Rightarrow> vm
                       | Some (j, s) \<Rightarrow>
                           write_field key (unat j) (narrow_value v (vs_width s)) vm)))
           | _ \<Rightarrow> None))"

definition program_pos :: "ir_module \<Rightarrow> string \<Rightarrow> nat option" where
  "program_pos m name =
     find_index (\<lambda>f. fn_kind f = Pou_Program \<and> eq_ignore_ascii_case (fn_name f) name)
       (md_functions m)"

definition force_local :: "string \<Rightarrow> val \<Rightarrow> vm \<Rightarrow> vm chk" where
  "force_local name v vm =
     (case split_dot name of
        None \<Rightarrow> Res vm
      | Some (prog_name, local_name) \<Rightarrow>
          (case program_pos (vm_module vm) prog_name of
             None \<Rightarrow> Res vm
           | Some fi \<Rightarrow>
               let fn = vm_functions vm ! fi;
                   field = (case split_dot local_name of
                              None \<Rightarrow> None
                            | Some (inst, fld) \<Rightarrow> force_field fi fn inst fld v vm)
               in case field of
                    Some r \<Rightarrow> r
                  | None \<Rightarrow> Res (force_scalar fi fn local_name v vm)))"

definition force_variable :: "string \<Rightarrow> val \<Rightarrow> vm \<Rightarrow> vm chk" where
  "force_variable name v vm =
     (case find_slot (md_globals (vm_module vm)) name of
        Some (slot, s) \<Rightarrow>
          let x = narrow_value v (vs_width s);
              vm1 = vm\<lparr>vm_forced := hm_insert (to_upper name) x (vm_forced vm),
                       vm_forced_slots := insert slot (vm_forced_slots vm)\<rparr>
          in Res (if unat slot < length (vm_globals vm1)
                  then vm1\<lparr>vm_globals := (vm_globals vm1)[unat slot := x]\<rparr> else vm1)
      | None \<Rightarrow>
          force_local name v (vm\<lparr>vm_forced := hm_insert (to_upper name) v (vm_forced vm)\<rparr>))"

definition unforce_variable :: "string \<Rightarrow> vm \<Rightarrow> vm" where
  "unforce_variable name vm =
     (let vm1 = vm\<lparr>vm_forced := hm_remove (to_upper name) (vm_forced vm)\<rparr>
      in case find_slot (md_globals (vm_module vm)) name of
           None \<Rightarrow> vm1
         | Some (slot, _) \<Rightarrow> vm1\<lparr>vm_forced_slots := vm_forced_slots vm1 - {slot}\<rparr>)"

subsection \<open>Enforcing after a scan\<close>

fun join_dots :: "string list \<Rightarrow> string" where
  "join_dots [] = []"
| "join_dots [a] = a"
| "join_dots (a # b # as) = a @ ''.'' @ join_dots (b # as)"

definition forced_at :: "vm \<Rightarrow> string list \<Rightarrow> val option" where
  "forced_at vm path = hm_get (vm_forced vm) (to_upper (join_dots path))"

definition enforce_slot :: "vm \<Rightarrow> func \<Rightarrow> nat \<times> var_slot \<Rightarrow> val list \<Rightarrow> val list" where
  "enforce_slot vm fn e ls =
     (case e of (i, s) \<Rightarrow>
        (case forced_at vm [fn_name fn, vs_name s] of
           None \<Rightarrow> ls
         | Some v \<Rightarrow> if i < length ls then ls[i := narrow_value v (vs_width s)] else ls))"

text \<open>The forced fields of an instance, with the position each is written to.\<close>

definition forced_fields ::
  "vm \<Rightarrow> string list \<Rightarrow> fb_key \<Rightarrow> (nat \<Rightarrow> nat) \<Rightarrow> var_slot list \<Rightarrow> (fb_key \<times> nat \<times> val) list" where
  "forced_fields vm path key pos fs =
     concat (map (\<lambda>(j, f).
       case forced_at vm (path @ [vs_name f]) of
         None \<Rightarrow> []
       | Some v \<Rightarrow> [(key, pos j, narrow_value v (vs_width f))]) (enumerate 0 fs))"

definition slot_field_forces ::
  "vm \<Rightarrow> u16 \<Rightarrow> func \<Rightarrow> nat \<times> var_slot \<Rightarrow> (fb_key \<times> nat \<times> val) list chk" where
  "slot_field_forces vm fi fn e =
     (case e of (i, s) \<Rightarrow>
        let key = (program_identity (unat fi), of_nat i); path = [fn_name fn, vs_name s] in
        (case vs_ty s of
           T_Struct td \<Rightarrow> Res
             (case struct_type_fields (vm_module vm) td of
                None \<Rightarrow> []
              | Some (_, fs) \<Rightarrow> forced_fields vm path key id fs)
         | T_FbInstance fb \<Rightarrow>
             chk_bind (func_at vm fb) (\<lambda>fbf.
               Res (forced_fields vm path key (expanded_index (fn_locals fbf))
                      (slots (fn_locals fbf))))
         | _ \<Rightarrow> Res []))"

fun all_field_forces ::
  "vm \<Rightarrow> u16 \<Rightarrow> func \<Rightarrow> (nat \<times> var_slot) list \<Rightarrow> (fb_key \<times> nat \<times> val) list chk" where
  "all_field_forces vm fi fn [] = Res []"
| "all_field_forces vm fi fn (e # es) =
     chk_bind (slot_field_forces vm fi fn e) (\<lambda>a.
     chk_bind (all_field_forces vm fi fn es) (\<lambda>b. Res (a @ b)))"

fun enforce_entries ::
  "vm \<Rightarrow> (u16 \<times> val list) list \<Rightarrow> ((u16 \<times> val list) list \<times> (fb_key \<times> nat \<times> val) list) chk" where
  "enforce_entries vm [] = Res ([], [])"
| "enforce_entries vm ((fi, ls) # es) =
     chk_bind (func_at vm fi) (\<lambda>fn.
     chk_bind (if fn_kind fn \<noteq> Pou_Program then Res (ls, [])
               else let ss = enumerate 0 (slots (fn_locals fn))
                    in chk_bind (all_field_forces vm fi fn ss)
                         (\<lambda>ffs. Res (fold (enforce_slot vm fn) ss ls, ffs))) (\<lambda>(ls', ffs).
     chk_bind (enforce_entries vm es) (\<lambda>(es', rest). Res ((fi, ls') # es', ffs @ rest))))"

definition enforce_retained_locals :: "vm \<Rightarrow> vm chk" where
  "enforce_retained_locals vm =
     (if vm_forced vm = [] then Res vm
      else chk_bind (enforce_entries vm (vm_retained vm)) (\<lambda>(retained, ffs).
        Res (fold (\<lambda>(key, pos, v). write_field key pos v) ffs (vm\<lparr>vm_retained := retained\<rparr>))))"

subsection \<open>Swapping the module\<close>

definition swap_module :: "ir_module \<Rightarrow> (u16 \<times> val list) list \<Rightarrow> val list \<Rightarrow> vm \<Rightarrow> vm" where
  "swap_module new_module migrated_locals new_globals vm =
     vm\<lparr>vm_module := new_module, vm_globals := new_globals, vm_retained := migrated_locals,
        vm_stack := []\<rparr>"

subsection \<open>A forced global\<close>

lemma force_variable_global:
  "find_slot (md_globals (vm_module vm)) name = Some (slot, s) \<Longrightarrow> vm_ok vm \<Longrightarrow>
     force_variable name v vm = Res (vm\<lparr>
       vm_forced := hm_insert (to_upper name) (narrow_value v (vs_width s)) (vm_forced vm),
       vm_forced_slots := insert slot (vm_forced_slots vm),
       vm_globals := (vm_globals vm)[unat slot := narrow_value v (vs_width s)]\<rparr>)"
  by (auto simp: force_variable_def Let_def vm_ok_globals_length global_count_def dest: find_slot_SomeD)

lemma forced_slot_drops_writes:
  assumes "slot \<in> vm_forced_slots vm"
  shows "set_global_by_slot slot w vm = vm" "exec_StoreGlobal slot r vm = Next vm"
    "find_slot (md_globals (vm_module vm)) name' = Some (slot, s) \<Longrightarrow> set_global name' w vm = Res vm"
  using assms by (simp_all add: set_global_by_slot_def exec_StoreGlobal_def set_global_def)

text \<open>C22: forcing a global variable takes effect at once (its slot holds the forced value,
  narrowed to the declared width) and sticks: a write by name, a write by slot (the device
  layer's) and the program's own store all leave the machine as it is.\<close>

theorem forced_global_sticks:
  assumes "vm_ok vm" "find_slot (md_globals (vm_module vm)) name = Some (slot, s)"
    "force_variable name v vm = Res vm'"
  shows "get_global_by_slot slot vm' = Some (narrow_value v (vs_width s)) \<and>
    set_global name w vm' = Res vm' \<and> set_global_by_slot slot w vm' = vm' \<and>
    exec_StoreGlobal slot r vm' = Next vm'"
proof -
  have len: "unat slot < length (vm_globals vm)"
    using assms(1,2) by (auto simp: vm_ok_globals_length global_count_def dest: find_slot_SomeD)
  have vm': "vm' = vm\<lparr>
       vm_forced := hm_insert (to_upper name) (narrow_value v (vs_width s)) (vm_forced vm),
       vm_forced_slots := insert slot (vm_forced_slots vm),
       vm_globals := (vm_globals vm)[unat slot := narrow_value v (vs_width s)]\<rparr>"
    using assms force_variable_global by simp
  then have f: "slot \<in> vm_forced_slots vm'" "find_slot (md_globals (vm_module vm')) name = Some (slot, s)"
    using assms(2) by simp_all
  from vm' len have "get_global_by_slot slot vm' = Some (narrow_value v (vs_width s))"
    by (simp add: get_global_by_slot_def)
  with forced_slot_drops_writes [OF f(1)] f(2) show ?thesis by simp
qed

theorem forced_global_sticks_witness:
  "\<exists>vm'. force_variable ''OUT'' (V_Int 300) demo_vm = Res vm' \<and>
     get_global_by_slot 0 vm' = Some (V_Int 44) \<and> set_global ''OUT'' (V_Int 7) vm' = Res vm'"
proof -
  have g: "find_slot (md_globals (vm_module demo_vm)) ''OUT'' = Some (0, int_slot ''out'' I8)" by simp
  obtain vm' where f: "force_variable ''OUT'' (V_Int 300) demo_vm = Res vm'"
    using force_variable_global [OF g demo_vm_ok] by blast
  have "narrow_value (V_Int 300) (vs_width (int_slot ''out'' I8)) = V_Int 44"
    by (simp add: int_slot_def sext8_def)
  with forced_global_sticks [OF demo_vm_ok g f, of "V_Int 7" 0] f show ?thesis by simp
qed

subsection \<open>Which instructions write a global\<close>

text \<open>
  Only \<open>StoreGlobal\<close> and \<open>DerefStore\<close> change the globals, and \<open>StoreGlobal\<close> honours a force.
\<close>

definition same_forced :: "vm \<Rightarrow> vm \<Rightarrow> bool" where
  "same_forced vm vm' \<longleftrightarrow>
     (\<forall>slot\<in>vm_forced_slots vm. vm_globals vm' ! unat slot = vm_globals vm ! unat slot)"

primrec out_forced :: "vm \<Rightarrow> outcome \<Rightarrow> bool" where
  "out_forced vm (Next vm') \<longleftrightarrow> same_forced vm vm'"
| "out_forced vm (Done vm' v) \<longleftrightarrow> same_forced vm vm'"
| "out_forced vm (Fail vm' e) \<longleftrightarrow> same_forced vm vm'"
| "out_forced vm (Crash p) \<longleftrightarrow> True"

lemma same_forced_eq [simp]: "vm_globals vm' = vm_globals vm \<Longrightarrow> same_forced vm vm'"
  by (simp add: same_forced_def)

lemma with_chk_forced:
  "(\<And>x. c = Res x \<Longrightarrow> out_forced vm (k x)) \<Longrightarrow> out_forced vm (with_chk c k)"
  by (cases c) auto

lemma put_forced: "out_forced vm (put r v vm)"
  by (auto simp: put_def reg_set_def set_top_def intro!: with_chk_forced)

lemma op_forced:
  "out_forced vm (op1 f dst a vm)" "out_forced vm (op2 g dst a b vm)" "out_forced vm (op3 h dst a b c vm)"
  by (auto simp: op1_def op2_def op3_def intro!: with_chk_forced put_forced)

lemma word_unat_neq: "(a :: u16) \<noteq> b \<Longrightarrow> unat a \<noteq> unat b"
  by (simp add: word_unat_eq_iff)

lemma variables_forced:
  "out_forced vm (exec_LoadLocal fi dst slot vm)" "out_forced vm (exec_StoreLocal slot src vm)"
  "out_forced vm (exec_LoadGlobal dst slot vm)"
  by (auto simp: exec_LoadLocal_def exec_StoreLocal_def exec_LoadGlobal_def
      local_set_def set_top_def intro!: with_chk_forced put_forced split: option.split)

lemma exec_StoreGlobal_forced: "out_forced vm (exec_StoreGlobal slot src vm)"
proof (cases "slot \<in> vm_forced_slots vm")
  case False
  then have "\<And>s. s \<in> vm_forced_slots vm \<Longrightarrow> unat slot \<noteq> unat s" using word_unat_neq by metis
  then show ?thesis
    by (auto simp: exec_StoreGlobal_def same_forced_def intro!: with_chk_forced)
qed (simp add: exec_StoreGlobal_def)

lemma control_forced:
  "out_forced vm (exec_Div dst l r vm)" "out_forced vm (exec_Mod dst l r vm)"
  "out_forced vm (jump_to lbl vm)" "out_forced vm (exec_JumpIf sense r lbl vm)"
  by (auto simp: exec_Div_def exec_Mod_def jump_to_def exec_JumpIf_def set_top_def
      intro!: with_chk_forced op_forced split: option.split)

lemma calls_forced:
  "out_forced vm (call_function fi (Some dst) args vm)" "out_forced vm (call_fb env fi inst args vm)"
  "out_forced vm (exec_CallMethod env inst cls fi dst args vm)"
  by (auto simp: call_function_def call_fb_def exec_CallMethod_def Let_def
      intro!: with_chk_forced split: option.splits list.split)

lemma save_retained_locals_globals:
  "save_retained_locals vm = Res vm1 \<Longrightarrow> vm_globals vm1 = vm_globals vm"
proof (cases "vm_stack vm")
  case (Cons f rest)
  assume "save_retained_locals vm = Res vm1"
  with Cons obtain fn where "func_at vm (fr_func f) = Res fn"
    by (auto simp: save_retained_locals_def)
  with \<open>save_retained_locals vm = Res vm1\<close> Cons show ?thesis
    by (cases "fn_kind fn"; cases "fr_instance f")
      (auto simp: save_retained_locals_def Let_def split: option.splits if_splits)
qed (simp add: save_retained_locals_def)

lemma deliver_globals: "deliver v vm = Res vm1 \<Longrightarrow> vm_globals vm1 = vm_globals vm"
  by (auto simp: deliver_def split: list.splits option.splits)

lemma returns_forced:
  "out_forced vm (exec_Ret r vm)" "out_forced vm (exec_RetVoid vm)" "out_forced vm (implicit_return vm)"
  by (auto simp: exec_Ret_def exec_RetVoid_def implicit_return_def pop_frame_def
      dest!: save_retained_locals_globals deliver_globals intro!: with_chk_forced split: list.split)

lemma memory_forced:
  "out_forced vm (exec_LoadArray env dst slot idx vm)" "out_forced vm (exec_StoreArray env slot idx src vm)"
  "out_forced vm (exec_LoadField dst inst fld vm)" "out_forced vm (exec_StoreField inst fld src vm)"
  "out_forced vm (exec_LoadFieldIndex env dst inst base idx vm)"
  "out_forced vm (exec_StoreFieldIndex env inst base idx src vm)"
  "out_forced vm (exec_MakeRefLocal env dst slot vm)" "out_forced vm (exec_Deref dst ptr vm)"
  by (auto simp: exec_LoadArray_def exec_StoreArray_def exec_LoadField_def exec_StoreField_def
      exec_LoadFieldIndex_def exec_StoreFieldIndex_def store_in_instance_def Let_def
      exec_MakeRefLocal_def exec_Deref_def intro!: with_chk_forced put_forced)

fun stores_through_pointer :: "instruction \<Rightarrow> bool" where
  "stores_through_pointer (DerefStore _ _) = True"
| "stores_through_pointer _ = False"

lemma exec_instr_forced:
  "\<not> stores_through_pointer ins \<Longrightarrow> out_forced vm (exec_instr env fi ins vm)"
  by (cases ins) (simp_all add: exec_instr_def math_fn_def put_forced op_forced variables_forced
      exec_StoreGlobal_forced control_forced calls_forced returns_forced memory_forced with_chk_forced)

definition no_pointer_stores :: "ir_module \<Rightarrow> bool" where
  "no_pointer_stores m \<longleftrightarrow>
     list_all (\<lambda>fn. list_all (\<lambda>ins. \<not> stores_through_pointer ins) (fn_instructions fn)) (md_functions m)"

lemma vm_step_forced:
  assumes "vm_step env vm = Next vm'" "no_pointer_stores (vm_module vm)"
  shows "same_forced vm vm'"
proof -
  obtain f rest where st: "vm_stack vm = f # rest"
    using assms by (auto simp: vm_step_def split: list.splits)
  obtain fn where fn: "func_at vm (fr_func f) = Res fn"
    using assms st by (cases "func_at vm (fr_func f)") (auto simp: vm_step_def)
  show ?thesis
  proof (cases "fr_pc f \<ge> length (fn_instructions fn)")
    case True
    with assms st fn returns_forced(3) [of vm] show ?thesis by (simp add: vm_step_def)
  next
    case False
    have "fn \<in> set (vm_functions vm)" using fn by (auto simp: func_at_def)
    with False have ins: "\<not> stores_through_pointer (fn_instructions fn ! fr_pc f)"
      using assms(2) by (auto simp: no_pointer_stores_def list_all_iff)
    obtain p d where d: "should_pause (fr_func f) (fr_pc f) (length (vm_stack vm))
        (fn_source_map fn) (vm_debug vm) = (p, d)" by force
    let ?vm1 = "(set_top (f\<lparr>fr_pc := fr_pc f + 1\<rparr>) vm)\<lparr>vm_debug := d, vm_count := vm_count vm + 1\<rparr>"
    have "fetch_execute env f fn vm = Next vm'" using assms st fn False by (simp add: vm_step_def)
    then have "exec_instr env (fr_func f) (fn_instructions fn ! fr_pc f) ?vm1 = Next vm'"
      unfolding fetch_execute_def d Let_def prod.case by (auto split: option.splits if_splits)
    with exec_instr_forced [OF ins, of ?vm1 env "fr_func f"] show ?thesis
      by (simp add: same_forced_def set_top_def)
  qed
qed

lemma vm_reach_forced:
  "vm_reach env vm vm' \<Longrightarrow> no_pointer_stores (vm_module vm) \<Longrightarrow> same_forced vm vm'"
proof (induction rule: vm_reach.induct)
  case (reach_step vm1 vm2)
  have "vm_module vm1 = vm_module vm" "vm_forced_slots vm1 = vm_forced_slots vm"
    using vm_reach_kept [OF reach_step.hyps(1)] by auto
  with reach_step vm_step_forced [OF reach_step.hyps(2)] show ?case by (simp add: same_forced_def)
qed simp

text \<open>C11: in a program without stores through pointers, nothing a run does changes the value of
  a forced global, through any number of steps, calls and returns.\<close>

theorem forced_global_constant:
  assumes "vm_reach env vm vm'" "no_pointer_stores (vm_module vm)" "slot \<in> vm_forced_slots vm"
  shows "get_global_by_slot slot vm' = get_global_by_slot slot vm"
proof -
  have "length (vm_globals vm') = length (vm_globals vm)"
    using assms(1) by (rule vm_reach_globals_length)
  moreover have "vm_globals vm' ! unat slot = vm_globals vm ! unat slot"
    using vm_reach_forced [OF assms(1,2)] assms(3) by (simp add: same_forced_def)
  ultimately show ?thesis by (simp add: get_global_by_slot_def vec_at_def)
qed

definition demo_forced :: vm where
  "demo_forced = demo_entry\<lparr>vm_forced_slots := {0}\<rparr>"

theorem forced_global_constant_witness:
  "\<exists>vm'. vm_step demo_env demo_forced = Next vm' \<and> get_global_by_slot 0 vm' = Some (V_Int 0)"
proof -
  have "\<exists>vm'. vm_step demo_env demo_forced = Next vm'"
    by (simp add: vm_step_def demo_forced_def demo_entry_def demo_vm_def vm_new_def func_at_def panic_simps
        entry_frame_def fresh_frame_def demo_defs fetch_execute_def exec_instr_def exec_LoadLocal_def
        set_top_def Let_def vec_at_def forced_value_def local_get_def top_frame_def put_def reg_set_def
        default_locals_def default_vm_config_def)
  then obtain vm' where step: "vm_step demo_env demo_forced = Next vm'" by blast
  have "no_pointer_stores (vm_module demo_forced)" "0 \<in> vm_forced_slots demo_forced"
    by (simp_all add: demo_forced_def demo_entry_def no_pointer_stores_def demo_defs)
  from forced_global_constant [OF reach_step [OF reach_refl step] this]
  have "get_global_by_slot 0 vm' = get_global_by_slot 0 demo_forced" .
  also have "\<dots> = Some (V_Int 0)"
    by (simp add: get_global_by_slot_def demo_forced_def demo_entry_def demo_vm_def vm_new_def demo_defs
        default_locals_def)
  finally show ?thesis using step by simp
qed

text \<open>A store through a pointer to a global ignores the force: the forced slot takes the
  stored value.\<close>

theorem pointer_store_overrides_force:
  assumes "reg_get vm ptr = Res (V_Ref 0 slot)" "reg_get vm src = Res v"
    "slot \<in> vm_forced_slots vm" "unat slot < length (vm_globals vm)"
  shows "\<exists>vm'. exec_DerefStore ptr src vm = Next vm' \<and> get_global_by_slot slot vm' = Some v \<and>
    slot \<in> vm_forced_slots vm'"
  using assms by (simp add: exec_DerefStore_def panic_simps get_global_by_slot_def)

theorem pointer_store_overrides_force_witness:
  "\<exists>vm'. exec_DerefStore 0 1 (demo_forced\<lparr>vm_stack :=
       [fresh_frame 0 demo_main [] 0 None\<lparr>fr_regs := [V_Ref 0 0, V_Int 9]\<rparr>]\<rparr>) = Next vm' \<and>
     get_global_by_slot 0 vm' = Some (V_Int 9) \<and> 0 \<in> vm_forced_slots vm'"
  by (rule pointer_store_overrides_force)
    (simp_all add: reg_get_def top_frame_def panic_simps demo_forced_def demo_entry_def demo_vm_def
      vm_new_def demo_defs default_locals_def)

text \<open>A read of a local consults the forced variables by bare name, so forcing a global also
  replaces every read of a local of the same name, whatever that local holds.\<close>

theorem force_shadows_local:
  assumes "vm_ok vm" "find_slot (md_globals (vm_module vm)) name = Some (slot, s)"
    "force_variable name v vm = Res vm'" "func_at vm fi = Res fn"
    "vec_at (slots (fn_locals fn)) (unat k) = Some l" "eq_ignore_ascii_case (vs_name l) name"
  shows "exec_LoadLocal fi dst k vm' = put dst (narrow_value v (vs_width s)) vm'"
proof -
  have vm': "vm' = vm\<lparr>
       vm_forced := hm_insert (to_upper name) (narrow_value v (vs_width s)) (vm_forced vm),
       vm_forced_slots := insert slot (vm_forced_slots vm),
       vm_globals := (vm_globals vm)[unat slot := narrow_value v (vs_width s)]\<rparr>"
    using assms(1-3) force_variable_global by simp
  have "to_upper (vs_name l) = to_upper name" using assms(6) by (simp add: eq_ignore_ascii_case_upper)
  moreover have "func_at vm' fi = Res fn" using assms(4) by (simp add: vm' func_at_def)
  ultimately show ?thesis
    using assms(5) by (simp add: exec_LoadLocal_def forced_value_def vm' hm_get_insert
        del: vec_at_Some_iff)
qed

definition shadow_module :: ir_module where
  "shadow_module = demo_module\<lparr>md_globals := \<lparr>slots = [int_slot ''SCANS'' I8]\<rparr>\<rparr>"

theorem force_shadows_local_witness:
  "\<exists>vm'. force_variable ''scans'' (V_Int 200) (vm_new shadow_module default_vm_config) = Res vm' \<and>
     exec_LoadLocal 0 5 0 vm' = put 5 (V_Int (-56)) vm'"
proof -
  let ?vm = "vm_new shadow_module default_vm_config"
  have ok: "vm_ok ?vm"
    by (rule vm_new_ok) (simp_all add: shadow_module_def demo_defs module_ok_def func_ok_def instr_ok_def
      instr_regs_def operands_ok_def reg_count_def global_count_def default_vm_config_def)
  have "find_slot \<lparr>slots = [int_slot ''SCANS'' I8]\<rparr> ''scans'' = Some (0, int_slot ''SCANS'' I8)"
    by code_simp
  then have g: "find_slot (md_globals (vm_module ?vm)) ''scans'' = Some (0, int_slot ''SCANS'' I8)"
    by (simp add: vm_new_def shadow_module_def)
  obtain vm' where f: "force_variable ''scans'' (V_Int 200) ?vm = Res vm'"
    using force_variable_global [OF g ok] by blast
  have fn: "func_at ?vm 0 = Res demo_main"
    "vec_at (slots (fn_locals demo_main)) (unat (0 :: u16)) = Some (int_slot ''scans'' I16)"
    by (simp_all add: func_at_def panic_simps vm_new_def shadow_module_def demo_defs)
  have "eq_ignore_ascii_case (vs_name (int_slot ''scans'' I16)) ''scans''" by (simp add: int_slot_def)
  from force_shadows_local [OF ok g f fn this, of 5] f show ?thesis
    by (simp add: int_slot_def sext8_def)
qed

subsection \<open>Enforcing the forced locals of a PROGRAM\<close>

lemma fold_enforce_other:
  "i \<notin> fst ` set es \<Longrightarrow> fold (enforce_slot vm fn) es ls ! i = ls ! i"
proof (induction es arbitrary: ls)
  case (Cons e es)
  have "enforce_slot vm fn e ls ! i = ls ! i"
    using Cons.prems by (cases e) (auto simp: enforce_slot_def split: option.split)
  with Cons show ?case by simp
qed simp

lemma length_enforce_slot [simp]: "length (enforce_slot vm fn e ls) = length ls"
  by (cases e) (simp add: enforce_slot_def split: option.split)

lemma length_fold_enforce [simp]: "length (fold (enforce_slot vm fn) es ls) = length ls"
  by (induction es arbitrary: ls) simp_all

lemma fold_enforce_at:
  assumes "(i, s) \<in> set es" "distinct (map fst es)" "i < length ls"
    "forced_at vm [fn_name fn, vs_name s] = Some v"
  shows "fold (enforce_slot vm fn) es ls ! i = narrow_value v (vs_width s)"
  using assms
proof (induction es arbitrary: ls)
  case (Cons e es)
  show ?case
  proof (cases "e = (i, s)")
    case True
    then have "i \<notin> fst ` set es" using Cons.prems by force
    moreover have "enforce_slot vm fn (i, s) ls = ls[i := narrow_value v (vs_width s)]"
      using Cons.prems by (simp add: enforce_slot_def)
    ultimately show ?thesis using True Cons.prems by (simp add: fold_enforce_other)
  next
    case False
    with Cons show ?thesis by simp
  qed
qed simp

lemma enforce_entries_get:
  "enforce_entries vm es = Res (es', ffs) \<Longrightarrow> hm_get es fi = Some ls \<Longrightarrow>
     func_at vm fi = Res fn \<Longrightarrow> fn_kind fn = Pou_Program \<Longrightarrow>
     hm_get es' fi = Some (fold (enforce_slot vm fn) (enumerate 0 (slots (fn_locals fn))) ls)"
proof (induction vm es arbitrary: es' ffs rule: enforce_entries.induct)
  case (2 vm fj l es)
  then show ?case by (cases "fj = fi") (auto simp: Let_def split: if_splits)
qed simp

lemma write_field_retained [simp]: "vm_retained (write_field k p v vm) = vm_retained vm"
  by (simp add: write_field_def split: option.split)

lemma fold_write_field_retained:
  "vm_retained (fold (\<lambda>(key, pos, v). write_field key pos v) ffs vm) = vm_retained vm"
  by (induction ffs arbitrary: vm) (auto simp: split_def)

text \<open>C23: after the engine's \<open>enforce_retained_locals\<close> every forced scalar local
  \<open>Program.local\<close> of a PROGRAM that has run holds its forced value, narrowed to the declared
  width, in the locals the next scan starts from.\<close>

theorem forced_local_enforced:
  assumes "enforce_retained_locals vm = Res vm'" "hm_get (vm_retained vm) fi = Some ls"
    "func_at vm fi = Res fn" "fn_kind fn = Pou_Program" "i < length (slots (fn_locals fn))"
    "i < length ls" "hm_get (vm_forced vm) (to_upper (fn_name fn @ ''.'' @ vs_name (slots (fn_locals fn) ! i)))
      = Some v"
  shows "fr_locals (entry_frame vm' fi fn) ! i =
    narrow_value v (vs_width (slots (fn_locals fn) ! i))"
proof -
  let ?es = "enumerate 0 (slots (fn_locals fn))"
  have "vm_forced vm \<noteq> []" using assms(7) by auto
  then obtain es' ffs where e: "enforce_entries vm (vm_retained vm) = Res (es', ffs)"
    "vm_retained vm' = es'"
    using assms(1) by (auto simp: enforce_retained_locals_def fold_write_field_retained)
  have "(i, slots (fn_locals fn) ! i) \<in> set ?es"
    using assms(5) by (auto simp: in_set_enumerate_eq)
  moreover have "forced_at vm [fn_name fn, vs_name (slots (fn_locals fn) ! i)] = Some v"
    using assms(7) by (simp add: forced_at_def)
  ultimately have "fold (enforce_slot vm fn) ?es ls ! i = narrow_value v (vs_width (slots (fn_locals fn) ! i))"
    using assms(6) by (intro fold_enforce_at) simp_all
  with enforce_entries_get [OF e(1) assms(2,3,4)] e(2) assms(4) show ?thesis
    by (simp add: entry_frame_def fresh_frame_def)
qed

theorem forced_local_enforced_witness:
  "\<exists>vm'. enforce_retained_locals (demo_vm\<lparr>vm_forced := [(''MAIN.SCANS'', V_Int 70000)],
       vm_retained := [(0, [V_Int 5, V_Void])]\<rparr>) = Res vm' \<and>
     fr_locals (entry_frame vm' 0 demo_main) ! 0 = V_Int 4464"
proof -
  let ?vm = "demo_vm\<lparr>vm_forced := [(''MAIN.SCANS'', V_Int 70000)],
       vm_retained := [(0, [V_Int 5, V_Void])]\<rparr>"
  have "\<exists>vm'. enforce_retained_locals ?vm = Res vm'"
    by (simp add: enforce_retained_locals_def func_at_def panic_simps demo_defs Let_def slot_field_forces_def)
  then obtain vm' where e: "enforce_retained_locals ?vm = Res vm'" by blast
  have "hm_get (vm_retained ?vm) 0 = Some [V_Int 5, V_Void]" by simp
  moreover have "func_at ?vm 0 = Res demo_main" "fn_kind demo_main = Pou_Program"
    by (simp_all add: func_at_def panic_simps demo_defs)
  moreover have "slots (fn_locals demo_main) ! 0 = int_slot ''scans'' I16" "0 < length (slots (fn_locals demo_main))"
    by (simp_all add: demo_defs)
  moreover have "to_upper ''Main.scans'' = ''MAIN.SCANS''" by code_simp
  then have "hm_get (vm_forced ?vm) (to_upper (fn_name demo_main @ ''.'' @ vs_name (int_slot ''scans'' I16)))
      = Some (V_Int 70000)" by (simp add: demo_defs)
  ultimately show ?thesis
    using forced_local_enforced [OF e, of 0 _ demo_main 0 "V_Int 70000"] e
    by (simp add: int_slot_def sext16_def)
qed

subsection \<open>Forcing a field of an instance\<close>

lemma find_index_dot: "CHR ''.'' \<notin> set a \<Longrightarrow> find_index (\<lambda>c. c = CHR ''.'') (a @ CHR ''.'' # b) = Some (length a)"
  by (induction a) auto

lemma split_dot_append: "CHR ''.'' \<notin> set a \<Longrightarrow> split_dot (a @ ''.'' @ b) = Some (a, b)"
  by (simp add: split_dot_def find_index_dot)

text \<open>Forcing a field \<open>Program.instance.field\<close> of a block whose layout has an expanded array
  writes the element at the field's index in the declaration, not at the position where the field is
  stored: the field itself keeps its value.\<close>

theorem force_field_misses_expanded:
  assumes "find_slot (md_globals (vm_module vm)) (p @ ''.'' @ inst @ ''.'' @ fld) = None"
    "CHR ''.'' \<notin> set p" "CHR ''.'' \<notin> set inst"
    "program_pos (vm_module vm) p = Some fi"
    "slot_pos (fn_locals (vm_functions vm ! fi)) inst = Some k"
    "vs_ty (slots (fn_locals (vm_functions vm ! fi)) ! k) = T_FbInstance fb" "func_at vm fb = Res fbf"
    "find_slot (fn_locals fbf) fld = Some (j, s)"
    "hm_get (vm_fb vm) (program_identity fi, of_nat k) = Some st" "unat j < length st"
    "expanded_index (fn_locals fbf) (unat j) \<noteq> unat j"
  shows "\<exists>vm' st'. force_variable (p @ ''.'' @ inst @ ''.'' @ fld) v vm = Res vm' \<and>
    hm_get (vm_fb vm') (program_identity fi, of_nat k) = Some st' \<and>
    st' ! unat j = narrow_value v (vs_width s) \<and>
    st' ! expanded_index (fn_locals fbf) (unat j) = st ! expanded_index (fn_locals fbf) (unat j)"
  using assms split_dot_append [OF assms(2), of "inst @ ''.'' @ fld"] split_dot_append [OF assms(3), of fld]
  by (simp add: force_variable_def force_local_def force_field_def write_field_def hm_get_insert
      func_at_def)

definition array_fb_module :: ir_module where
  "array_fb_module = \<lparr>md_functions =
     [demo_func ''Main'' Pou_Program 1 [] [fb_slot ''dev'' 1],
      demo_func ''Dev'' Pou_FunctionBlock 1 []
        [\<lparr>vs_name = ''regs'', vs_ty = T_Array 0, vs_offset = 0, vs_size = 3, vs_retain = False,
          vs_persistent = False, vs_width = W_None\<rparr>, (int_slot ''q'' I16)\<lparr>vs_offset := 3\<rparr>]],
     md_globals = \<lparr>slots = []\<rparr>, md_type_defs = [TD_Array T_Int [(0, 2)]],
     md_native_fb_indices = [1]\<rparr>"

theorem force_field_misses_expanded_witness:
  "\<exists>vm' st'. force_variable ''Main.dev.q'' (V_Int 7) ((vm_new array_fb_module default_vm_config)
       \<lparr>vm_fb := [((program_identity 0, 0), replicate 4 (V_Int 0))]\<rparr>) = Res vm' \<and>
     hm_get (vm_fb vm') (program_identity 0, 0) = Some st' \<and> st' ! 1 = V_Int 7 \<and> st' ! 3 = V_Int 0"
proof -
  let ?vm = "(vm_new array_fb_module default_vm_config)
       \<lparr>vm_fb := [((program_identity 0, 0), replicate 4 (V_Int 0))]\<rparr>"
  let ?dev = "md_functions array_fb_module ! 1"
  let ?ls = "[\<lparr>vs_name = ''regs'', vs_ty = T_Array 0, vs_offset = 0, vs_size = 3, vs_retain = False,
          vs_persistent = False, vs_width = W_None\<rparr>, (int_slot ''q'' I16)\<lparr>vs_offset := 3\<rparr>]"
  have "find_slot \<lparr>slots = ?ls\<rparr> ''q'' = Some (1, (int_slot ''q'' I16)\<lparr>vs_offset := 3\<rparr>)"
    "expanded_index \<lparr>slots = ?ls\<rparr> 1 = 3" "find_slot \<lparr>slots = []\<rparr> ''Main.dev.q'' = None"
    "slot_pos \<lparr>slots = [fb_slot ''dev'' 1]\<rparr> ''dev'' = Some 0" by code_simp+
  then have names: "find_slot (md_globals array_fb_module) ''Main.dev.q'' = None"
    "program_pos array_fb_module ''Main'' = Some 0"
    "slot_pos (fn_locals (md_functions array_fb_module ! 0)) ''dev'' = Some 0"
    "find_slot (fn_locals ?dev) ''q'' = Some (1, (int_slot ''q'' I16)\<lparr>vs_offset := 3\<rparr>)"
    "expanded_index (fn_locals ?dev) 1 = 3"
    "vs_ty (slots (fn_locals (md_functions array_fb_module ! 0)) ! 0) = T_FbInstance 1"
    "length (md_functions array_fb_module) = 2"
    by (simp_all add: array_fb_module_def demo_func_def program_pos_def fb_slot_def)
  show ?thesis
    using force_field_misses_expanded [of ?vm "''Main''" "''dev''" "''q''" 0 0 1 ?dev 1
        "(int_slot ''q'' I16)\<lparr>vs_offset := 3\<rparr>" "replicate 4 (V_Int 0)" "V_Int 7"] names
    by (simp add: vm_new_def func_at_def panic_simps int_slot_def sext16_def)
qed

end
