(* ===== verification/Online_Change.thy ===== *)
theory Online_Change
  imports Force
begin

section \<open>Online change: crates/st-engine/src/online_change.rs\<close>

text \<open>
  The analysis of a new module against the running one, the migration of variables by
  name, and the swap. The analysis threads four growing lists, as the code does; a
  \<open>HashMap\<close> collected from a list keeps the last entry of a key.
\<close>

datatype change_kind = Unchanged | CodeOnly | VarsAdded | LayoutChanged | New | Removed

record function_change =
  fc_name :: string
  fc_kind :: change_kind

record change_analysis =
  ca_compatible :: bool
  ca_changes :: "function_change list"
  ca_reasons :: "string list"
  ca_preserved :: "string list"
  ca_new :: "string list"
  ca_removed :: "string list"

subsection \<open>Comparing two versions of a function\<close>

definition same_var :: "var_slot \<Rightarrow> var_slot \<Rightarrow> bool" where
  "same_var a b \<longleftrightarrow> eq_ignore_ascii_case (vs_name a) (vs_name b) \<and> vs_ty a = vs_ty b"

definition compare_functions :: "func \<Rightarrow> func \<Rightarrow> change_kind" where
  "compare_functions old new =
     (let os = slots (fn_locals old); ns = slots (fn_locals new);
          layout_same = length os \<le> length ns \<and>
            list_all (\<lambda>(i, s). case vec_at ns i of None \<Rightarrow> False | Some s' \<Rightarrow> same_var s s')
              (enumerate 0 os)
      in if \<not> layout_same then
           (if list_all (\<lambda>s. list_ex (same_var s) ns) os \<and> length ns > length os
            then VarsAdded else LayoutChanged)
         else if length (fn_instructions old) \<noteq> length (fn_instructions new) then CodeOnly
         else if length ns > length os then VarsAdded else CodeOnly)"

subsection \<open>The analysis\<close>

definition dotted :: "string \<Rightarrow> string \<Rightarrow> string" where
  "dotted a b = a @ ''.'' @ b"

definition named :: "var_slot list \<Rightarrow> string \<Rightarrow> bool" where
  "named ss n \<longleftrightarrow> list_ex (\<lambda>s. eq_ignore_ascii_case (vs_name s) n) ss"

definition note_new_slot :: "func \<Rightarrow> func \<Rightarrow> var_slot \<Rightarrow> change_analysis \<Rightarrow> change_analysis" where
  "note_new_slot old new s a =
     (let name = dotted (fn_name new) (vs_name s); os = slots (fn_locals old) in
      if list_ex (\<lambda>o1. same_var o1 s) os then a\<lparr>ca_preserved := ca_preserved a @ [name]\<rparr>
      else if named os (vs_name s) then
        a\<lparr>ca_reasons := ca_reasons a @ [''Variable '' @ [CHR 0x27] @ name @ [CHR 0x27] @ '' changed type'']\<rparr>
      else a\<lparr>ca_new := ca_new a @ [name]\<rparr>)"

definition note_old_slot :: "func \<Rightarrow> func \<Rightarrow> var_slot \<Rightarrow> change_analysis \<Rightarrow> change_analysis" where
  "note_old_slot old new s a =
     (if \<not> named (slots (fn_locals new)) (vs_name s)
      then a\<lparr>ca_removed := ca_removed a @ [dotted (fn_name old) (vs_name s)]\<rparr> else a)"

definition func_by_key :: "ir_module \<Rightarrow> string \<Rightarrow> func option" where
  "func_by_key m key = map_of (rev (map (\<lambda>f. (to_upper (fn_name f), f)) (md_functions m))) key"

definition note_function :: "ir_module \<Rightarrow> func \<Rightarrow> change_analysis \<Rightarrow> change_analysis" where
  "note_function old_m new a =
     (case func_by_key old_m (to_upper (fn_name new)) of
        None \<Rightarrow> a\<lparr>ca_changes := ca_changes a @ [\<lparr>fc_name = fn_name new, fc_kind = New\<rparr>]\<rparr>
      | Some old \<Rightarrow>
          let change = compare_functions old new;
              a1 = (if fn_kind new = Pou_Program \<or> fn_kind new = Pou_FunctionBlock
                    then fold (note_old_slot old new) (slots (fn_locals old))
                           (fold (note_new_slot old new) (slots (fn_locals new)) a)
                    else a);
              a2 = (if change = LayoutChanged
                    then a1\<lparr>ca_reasons := ca_reasons a1 @
                      [''Function '' @ [CHR 0x27] @ fn_name new @ [CHR 0x27] @
                       '' has incompatible variable layout changes'']\<rparr>
                    else a1)
          in a2\<lparr>ca_changes := ca_changes a2 @ [\<lparr>fc_name = fn_name new, fc_kind = change\<rparr>]\<rparr>)"

definition note_removed :: "ir_module \<Rightarrow> func \<Rightarrow> change_analysis \<Rightarrow> change_analysis" where
  "note_removed new_m old a =
     (case func_by_key new_m (to_upper (fn_name old)) of
        Some _ \<Rightarrow> a
      | None \<Rightarrow>
          a\<lparr>ca_changes := ca_changes a @ [\<lparr>fc_name = fn_name old, fc_kind = Removed\<rparr>],
             ca_reasons := ca_reasons a @
               [''Function '' @ [CHR 0x27] @ fn_name old @ [CHR 0x27] @ '' was removed'']\<rparr>)"

definition note_new_global :: "memory_layout \<Rightarrow> var_slot \<Rightarrow> change_analysis \<Rightarrow> change_analysis" where
  "note_new_global old s a =
     (case find_slot old (vs_name s) of
        Some (_, o1) \<Rightarrow>
          if vs_ty o1 \<noteq> vs_ty s
          then a\<lparr>ca_reasons := ca_reasons a @
                 [''Global variable '' @ [CHR 0x27] @ vs_name s @ [CHR 0x27] @ '' changed type'']\<rparr>
          else a\<lparr>ca_preserved := ca_preserved a @ [dotted ''GLOBAL'' (vs_name s)]\<rparr>
      | None \<Rightarrow> a\<lparr>ca_new := ca_new a @ [dotted ''GLOBAL'' (vs_name s)]\<rparr>)"

definition note_old_global :: "memory_layout \<Rightarrow> var_slot \<Rightarrow> change_analysis \<Rightarrow> change_analysis" where
  "note_old_global new s a =
     (if \<not> named (slots new) (vs_name s)
      then a\<lparr>ca_removed := ca_removed a @ [dotted ''GLOBAL'' (vs_name s)]\<rparr> else a)"

definition check_globals_compat :: "ir_module \<Rightarrow> ir_module \<Rightarrow> change_analysis \<Rightarrow> change_analysis" where
  "check_globals_compat old new a =
     fold (note_old_global (md_globals new)) (slots (md_globals old))
       (fold (note_new_global (md_globals old)) (slots (md_globals new)) a)"

definition analyze_change :: "ir_module \<Rightarrow> ir_module \<Rightarrow> change_analysis" where
  "analyze_change old new =
     (let a0 = \<lparr>ca_compatible = True, ca_changes = [], ca_reasons = [], ca_preserved = [],
                 ca_new = [], ca_removed = []\<rparr>;
          a1 = fold (note_function old) (md_functions new) a0;
          a2 = fold (note_removed new) (md_functions old) a1;
          a3 = check_globals_compat old new a2
      in a3\<lparr>ca_compatible := (ca_reasons a3 = [])\<rparr>)"

subsection \<open>Migration and the swap\<close>

definition migrate_locals :: "val list \<Rightarrow> memory_layout \<Rightarrow> memory_layout \<Rightarrow> val list" where
  "migrate_locals old_locals old_layout new_layout =
     map (\<lambda>s. case find_slot old_layout (vs_name s) of
         None \<Rightarrow> default_for_type (vs_ty s)
       | Some (i, o1) \<Rightarrow>
           if vs_ty o1 = vs_ty s then
             (case vec_at old_locals (unat i) of Some v \<Rightarrow> v | None \<Rightarrow> default_for_type (vs_ty s))
           else default_for_type (vs_ty s)) (slots new_layout)"

definition migrate_change ::
  "vm \<Rightarrow> ir_module \<Rightarrow> function_change \<Rightarrow> (u16 \<times> val list) list \<Rightarrow> (u16 \<times> val list) list" where
  "migrate_change vm new_m c acc =
     (if fc_kind c = Unchanged then acc
      else case (find_function (vm_module vm) (fc_name c), find_function new_m (fc_name c)) of
        (Some (_, old_f), Some (new_idx, new_f)) \<Rightarrow>
          if fn_kind old_f = Pou_Program \<or> fn_kind old_f = Pou_FunctionBlock then
            (case get_retained_locals (fc_name c) vm of
               None \<Rightarrow> acc
             | Some ls \<Rightarrow> hm_insert new_idx (migrate_locals ls (fn_locals old_f) (fn_locals new_f)) acc)
          else acc
      | _ \<Rightarrow> acc)"

text \<open>\<open>(0..n).map(|i| vm.get_global(name of slot i))\<close>; the lookup may panic.\<close>

fun read_globals :: "vm \<Rightarrow> var_slot list \<Rightarrow> val list chk" where
  "read_globals vm [] = Res []"
| "read_globals vm (s # ss) =
     chk_bind (case get_global (vs_name s) vm of None \<Rightarrow> Res V_Void | Some c \<Rightarrow> c) (\<lambda>v.
     chk_bind (read_globals vm ss) (\<lambda>vs. Res (v # vs)))"

datatype apply_error = Incompatible "string list"

definition apply_online_change ::
  "vm \<Rightarrow> ir_module \<Rightarrow> change_analysis \<Rightarrow> (apply_error + vm) chk" where
  "apply_online_change vm new_m a =
     (if \<not> ca_compatible a then Res (Inl (Incompatible (ca_reasons a)))
      else
        let migrated = fold (migrate_change vm new_m) (ca_changes a) []
        in chk_bind (read_globals vm (slots (md_globals (vm_module vm)))) (\<lambda>old_globals.
             Res (Inr (swap_module new_m migrated
               (migrate_locals old_globals (md_globals (vm_module vm)) (md_globals new_m)) vm))))"

subsection \<open>Migration by name\<close>

definition names_distinct :: "memory_layout \<Rightarrow> bool" where
  "names_distinct l \<longleftrightarrow> distinct (map (\<lambda>s. to_upper (vs_name s)) (slots l)) \<and> length (slots l) \<le> 65536"

lemma length_migrate_locals [simp]: "length (migrate_locals ls old new) = length (slots new)"
  by (simp add: migrate_locals_def)

lemma find_index_first:
  "i < length xs \<Longrightarrow> p (xs ! i) \<Longrightarrow> (\<And>j. j < length xs \<Longrightarrow> p (xs ! j) \<Longrightarrow> j = i) \<Longrightarrow>
     find_index p xs = Some i"
proof -
  assume i: "i < length xs" "p (xs ! i)" and u: "\<And>j. j < length xs \<Longrightarrow> p (xs ! j) \<Longrightarrow> j = i"
  have "xs ! i \<in> set xs" using i(1) by simp
  with i(2) have "find_index p xs \<noteq> None" unfolding find_index_None_iff by blast
  then obtain k where k: "find_index p xs = Some k" by blast
  from find_index_SomeD [OF k] have "k = i" by (intro u) simp_all
  with k show ?thesis by simp
qed

lemma find_slot_distinct:
  assumes "names_distinct l" "j < length (slots l)" "eq_ignore_ascii_case (vs_name (slots l ! j)) n"
  shows "find_slot l n = Some (of_nat j, slots l ! j)"
proof -
  have uniq: "k = j" if "k < length (slots l)" "eq_ignore_ascii_case (vs_name (slots l ! k)) n" for k
  proof -
    have "map (\<lambda>s. to_upper (vs_name s)) (slots l) ! k = map (\<lambda>s. to_upper (vs_name s)) (slots l) ! j"
      using that assms by (simp add: eq_ignore_ascii_case_upper)
    with nth_eq_iff_index_eq [of "map (\<lambda>s. to_upper (vs_name s)) (slots l)" k j] show ?thesis
      using assms(1,2) that(1) by (simp add: names_distinct_def)
  qed
  have "slot_pos l n = Some j"
    unfolding slot_pos_def by (rule find_index_first, rule assms(2), rule assms(3), rule uniq)
  then show ?thesis by (simp add: find_slot_def)
qed

lemma migrate_locals_preserves:
  assumes "names_distinct old" "j < length (slots old)" "j < length ls" "i < length (slots new)"
    "same_var (slots old ! j) (slots new ! i)"
  shows "migrate_locals ls old new ! i = ls ! j"
proof -
  have "find_slot old (vs_name (slots new ! i)) = Some (of_nat j, slots old ! j)"
    using assms by (intro find_slot_distinct) (simp_all add: same_var_def)
  moreover have "j < 65536" using assms(1,2) by (simp add: names_distinct_def)
  ultimately show ?thesis
    using assms by (simp add: migrate_locals_def same_var_def vec_at_def)
qed

lemma migrate_locals_default:
  assumes "i < length (slots new)" "\<not> named (slots old) (vs_name (slots new ! i))"
  shows "migrate_locals ls old new ! i = default_for_type (vs_ty (slots new ! i))"
proof -
  have "find_slot old (vs_name (slots new ! i)) = None"
    using assms(2) by (simp add: find_slot_None_iff named_def list_ex_iff)
  with assms(1) show ?thesis by (simp add: migrate_locals_def)
qed

text \<open>C25: migrating a state to the layout it already has is the identity, when the names of the
  layout are distinct (ignoring case).\<close>

theorem migrate_same_layout:
  assumes "names_distinct l" "length ls = length (slots l)"
  shows "migrate_locals ls l l = ls"
proof (rule nth_equalityI)
  fix i assume "i < length (migrate_locals ls l l)"
  with assms show "migrate_locals ls l l ! i = ls ! i"
    by (intro migrate_locals_preserves) (simp_all add: same_var_def)
qed (use assms in simp)

theorem migrate_same_layout_witness:
  "migrate_locals [V_Int 4, V_Int 5] \<lparr>slots = [int_slot ''a'' I16, int_slot ''b'' I8]\<rparr>
     \<lparr>slots = [int_slot ''a'' I16, int_slot ''b'' I8]\<rparr> = [V_Int 4, V_Int 5]"
  by (rule migrate_same_layout) (simp_all add: names_distinct_def int_slot_def to_upper_def, code_simp)

subsection \<open>What the analysis establishes\<close>

lemma compare_not_layout_changed:
  assumes "compare_functions old new \<noteq> LayoutChanged" "s \<in> set (slots (fn_locals old))"
  shows "\<exists>s'\<in>set (slots (fn_locals new)). same_var s s'"
proof (cases "list_all (\<lambda>s. list_ex (same_var s) (slots (fn_locals new))) (slots (fn_locals old))")
  case True
  with assms(2) show ?thesis by (auto simp: list_all_iff list_ex_iff)
next
  case False
  with assms(1) have all: "list_all (\<lambda>(i, s). case vec_at (slots (fn_locals new)) i of
      None \<Rightarrow> False | Some s' \<Rightarrow> same_var s s') (enumerate 0 (slots (fn_locals old)))"
    by (auto simp: compare_functions_def Let_def split: if_splits)
  obtain i where "i < length (slots (fn_locals old))" "slots (fn_locals old) ! i = s"
    using assms(2) by (auto simp: in_set_conv_nth)
  then have "(i, s) \<in> set (enumerate 0 (slots (fn_locals old)))" by (auto simp: in_set_enumerate_eq)
  with all have "case vec_at (slots (fn_locals new)) i of None \<Rightarrow> False | Some s' \<Rightarrow> same_var s s'"
    by (auto simp: list_all_iff)
  then show ?thesis by (auto split: option.splits intro: nth_mem)
qed

text \<open>Reasons and recorded changes only accumulate.\<close>

definition extends :: "change_analysis \<Rightarrow> change_analysis \<Rightarrow> bool" where
  "extends a b \<longleftrightarrow> set (ca_reasons a) \<subseteq> set (ca_reasons b) \<and> set (ca_changes a) \<subseteq> set (ca_changes b)"

lemma extends_refl [simp, intro]: "extends a a"
  by (simp add: extends_def)

lemma extends_trans: "extends a b \<Longrightarrow> extends b c \<Longrightarrow> extends a c"
  by (auto simp: extends_def)

lemma fold_extends: "(\<And>x a. extends a (f x a)) \<Longrightarrow> extends a (fold f xs a)"
  by (induction xs arbitrary: a) (auto intro: extends_trans)

lemma note_slot_extends: "extends a (note_new_slot old new s a)" "extends a (note_old_slot old new s a)"
  by (auto simp: note_new_slot_def note_old_slot_def Let_def extends_def)

lemma note_function_split:
  assumes "func_by_key old_m (to_upper (fn_name new)) = Some old"
  shows "extends a (note_function old_m new a)"
    "\<lparr>fc_name = fn_name new, fc_kind = compare_functions old new\<rparr> \<in> set (ca_changes (note_function old_m new a))"
    "compare_functions old new = LayoutChanged \<Longrightarrow> ca_reasons (note_function old_m new a) \<noteq> []"
proof -
  let ?a1 = "if fn_kind new = Pou_Program \<or> fn_kind new = Pou_FunctionBlock
      then fold (note_old_slot old new) (slots (fn_locals old))
             (fold (note_new_slot old new) (slots (fn_locals new)) a) else a"
  have "extends a ?a1"
    by (auto intro!: extends_trans [OF fold_extends fold_extends] note_slot_extends)
  then show "extends a (note_function old_m new a)"
    "\<lparr>fc_name = fn_name new, fc_kind = compare_functions old new\<rparr> \<in> set (ca_changes (note_function old_m new a))"
    "compare_functions old new = LayoutChanged \<Longrightarrow> ca_reasons (note_function old_m new a) \<noteq> []"
    using assms by (auto simp: note_function_def Let_def extends_def)
qed

lemma note_function_extends: "extends a (note_function old_m new a)"
proof (cases "func_by_key old_m (to_upper (fn_name new))")
  case None
  then show ?thesis by (auto simp: note_function_def extends_def)
qed (rule note_function_split)

lemma note_rest_extends: "extends a (note_removed m f a)" "extends a (check_globals_compat old new a)"
proof -
  show "extends a (note_removed m f a)" by (auto simp: note_removed_def extends_def split: option.split)
  show "extends a (check_globals_compat old new a)"
    unfolding check_globals_compat_def
    by (rule extends_trans; rule fold_extends)
      (auto simp: note_new_global_def note_old_global_def extends_def split: option.split)
qed

lemma fold_extends_at:
  assumes "\<And>x a. extends a (f x a)" "x \<in> set xs"
  shows "\<exists>b. extends (f x b) (fold f xs a)"
proof -
  obtain ys zs where "xs = ys @ x # zs" using assms(2) by (auto simp: in_set_conv_decomp)
  then have "fold f xs a = fold f zs (f x (fold f ys a))" by simp
  then show ?thesis
    using fold_extends [where f = f, OF assms(1), of "f x (fold f ys a)" zs] by auto
qed

lemma analyze_compatible_iff: "ca_compatible (analyze_change old new) \<longleftrightarrow> ca_reasons (analyze_change old new) = []"
  by (simp add: analyze_change_def Let_def)

lemma analyze_includes:
  defines "a0 \<equiv> \<lparr>ca_compatible = True, ca_changes = [], ca_reasons = [], ca_preserved = [],
                 ca_new = [], ca_removed = []\<rparr>"
  shows "nf \<in> set (md_functions new) \<Longrightarrow> \<exists>b. extends (note_function old nf b) (analyze_change old new)"
    and "f \<in> set (md_functions old) \<Longrightarrow> \<exists>b. extends (note_removed new f b) (analyze_change old new)"
proof -
  let ?a1 = "fold (note_function old) (md_functions new) a0"
  let ?a2 = "fold (note_removed new) (md_functions old) ?a1"
  have c: "extends b (analyze_change old new)" if "extends b ?a2" for b
    using extends_trans [OF that note_rest_extends(2) [of ?a2 old new]]
    by (simp add: analyze_change_def Let_def extends_def a0_def)
  have "extends ?a1 ?a2" by (rule fold_extends) (rule note_rest_extends(1))
  with fold_extends_at [where f = "note_function old", OF note_function_extends, of nf "md_functions new" a0] c
  show "nf \<in> set (md_functions new) \<Longrightarrow> \<exists>b. extends (note_function old nf b) (analyze_change old new)"
    by (meson extends_trans)
  show "f \<in> set (md_functions old) \<Longrightarrow> \<exists>b. extends (note_removed new f b) (analyze_change old new)"
    using fold_extends_at [where f = "note_removed new", OF note_rest_extends(1), of f "md_functions old" ?a1] c
    by meson
qed

lemma func_by_key_SomeD:
  "func_by_key m key = Some f \<Longrightarrow> f \<in> set (md_functions m) \<and> to_upper (fn_name f) = key"
  by (auto simp: func_by_key_def dest!: map_of_SomeD)

lemma func_by_key_NoneD: "func_by_key m key = None \<Longrightarrow> f \<in> set (md_functions m) \<Longrightarrow> to_upper (fn_name f) \<noteq> key"
  by (auto simp: func_by_key_def map_of_eq_None_iff image_image)

definition functions_distinct :: "ir_module \<Rightarrow> bool" where
  "functions_distinct m \<longleftrightarrow>
     distinct (map (\<lambda>f. to_upper (fn_name f)) (md_functions m)) \<and> length (md_functions m) \<le> 65536"

lemma function_unique:
  assumes "functions_distinct m" "f \<in> set (md_functions m)" "g \<in> set (md_functions m)"
    "to_upper (fn_name f) = to_upper (fn_name g)"
  shows "f = g"
  using assms by (auto simp: functions_distinct_def distinct_map inj_on_def)

lemma find_function_in:
  assumes "f \<in> set (md_functions m)" "eq_ignore_ascii_case (fn_name f) n" "functions_distinct m"
  shows "\<exists>i. find_function m n = Some (i, f)"
proof -
  have "find_index (\<lambda>f. eq_ignore_ascii_case (fn_name f) n) (md_functions m) \<noteq> None"
    using assms(1,2) unfolding find_index_None_iff by blast
  then obtain i where i: "function_pos m n = Some i" by (auto simp: function_pos_def)
  from find_index_SomeD [OF i [unfolded function_pos_def]]
  have "i < length (md_functions m)" "eq_ignore_ascii_case (fn_name (md_functions m ! i)) n" by auto
  with assms(2) have "md_functions m ! i = f"
    by (intro function_unique [OF assms(3) _ assms(1)]) (simp_all add: eq_ignore_ascii_case_upper)
  with i show ?thesis by (simp add: find_function_def)
qed

lemma find_function_case:
  "eq_ignore_ascii_case a b \<Longrightarrow> find_function m a = find_function m b"
proof -
  assume "eq_ignore_ascii_case a b"
  then have "function_pos m a = function_pos m b"
    unfolding function_pos_def by (intro find_index_cong) (simp add: eq_ignore_ascii_case_def)
  then show ?thesis by (simp add: find_function_def)
qed

lemma compatible_matches:
  assumes "ca_compatible (analyze_change old new)" "functions_distinct old" "f \<in> set (md_functions old)"
  shows "\<exists>nf\<in>set (md_functions new). eq_ignore_ascii_case (fn_name f) (fn_name nf) \<and>
    compare_functions f nf \<noteq> LayoutChanged \<and>
    \<lparr>fc_name = fn_name nf, fc_kind = compare_functions f nf\<rparr> \<in> set (ca_changes (analyze_change old new))"
proof -
  have none: "ca_reasons (analyze_change old new) = []" using assms(1) by (simp add: analyze_compatible_iff)
  obtain b where "extends (note_removed new f b) (analyze_change old new)"
    using analyze_includes(2) [OF assms(3)] by blast
  with none have "func_by_key new (to_upper (fn_name f)) \<noteq> None"
    by (auto simp: note_removed_def extends_def split: option.splits)
  then obtain nf where nf: "nf \<in> set (md_functions new)" "to_upper (fn_name nf) = to_upper (fn_name f)"
    using func_by_key_SomeD by blast
  have "func_by_key old (to_upper (fn_name nf)) \<noteq> None"
    using func_by_key_NoneD [OF _ assms(3)] nf(2) by metis
  then obtain g where g: "func_by_key old (to_upper (fn_name nf)) = Some g" by blast
  from func_by_key_SomeD [OF g] nf(2) have "g = f"
    by (intro function_unique [OF assms(2) _ assms(3)]) simp_all
  with g have f: "func_by_key old (to_upper (fn_name nf)) = Some f" by simp
  obtain c where "extends (note_function old nf c) (analyze_change old new)"
    using analyze_includes(1) [OF nf(1)] by blast
  with note_function_split(2,3) [OF f, of c] none nf show ?thesis
    by (auto simp: extends_def eq_ignore_ascii_case_upper intro!: bexI [of _ nf])
qed


definition demo_main2 :: func where
  "demo_main2 = demo_func ''MAIN'' Pou_Program 1 []
     [int_slot ''limit'' I16, int_slot ''scans'' I16, fb_slot ''acc'' 2]"

definition demo_module2 :: ir_module where
  "demo_module2 = demo_module\<lparr>md_functions := [demo_main2, demo_twice, demo_acc]\<rparr>"

lemma to_upper_ascii [simp]:
  "to_upper ''Main'' = ''MAIN''" "to_upper ''MAIN'' = ''MAIN''" "to_upper ''Twice'' = ''TWICE''"
  "to_upper ''Acc'' = ''ACC''" "to_upper ''scans'' = ''SCANS''" "to_upper ''acc'' = ''ACC''"
  "to_upper ''limit'' = ''LIMIT''" "to_upper ''x'' = ''X''" "to_upper ''inp'' = ''INP''"
  "to_upper ''total'' = ''TOTAL''" "to_upper ''out'' = ''OUT''"
  by code_simp+

lemma demo_functions_distinct: "functions_distinct demo_module" "functions_distinct demo_module2"
  by (simp_all add: functions_distinct_def demo_defs demo_module2_def demo_main2_def)

lemmas analysis_defs = analyze_change_def note_function_def func_by_key_def compare_functions_def
  note_new_slot_def note_old_slot_def note_removed_def check_globals_compat_def note_new_global_def
  note_old_global_def named_def same_var_def find_slot_def slot_pos_def eq_ignore_ascii_case_upper
  Let_def vec_at_def

lemma demo_change_compatible: "ca_compatible (analyze_change demo_module demo_module2)"
  by (simp add: analysis_defs demo_defs demo_module2_def demo_main2_def)


subsection \<open>Applying the change\<close>

lemma apply_online_change_Inr:
  assumes "apply_online_change vm new_m a = Res (Inr vm')"
  shows "vm_module vm' = new_m \<and> vm_stack vm' = [] \<and> vm_fb vm' = vm_fb vm \<and>
    vm_forced vm' = vm_forced vm \<and> vm_forced_slots vm' = vm_forced_slots vm \<and> vm_conf vm' = vm_conf vm \<and>
    vm_retained vm' = fold (migrate_change vm new_m) (ca_changes a) [] \<and>
    (\<exists>gs. read_globals vm (slots (md_globals (vm_module vm))) = Res gs \<and>
      vm_globals vm' = migrate_locals gs (md_globals (vm_module vm)) (md_globals new_m))"
  using assms by (auto simp: apply_online_change_def swap_module_def Let_def split: if_splits)

lemma migrate_change_at:
  assumes "find_function (vm_module vm) (fc_name c) = Some (oi, f)"
    "find_function new_m (fc_name c) = Some (ni, nf)" "fn_kind f = Pou_Program"
    "hm_get (vm_retained vm) oi = Some ls" "fc_kind c \<noteq> Unchanged"
  shows "hm_get (migrate_change vm new_m c acc) ni = Some (migrate_locals ls (fn_locals f) (fn_locals nf))"
  using assms by (simp add: migrate_change_def get_retained_locals_def hm_get_insert)

lemma find_function_same_index:
  assumes "find_function m a = Some (i, f)" "find_function m b = Some (i, g)" "length (md_functions m) \<le> 65536"
  shows "eq_ignore_ascii_case a b"
proof -
  have "f = g" using find_function_nth [OF assms(3)] assms(1,2) by blast
  moreover have "eq_ignore_ascii_case (fn_name f) a" "eq_ignore_ascii_case (fn_name g) b"
    using assms find_function_SomeD by blast+
  ultimately show ?thesis
    using eq_ignore_ascii_case_sym eq_ignore_ascii_case_trans by blast
qed

text \<open>Any other change writes another key, or the same locals again.\<close>

lemma migrate_change_other:
  assumes "find_function (vm_module vm) n = Some (oi, f)" "find_function new_m n = Some (ni, nf)"
    "fn_kind f = Pou_Program" "hm_get (vm_retained vm) oi = Some ls" "length (md_functions new_m) \<le> 65536"
    "hm_get acc ni = Some (migrate_locals ls (fn_locals f) (fn_locals nf))"
  shows "hm_get (migrate_change vm new_m c acc) ni = Some (migrate_locals ls (fn_locals f) (fn_locals nf))"
proof (cases "eq_ignore_ascii_case n (fc_name c)")
  case True
  then have "find_function m (fc_name c) = find_function m n" for m using find_function_case by metis
  with assms show ?thesis
    by (simp add: migrate_change_def get_retained_locals_def hm_get_insert)
next
  case False
  then have "find_function new_m (fc_name c) = Some (k, g) \<Longrightarrow> k \<noteq> ni" for k g
    using find_function_same_index [OF assms(2) _ assms(5)] by blast
  with assms(6) show ?thesis
    by (auto simp: migrate_change_def hm_get_insert split: option.split)
qed

lemma fold_migrate_other:
  assumes "find_function (vm_module vm) n = Some (oi, f)" "find_function new_m n = Some (ni, nf)"
    "fn_kind f = Pou_Program" "hm_get (vm_retained vm) oi = Some ls" "length (md_functions new_m) \<le> 65536"
    "hm_get acc ni = Some (migrate_locals ls (fn_locals f) (fn_locals nf))"
  shows "hm_get (fold (migrate_change vm new_m) cs acc) ni = Some (migrate_locals ls (fn_locals f) (fn_locals nf))"
  using assms(6) by (induction cs arbitrary: acc) (simp_all add: migrate_change_other [OF assms(1-5)])

lemma compare_never_unchanged: "compare_functions old new \<noteq> Unchanged"
  by (auto simp: compare_functions_def Let_def)

lemma online_change_migrates:
  assumes "a = analyze_change (vm_module vm) new_m" "ca_compatible a"
    "apply_online_change vm new_m a = Res (Inr vm')"
    "functions_distinct (vm_module vm)" "functions_distinct new_m"
    "find_function (vm_module vm) name = Some (oi, f)" "fn_kind f = Pou_Program"
    "hm_get (vm_retained vm) oi = Some ls"
  shows "\<exists>ni nf. find_function new_m name = Some (ni, nf) \<and> compare_functions f nf \<noteq> LayoutChanged \<and>
    hm_get (vm_retained vm') ni = Some (migrate_locals ls (fn_locals f) (fn_locals nf))"
proof -
  have f: "f \<in> set (vm_functions vm)" "eq_ignore_ascii_case (fn_name f) name"
    using find_function_SomeD [OF assms(6)] by auto
  obtain nf where nf: "nf \<in> set (md_functions new_m)" "eq_ignore_ascii_case (fn_name f) (fn_name nf)"
    "compare_functions f nf \<noteq> LayoutChanged"
    "\<lparr>fc_name = fn_name nf, fc_kind = compare_functions f nf\<rparr> \<in> set (ca_changes a)"
    using compatible_matches [OF assms(2) [unfolded assms(1)] assms(4) f(1)] assms(1) by blast
  have eq: "eq_ignore_ascii_case name (fn_name nf)" "eq_ignore_ascii_case (fn_name nf) name"
    using f(2) nf(2) eq_ignore_ascii_case_sym eq_ignore_ascii_case_trans by blast+
  obtain ni where ni: "find_function new_m name = Some (ni, nf)"
    using find_function_in [OF nf(1) eq(2) assms(5)] by blast
  let ?c = "\<lparr>fc_name = fn_name nf, fc_kind = compare_functions f nf\<rparr>"
  obtain as bs where cs: "ca_changes a = as @ ?c # bs" using nf(4) by (auto simp: in_set_conv_decomp)
  have "find_function (vm_module vm) (fc_name ?c) = Some (oi, f)" "find_function new_m (fc_name ?c) = Some (ni, nf)"
    using assms(6) ni find_function_case [OF eq(1)] by simp_all
  from migrate_change_at [OF this assms(7,8)]
  have "hm_get (migrate_change vm new_m ?c (fold (migrate_change vm new_m) as [])) ni =
      Some (migrate_locals ls (fn_locals f) (fn_locals nf))"
    by (simp add: compare_never_unchanged)
  from fold_migrate_other [OF assms(6) ni assms(7,8) _ this, of bs] assms(5)
  have "hm_get (fold (migrate_change vm new_m) (ca_changes a) []) ni =
      Some (migrate_locals ls (fn_locals f) (fn_locals nf))"
    by (simp add: cs functions_distinct_def)
  with ni nf(3) apply_online_change_Inr [OF assms(3)] show ?thesis by simp
qed


definition demo_running :: vm where
  "demo_running = demo_vm\<lparr>vm_retained := [(0, [V_Int 41, V_Void])],
     vm_fb := [((program_identity 0, 1), [V_Int 3, V_Int 99])]\<rparr>"

lemma demo_running_facts:
  "vm_module demo_running = demo_module" "hm_get (vm_retained demo_running) 0 = Some [V_Int 41, V_Void]"
  "fn_kind demo_main = Pou_Program" "fn_locals demo_main = \<lparr>slots = [int_slot ''scans'' I16, fb_slot ''acc'' 2]\<rparr>"
  "vm_globals demo_running = [V_Int 0]"
  by (simp_all add: demo_running_def demo_vm_def vm_new_def demo_defs default_locals_def)

lemma demo_apply:
  "\<exists>vm'. apply_online_change demo_running demo_module2 (analyze_change demo_module demo_module2) = Res (Inr vm')"
proof -
  have "find_slot \<lparr>slots = [int_slot ''out'' I8]\<rparr> ''out'' = Some (0, int_slot ''out'' I8)" by code_simp
  then have "find_slot (md_globals demo_module) ''out'' = Some (0, int_slot ''out'' I8)"
    by (simp add: demo_module_def)
  moreover have "slots (md_globals demo_module) = [int_slot ''out'' I8]" "vs_name (int_slot ''out'' I8) = ''out''"
    by (simp_all add: demo_module_def int_slot_def)
  ultimately show ?thesis
    using demo_change_compatible
    by (simp add: apply_online_change_def demo_running_facts get_global_def panic_simps Let_def)
qed


subsection \<open>The invariant survives the swap\<close>

lemma val_ok_mono: "val_ok n v \<Longrightarrow> n \<le> k \<Longrightarrow> val_ok k v"
  by (cases v) auto

lemma vals_ok_mono: "vals_ok n vs \<Longrightarrow> n \<le> k \<Longrightarrow> vals_ok k vs"
  by (auto simp: list_all_iff intro: val_ok_mono)

lemma migrate_locals_ok: "vals_ok n ls \<Longrightarrow> vals_ok n (migrate_locals ls old new)"
  by (auto simp: migrate_locals_def list_all_iff vec_at_def split: option.split)

lemma read_globals_ok:
  "vm_ok vm \<Longrightarrow> read_globals vm ss = Res gs \<Longrightarrow> vals_ok (gcount vm) gs"
proof (induction ss arbitrary: gs)
  case (Cons s ss)
  have "val_ok (gcount vm) v"
    if "(case get_global (vs_name s) vm of None \<Rightarrow> Res V_Void | Some c \<Rightarrow> c) = Res v" for v
    using that Cons.prems(1)
    by (auto simp: get_global_def vm_ok_global_nth split: option.splits)
  with Cons show ?case by auto
qed simp

lemma fold_invariant: "(\<And>x a. P a \<Longrightarrow> P (f x a)) \<Longrightarrow> P a \<Longrightarrow> P (fold f xs a)"
  by (induction xs arbitrary: a) auto

lemma migrate_change_ok:
  assumes "vm_ok vm" "length (md_functions new_m) \<le> 65536" "gcount vm \<le> global_count new_m"
    "list_all (retained_ok new_m) acc"
  shows "list_all (retained_ok new_m) (migrate_change vm new_m c acc)"
proof -
  have "retained_ok new_m (ni, migrate_locals ls l (fn_locals nf))"
    if "find_function new_m (fc_name c) = Some (ni, nf)" "get_retained_locals (fc_name c) vm = Some ls" for ni nf ls l
  proof -
    have "vals_ok (gcount vm) ls"
      using that(2) assms(1)
      by (auto simp: get_retained_locals_def vm_ok_def retained_ok_def dest: list_all_hm_get split: option.splits)
    then show ?thesis
      using that(1) find_function_SomeD [OF that(1)] find_function_nth [OF assms(2) that(1)] assms(3)
      by (auto simp: retained_ok_def intro: migrate_locals_ok vals_ok_mono)
  qed
  with assms(4) show ?thesis
    by (auto simp: migrate_change_def list_all_hm_insert split: option.split)
qed

text \<open>C21: swapping in a well-formed module with at least as many globals keeps the machine's
  invariant: the next scan runs as safely as before the change.\<close>

theorem online_change_safe:
  assumes "vm_ok vm" "module_ok new_m" "length (md_functions new_m) \<le> 65536"
    "global_count (vm_module vm) \<le> global_count new_m"
    "apply_online_change vm new_m a = Res (Inr vm')"
  shows "vm_ok vm' \<and> vm_module vm' = new_m"
proof -
  note r = apply_online_change_Inr [OF assms(5)]
  obtain gs where gs: "read_globals vm (slots (md_globals (vm_module vm))) = Res gs"
    "vm_globals vm' = migrate_locals gs (md_globals (vm_module vm)) (md_globals new_m)"
    using r by blast
  have g: "vals_ok (global_count new_m) (vm_globals vm')"
    using migrate_locals_ok [OF read_globals_ok [OF assms(1) gs(1)]] gs(2) vals_ok_mono assms(4) by metis
  have ret: "list_all (retained_ok new_m) (vm_retained vm')"
    unfolding r [THEN conjunct2, THEN conjunct2, THEN conjunct2, THEN conjunct2, THEN conjunct2,
        THEN conjunct2, THEN conjunct1]
    by (rule fold_invariant) (simp_all add: migrate_change_ok [OF assms(1,3,4)])
  have "list_all (fb_ok new_m) (vm_fb vm)" "list_all (\<lambda>e. val_ok (global_count new_m) (snd e)) (vm_forced vm)"
    using assms(1) by (auto simp: vm_ok_def fb_ok_def elim!: list.pred_mono_strong
        intro: vals_ok_mono [OF _ assms(4)] val_ok_mono [OF _ assms(4)])
  moreover have "length (vm_globals vm') = global_count new_m" using gs(2) by (simp add: global_count_def)
  ultimately show ?thesis using r g ret assms(1,2) by (simp add: vm_ok_def)
qed

lemma demo_module2_ok: "module_ok demo_module2"
  by (simp add: demo_defs demo_module2_def demo_main2_def module_ok_def func_ok_def instr_ok_def
      instr_regs_def operands_ok_def reg_count_def global_count_def)

theorem online_change_safe_witness:
  "\<exists>vm'. apply_online_change demo_vm demo_module2 (analyze_change demo_module demo_module2) = Res (Inr vm') \<and>
     vm_ok vm'"
proof -
  have "find_slot \<lparr>slots = [int_slot ''out'' I8]\<rparr> ''out'' = Some (0, int_slot ''out'' I8)" by code_simp
  then have "find_slot (md_globals demo_module) ''out'' = Some (0, int_slot ''out'' I8)"
    by (simp add: demo_module_def)
  moreover have "slots (md_globals demo_module) = [int_slot ''out'' I8]" "vs_name (int_slot ''out'' I8) = ''out''"
    "vm_globals demo_vm = [V_Int 0]"
    by (simp_all add: demo_defs demo_vm_def vm_new_def default_locals_def)
  ultimately obtain vm' where a: "apply_online_change demo_vm demo_module2
      (analyze_change demo_module demo_module2) = Res (Inr vm')"
    using demo_change_compatible
    by (simp add: apply_online_change_def get_global_def panic_simps Let_def)
  have "global_count demo_module \<le> global_count demo_module2" "length (md_functions demo_module2) \<le> 65536"
    by (simp_all add: demo_defs demo_module2_def global_count_def)
  with online_change_safe [OF demo_vm_ok demo_module2_ok _ _ a] a show ?thesis by simp
qed

subsection \<open>What the swap does not migrate\<close>


text \<open>Forced slots survive the swap by number: when another variable takes the slot of a forced
  global, every write to it by name is dropped although it was never forced.\<close>

theorem stale_force_drops_writes:
  assumes "apply_online_change vm new_m a = Res (Inr vm')" "slot \<in> vm_forced_slots vm"
    "find_slot (md_globals new_m) name = Some (slot, s)"
  shows "set_global name v vm' = Res vm'"
  using apply_online_change_Inr [OF assms(1)] assms(2,3) by (simp add: set_global_def)

theorem stale_force_drops_writes_witness:
  "\<exists>vm'. apply_online_change (demo_running\<lparr>vm_forced_slots := {0}\<rparr>)
       (demo_module2\<lparr>md_globals := \<lparr>slots = [int_slot ''other'' I16]\<rparr>\<rparr>)
       \<lparr>ca_compatible = True, ca_changes = [], ca_reasons = [], ca_preserved = [], ca_new = [], ca_removed = []\<rparr>
       = Res (Inr vm') \<and> set_global ''other'' (V_Int 5) vm' = Res vm'"
proof -
  let ?m = "demo_module2\<lparr>md_globals := \<lparr>slots = [int_slot ''other'' I16]\<rparr>\<rparr>"
  let ?vm = "demo_running\<lparr>vm_forced_slots := {0}\<rparr>"
  let ?a = "\<lparr>ca_compatible = True, ca_changes = [], ca_reasons = [], ca_preserved = [], ca_new = [], ca_removed = []\<rparr>"
  have "find_slot \<lparr>slots = [int_slot ''out'' I8]\<rparr> ''out'' = Some (0, int_slot ''out'' I8)"
    "find_slot \<lparr>slots = [int_slot ''other'' I16]\<rparr> ''other'' = Some (0, int_slot ''other'' I16)" by code_simp+
  then have f: "find_slot (md_globals demo_module) ''out'' = Some (0, int_slot ''out'' I8)"
    "find_slot (md_globals ?m) ''other'' = Some (0, int_slot ''other'' I16)"
    by (simp_all add: demo_module_def)
  have "slots (md_globals demo_module) = [int_slot ''out'' I8]" "vs_name (int_slot ''out'' I8) = ''out''"
    by (simp_all add: demo_module_def int_slot_def)
  with f(1) obtain vm' where a: "apply_online_change ?vm ?m ?a = Res (Inr vm')"
    by (simp add: apply_online_change_def demo_running_facts get_global_def panic_simps Let_def)
  from stale_force_drops_writes [OF a _ f(2)] a show ?thesis by simp
qed

end
