(* ===== verification/Retain_Store.thy ===== *)
theory Retain_Store
  imports Online_Change
begin

section \<open>The retain store: crates/st-engine/src/retain_store.rs\<close>

text \<open>
  Capturing the RETAIN and PERSISTENT variables of a machine into a snapshot and restoring
  a snapshot into a machine. The clock value of the snapshot is an argument; writing the
  snapshot to disk and reading it back is left to the file system. Iteration over a
  \<open>HashMap\<close> follows its association list.
\<close>

primrec chk_fold :: "('x \<Rightarrow> 'a \<Rightarrow> 'a chk) \<Rightarrow> 'x list \<Rightarrow> 'a \<Rightarrow> 'a chk" where
  "chk_fold f [] a = Res a"
| "chk_fold f (x # xs) a = chk_bind (f x a) (chk_fold f xs)"

record retain_entry =
  re_value :: val
  re_retain :: bool
  re_persistent :: bool

type_synonym entries = "(string, retain_entry) hashmap"

record retain_snapshot =
  rs_version :: nat
  rs_created_at :: nat
  rs_globals :: entries
  rs_program_locals :: "(string, entries) hashmap"
  rs_instance_fields :: "(string, (string, entries) hashmap) hashmap"

definition entry_of :: "val \<Rightarrow> var_slot \<Rightarrow> retain_entry" where
  "entry_of v s = \<lparr>re_value = v, re_retain = vs_retain s, re_persistent = vs_persistent s\<rparr>"

definition retainable :: "var_slot \<Rightarrow> bool" where
  "retainable s \<longleftrightarrow> vs_retain s \<or> vs_persistent s"

fun is_composite :: "var_type \<Rightarrow> bool" where
  "is_composite (T_FbInstance _) = True"
| "is_composite (T_ClassInstance _) = True"
| "is_composite (T_Struct _) = True"
| "is_composite (T_Array _) = True"
| "is_composite _ = False"

subsection \<open>Capture\<close>

text \<open>The scalar fields of an instance, read at their index; a missing one has its default.\<close>

definition capture_fields :: "vm \<Rightarrow> fb_key \<Rightarrow> var_slot \<Rightarrow> var_slot list \<Rightarrow> entries" where
  "capture_fields vm key s fs =
     fold (\<lambda>(j, f) acc.
       if is_composite (vs_ty f) then acc
       else let v = (case hm_get (vm_fb vm) key of
                       None \<Rightarrow> default_for_type (vs_ty f)
                     | Some st \<Rightarrow> (case vec_at st j of None \<Rightarrow> default_for_type (vs_ty f) | Some x \<Rightarrow> x))
            in hm_insert (vs_name f) (entry_of v s) acc) (enumerate 0 fs) []"

definition capture_instance_fields :: "vm \<Rightarrow> u16 \<Rightarrow> fb_key \<Rightarrow> var_slot \<Rightarrow> entries option" where
  "capture_instance_fields vm td key s =
     (case struct_type_fields (vm_module vm) td of
        None \<Rightarrow> None
      | Some (_, fs) \<Rightarrow>
          let r = capture_fields vm key s fs in if r = [] then None else Some r)"

definition capture_globals :: "vm \<Rightarrow> entries" where
  "capture_globals vm =
     fold (\<lambda>(i, s) acc.
       if \<not> retainable s then acc
       else hm_insert (vs_name s)
              (entry_of (case vec_at (vm_globals vm) i of None \<Rightarrow> V_Void | Some v \<Rightarrow> v) s) acc)
       (enumerate 0 (slots (md_globals (vm_module vm)))) []"

type_synonym instances = "(string, (string, entries) hashmap) hashmap"

definition add_instance :: "string \<Rightarrow> string \<Rightarrow> entries \<Rightarrow> instances \<Rightarrow> instances" where
  "add_instance prog inst fs m =
     hm_insert prog (hm_insert inst fs (case hm_get m prog of None \<Rightarrow> [] | Some x \<Rightarrow> x)) m"

definition capture_slot ::
  "vm \<Rightarrow> u16 \<Rightarrow> func \<Rightarrow> val list \<Rightarrow> nat \<times> var_slot \<Rightarrow> entries \<times> instances \<Rightarrow> (entries \<times> instances) chk" where
  "capture_slot vm fi fn ls e acc =
     (case (e, acc) of ((j, s), (vars, inst)) \<Rightarrow>
        if \<not> retainable s then Res (vars, inst)
        else let key = (program_identity (unat fi), of_nat j) in
          (case vs_ty s of
             T_Struct td \<Rightarrow>
               Res (case capture_instance_fields vm td key s of
                      None \<Rightarrow> (vars, inst)
                    | Some fs \<Rightarrow> (vars, add_instance (fn_name fn) (vs_name s) fs inst))
           | T_FbInstance fb \<Rightarrow>
               chk_bind (func_at vm fb) (\<lambda>fbf.
                 let fs = capture_fields vm key s (slots (fn_locals fbf))
                 in Res (if fs = [] then (vars, inst)
                         else (vars, add_instance (fn_name fn) (vs_name s) fs inst)))
           | T_ClassInstance _ \<Rightarrow> Res (vars, inst)
           | T_Array _ \<Rightarrow> Res (vars, inst)
           | _ \<Rightarrow>
               Res (hm_insert (vs_name s)
                      (entry_of (case vec_at ls j of None \<Rightarrow> V_Void | Some v \<Rightarrow> v) s) vars, inst)))"

definition capture_program ::
  "vm \<Rightarrow> u16 \<times> val list \<Rightarrow> (string, entries) hashmap \<times> instances
     \<Rightarrow> ((string, entries) hashmap \<times> instances) chk" where
  "capture_program vm e acc =
     (case (e, acc) of ((fi, ls), (progs, inst)) \<Rightarrow>
        chk_bind (func_at vm fi) (\<lambda>fn.
        if fn_kind fn \<noteq> Pou_Program then Res (progs, inst)
        else chk_bind (chk_fold (capture_slot vm fi fn ls) (enumerate 0 (slots (fn_locals fn))) ([], inst))
          (\<lambda>(vars, inst'). Res (if vars = [] then progs else hm_insert (fn_name fn) vars progs, inst'))))"

definition capture_snapshot :: "nat \<Rightarrow> vm \<Rightarrow> retain_snapshot chk" where
  "capture_snapshot now vm =
     chk_bind (chk_fold (capture_program vm) (vm_retained vm) ([], [])) (\<lambda>(progs, inst).
       Res \<lparr>rs_version = 1, rs_created_at = now, rs_globals = capture_globals vm,
            rs_program_locals = progs, rs_instance_fields = inst\<rparr>)"

subsection \<open>Restore\<close>

fun is_compatible :: "val \<Rightarrow> var_type \<Rightarrow> bool" where
  "is_compatible (V_Bool _) T_Bool = True"
| "is_compatible (V_Int _) T_Int = True"
| "is_compatible (V_UInt _) T_UInt = True"
| "is_compatible (V_Real _) T_Real = True"
| "is_compatible (V_String _) T_String = True"
| "is_compatible (V_Time _) T_Time = True"
| "is_compatible _ _ = False"

definition dominated :: "bool \<Rightarrow> retain_entry \<Rightarrow> bool" where
  "dominated warm e = (if warm then re_retain e else re_persistent e)"

text \<open>Names are compared exactly here, not ignoring case.\<close>

definition named_pos :: "string \<Rightarrow> var_slot list \<Rightarrow> nat option" where
  "named_pos n ss = find_index (\<lambda>s. vs_name s = n) ss"

datatype warning = Type_Mismatch "string list" | No_Longer_Exists "string list" | Not_Instance "string list"

definition restore_global ::
  "bool \<Rightarrow> string \<times> retain_entry \<Rightarrow> vm \<times> warning list \<Rightarrow> vm \<times> warning list" where
  "restore_global warm e acc =
     (case (e, acc) of ((name, entry), (vm, ws)) \<Rightarrow>
        if \<not> dominated warm entry then (vm, ws)
        else case named_pos name (slots (md_globals (vm_module vm))) of
          None \<Rightarrow> (vm, ws @ [No_Longer_Exists [name]])
        | Some i \<Rightarrow>
            if is_compatible (re_value entry) (vs_ty (slots (md_globals (vm_module vm)) ! i))
            then (set_global_unchecked (of_nat i) (re_value entry) vm, ws)
            else (vm, ws @ [Type_Mismatch [name]]))"

definition carry_over :: "val list option \<Rightarrow> val list \<Rightarrow> val list" where
  "carry_over existing defaults =
     (case existing of
        None \<Rightarrow> defaults
      | Some vs \<Rightarrow> copy_prefix (min (length vs) (length defaults)) vs defaults)"

text \<open>One entry into a list of values laid out by slots; the path names it in a warning.\<close>

definition restore_value ::
  "string list \<Rightarrow> var_slot list \<Rightarrow> string \<times> retain_entry \<Rightarrow> val list \<times> warning list
     \<Rightarrow> val list \<times> warning list" where
  "restore_value path ss e acc =
     (case (e, acc) of ((name, entry), (ls, ws)) \<Rightarrow>
        (case named_pos name ss of
           None \<Rightarrow> (ls, ws @ [No_Longer_Exists (path @ [name])])
         | Some i \<Rightarrow>
             if is_compatible (re_value entry) (vs_ty (ss ! i)) then (ls[i := re_value entry], ws)
             else (ls, ws @ [Type_Mismatch (path @ [name])])))"

definition programs :: "ir_module \<Rightarrow> (nat \<times> func) list" where
  "programs m = filter (\<lambda>(_, f). fn_kind f = Pou_Program) (enumerate 0 (md_functions m))"

definition program_named :: "ir_module \<Rightarrow> string \<Rightarrow> (nat \<times> func) option" where
  "program_named m n = find (\<lambda>(_, f). fn_name f = n) (programs m)"

definition restore_program ::
  "bool \<Rightarrow> string \<times> entries \<Rightarrow> vm \<times> warning list \<Rightarrow> vm \<times> warning list" where
  "restore_program warm e acc =
     (case (e, acc) of ((prog, vars), (vm, ws)) \<Rightarrow>
        (case program_named (vm_module vm) prog of
           None \<Rightarrow> (vm, ws)
         | Some (fi, fn) \<Rightarrow>
             let start = carry_over (hm_get (vm_retained vm) (of_nat fi)) (default_locals (fn_locals fn));
                 (ls, ws') = fold (\<lambda>e acc. if dominated warm (snd e)
                                 then restore_value [prog] (slots (fn_locals fn)) e acc else acc)
                               vars (start, ws)
             in (set_retained_locals (of_nat fi) ls vm, ws')))"

text \<open>The warm/cold filter of an instance looks at one of its fields: the first of the map.\<close>

definition restore_fields ::
  "string list \<Rightarrow> fb_key \<Rightarrow> var_slot list \<Rightarrow> entries \<Rightarrow> vm \<times> warning list \<Rightarrow> vm \<times> warning list" where
  "restore_fields path key ss fs acc =
     (case acc of (vm, ws) \<Rightarrow>
        let start = carry_over (hm_get (vm_fb vm) key) (map (\<lambda>s. default_for_type (vs_ty s)) ss);
            (st, ws') = fold (restore_value path ss) fs (start, ws)
        in (set_fb_instance key st vm, ws'))"

definition restore_instance ::
  "bool \<Rightarrow> string \<Rightarrow> nat \<times> func \<Rightarrow> string \<times> entries \<Rightarrow> vm \<times> warning list \<Rightarrow> (vm \<times> warning list) chk" where
  "restore_instance warm prog pf e acc =
     (case (pf, e, acc) of ((fi, fn), (inst, fs), (vm, ws)) \<Rightarrow>
        if \<not> (case fs of [] \<Rightarrow> False | (_, entry) # _ \<Rightarrow> dominated warm entry) then Res (vm, ws)
        else case named_pos inst (slots (fn_locals fn)) of
          None \<Rightarrow> Res (vm, ws @ [No_Longer_Exists [prog, inst]])
        | Some j \<Rightarrow>
            let key = (program_identity (unat (of_nat fi :: u16)), of_nat j) in
            (case vs_ty (slots (fn_locals fn) ! j) of
               T_Struct td \<Rightarrow>
                 Res (case struct_type_fields (vm_module vm) td of
                        None \<Rightarrow> (vm, ws)
                      | Some (_, ss) \<Rightarrow> restore_fields [prog, inst] key ss fs (vm, ws))
             | T_FbInstance fb \<Rightarrow>
                 chk_bind (func_at vm fb) (\<lambda>fbf.
                   Res (restore_fields [prog, inst] key (slots (fn_locals fbf)) fs (vm, ws)))
             | _ \<Rightarrow> Res (vm, ws @ [Not_Instance [prog, inst]])))"

definition restore_instances ::
  "bool \<Rightarrow> string \<times> (string, entries) hashmap \<Rightarrow> vm \<times> warning list \<Rightarrow> (vm \<times> warning list) chk" where
  "restore_instances warm e acc =
     (case (e, acc) of ((prog, insts), (vm, ws)) \<Rightarrow>
        (case program_named (vm_module vm) prog of
           None \<Rightarrow> Res (vm, ws)
         | Some pf \<Rightarrow> chk_fold (restore_instance warm prog pf) insts (vm, ws)))"

definition restore_snapshot :: "vm \<Rightarrow> retain_snapshot \<Rightarrow> bool \<Rightarrow> (vm \<times> warning list) chk" where
  "restore_snapshot vm snap warm =
     (let acc1 = fold (restore_global warm) (rs_globals snap) (vm, []);
          acc2 = fold (restore_program warm) (rs_program_locals snap) acc1
      in chk_fold (restore_instances warm) (rs_instance_fields snap) acc2)"

subsection \<open>Globals\<close>

definition exact_names :: "var_slot list \<Rightarrow> bool" where
  "exact_names ss \<longleftrightarrow> distinct (map vs_name ss) \<and> length ss \<le> 65536"

lemma named_pos_nth:
  assumes "exact_names ss" "i < length ss"
  shows "named_pos (vs_name (ss ! i)) ss = Some i"
proof -
  have uniq: "j = i" if "j < length ss" "vs_name (ss ! j) = vs_name (ss ! i)" for j
    using nth_eq_iff_index_eq [of "map vs_name ss" j i] that assms by (simp add: exact_names_def)
  show ?thesis
    unfolding named_pos_def by (rule find_index_first, rule assms(2), rule refl, rule uniq)
qed

lemma named_pos_SomeD: "named_pos n ss = Some i \<Longrightarrow> i < length ss \<and> vs_name (ss ! i) = n"
  unfolding named_pos_def using find_index_SomeD [of "\<lambda>s. vs_name s = n" ss i] by blast

lemma fold_insert_get:
  assumes "distinct (map fst es)"
  shows "hm_get (fold (\<lambda>(k, v) acc. hm_insert k v acc) es acc) n =
    (case map_of es n of None \<Rightarrow> hm_get acc n | Some v \<Rightarrow> Some v)"
  using assms
proof (induction es arbitrary: acc)
  case (Cons e es)
  obtain k v where e: "e = (k, v)" by force
  with Cons.prems have "map_of es k = None" by (simp add: map_of_eq_None_iff)
  with Cons e show ?case by (auto simp: hm_get_insert split: option.split)
qed simp

text \<open>A capture loop that skips some slots inserts the entries of the others.\<close>

lemma fold_filter_insert:
  "fold (\<lambda>(i, s) acc. if \<not> p s then acc else hm_insert (vs_name s) (e i s) acc) es acc =
   fold (\<lambda>(k, v) acc. hm_insert k v acc) (map (\<lambda>(i, s). (vs_name s, e i s)) (filter (\<lambda>(i, s). p s) es)) acc"
  by (induction es arbitrary: acc) (auto split: if_splits)

lemma distinct_filter_names:
  "distinct (map (vs_name \<circ> snd) es) \<Longrightarrow>
     distinct (map fst (map (\<lambda>(i, s). (vs_name s, e i s)) (filter (\<lambda>(i, s). p s) es)))"
  by (induction es) (auto simp: image_iff)

lemma map_of_filter_names:
  "distinct (map (vs_name \<circ> snd) es) \<Longrightarrow> (i, s) \<in> set es \<Longrightarrow>
     map_of (map (\<lambda>(i, s). (vs_name s, e i s)) (filter (\<lambda>(i, s). p s) es)) (vs_name s) =
       (if p s then Some (e i s) else None)"
proof (induction es)
  case (Cons x es)
  show ?case
  proof (cases "x = (i, s)")
    case True
    with Cons.prems have "vs_name s \<notin> fst ` set (map (\<lambda>(i, s). (vs_name s, e i s)) (filter (\<lambda>(i, s). p s) es))"
      by (auto simp: image_iff)
    then have "map_of (map (\<lambda>(i, s). (vs_name s, e i s)) (filter (\<lambda>(i, s). p s) es)) (vs_name s) = None"
      by (simp only: map_of_eq_None_iff not_False_eq_True)
    with True show ?thesis by simp
  next
    case False
    with Cons.prems have "vs_name (snd x) \<noteq> vs_name s" by (auto simp: image_iff)
    with False Cons show ?thesis by (cases x) auto
  qed
qed simp

lemma map_snd_enumerate: "map (f \<circ> snd) (enumerate n xs) = map f xs"
  by (simp flip: map_map)

lemma capture_globals_get:
  assumes "exact_names (global_slots vm)" "i < length (global_slots vm)" "i < length (vm_globals vm)"
  shows "hm_get (capture_globals vm) (vs_name (global_slots vm ! i)) =
    (if retainable (global_slots vm ! i) then Some (entry_of (vm_globals vm ! i) (global_slots vm ! i)) else None)"
proof -
  have d: "distinct (map (vs_name \<circ> snd) (enumerate 0 (global_slots vm)))"
    using assms(1) by (simp add: map_snd_enumerate exact_names_def)
  have "(i, global_slots vm ! i) \<in> set (enumerate 0 (global_slots vm))"
    using assms(2) by (auto simp: in_set_enumerate_eq)
  from map_of_filter_names [OF d this, of
      "\<lambda>i s. entry_of (case vec_at (vm_globals vm) i of None \<Rightarrow> V_Void | Some v \<Rightarrow> v) s" retainable]
  show ?thesis
    unfolding capture_globals_def fold_filter_insert fold_insert_get [OF distinct_filter_names [OF d]]
    using assms(3) by (simp add: vec_at_def)
qed

lemma distinct_fold_insert:
  "distinct (map fst acc) \<Longrightarrow> distinct (map fst (fold (\<lambda>(k, v) acc. hm_insert k v acc) es acc))"
  by (induction es arbitrary: acc) (auto simp: distinct_update)

lemma distinct_capture_globals: "distinct (map fst (capture_globals vm))"
  unfolding capture_globals_def fold_filter_insert by (rule distinct_fold_insert) simp

text \<open>What one restored entry does to the globals, and a whole list of them.\<close>

definition restores :: "bool \<Rightarrow> var_slot \<Rightarrow> retain_entry \<Rightarrow> bool" where
  "restores warm s e \<longleftrightarrow> dominated warm e \<and> is_compatible (re_value e) (vs_ty s)"

lemma restore_global_frame:
  "vm_module (fst (restore_global warm e acc)) = vm_module (fst acc) \<and>
   length (vm_globals (fst (restore_global warm e acc))) = length (vm_globals (fst acc))"
  by (cases e; cases acc) (auto simp: restore_global_def set_global_unchecked_def split: option.split)

lemma restore_global_at:
  assumes "exact_names (global_slots (fst acc))" "i < length (global_slots (fst acc))"
    "length (vm_globals (fst acc)) = length (global_slots (fst acc))"
  shows "vm_globals (fst (restore_global warm (n, e) acc)) ! i =
    (if n = vs_name (global_slots (fst acc) ! i) \<and> restores warm (global_slots (fst acc) ! i) e
     then re_value e else vm_globals (fst acc) ! i)"
proof -
  obtain vm ws where acc: "acc = (vm, ws)" by force
  let ?gs = "global_slots vm"
  note a = assms [unfolded acc fst_conv]
  have i: "named_pos (vs_name (?gs ! i)) ?gs = Some i" by (rule named_pos_nth [OF a(1,2)])
  show ?thesis
  proof (cases "named_pos n ?gs")
    case None
    with i have "n \<noteq> vs_name (?gs ! i)" by auto
    with None show ?thesis by (simp add: acc restore_global_def)
  next
    case (Some k)
    then have k: "k < length ?gs" "vs_name (?gs ! k) = n" using named_pos_SomeD by blast+
    have "k = i \<longleftrightarrow> n = vs_name (?gs ! i)"
    proof
      assume "k = i" then show "n = vs_name (?gs ! i)" using k(2) by simp
    next
      assume "n = vs_name (?gs ! i)"
      then have "named_pos n ?gs = Some i" using i by (simp only:)
      with Some show "k = i" by simp
    qed
    moreover have "k < 65536" using k(1) a(1) by (simp add: exact_names_def)
    ultimately show ?thesis using Some k(1) a i
      by (cases "k = i") (simp_all add: acc restore_global_def restores_def set_global_unchecked_def)
  qed
qed

lemma fold_restore_global_frame:
  "vm_module (fst (fold (restore_global warm) es acc)) = vm_module (fst acc) \<and>
   length (vm_globals (fst (fold (restore_global warm) es acc))) = length (vm_globals (fst acc))"
  by (induction es arbitrary: acc) (simp_all add: restore_global_frame)

lemma fold_restore_global_at:
  assumes "distinct (map fst es)" "exact_names (global_slots (fst acc))" "i < length (global_slots (fst acc))"
    "length (vm_globals (fst acc)) = length (global_slots (fst acc))"
  shows "vm_globals (fst (fold (restore_global warm) es acc)) ! i =
    (case map_of es (vs_name (global_slots (fst acc) ! i)) of
       Some e \<Rightarrow> if restores warm (global_slots (fst acc) ! i) e then re_value e else vm_globals (fst acc) ! i
     | None \<Rightarrow> vm_globals (fst acc) ! i)"
  using assms
proof (induction es arbitrary: acc)
  case (Cons x es)
  obtain n e where x: "x = (n, e)" by force
  let ?acc = "restore_global warm x acc"
  have f: "vm_module (fst ?acc) = vm_module (fst acc)"
    "length (vm_globals (fst ?acc)) = length (vm_globals (fst acc))"
    using restore_global_frame by simp_all
  have "map_of es n = None" using Cons.prems(1) x by (simp add: map_of_eq_None_iff)
  with Cons.IH [of ?acc] Cons.prems f restore_global_at [OF Cons.prems(2-4), of warm n e] x
  show ?case by (auto split: option.splits)
qed simp

subsection \<open>The program locals and instances leave the globals alone\<close>

definition same_globals :: "vm \<times> warning list \<Rightarrow> vm \<times> warning list \<Rightarrow> bool" where
  "same_globals a b \<longleftrightarrow> vm_globals (fst b) = vm_globals (fst a) \<and> vm_module (fst b) = vm_module (fst a)"

lemma same_globals_refl [simp]: "same_globals a a"
  by (simp add: same_globals_def)

lemma same_globals_trans: "same_globals a b \<Longrightarrow> same_globals b c \<Longrightarrow> same_globals a c"
  by (simp add: same_globals_def)

lemma restore_program_globals: "same_globals acc (restore_program warm e acc)"
  by (cases e; cases acc) (auto simp: restore_program_def same_globals_def set_retained_locals_def
      Let_def split: option.split prod.split)

definition same_state :: "vm \<times> warning list \<Rightarrow> vm \<times> warning list \<Rightarrow> bool" where
  "same_state a b \<longleftrightarrow> same_globals a b \<and> vm_retained (fst b) = vm_retained (fst a)"

lemma restore_fields_keep: "same_state acc (restore_fields path key ss fs acc)"
  by (cases acc) (simp add: restore_fields_def same_state_def same_globals_def set_fb_instance_def
      Let_def split: prod.split)

lemma same_state_warn [simp]: "same_state (vm, ws) (vm, ws')"
  by (simp add: same_state_def same_globals_def)

lemma restore_instance_keep:
  "restore_instance warm prog pf e acc = Res acc' \<Longrightarrow> same_state acc acc'"
  by (cases pf; cases e; cases acc)
    (auto simp: restore_instance_def Let_def restore_fields_keep
      split: if_splits option.splits var_type.splits)

lemma chk_fold_keeps:
  assumes "\<And>x a b. f x a = Res b \<Longrightarrow> R a b" "\<And>a. R a a" "\<And>a b c. R a b \<Longrightarrow> R b c \<Longrightarrow> R a c"
  shows "chk_fold f xs a = Res b \<Longrightarrow> R a b"
proof (induction xs arbitrary: a)
  case (Cons x xs)
  then obtain c where "f x a = Res c" "chk_fold f xs c = Res b" by auto
  with Cons.IH assms(1,3) show ?case by blast
qed (simp add: assms(2))

lemma restore_instances_keep:
  "restore_instances warm e acc = Res acc' \<Longrightarrow> same_state acc acc'"
proof -
  obtain prog insts where e: "e = (prog, insts)" by force
  obtain vm ws where acc: "acc = (vm, ws)" by force
  assume r: "restore_instances warm e acc = Res acc'"
  show ?thesis
  proof (cases "program_named (vm_module vm) prog")
    case None
    with r show ?thesis by (simp add: restore_instances_def e acc same_state_def)
  next
    case (Some pf)
    with r have "chk_fold (restore_instance warm prog pf) insts (vm, ws) = Res acc'"
      by (simp add: restore_instances_def e acc)
    then have "same_state (vm, ws) acc'"
      by (rule chk_fold_keeps [rotated 3])
        (use restore_instance_keep in \<open>auto simp: same_state_def intro: same_globals_trans\<close>)
    then show ?thesis by (simp add: acc)
  qed
qed

lemma fold_restore_program_globals: "same_globals acc (fold (restore_program warm) ps acc)"
proof (induction ps arbitrary: acc)
  case (Cons p ps)
  have "same_globals acc (restore_program warm p acc)" by (rule restore_program_globals)
  with Cons.IH [of "restore_program warm p acc"] show ?case by (simp add: same_globals_def)
qed simp

lemma restore_snapshot_split:
  assumes "restore_snapshot vm snap warm = Res (vm', ws)"
  shows "vm_module vm' = vm_module vm"
    "vm_globals vm' = vm_globals (fst (fold (restore_global warm) (rs_globals snap) (vm, [])))"
    "vm_retained vm' = vm_retained (fst (fold (restore_program warm) (rs_program_locals snap)
       (fold (restore_global warm) (rs_globals snap) (vm, []))))"
proof -
  let ?a1 = "fold (restore_global warm) (rs_globals snap) (vm, [])"
  let ?a2 = "fold (restore_program warm) (rs_program_locals snap) ?a1"
  have "same_state ?a2 (vm', ws)"
    using assms unfolding restore_snapshot_def Let_def
    by (rule chk_fold_keeps [rotated 3])
      (use restore_instances_keep in \<open>auto simp: same_state_def intro: same_globals_trans\<close>)
  then show "vm_module vm' = vm_module vm" "vm_globals vm' = vm_globals (fst ?a1)"
    "vm_retained vm' = vm_retained (fst ?a2)"
    using fold_restore_program_globals [of ?a1] fold_restore_global_frame
    by (simp_all add: same_state_def same_globals_def)
qed

text \<open>A snapshot taken from one machine and restored into another of the same module gives every
  global that the restart kind covers (RETAIN for warm, PERSISTENT for cold) the value it had, if the
  value fits the declared type, and leaves every other global as it was.\<close>

lemma globals_roundtrip:
  assumes "capture_snapshot now vm = Res snap" "restore_snapshot vm0 snap warm = Res (vm', ws)"
    "vm_module vm0 = vm_module vm" "exact_names (global_slots vm)" "i < length (global_slots vm)"
    "length (vm_globals vm) = length (global_slots vm)" "length (vm_globals vm0) = length (global_slots vm)"
  shows "vm_globals vm' ! i =
    (if (if warm then vs_retain (global_slots vm ! i) else vs_persistent (global_slots vm ! i)) \<and>
        is_compatible (vm_globals vm ! i) (vs_ty (global_slots vm ! i))
     then vm_globals vm ! i else vm_globals vm0 ! i)"
proof -
  have snap: "rs_globals snap = capture_globals vm"
    using assms(1) by (auto simp: capture_snapshot_def)
  show ?thesis
    using fold_restore_global_at [OF distinct_capture_globals, of "(vm0, [])" i warm vm] assms(3-7)
      capture_globals_get [OF assms(4,5)] restore_snapshot_split(2) [OF assms(2)]
    by (auto simp: snap restores_def dominated_def entry_of_def retainable_def)
qed


subsection \<open>Program locals\<close>

definition kept_local :: "var_slot \<Rightarrow> bool" where
  "kept_local s \<longleftrightarrow> retainable s \<and> \<not> is_composite (vs_ty s)"

definition captured_vars :: "val list \<Rightarrow> var_slot list \<Rightarrow> entries" where
  "captured_vars ls ss =
     fold (\<lambda>(j, s) acc. if \<not> kept_local s then acc
        else hm_insert (vs_name s) (entry_of (case vec_at ls j of None \<Rightarrow> V_Void | Some v \<Rightarrow> v) s) acc)
       (enumerate 0 ss) []"

lemma capture_slot_vars:
  "capture_slot vm fi fn ls (j, s) (vars, inst) = Res (vars', inst') \<Longrightarrow>
     vars' = (if \<not> kept_local s then vars
       else hm_insert (vs_name s) (entry_of (case vec_at ls j of None \<Rightarrow> V_Void | Some v \<Rightarrow> v) s) vars)"
  unfolding capture_slot_def kept_local_def
  by (cases "vs_ty s")
    (auto simp: Let_def split: if_splits option.splits)

lemma capture_slots_vars:
  "chk_fold (capture_slot vm fi fn ls) es (vars, inst) = Res (vars', inst') \<Longrightarrow>
     vars' = fold (\<lambda>(j, s) acc. if \<not> kept_local s then acc
        else hm_insert (vs_name s) (entry_of (case vec_at ls j of None \<Rightarrow> V_Void | Some v \<Rightarrow> v) s) acc) es vars"
proof (induction es arbitrary: vars inst)
  case (Cons e es)
  obtain j s where e: "e = (j, s)" by force
  from Cons.prems obtain v1 i1 where
    "capture_slot vm fi fn ls (j, s) (vars, inst) = Res (v1, i1)"
    "chk_fold (capture_slot vm fi fn ls) es (v1, i1) = Res (vars', inst')"
    by (auto simp: e)
  with Cons.IH capture_slot_vars [OF this(1)] show ?case by (simp add: e)
qed simp

lemma captured_vars_get:
  assumes "exact_names ss" "j < length ss" "j < length ls"
  shows "hm_get (captured_vars ls ss) (vs_name (ss ! j)) =
    (if kept_local (ss ! j) then Some (entry_of (ls ! j) (ss ! j)) else None)"
proof -
  have d: "distinct (map (vs_name \<circ> snd) (enumerate 0 ss))"
    using assms(1) by (simp add: map_snd_enumerate exact_names_def)
  have "(j, ss ! j) \<in> set (enumerate 0 ss)" using assms(2) by (auto simp: in_set_enumerate_eq)
  from map_of_filter_names [OF d this, of
      "\<lambda>i s. entry_of (case vec_at ls i of None \<Rightarrow> V_Void | Some v \<Rightarrow> v) s" kept_local]
  show ?thesis
    unfolding captured_vars_def fold_filter_insert fold_insert_get [OF distinct_filter_names [OF d]]
    using assms(3) by (simp add: vec_at_def)
qed

lemma distinct_captured_vars: "distinct (map fst (captured_vars ls ss))"
  unfolding captured_vars_def fold_filter_insert
  by (rule distinct_fold_insert) simp


text \<open>The retained map has the vars of every program, under the program's name.\<close>

lemma find_SomeD: "find p xs = Some x \<Longrightarrow> x \<in> set xs \<and> p x"
  by (induction xs) (auto split: if_splits)

definition sole_program :: "ir_module \<Rightarrow> nat \<Rightarrow> bool" where
  "sole_program m fi \<longleftrightarrow> fi < length (md_functions m) \<and> length (md_functions m) \<le> 65536 \<and>
     fn_kind (md_functions m ! fi) = Pou_Program \<and>
     (\<forall>k < length (md_functions m). fn_kind (md_functions m ! k) = Pou_Program \<longrightarrow>
        fn_name (md_functions m ! k) = fn_name (md_functions m ! fi) \<longrightarrow> k = fi)"

lemma sole_program_named:
  assumes "sole_program m fi"
  shows "program_named m n = Some (fi, md_functions m ! fi) \<longleftrightarrow> n = fn_name (md_functions m ! fi)"
proof
  assume "program_named m n = Some (fi, md_functions m ! fi)"
  then show "n = fn_name (md_functions m ! fi)"
    by (auto simp: program_named_def find_Some_iff)
next
  assume n: "n = fn_name (md_functions m ! fi)"
  have mem: "(fi, md_functions m ! fi) \<in> set (programs m)"
    using assms by (auto simp: programs_def sole_program_def in_set_enumerate_eq)
  obtain e where e: "program_named m n = Some e"
  proof (cases "program_named m n")
    case None
    with mem n show ?thesis by (fastforce simp: program_named_def find_None_iff)
  qed
  obtain k f where kf: "e = (k, f)" by force
  have "(k, f) \<in> set (programs m)" "fn_name f = n"
    using e find_SomeD [of "\<lambda>(_, f). fn_name f = n" "programs m" "(k, f)"]
    by (simp_all add: program_named_def kf)
  then have "k < length (md_functions m)" "f = md_functions m ! k" "fn_kind f = Pou_Program"
    by (auto simp: programs_def in_set_enumerate_eq)
  with assms n \<open>fn_name f = n\<close> have "k = fi" by (simp add: sole_program_def)
  with kf \<open>f = md_functions m ! k\<close> have "e = (fi, md_functions m ! fi)" by simp
  with e show "program_named m n = Some (fi, md_functions m ! fi)" by simp
qed

lemma capture_program_other:
  assumes "capture_program vm (fi, ls) (progs, inst) = Res (progs', inst')"
    "unat fi \<noteq> i" "sole_program (vm_module vm) i"
  shows "hm_get progs' (fn_name (md_functions (vm_module vm) ! i)) =
    hm_get progs (fn_name (md_functions (vm_module vm) ! i))"
  using assms by (auto simp: capture_program_def func_at_def vec_get_def sole_program_def hm_get_insert
      split: if_splits)

lemma capture_program_this:
  assumes "capture_program vm (fi, ls) (progs, inst) = Res (progs', inst')"
    "unat fi = i" "sole_program (vm_module vm) i"
  shows "hm_get progs' (fn_name (md_functions (vm_module vm) ! i)) =
    (let vs = captured_vars ls (slots (fn_locals (md_functions (vm_module vm) ! i)))
     in if vs = [] then hm_get progs (fn_name (md_functions (vm_module vm) ! i)) else Some vs)"
  using assms by (auto simp: capture_program_def func_at_def vec_get_def sole_program_def hm_get_insert
      captured_vars_def dest: capture_slots_vars split: if_splits)

lemma capture_programs_get:
  assumes "chk_fold (capture_program vm) rs (progs, inst) = Res (progs', inst')" "distinct (map fst rs)"
    "sole_program (vm_module vm) i"
  shows "hm_get progs' (fn_name (md_functions (vm_module vm) ! i)) =
    (case map_of rs (of_nat i) of
       None \<Rightarrow> hm_get progs (fn_name (md_functions (vm_module vm) ! i))
     | Some ls \<Rightarrow>
         let vs = captured_vars ls (slots (fn_locals (md_functions (vm_module vm) ! i)))
         in if vs = [] then hm_get progs (fn_name (md_functions (vm_module vm) ! i)) else Some vs)"
  using assms(1,2)
proof (induction rs arbitrary: progs inst)
  case (Cons r rs)
  obtain fi ls where r: "r = (fi, ls)" by force
  from Cons.prems(1) obtain p1 i1 where step: "capture_program vm (fi, ls) (progs, inst) = Res (p1, i1)"
    and rest: "chk_fold (capture_program vm) rs (p1, i1) = Res (progs', inst')"
    by (auto simp: r)
  note IH = Cons.IH [OF rest]
  show ?case
  proof (cases "unat fi = i")
    case True
    then have fi: "of_nat i = fi" by auto
    have "map_of rs fi = None" using Cons.prems(2) r by (simp add: map_of_eq_None_iff)
    with IH Cons.prems(2) capture_program_this [OF step True assms(3)] show ?thesis
      by (simp add: r fi)
  next
    case False
    have "i < 65536" using assms(3) by (simp add: sole_program_def)
    then have "(of_nat i :: u16) \<noteq> fi" using False by (auto simp: unat_of_nat take_bit_nat_eq_self)
    with IH Cons.prems(2) capture_program_other [OF step False assms(3)] show ?thesis
      by (auto simp: r Let_def split: option.splits)
  qed
qed simp


text \<open>What one entry, and a list of entries, does to the values of a layout.\<close>

lemma restore_value_length [simp]:
  "length (fst (restore_value path ss e acc)) = length (fst acc)"
  by (cases e; cases acc) (auto simp: restore_value_def split: option.split)

lemma restore_value_at:
  assumes "exact_names ss" "j < length ss" "length (fst acc) = length ss"
  shows "fst (restore_value path ss (n, e) acc) ! j =
    (if n = vs_name (ss ! j) \<and> is_compatible (re_value e) (vs_ty (ss ! j)) then re_value e else fst acc ! j)"
proof -
  obtain ls ws where acc: "acc = (ls, ws)" by force
  have j: "named_pos (vs_name (ss ! j)) ss = Some j" by (rule named_pos_nth [OF assms(1,2)])
  show ?thesis
  proof (cases "named_pos n ss")
    case None
    with j have "n \<noteq> vs_name (ss ! j)" by auto
    with None show ?thesis by (simp add: acc restore_value_def)
  next
    case (Some k)
    then have "k < length ss" "vs_name (ss ! k) = n" using named_pos_SomeD by blast+
    then have "k = j \<longleftrightarrow> n = vs_name (ss ! j)" using Some j by (metis option.inject)
    with Some assms(2,3) show ?thesis by (cases "k = j") (simp_all add: acc restore_value_def)
  qed
qed

lemma fold_restore_value_length:
  "length (fst (fold (\<lambda>e acc. if p e then restore_value path ss e acc else acc) es acc)) = length (fst acc)"
  by (induction es arbitrary: acc) simp_all

lemma fold_restore_value_at:
  assumes "distinct (map fst es)" "exact_names ss" "j < length ss" "length (fst acc) = length ss"
  shows "fst (fold (\<lambda>e acc. if p (snd e) then restore_value path ss e acc else acc) es acc) ! j =
    (case map_of es (vs_name (ss ! j)) of
       Some e \<Rightarrow> if p e \<and> is_compatible (re_value e) (vs_ty (ss ! j)) then re_value e else fst acc ! j
     | None \<Rightarrow> fst acc ! j)"
  using assms
proof (induction es arbitrary: acc)
  case (Cons x es)
  obtain n e where x: "x = (n, e)" by force
  let ?acc = "if p e then restore_value path ss x acc else acc"
  have "map_of es n = None" using Cons.prems(1) x by (simp add: map_of_eq_None_iff)
  moreover have "length (fst ?acc) = length ss" using Cons.prems(4) by simp
  ultimately show ?case
    using Cons.IH [of ?acc] Cons.prems restore_value_at [OF Cons.prems(2-4), of path n e] x
    by (cases "p e"; cases "vs_name (ss ! j) = n") (simp_all cong: option.case_cong if_cong)
qed simp

text \<open>The value a local has once its entries are restored: the entry's where one covers it, else
  the one carried over.\<close>

definition restored_local :: "bool \<Rightarrow> entries \<Rightarrow> val list \<Rightarrow> var_slot list \<Rightarrow> nat \<Rightarrow> val" where
  "restored_local warm vars start ss j =
     (case map_of vars (vs_name (ss ! j)) of
        Some e \<Rightarrow> if dominated warm e \<and> is_compatible (re_value e) (vs_ty (ss ! j)) then re_value e else start ! j
      | None \<Rightarrow> start ! j)"

definition start_locals :: "vm \<Rightarrow> nat \<Rightarrow> val list" where
  "start_locals vm i =
     carry_over (hm_get (vm_retained vm) (of_nat i)) (default_locals (fn_locals (vm_functions vm ! i)))"

lemma length_start_locals [simp]:
  "length (start_locals vm i) = length (slots (fn_locals (vm_functions vm ! i)))"
  by (simp add: start_locals_def carry_over_def default_locals_def split: option.split)

lemma restore_program_this:
  assumes "sole_program (vm_module vm) i" "n = fn_name (vm_functions vm ! i)"
    "exact_names (slots (fn_locals (vm_functions vm ! i)))" "distinct (map fst vars)"
  shows "\<exists>ls. hm_get (vm_retained (fst (restore_program warm (n, vars) (vm, ws)))) (of_nat i) = Some ls \<and>
    length ls = length (slots (fn_locals (vm_functions vm ! i))) \<and>
    (\<forall>j < length ls. ls ! j =
       restored_local warm vars (start_locals vm i) (slots (fn_locals (vm_functions vm ! i))) j)"
proof -
  let ?ss = "slots (fn_locals (vm_functions vm ! i))"
  let ?r = "fold (\<lambda>e acc. if dominated warm (snd e) then restore_value [n] ?ss e acc else acc) vars
    (start_locals vm i, ws)"
  have pn: "program_named (vm_module vm) n = Some (i, vm_functions vm ! i)"
    using sole_program_named [OF assms(1)] assms(2) by simp
  have "hm_get (vm_retained (fst (restore_program warm (n, vars) (vm, ws)))) (of_nat i) = Some (fst ?r)"
    by (simp add: restore_program_def pn start_locals_def Let_def set_retained_locals_def hm_get_insert
        split: prod.split)
  then show ?thesis
    using fold_restore_value_at [OF assms(4,3), of _ "(start_locals vm i, ws)" "dominated warm" "[n]"]
    by (simp add: fold_restore_value_length restored_local_def cong: option.case_cong if_cong)
qed

lemma restore_program_other:
  assumes "sole_program (vm_module vm) i" "n \<noteq> fn_name (vm_functions vm ! i)"
  shows "hm_get (vm_retained (fst (restore_program warm (n, vars) (vm, ws)))) (of_nat i) =
    hm_get (vm_retained vm) (of_nat i)"
proof (cases "program_named (vm_module vm) n")
  case None
  then show ?thesis by (simp add: restore_program_def)
next
  case (Some p)
  obtain k f where p: "p = (k, f)" by force
  have "(k, f) \<in> set (programs (vm_module vm))"
    using find_SomeD [of _ _ "(k, f)"] Some by (simp add: program_named_def p)
  then have kf: "k < length (vm_functions vm)" "f = vm_functions vm ! k"
    by (auto simp: programs_def in_set_enumerate_eq)
  have "k \<noteq> i" using Some p kf sole_program_named [OF assms(1), of n] assms(2) by auto
  moreover have "k < 65536" "i < 65536" using kf assms(1) by (auto simp: sole_program_def)
  ultimately have "(of_nat k :: u16) \<noteq> of_nat i" by (metis unat_of_nat_u16)
  then show ?thesis
    by (simp add: restore_program_def Some p Let_def set_retained_locals_def hm_get_insert split: prod.split)
qed


lemma fold_restore_programs_untouched:
  assumes "sole_program (vm_module (fst acc)) i" "fn_name (vm_functions (fst acc) ! i) \<notin> fst ` set ps"
  shows "hm_get (vm_retained (fst (fold (restore_program warm) ps acc))) (of_nat i) =
    hm_get (vm_retained (fst acc)) (of_nat i)"
  using assms
proof (induction ps arbitrary: acc)
  case (Cons p ps)
  obtain n vars where p: "p = (n, vars)" by force
  obtain vm ws where acc: "acc = (vm, ws)" by force
  have "vm_module (fst (restore_program warm p acc)) = vm_module (fst acc)"
    using restore_program_globals by (simp add: same_globals_def)
  with Cons.IH [of "restore_program warm p acc"] Cons.prems restore_program_other [of vm i n warm vars ws]
  show ?case by (auto simp: p acc)
qed simp

lemma fold_restore_programs_get:
  assumes "distinct (map fst ps)" "sole_program (vm_module (fst acc)) i"
    "exact_names (slots (fn_locals (vm_functions (fst acc) ! i)))"
    "\<forall>(n, vars) \<in> set ps. distinct (map fst vars)"
    "map_of ps (fn_name (vm_functions (fst acc) ! i)) = Some vs"
  shows "\<exists>ls. hm_get (vm_retained (fst (fold (restore_program warm) ps acc))) (of_nat i) = Some ls \<and>
    length ls = length (slots (fn_locals (vm_functions (fst acc) ! i))) \<and>
    (\<forall>j < length ls. ls ! j = restored_local warm vs (start_locals (fst acc) i)
       (slots (fn_locals (vm_functions (fst acc) ! i))) j)"
  using assms
proof (induction ps arbitrary: acc)
  case (Cons p ps)
  obtain n vars where p: "p = (n, vars)" by force
  obtain vm ws where acc: "acc = (vm, ws)" by force
  let ?acc = "restore_program warm (n, vars) acc"
  have m: "vm_module (fst ?acc) = vm_module (fst acc)"
    using restore_program_globals by (simp add: same_globals_def)
  show ?case
  proof (cases "n = fn_name (vm_functions (fst acc) ! i)")
    case True
    have v: "vars = vs" "distinct (map fst vars)" using Cons.prems(4,5) True by (simp_all add: p)
    have "hm_get (vm_retained (fst (fold (restore_program warm) ps ?acc))) (of_nat i) =
        hm_get (vm_retained (fst ?acc)) (of_nat i)"
      using Cons.prems(1,2) True m by (intro fold_restore_programs_untouched) (simp_all add: p)
    then show ?thesis
      using restore_program_this [of vm i n vars warm ws] Cons.prems(2,3) True v
      by (simp add: p acc)
  next
    case False
    have start: "start_locals (fst ?acc) i = start_locals (fst acc) i"
      using restore_program_other [of vm i n warm vars ws] Cons.prems(2) False m
      by (simp add: start_locals_def acc)
    have "map_of ps (fn_name (vm_functions (fst acc) ! i)) = Some vs"
      using Cons.prems(5) False by (simp add: p)
    with Cons.IH [of ?acc] Cons.prems(1-4) m start show ?thesis by (simp add: p)
  qed
qed simp

definition distinct_maps :: "(string, entries) hashmap \<Rightarrow> bool" where
  "distinct_maps ps \<longleftrightarrow> distinct (map fst ps) \<and> (\<forall>(n, vars) \<in> set ps. distinct (map fst vars))"

lemma distinct_maps_insert:
  "distinct_maps ps \<Longrightarrow> distinct (map fst vars) \<Longrightarrow> distinct_maps (hm_insert n vars ps)"
  using set_hm_insert [of n vars ps] by (auto simp: distinct_maps_def distinct_update)

lemma capture_programs_distinct:
  "chk_fold (capture_program vm) rs (progs, inst) = Res (progs', inst') \<Longrightarrow> distinct_maps progs \<Longrightarrow>
     distinct_maps progs'"
proof (induction rs arbitrary: progs inst)
  case (Cons r rs)
  obtain fi ls where r: "r = (fi, ls)" by force
  from Cons.prems(1) obtain p1 i1 where step: "capture_program vm (fi, ls) (progs, inst) = Res (p1, i1)"
    and rest: "chk_fold (capture_program vm) rs (p1, i1) = Res (progs', inst')"
    by (auto simp: r)
  have "distinct_maps p1"
    using step Cons.prems(2) distinct_captured_vars distinct_maps_insert
    by (auto simp: capture_program_def captured_vars_def dest!: capture_slots_vars split: if_splits)
  with Cons.IH [OF rest] show ?case .
qed simp


text \<open>The first frame of a restored program: its body, on the restored locals.\<close>

lemma restored_entry_frame:
  assumes "restore_snapshot vm0 snap warm = Res (vm', ws)" "sole_program (vm_module vm0) i"
    "fn = md_functions (vm_module vm0) ! i" "exact_names (slots (fn_locals fn))"
    "distinct_maps (rs_program_locals snap)" "hm_get (rs_program_locals snap) (fn_name fn) = Some vs"
    "j < length (slots (fn_locals fn))"
  shows "fr_pc (entry_frame vm' (of_nat i) fn) = fn_body_start_pc fn"
    "fr_locals (entry_frame vm' (of_nat i) fn) ! j =
       restored_local warm vs (start_locals vm0 i) (slots (fn_locals fn)) j"
proof -
  let ?a1 = "fold (restore_global warm) (rs_globals snap) (vm0, [])"
  have m: "vm_module (fst ?a1) = vm_module vm0" using fold_restore_global_frame by simp
  have r: "vm_retained (fst ?a1) = vm_retained vm0"
  proof -
    have step: "vm_retained (fst (restore_global warm e acc)) = vm_retained (fst acc)" for e acc
      by (cases e; cases acc) (auto simp: restore_global_def set_global_unchecked_def split: option.split)
    have "vm_retained (fst (fold (restore_global warm) es acc)) = vm_retained (fst acc)" for es acc
      by (induction es arbitrary: acc) (simp_all add: step)
    then show ?thesis by simp
  qed
  have st: "start_locals (fst ?a1) i = start_locals vm0 i" by (simp add: start_locals_def m r)
  from fold_restore_programs_get [of "rs_program_locals snap" ?a1 i vs warm] assms(2-6) m
  obtain ls where ls: "hm_get (vm_retained vm') (of_nat i) = Some ls"
    "length ls = length (slots (fn_locals fn))"
    "\<forall>j < length ls. ls ! j = restored_local warm vs (start_locals (fst ?a1) i) (slots (fn_locals fn)) j"
    by (auto simp: restore_snapshot_split(3) [OF assms(1)] distinct_maps_def)
  moreover have "fn_kind fn = Pou_Program" using assms(2,3) by (simp add: sole_program_def)
  ultimately show "fr_pc (entry_frame vm' (of_nat i) fn) = fn_body_start_pc fn"
    "fr_locals (entry_frame vm' (of_nat i) fn) ! j =
       restored_local warm vs (start_locals vm0 i) (slots (fn_locals fn)) j"
    using assms(7) st by (simp_all add: entry_frame_def fresh_frame_def)
qed

lemma captured_program_vars:
  assumes "capture_snapshot now vm = Res snap" "sole_program (vm_module vm) i"
    "distinct (map fst (vm_retained vm))" "hm_get (vm_retained vm) (of_nat i) = Some ls"
    "captured_vars ls (slots (fn_locals (vm_functions vm ! i))) \<noteq> []"
  shows "hm_get (rs_program_locals snap) (fn_name (vm_functions vm ! i)) =
      Some (captured_vars ls (slots (fn_locals (vm_functions vm ! i))))"
    "distinct_maps (rs_program_locals snap)"
proof -
  from assms(1) obtain progs inst where
    c: "chk_fold (capture_program vm) (vm_retained vm) ([], []) = Res (progs, inst)"
    and s: "rs_program_locals snap = progs"
    by (auto simp: capture_snapshot_def)
  show "hm_get (rs_program_locals snap) (fn_name (vm_functions vm ! i)) =
      Some (captured_vars ls (slots (fn_locals (vm_functions vm ! i))))"
    using capture_programs_get [OF c assms(3,2)] assms(4,5) by (simp add: s Let_def)
  show "distinct_maps (rs_program_locals snap)"
    using capture_programs_distinct [OF c] by (simp add: s distinct_maps_def)
qed


lemma demo_sole_program: "sole_program demo_module 0"
  by (simp add: sole_program_def demo_defs less_Suc_eq)


text \<open>Restoring skips the initialisers of the other locals: a program of which the snapshot has any
  variable starts its first scan after the initialising prologue, though a machine without the
  restore runs it from instruction 0, so a local the snapshot does not cover starts at its type's
  default and not at the declared initial value.\<close>

theorem restore_skips_initialisers:
  assumes "restore_snapshot vm0 snap warm = Res (vm', ws)" "sole_program (vm_module vm0) i"
    "fn = md_functions (vm_module vm0) ! i" "exact_names (slots (fn_locals fn))"
    "distinct_maps (rs_program_locals snap)" "hm_get (rs_program_locals snap) (fn_name fn) = Some vs"
    "hm_get (vm_retained vm0) (of_nat i) = None"
    "j < length (slots (fn_locals fn))" "hm_get vs (vs_name (slots (fn_locals fn) ! j)) = None"
  shows "fr_pc (entry_frame vm0 (of_nat i) fn) = 0 \<and>
    fr_pc (entry_frame vm' (of_nat i) fn) = fn_body_start_pc fn \<and>
    fr_locals (entry_frame vm' (of_nat i) fn) ! j = default_for_type (vs_ty (slots (fn_locals fn) ! j))"
  using restored_entry_frame [OF assms(1-6,8)] assms(2,3,7-9)
  by (simp add: restored_local_def start_locals_def carry_over_def default_locals_def entry_frame_def
      fresh_frame_def)


text \<open>A program with a retained counter and a limit initialised to 5 in its prologue.\<close>

definition limit_main :: func where
  "limit_main = \<lparr>fn_name = ''Main'', fn_kind = Pou_Program, fn_register_count = 1,
     fn_instructions = [LoadConst 0 (V_Int 5), StoreLocal 1 0, RetVoid], fn_label_positions = [],
     fn_locals = \<lparr>slots = [int_slot ''scans'' I16, (int_slot ''limit'' I16)\<lparr>vs_retain := False\<rparr>]\<rparr>,
     fn_source_map = [], fn_body_start_pc = 2\<rparr>"

theorem restore_skips_initialisers_witness:
  "\<exists>vm' ws. restore_snapshot (vm_new (demo_module\<lparr>md_functions := [limit_main]\<rparr>) default_vm_config)
       \<lparr>rs_version = 1, rs_created_at = 7, rs_globals = [],
        rs_program_locals = [(''Main'', [(''scans'', entry_of (V_Int 9) (int_slot ''scans'' I16))])],
        rs_instance_fields = []\<rparr> True = Res (vm', ws) \<and>
     fr_pc (entry_frame vm' (of_nat 0) limit_main) = 2 \<and>
     fr_locals (entry_frame vm' (of_nat 0) limit_main) ! 1 = V_Int 0"
proof -
  let ?vm = "vm_new (demo_module\<lparr>md_functions := [limit_main]\<rparr>) default_vm_config"
  let ?vars = "[(''scans'', entry_of (V_Int 9) (int_slot ''scans'' I16))]"
  let ?snap = "\<lparr>rs_version = 1, rs_created_at = 7, rs_globals = [],
    rs_program_locals = [(''Main'', ?vars)], rs_instance_fields = []\<rparr> :: retain_snapshot"
  obtain vm' ws where r: "restore_snapshot ?vm ?snap True = Res (vm', ws)"
    by (simp add: restore_snapshot_def Let_def) (metis surj_pair)
  have "fr_pc (entry_frame ?vm (of_nat 0) limit_main) = 0 \<and>
    fr_pc (entry_frame vm' (of_nat 0) limit_main) = fn_body_start_pc limit_main \<and>
    fr_locals (entry_frame vm' (of_nat 0) limit_main) ! 1 =
      default_for_type (vs_ty (slots (fn_locals limit_main) ! 1))"
    by (rule restore_skips_initialisers [OF r, where vs = ?vars])
      (simp_all add: vm_new_def sole_program_def limit_main_def exact_names_def int_slot_def distinct_maps_def)
  with r show ?thesis by (auto simp: limit_main_def int_slot_def)
qed

end
