(* ===== verification/Engine.thy ===== *)
theory Engine
  imports Retain_Store
begin

section \<open>The scan cycle engine: crates/st-engine/src/engine.rs\<close>

text \<open>
  The engine around one virtual machine: construction, one scan cycle with its statistics,
  the loop, checkpoints and online change of a compiled module. Times are nanoseconds. The
  clock is an argument: a cycle is given the moment it starts and the time it takes, and the
  loop a sequence of them. The retain file is the snapshot last written to it; whether a write
  succeeds, and what a file holds at the start, are arguments. Logging is left out.
\<close>

definition duration_max :: nat where
  "duration_max = 18446744073709551615 * 1000000000 + 999999999"

record cycle_stats =
  cs_count :: nat
  cs_last_time :: nat
  cs_min_time :: nat
  cs_max_time :: nat
  cs_total :: nat
  cs_last_period :: nat
  cs_min_period :: nat
  cs_max_period :: nat
  cs_jitter :: nat

definition avg_cycle_time :: "cycle_stats \<Rightarrow> nat" where
  "avg_cycle_time s =
     (if cs_count s = 0 then 0 else unat (of_nat (cs_total s div cs_count s) :: u64))"

record engine_config =
  ec_cycle_time :: "nat option"
  ec_max_cycles :: nat
  ec_vm_config :: vm_config
  ec_watchdog :: "nat option"
  ec_retain :: "nat option"

definition default_engine_config :: engine_config where
  "default_engine_config = \<lparr>ec_cycle_time = None, ec_max_cycles = 0, ec_vm_config = default_vm_config,
     ec_watchdog = None, ec_retain = None\<rparr>"

text \<open>\<open>ec_retain\<close> is the configuration's checkpoint interval, when there is a retain file.\<close>

record engine =
  eng_vm :: vm
  eng_config :: engine_config
  eng_stats :: cycle_stats
  eng_program :: string
  eng_prev_start :: "nat option"
  eng_retain_counter :: nat
  eng_file :: "retain_snapshot option"

subsection \<open>Construction\<close>

text \<open>The outcome of the global initialisers is dropped: a failure leaves the machine as it stopped.\<close>

definition initialised_vm :: "rt_env \<Rightarrow> ir_module \<Rightarrow> vm_config \<Rightarrow> vm chk option" where
  "initialised_vm env m c =
     (case run_global_init env (vm_new m c) of
        None \<Rightarrow> None
      | Some (Finished vm _) \<Rightarrow> Some (Res vm)
      | Some (Failed vm _) \<Rightarrow> Some (Res vm)
      | Some (Crashed p) \<Rightarrow> Some (Panic p))"

definition restored_vm :: "engine_config \<Rightarrow> retain_snapshot option \<Rightarrow> vm \<Rightarrow> vm chk" where
  "restored_vm cfg file vm =
     (case (ec_retain cfg, file) of
        (Some _, Some snap) \<Rightarrow> chk_bind (restore_snapshot vm snap True) (\<lambda>(vm', _). Res vm')
      | _ \<Rightarrow> Res vm)"

definition fresh_stats :: cycle_stats where
  "fresh_stats = \<lparr>cs_count = 0, cs_last_time = 0, cs_min_time = duration_max, cs_max_time = 0, cs_total = 0,
     cs_last_period = 0, cs_min_period = duration_max, cs_max_period = 0, cs_jitter = 0\<rparr>"

definition new_with_native_fbs ::
  "rt_env \<Rightarrow> ir_module \<Rightarrow> string \<Rightarrow> engine_config \<Rightarrow> retain_snapshot option \<Rightarrow> engine chk option" where
  "new_with_native_fbs env m program cfg file =
     map_option (\<lambda>r. chk_bind r (\<lambda>vm. chk_bind (restored_vm cfg file vm) (\<lambda>vm'.
       Res \<lparr>eng_vm = vm', eng_config = cfg, eng_stats = fresh_stats, eng_program = program,
            eng_prev_start = None, eng_retain_counter = 0, eng_file = file\<rparr>)))
       (initialised_vm env m (ec_vm_config cfg))"

definition engine_new ::
  "rt_env \<Rightarrow> ir_module \<Rightarrow> string \<Rightarrow> engine_config \<Rightarrow> retain_snapshot option \<Rightarrow> engine chk option" where
  "engine_new env = new_with_native_fbs (env\<lparr>env_native := (\<lambda>_. None)\<rparr>)"

subsection \<open>One cycle\<close>

record tick =
  tk_start :: nat
  tk_elapsed :: nat
  tk_now :: nat
  tk_saved :: bool

text \<open>The period between two cycle starts, and its deviation from the target.\<close>

definition note_period :: "nat \<Rightarrow> engine \<Rightarrow> engine" where
  "note_period start e =
     (let st = eng_stats e;
          st' = (case eng_prev_start e of
                   None \<Rightarrow> st
                 | Some prev \<Rightarrow>
                     let period = start - prev;
                         st1 = st\<lparr>cs_last_period := period,
                                  cs_min_period := min period (cs_min_period st),
                                  cs_max_period := max period (cs_max_period st)\<rparr>
                     in (case ec_cycle_time (eng_config e) of
                           None \<Rightarrow> st1
                         | Some target \<Rightarrow>
                             let dev = (if target \<le> period then period - target else target - period)
                             in st1\<lparr>cs_jitter := max dev (cs_jitter st1)\<rparr>))
      in e\<lparr>eng_stats := st', eng_prev_start := Some start\<rparr>)"

text \<open>The clock of the timers: the execution time so far, in milliseconds.\<close>

definition prepare_vm :: "engine \<Rightarrow> vm" where
  "prepare_vm e =
     reset_instruction_count (set_elapsed_time_ms (of_nat (cs_total (eng_stats e) div 1000000)) (eng_vm e))"

text \<open>A machine paused in a cycle goes on with it; else a new scan runs and forces are enforced.\<close>

definition cycle_body :: "rt_env \<Rightarrow> string \<Rightarrow> vm \<Rightarrow> run_end option" where
  "cycle_body env program vm =
     (if 0 < call_depth vm then continue_execution env vm
      else (case scan_cycle env program vm of
              Some (Finished vm' v) \<Rightarrow>
                (case enforce_retained_locals vm' of
                   Res vm'' \<Rightarrow> Some (Finished vm'' v)
                 | Panic p \<Rightarrow> Some (Crashed p))
            | r \<Rightarrow> r))"

definition note_time :: "nat \<Rightarrow> cycle_stats \<Rightarrow> cycle_stats" where
  "note_time elapsed st =
     st\<lparr>cs_count := cs_count st + 1, cs_last_time := elapsed, cs_total := cs_total st + elapsed,
        cs_min_time := min elapsed (cs_min_time st), cs_max_time := max elapsed (cs_max_time st)\<rparr>"

definition save_retain :: "nat \<Rightarrow> bool \<Rightarrow> engine \<Rightarrow> engine chk" where
  "save_retain now saved e =
     (case ec_retain (eng_config e) of
        None \<Rightarrow> Res e
      | Some _ \<Rightarrow>
          chk_bind (capture_snapshot now (eng_vm e)) (\<lambda>snap.
            if rs_globals snap = [] \<and> rs_program_locals snap = [] \<and> rs_instance_fields snap = [] then Res e
            else Res (if saved then e\<lparr>eng_file := Some snap\<rparr> else e)))"

definition checkpoint :: "nat \<Rightarrow> bool \<Rightarrow> engine \<Rightarrow> engine chk" where
  "checkpoint now saved e =
     (case ec_retain (eng_config e) of
        None \<Rightarrow> Res e
      | Some n \<Rightarrow>
          if n = 0 then Res e
          else let e1 = e\<lparr>eng_retain_counter := eng_retain_counter e + 1\<rparr> in
            if n \<le> eng_retain_counter e1 then save_retain now saved (e1\<lparr>eng_retain_counter := 0\<rparr>)
            else Res e1)"

datatype cycle_end = Cycle_Ok nat engine | Cycle_Err vm_error engine | Cycle_Crash panic

definition run_one_cycle :: "rt_env \<Rightarrow> tick \<Rightarrow> engine \<Rightarrow> cycle_end option" where
  "run_one_cycle env t e =
     (let e1 = note_period (tk_start t) e in
      case cycle_body env (eng_program e1) (prepare_vm e1) of
        None \<Rightarrow> None
      | Some (Crashed p) \<Rightarrow> Some (Cycle_Crash p)
      | Some (Failed vm err) \<Rightarrow> Some (Cycle_Err err (e1\<lparr>eng_vm := vm\<rparr>))
      | Some (Finished vm _) \<Rightarrow>
          let e2 = e1\<lparr>eng_vm := vm\<rparr>; elapsed = tk_elapsed t in
          if (case ec_watchdog (eng_config e2) of None \<Rightarrow> False | Some limit \<Rightarrow> limit < elapsed)
          then Some (Cycle_Err (ExecutionLimit 0) e2)
          else case checkpoint (tk_now t) (tk_saved t) (e2\<lparr>eng_stats := note_time elapsed (eng_stats e2)\<rparr>) of
            Panic p \<Rightarrow> Some (Cycle_Crash p)
          | Res e3 \<Rightarrow> Some (Cycle_Ok elapsed e3))"

definition reset_stats :: "engine \<Rightarrow> engine" where
  "reset_stats e =
     e\<lparr>eng_stats := (eng_stats e)\<lparr>cs_min_time := duration_max, cs_max_time := 0,
        cs_min_period := duration_max, cs_max_period := 0, cs_jitter := 0\<rparr>\<rparr>"

subsection \<open>The loop\<close>

datatype engine_end = Run_Ok engine | Run_Err vm_error engine | Run_Crash panic

text \<open>The sleep after a cycle delays the next tick; it changes nothing of the engine.\<close>

definition sleep_after :: "engine_config \<Rightarrow> nat \<Rightarrow> nat" where
  "sleep_after cfg elapsed = (case ec_cycle_time cfg of None \<Rightarrow> 0 | Some target \<Rightarrow> target - elapsed)"

definition cycles_done :: "engine \<Rightarrow> bool" where
  "cycles_done e \<longleftrightarrow> 0 < ec_max_cycles (eng_config e) \<and> ec_max_cycles (eng_config e) \<le> cs_count (eng_stats e)"

partial_function (option) engine_run :: "rt_env \<Rightarrow> (nat \<Rightarrow> tick) \<Rightarrow> nat \<Rightarrow> engine \<Rightarrow> engine_end option" where
  "engine_run env clock i e =
     (if cycles_done e then Some (Run_Ok e)
      else (case run_one_cycle env (clock i) e of
              None \<Rightarrow> None
            | Some (Cycle_Err err e') \<Rightarrow> Some (Run_Err err e')
            | Some (Cycle_Crash p) \<Rightarrow> Some (Run_Crash p)
            | Some (Cycle_Ok elapsed e') \<Rightarrow> engine_run env clock (i + 1) e'))"

subsection \<open>Online change\<close>

text \<open>The name of the new module's first program becomes the engine's program.\<close>

definition adopt_program :: "ir_module \<Rightarrow> engine \<Rightarrow> engine" where
  "adopt_program m e =
     (case find (\<lambda>f. fn_kind f = Pou_Program) (md_functions m) of
        None \<Rightarrow> e
      | Some f \<Rightarrow> e\<lparr>eng_program := fn_name f\<rparr>)"

definition online_change_module ::
  "nat \<Rightarrow> bool \<Rightarrow> ir_module \<Rightarrow> engine \<Rightarrow> (engine \<times> (string list + change_analysis)) chk" where
  "online_change_module now saved new_m e =
     chk_bind (save_retain now saved e) (\<lambda>e1.
       let a = analyze_change (vm_module (eng_vm e1)) new_m in
       if \<not> ca_compatible a then Res (e1, Inl (ca_reasons a))
       else let e2 = adopt_program new_m e1 in
         chk_bind (apply_online_change (eng_vm e2) new_m a) (\<lambda>r.
           case r of
             Inl (Incompatible reasons) \<Rightarrow> Res (e2, Inl reasons)
           | Inr vm' \<Rightarrow> Res (e2\<lparr>eng_vm := vm'\<rparr>, Inr a)))"


subsection \<open>What a run leaves alone\<close>

definition fixed :: "vm \<Rightarrow> vm \<Rightarrow> bool" where
  "fixed vm vm' \<longleftrightarrow> vm_conf vm' = vm_conf vm \<and> vm_module vm' = vm_module vm \<and>
     vm_forced vm' = vm_forced vm \<and> vm_forced_slots vm' = vm_forced_slots vm \<and> vm_elapsed vm' = vm_elapsed vm \<and>
     length (vm_globals vm') = length (vm_globals vm)"

lemma fixed_refl [simp]: "fixed vm vm"
  by (simp add: fixed_def)

lemma kept_fixed: "kept vm vm' \<Longrightarrow> fixed vm vm'"
  by (simp add: kept_def fixed_def)

primrec out_fixed :: "vm \<Rightarrow> outcome \<Rightarrow> bool" where
  "out_fixed vm (Next vm') \<longleftrightarrow> fixed vm vm'"
| "out_fixed vm (Done vm' v) \<longleftrightarrow> fixed vm vm'"
| "out_fixed vm (Fail vm' e) \<longleftrightarrow> fixed vm vm'"
| "out_fixed vm (Crash p) \<longleftrightarrow> True"

primrec end_fixed :: "vm \<Rightarrow> run_end \<Rightarrow> bool" where
  "end_fixed vm (Finished vm' v) \<longleftrightarrow> fixed vm vm'"
| "end_fixed vm (Failed vm' e) \<longleftrightarrow> fixed vm vm'"
| "end_fixed vm (Crashed p) \<longleftrightarrow> True"

lemma out_kept_fixed: "out_kept vm1 r \<Longrightarrow> fixed vm vm1 \<Longrightarrow> out_fixed vm r"
  by (cases r) (auto simp: kept_def fixed_def)

lemma implicit_return_shape: "(\<exists>vm'. implicit_return vm = Next vm') \<or> (\<exists>p. implicit_return vm = Crash p)"
proof (cases "save_retained_locals vm")
  case (Res vm1)
  then show ?thesis by (cases "deliver V_Void (pop_frame vm1)") (simp_all add: implicit_return_def)
qed (simp add: implicit_return_def)

lemma vm_step_fixed: "out_fixed vm (vm_step env vm)"
proof (cases "vm_stack vm")
  case (Cons f rest)
  show ?thesis
  proof (cases "func_at vm (fr_func f)")
    case (Res fn)
    obtain pause d where d: "should_pause (fr_func f) (fr_pc f) (length (vm_stack vm)) (fn_source_map fn)
        (vm_debug vm) = (pause, d)" by force
    let ?vm1 = "(set_top (f\<lparr>fr_pc := fr_pc f + 1\<rparr>) vm)\<lparr>vm_debug := d, vm_count := vm_count vm + 1\<rparr>"
    have 1: "fixed vm ?vm1" by (simp add: fixed_def set_top_def)
    have "out_fixed vm (implicit_return vm)"
      using implicit_return_shape [of vm] implicit_return_keeps kept_fixed by fastforce
    moreover have "out_fixed vm (fetch_execute env f fn vm)"
      using out_kept_fixed [OF exec_instr_kept 1] 1
      by (cases pause) (simp_all add: fetch_execute_def d Let_def, simp add: fixed_def)
    ultimately show ?thesis using Cons Res by (simp add: vm_step_def)
  qed (simp add: vm_step_def Cons)
qed (simp add: vm_step_def)

lemma execute_fixed: "execute env vm = Some r \<Longrightarrow> end_fixed vm r"
proof -
  assume "execute env vm = Some r"
  then obtain vm' where r: "vm_reach env vm vm'" "run_end_of (vm_step env vm') = Some r"
    using execute_reach by blast
  then have "fixed vm vm'" using vm_reach_kept [OF r(1)] vm_reach_globals_length [OF r(1)] by (simp add: fixed_def)
  with vm_step_fixed [of vm' env] r(2) show ?thesis
    by (cases "vm_step env vm'") (auto simp: fixed_def)
qed

lemma vm_run_fixed: "vm_run env name vm = Some r \<Longrightarrow> end_fixed vm r"
  by (cases r) (auto simp: vm_run_def fixed_def split: option.splits prod.splits dest!: execute_fixed)

lemma enforce_retained_locals_fixed: "enforce_retained_locals vm = Res vm' \<Longrightarrow> fixed vm vm'"
proof -
  have w: "fixed (vm :: vm) (write_field key pos v vm)" for key pos v vm
    by (simp add: write_field_def fixed_def Let_def split: option.split)
  have "fixed (vm :: vm) (fold (\<lambda>(key, pos, v). write_field key pos v) ffs vm)" for ffs vm
  proof (induction ffs arbitrary: vm)
    case (Cons x ffs)
    obtain key pos v where x: "x = (key, pos, v)" by (cases x) auto
    from Cons [of "write_field key pos v vm"] w [of vm key pos v] show ?case by (simp add: x fixed_def)
  qed simp
  note f = this
  assume "enforce_retained_locals vm = Res vm'"
  with f [of "vm\<lparr>vm_retained := r\<rparr>" for r] show ?thesis
    by (auto simp: enforce_retained_locals_def fixed_def split: if_splits)
qed

lemma cycle_body_fixed:
  assumes "cycle_body env program vm = Some r"
  shows "end_fixed vm r"
proof (cases "0 < call_depth vm")
  case True
  with assms show ?thesis
    by (auto simp: cycle_body_def continue_execution_def split: if_splits dest: execute_fixed)
next
  case False
  with assms obtain r0 where r0: "vm_run env program vm = Some r0"
    by (auto simp: cycle_body_def scan_cycle_def split: option.splits)
  note f = vm_run_fixed [OF r0]
  show ?thesis
  proof (cases r0)
    case (Finished vm1 v)
    show ?thesis
    proof (cases "enforce_retained_locals vm1")
      case (Res vm2)
      with enforce_retained_locals_fixed [OF Res] assms False r0 Finished f show ?thesis
        by (auto simp: cycle_body_def scan_cycle_def fixed_def)
    qed (use assms False r0 Finished in \<open>auto simp: cycle_body_def scan_cycle_def\<close>)
  qed (use assms False r0 f in \<open>auto simp: cycle_body_def scan_cycle_def\<close>)
qed

lemma cycle_body_total: "0 < max_instructions (vm_conf vm) \<Longrightarrow> \<exists>r. cycle_body env program vm = Some r"
  using vm_run_total [of vm env program] execute_returns [of vm env]
  by (auto simp: cycle_body_def continue_execution_def scan_cycle_def instruction_limit_def
      split: run_end.split chk.split)


subsection \<open>The statistics\<close>

text \<open>What one successful cycle does to the engine.\<close>

lemma save_retain_same:
  "save_retain now saved e = Res e' \<Longrightarrow> eng_vm e' = eng_vm e \<and> eng_config e' = eng_config e \<and>
     eng_stats e' = eng_stats e \<and> eng_program e' = eng_program e \<and> eng_prev_start e' = eng_prev_start e \<and>
     eng_retain_counter e' = eng_retain_counter e"
  by (auto simp: save_retain_def split: option.splits if_splits)

lemma checkpoint_same:
  "checkpoint now saved e = Res e' \<Longrightarrow> eng_vm e' = eng_vm e \<and> eng_config e' = eng_config e \<and>
     eng_stats e' = eng_stats e \<and> eng_program e' = eng_program e \<and> eng_prev_start e' = eng_prev_start e"
  by (auto simp: checkpoint_def Let_def dest!: save_retain_same split: option.splits if_splits)

lemma note_period_same [simp]:
  "eng_vm (note_period t e) = eng_vm e" "eng_config (note_period t e) = eng_config e"
  "eng_program (note_period t e) = eng_program e" "eng_prev_start (note_period t e) = Some t"
  "eng_retain_counter (note_period t e) = eng_retain_counter e" "eng_file (note_period t e) = eng_file e"
  "cs_count (eng_stats (note_period t e)) = cs_count (eng_stats e)"
  "cs_total (eng_stats (note_period t e)) = cs_total (eng_stats e)"
  "cs_min_time (eng_stats (note_period t e)) = cs_min_time (eng_stats e)"
  "cs_max_time (eng_stats (note_period t e)) = cs_max_time (eng_stats e)"
  "cs_last_time (eng_stats (note_period t e)) = cs_last_time (eng_stats e)"
  by (simp_all add: note_period_def Let_def split: option.split)

lemma prepare_vm_same [simp]:
  "vm_conf (prepare_vm e) = vm_conf (eng_vm e)" "vm_module (prepare_vm e) = vm_module (eng_vm e)"
  "vm_stack (prepare_vm e) = vm_stack (eng_vm e)"
  by (simp_all add: prepare_vm_def reset_instruction_count_def set_elapsed_time_ms_def)

lemma run_one_cycle_Ok:
  assumes "run_one_cycle env t e = Some (Cycle_Ok d e')"
  shows "d = tk_elapsed t" "eng_config e' = eng_config e" "eng_program e' = eng_program e"
    "eng_prev_start e' = Some (tk_start t)"
    "eng_stats e' = note_time d (eng_stats (note_period (tk_start t) e))"
    "\<exists>v. cycle_body env (eng_program e) (prepare_vm (note_period (tk_start t) e)) = Some (Finished (eng_vm e') v)"
  using assms
  by (auto simp: run_one_cycle_def Let_def split: option.splits run_end.splits if_splits chk.splits
      dest!: checkpoint_same)

lemma run_one_cycle_total:
  "0 < max_instructions (vm_conf (eng_vm e)) \<Longrightarrow> \<exists>r. run_one_cycle env t e = Some r"
  using cycle_body_total [of "prepare_vm (note_period (tk_start t) e)" env "eng_program e"]
  by (auto simp: run_one_cycle_def Let_def split: run_end.split option.split chk.split)

lemma run_one_cycle_conf:
  "run_one_cycle env t e = Some (Cycle_Ok d e') \<Longrightarrow> vm_conf (eng_vm e') = vm_conf (eng_vm e) \<and>
     vm_module (eng_vm e') = vm_module (eng_vm e)"
  using run_one_cycle_Ok(6) cycle_body_fixed by (fastforce simp: fixed_def)

text \<open>C14: with a cycle limit and an instruction limit the scan loop always comes back, whatever the program
  and whatever the clock; and it comes back without an error only when the count has reached the limit.\<close>

theorem engine_run_returns:
  assumes "0 < ec_max_cycles (eng_config e)" "0 < max_instructions (vm_conf (eng_vm e))"
  shows "\<exists>r. engine_run env clock i e = Some r \<and>
    (\<forall>e'. r = Run_Ok e' \<longrightarrow> cs_count (eng_stats e') = max (cs_count (eng_stats e)) (ec_max_cycles (eng_config e)))"
  using assms
proof (induction "ec_max_cycles (eng_config e) - cs_count (eng_stats e)" arbitrary: i e rule: less_induct)
  case less
  show ?case
  proof (cases "cycles_done e")
    case True
    then show ?thesis by (subst engine_run.simps) (simp add: cycles_done_def max_def)
  next
    case False
    then have lt: "cs_count (eng_stats e) < ec_max_cycles (eng_config e)"
      using less.prems(1) by (simp add: cycles_done_def)
    obtain r where r: "run_one_cycle env (clock i) e = Some r" using run_one_cycle_total [OF less.prems(2)] by blast
    show ?thesis
    proof (cases r)
      case (Cycle_Ok d e1)
      note ok = run_one_cycle_Ok [OF r [unfolded Cycle_Ok]]
      have c: "cs_count (eng_stats e1) = cs_count (eng_stats e) + 1" by (simp add: ok(5) note_time_def)
      have "vm_conf (eng_vm e1) = vm_conf (eng_vm e)"
        using run_one_cycle_conf r Cycle_Ok by blast
      with less.hyps [of e1 "i + 1"] c lt ok(2) less.prems obtain r' where
        r': "engine_run env clock (i + 1) e1 = Some r'"
        "\<forall>e'. r' = Run_Ok e' \<longrightarrow> cs_count (eng_stats e') = max (cs_count (eng_stats e1)) (ec_max_cycles (eng_config e1))"
        by (auto simp: less_diff_conv)
      have "engine_run env clock i e = Some r'"
        using False r Cycle_Ok r'(1) by (subst engine_run.simps) simp
      with r'(2) c ok(2) lt show ?thesis by (auto simp: max_def)
    qed (use False r in \<open>subst engine_run.simps, simp\<close>)+
  qed
qed


text \<open>A sequence of successful cycles.\<close>

inductive engine_cycles :: "rt_env \<Rightarrow> engine \<Rightarrow> tick list \<Rightarrow> engine \<Rightarrow> bool" for env :: rt_env and e :: engine where
  cycles_nil: "engine_cycles env e [] e"
| cycles_snoc: "engine_cycles env e ts e1 \<Longrightarrow> run_one_cycle env t e1 = Some (Cycle_Ok d e2) \<Longrightarrow>
    engine_cycles env e (ts @ [t]) e2"

inductive_cases engine_cycles_snocE: "engine_cycles env e (ts @ [t]) e'"

lemma engine_cycles_keep:
  "engine_cycles env e ts e' \<Longrightarrow> eng_config e' = eng_config e \<and> eng_program e' = eng_program e \<and>
     vm_module (eng_vm e') = vm_module (eng_vm e)"
  by (induction rule: engine_cycles.induct) (auto simp: run_one_cycle_Ok(2,3) dest: run_one_cycle_conf)

text \<open>The statistics a list of execution times has.\<close>

definition stats_of :: "nat list \<Rightarrow> cycle_stats \<Rightarrow> bool" where
  "stats_of ds st \<longleftrightarrow> cs_count st = length ds \<and> cs_total st = sum_list ds \<and>
     (ds \<noteq> [] \<longrightarrow> cs_last_time st = last ds) \<and>
     cs_min_time st = fold min ds duration_max \<and> cs_max_time st = fold max ds 0"

lemma stats_of_note_time: "stats_of ds st \<Longrightarrow> stats_of (ds @ [d]) (note_time d st)"
  by (simp add: stats_of_def note_time_def min.commute max.commute)

lemma engine_cycles_stats:
  "engine_cycles env e ts e' \<Longrightarrow> eng_stats e = fresh_stats \<Longrightarrow> stats_of (map tk_elapsed ts) (eng_stats e')"
proof (induction rule: engine_cycles.induct)
  case (cycles_snoc ts e1 t d e2)
  note ok = run_one_cycle_Ok [OF cycles_snoc.hyps(2)]
  have "stats_of (map tk_elapsed ts) (eng_stats (note_period (tk_start t) e1))"
    using cycles_snoc.IH cycles_snoc.prems by (simp add: stats_of_def)
  then show ?case using stats_of_note_time ok(1,5) by simp
qed (simp add: stats_of_def fresh_stats_def)

lemma fold_min_le: "fold min ds (a :: nat) \<le> a \<and> (\<forall>d \<in> set ds. fold min ds a \<le> d)"
proof (induction ds arbitrary: a)
  case (Cons d ds)
  from Cons [of "min d a"] show ?case by auto
qed simp

lemma fold_max_ge: "a \<le> fold max ds (a :: nat) \<and> (\<forall>d \<in> set ds. d \<le> fold max ds a)"
proof (induction ds arbitrary: a)
  case (Cons d ds)
  from Cons [of "max d a"] show ?case by auto
qed simp

lemma sum_list_bounds:
  assumes "\<forall>d \<in> set ds. lo \<le> d \<and> d \<le> (hi :: nat)"
  shows "length ds * lo \<le> sum_list ds \<and> sum_list ds \<le> length ds * hi"
  using assms by (induction ds) (auto simp: add_mono)

text \<open>C16: after any sequence of cycles of a new engine the statistics are those of the list of its execution
  times: the count, the sum, the last one, the extremes; and the average reported lies between them.\<close>

theorem statistics_exact:
  assumes "engine_cycles env e ts e'" "eng_stats e = fresh_stats" "ts \<noteq> []"
    "\<forall>t \<in> set ts. tk_elapsed t < 2 ^ 64"
  shows "stats_of (map tk_elapsed ts) (eng_stats e') \<and>
    cs_min_time (eng_stats e') \<le> avg_cycle_time (eng_stats e') \<and>
    avg_cycle_time (eng_stats e') \<le> cs_max_time (eng_stats e')"
proof -
  let ?ds = "map tk_elapsed ts"
  let ?st = "eng_stats e'"
  have st: "stats_of ?ds ?st" by (rule engine_cycles_stats [OF assms(1,2)])
  have len: "0 < length ?ds" using assms(3) by simp
  have range: "\<forall>d \<in> set ?ds. cs_min_time ?st \<le> d \<and> d \<le> cs_max_time ?st"
    using st fold_min_le [of ?ds duration_max] fold_max_ge [of 0 ?ds] by (simp add: stats_of_def)
  have "\<forall>d \<in> set ?ds. 0 \<le> d \<and> d \<le> 2 ^ 64 - 1" using assms(4) by fastforce
  then have "sum_list ?ds \<le> length ?ds * (2 ^ 64 - 1)" using sum_list_bounds by blast
  then have "sum_list ?ds div length ?ds \<le> 2 ^ 64 - 1"
    using len by (metis div_le_mono nonzero_mult_div_cancel_left not_gr_zero)
  then have "avg_cycle_time ?st = sum_list ?ds div length ?ds"
    using st len by (simp add: avg_cycle_time_def stats_of_def unat_of_nat take_bit_nat_eq_self)
  moreover have "cs_min_time ?st \<le> sum_list ?ds div length ?ds"
    using sum_list_bounds [OF range] len
    by (metis div_le_mono nonzero_mult_div_cancel_left not_gr_zero)
  moreover have "sum_list ?ds div length ?ds \<le> cs_max_time ?st"
    using sum_list_bounds [OF range] len
    by (metis div_le_mono nonzero_mult_div_cancel_left not_gr_zero)
  ultimately show ?thesis using st by simp
qed

text \<open>C36: the timers' clock does not see the time between cycles: what a cycle finds as the time since the
  engine started is the sum of the earlier execution times, whenever those cycles started.\<close>

theorem timer_clock_excludes_sleep:
  assumes "engine_cycles env e ts e'" "eng_stats e = fresh_stats"
  shows "vm_elapsed (prepare_vm (note_period now e')) = of_nat (sum_list (map tk_elapsed ts) div 1000000)"
  using engine_cycles_stats [OF assms]
  by (simp add: prepare_vm_def reset_instruction_count_def set_elapsed_time_ms_def stats_of_def)


subsection \<open>An engine to run\<close>

text \<open>A program that does nothing, beside one RETAIN global.\<close>

definition idle_main :: func where
  "idle_main = demo_func ''Main'' Pou_Program 1 [RetVoid] []"

definition idle_module :: ir_module where
  "idle_module = \<lparr>md_functions = [idle_main], md_globals = \<lparr>slots = [int_slot ''out'' I8]\<rparr>,
     md_type_defs = [], md_native_fb_indices = []\<rparr>"

definition idle_engine :: "nat option \<Rightarrow> engine" where
  "idle_engine retain =
     \<lparr>eng_vm = (vm_new idle_module default_vm_config)\<lparr>vm_globals := [V_Int 42]\<rparr>,
      eng_config = default_engine_config\<lparr>ec_retain := retain, ec_cycle_time := Some 100000000\<rparr>,
      eng_stats = fresh_stats, eng_program = ''main'', eng_prev_start = None, eng_retain_counter = 0,
      eng_file = None\<rparr>"

definition idle_vm :: "vm \<Rightarrow> bool" where
  "idle_vm vm \<longleftrightarrow> vm_module vm = idle_module \<and> vm_stack vm = [] \<and> vm_forced vm = [] \<and>
     vm_debug vm = debug_new \<and> vm_conf vm = default_vm_config \<and> vm_globals vm = [V_Int 42] \<and>
     fst ` set (vm_retained vm) \<subseteq> {0}"

definition idle :: "engine \<Rightarrow> bool" where
  "idle e \<longleftrightarrow> idle_vm (eng_vm e) \<and> eng_program e = ''main'' \<and> ec_watchdog (eng_config e) = None"

lemma idle_find_main: "find_function idle_module ''main'' = Some (0, idle_main)"
  using demo_main_name by (simp add: find_function_def function_pos_def idle_module_def idle_main_def demo_func_def)

lemma idle_step:
  assumes "idle_vm vm" "vm_count vm = 0"
  shows "\<exists>vm'. vm_run env ''main'' vm = Some (Finished vm' V_Void) \<and> idle_vm vm'"
proof -
  obtain ls where e: "entry_frame vm 0 idle_main = fresh_frame 0 idle_main ls 0 None"
    by (cases "hm_get (vm_retained vm) 0") (simp_all add: entry_frame_def idle_main_def demo_func_def)
  let ?f = "fresh_frame 0 idle_main ls 0 None"
  let ?vm1 = "vm\<lparr>vm_stack := [?f]\<rparr>"
  let ?vm2 = "vm\<lparr>vm_stack := [], vm_count := 1, vm_retained := hm_insert 0 ls (vm_retained vm)\<rparr>"
  note i = assms [unfolded idle_vm_def]
  have "vm_step env ?vm1 = Done ?vm2 V_Void"
    using i by (simp add: vm_step_def func_at_def vec_get_def idle_module_def idle_main_def demo_func_def
        fresh_frame_def fetch_execute_def set_top_def default_vm_config_def exec_instr_def exec_RetVoid_def
        save_retained_locals_def pop_frame_def Let_def)
  then have "vm_run env ''main'' vm = Some (Finished ?vm2 V_Void)"
    using i idle_find_main e by (simp add: vm_run_def execute.simps)
  moreover have "idle_vm ?vm2"
    using i set_hm_insert [of "0 :: u16" ls "vm_retained vm"] by (fastforce simp: idle_vm_def)
  ultimately show ?thesis by blast
qed

lemma idle_capture: "idle_vm vm \<Longrightarrow> \<exists>snap. capture_snapshot now vm = Res snap \<and> rs_instance_fields snap = []"
proof -
  assume i: "idle_vm vm"
  have step: "capture_program vm (0, ls) acc = Res acc" for ls acc
    using i by (cases acc) (simp add: idle_vm_def capture_program_def func_at_def vec_get_def idle_module_def
        idle_main_def demo_func_def)
  have "chk_fold (capture_program vm) rs acc = Res acc" if "fst ` set rs \<subseteq> {0}" for rs acc
    using that
  proof (induction rs arbitrary: acc)
    case (Cons r rs)
    then obtain ls where "r = (0, ls)" by (cases r) auto
    with Cons step [of ls acc] show ?case by auto
  qed simp
  from this [of "vm_retained vm" "([], [])"] i show ?thesis
    by (auto simp: capture_snapshot_def idle_vm_def)
qed

lemma idle_checkpoint: "idle e \<Longrightarrow> \<exists>e'. checkpoint now saved e = Res e'"
  using idle_capture [of "eng_vm e" now]
  by (auto simp: checkpoint_def save_retain_def Let_def idle_def split: option.split)

lemma idle_cycle:
  assumes "idle e"
  shows "\<exists>e'. run_one_cycle env t e = Some (Cycle_Ok (tk_elapsed t) e') \<and> idle e'"
proof -
  let ?e1 = "note_period (tk_start t) e"
  have p: "idle_vm (prepare_vm ?e1)" "vm_count (prepare_vm ?e1) = 0"
    using assms by (simp_all add: idle_def idle_vm_def prepare_vm_def reset_instruction_count_def
        set_elapsed_time_ms_def)
  from idle_step [OF p, of env] obtain vm' where v: "vm_run env ''main'' (prepare_vm ?e1) = Some (Finished vm' V_Void)"
    "idle_vm vm'" by blast
  have b: "cycle_body env ''main'' (prepare_vm ?e1) = Some (Finished vm' V_Void)"
    using v p by (simp add: cycle_body_def scan_cycle_def call_depth_def idle_vm_def enforce_retained_locals_def)
  let ?e2 = "?e1\<lparr>eng_vm := vm', eng_stats := note_time (tk_elapsed t) (eng_stats ?e1)\<rparr>"
  have i2: "idle ?e2" using v(2) assms by (simp add: idle_def)
  then obtain e3 where e3: "checkpoint (tk_now t) (tk_saved t) ?e2 = Res e3" using idle_checkpoint by blast
  have "run_one_cycle env t e = Some (Cycle_Ok (tk_elapsed t) e3)"
    using b e3 assms by (simp add: run_one_cycle_def Let_def idle_def)
  moreover have "idle e3" using i2 checkpoint_same [OF e3] by (simp add: idle_def)
  ultimately show ?thesis by blast
qed

lemma idle_cycles: "idle e \<Longrightarrow> \<exists>e'. engine_cycles env e ts e' \<and> idle e'"
proof (induction ts rule: rev_induct)
  case (snoc t ts)
  then show ?case using idle_cycle cycles_snoc by meson
qed (auto intro: cycles_nil)

lemma idle_engine_idle: "idle (idle_engine r)"
  by (simp add: idle_def idle_engine_def idle_vm_def vm_new_def default_engine_config_def)


lemma idle_engine_fresh [simp]: "eng_stats (idle_engine r) = fresh_stats" "eng_retain_counter (idle_engine r) = 0"
  "ec_retain (eng_config (idle_engine r)) = r"
  by (simp_all add: idle_engine_def default_engine_config_def)

definition ms_tick :: "nat \<Rightarrow> nat \<Rightarrow> tick" where
  "ms_tick start elapsed = \<lparr>tk_start = start * 1000000, tk_elapsed = elapsed * 1000000, tk_now = 0, tk_saved = True\<rparr>"

theorem engine_run_returns_witness:
  "\<exists>r. engine_run demo_env (\<lambda>i. ms_tick (100 * i) 1) 0 ((idle_engine None)\<lparr>eng_config := default_engine_config\<lparr>ec_max_cycles := 3\<rparr>\<rparr>) = Some r"
  using engine_run_returns [of "(idle_engine None)\<lparr>eng_config := default_engine_config\<lparr>ec_max_cycles := 3\<rparr>\<rparr>" demo_env "\<lambda>i. ms_tick (100 * i) 1" 0]
  by (auto simp: idle_engine_def vm_new_def default_vm_config_def)

theorem statistics_exact_witness:
  "\<exists>e'. engine_cycles demo_env (idle_engine None) [ms_tick 0 2, ms_tick 100 6] e' \<and>
     cs_min_time (eng_stats e') \<le> avg_cycle_time (eng_stats e') \<and>
     avg_cycle_time (eng_stats e') \<le> cs_max_time (eng_stats e') \<and> cs_total (eng_stats e') = 8000000"
proof -
  obtain e' where e: "engine_cycles demo_env (idle_engine None) [ms_tick 0 2, ms_tick 100 6] e'"
    using idle_cycles [OF idle_engine_idle] by blast
  from statistics_exact [OF e] have "stats_of (map tk_elapsed [ms_tick 0 2, ms_tick 100 6]) (eng_stats e') \<and>
      cs_min_time (eng_stats e') \<le> avg_cycle_time (eng_stats e') \<and>
      avg_cycle_time (eng_stats e') \<le> cs_max_time (eng_stats e')"
    by (simp add: ms_tick_def)
  with e show ?thesis by (auto simp: stats_of_def ms_tick_def)
qed

text \<open>Ten cycles of 1 ms, 100 ms apart: the eleventh starts a second after the first and finds 10 ms.\<close>

theorem timer_clock_excludes_sleep_witness:
  "\<exists>e'. engine_cycles demo_env (idle_engine None) (map (\<lambda>i. ms_tick (100 * i) 1) [0..<10]) e' \<and>
     vm_elapsed (prepare_vm (note_period (1000 * 1000000) e')) = 10"
proof -
  let ?ts = "map (\<lambda>i. ms_tick (100 * i) 1) [0..<10]"
  obtain e' where e: "engine_cycles demo_env (idle_engine None) ?ts e'"
    using idle_cycles [OF idle_engine_idle] by blast
  have "sum_list (map tk_elapsed ?ts) = 10 * 1000000" by (simp add: ms_tick_def comp_def upt_rec)
  with timer_clock_excludes_sleep [OF e, of "1000 * 1000000"] e show ?thesis by auto
qed

subsection \<open>Checkpoints\<close>

lemma checkpoint_counter:
  assumes "checkpoint now saved e = Res e'" "ec_retain (eng_config e) = Some n" "0 < n"
    "eng_retain_counter e = k mod n"
  shows "eng_retain_counter e' = Suc k mod n"
  using assms
  by (auto simp: checkpoint_def Let_def mod_Suc not_le dest!: save_retain_same split: if_splits)
    (metis Suc_leI le_antisym mod_less_divisor)

lemma run_one_cycle_checkpoint:
  assumes "run_one_cycle env t e = Some (Cycle_Ok d e')"
  shows "\<exists>e1. checkpoint (tk_now t) (tk_saved t) e1 = Res e' \<and> eng_vm e1 = eng_vm e' \<and> eng_config e1 = eng_config e \<and>
    eng_retain_counter e1 = eng_retain_counter e \<and> eng_file e1 = eng_file e"
proof -
  let ?n = "note_period (tk_start t) e"
  obtain v where v: "cycle_body env (eng_program e) (prepare_vm ?n) = Some (Finished (eng_vm e') v)"
    using run_one_cycle_Ok(6) [OF assms] by blast
  let ?e1 = "?n\<lparr>eng_vm := eng_vm e', eng_stats := note_time (tk_elapsed t) (eng_stats ?n)\<rparr>"
  have "checkpoint (tk_now t) (tk_saved t) ?e1 = Res e'"
    using assms v by (simp add: run_one_cycle_def Let_def split: if_splits chk.splits)
  then show ?thesis by (intro exI [of _ ?e1]) simp
qed

lemma save_retain_writes:
  assumes "save_retain now True e = Res e'" "ec_retain (eng_config e) = Some n"
  shows "\<exists>snap. capture_snapshot now (eng_vm e) = Res snap \<and>
    (rs_globals snap \<noteq> [] \<or> rs_program_locals snap \<noteq> [] \<or> rs_instance_fields snap \<noteq> [] \<longrightarrow> eng_file e' = Some snap)"
proof -
  obtain snap where s: "capture_snapshot now (eng_vm e) = Res snap"
    using assms by (auto simp: save_retain_def)
  have "eng_file e' = Some snap"
    if "\<not> (rs_globals snap = [] \<and> rs_program_locals snap = [] \<and> rs_instance_fields snap = [])"
  proof -
    have "e' = e\<lparr>eng_file := Some snap\<rparr>" using assms s that by (simp add: save_retain_def)
    then show ?thesis by simp
  qed
  with s show ?thesis by blast
qed

lemma engine_cycles_counter:
  "engine_cycles env e ts e' \<Longrightarrow> ec_retain (eng_config e) = Some n \<Longrightarrow> 0 < n \<Longrightarrow> eng_retain_counter e = 0 \<Longrightarrow>
     eng_retain_counter e' = length ts mod n"
proof (induction rule: engine_cycles.induct)
  case (cycles_snoc ts e1 t d e2)
  obtain e3 where c: "checkpoint (tk_now t) (tk_saved t) e3 = Res e2" "eng_config e3 = eng_config e1"
    "eng_retain_counter e3 = eng_retain_counter e1"
    using run_one_cycle_checkpoint [OF cycles_snoc.hyps(2)] by blast
  have "ec_retain (eng_config e3) = Some n"
    using engine_cycles_keep [OF cycles_snoc.hyps(1)] c(2) cycles_snoc.prems(1) by simp
  with checkpoint_counter [OF c(1) this cycles_snoc.prems(2)] c(3) cycles_snoc.IH cycles_snoc.prems show ?case by simp
qed simp

lemma checkpoint_writes:
  assumes "engine_cycles env e (ts @ [t]) e'" "ec_retain (eng_config e) = Some n" "0 < n" "eng_retain_counter e = 0"
    "n dvd length ts + 1" "tk_saved t"
  shows "\<exists>snap. capture_snapshot (tk_now t) (eng_vm e') = Res snap \<and>
    (rs_globals snap \<noteq> [] \<or> rs_program_locals snap \<noteq> [] \<or> rs_instance_fields snap \<noteq> [] \<longrightarrow> eng_file e' = Some snap)"
proof -
  from assms(1) obtain e1 d where c: "engine_cycles env e ts e1" "run_one_cycle env t e1 = Some (Cycle_Ok d e')"
    by (rule engine_cycles_snocE) simp
  obtain e2 where e2: "checkpoint (tk_now t) (tk_saved t) e2 = Res e'" "eng_vm e2 = eng_vm e'"
    "eng_config e2 = eng_config e1" "eng_retain_counter e2 = eng_retain_counter e1"
    using run_one_cycle_checkpoint [OF c(2)] by blast
  have "eng_retain_counter e2 = length ts mod n"
    using engine_cycles_counter [OF c(1) assms(2-4)] e2(4) by simp
  moreover have "n \<le> length ts mod n + 1"
    using assms(3,5) by (metis Suc_eq_plus1 dvd_imp_mod_0 mod_Suc not_less_eq_eq nat.simps(3) order_refl)
  moreover have "ec_retain (eng_config e2) = Some n" using engine_cycles_keep [OF c(1)] e2(3) assms(2) by simp
  ultimately have "save_retain (tk_now t) True (e2\<lparr>eng_retain_counter := 0\<rparr>) = Res e'"
    using e2(1) assms(3,6) by (simp add: checkpoint_def Let_def)
  with save_retain_writes [of _ _ e' n] \<open>ec_retain (eng_config e2) = Some n\<close> e2(2) show ?thesis by fastforce
qed

text \<open>C27: an engine with a retain file and a checkpoint interval writes the file on every interval-th successful
  cycle: after such a cycle the file holds the snapshot of the machine as that cycle left it, provided the
  write succeeds and there is anything to retain.\<close>

theorem checkpoint_every_interval:
  assumes "engine_cycles env e (ts @ [t]) e'" "ec_retain (eng_config e) = Some n" "0 < n" "eng_retain_counter e = 0"
    "n dvd length ts + 1" "tk_saved t"
  shows "\<exists>snap. capture_snapshot (tk_now t) (eng_vm e') = Res snap \<and>
    (rs_globals snap \<noteq> [] \<or> rs_program_locals snap \<noteq> [] \<or> rs_instance_fields snap \<noteq> [] \<longrightarrow> eng_file e' = Some snap)"
  by (rule checkpoint_writes [OF assms])

theorem checkpoint_every_interval_witness:
  "\<exists>e' snap. engine_cycles demo_env (idle_engine (Some 2)) ([ms_tick 0 1] @ [ms_tick 100 1]) e' \<and>
     capture_snapshot 0 (eng_vm e') = Res snap \<and> (rs_globals snap \<noteq> [] \<longrightarrow> eng_file e' = Some snap)"
proof -
  obtain e' where e: "engine_cycles demo_env (idle_engine (Some 2)) ([ms_tick 0 1] @ [ms_tick 100 1]) e'"
    using idle_cycles [OF idle_engine_idle] by blast
  from checkpoint_every_interval [OF e, of 2] e show ?thesis by (auto simp: ms_tick_def)
qed


text \<open>The idle engine after its second cycle, and an engine built on the file it wrote.\<close>

lemma no_init: "\<not> eq_ignore_ascii_case ''Main'' global_init_name"
  by code_simp

lemma idle_restart:
  assumes "engine_cycles demo_env (idle_engine (Some 2)) ([ms_tick 0 1] @ [ms_tick 100 1]) e'" "idle e'"
  shows "\<exists>e2. engine_new demo_env idle_module ''main'' (eng_config (idle_engine (Some 2))) (eng_file e') = Some (Res e2)"
proof -
  let ?cfg = "eng_config (idle_engine (Some 2))"
  have cfg: "ec_retain ?cfg = Some 2" "ec_vm_config ?cfg = default_vm_config"
    by (simp_all add: idle_engine_def default_engine_config_def)
  obtain snap where snap: "capture_snapshot (tk_now (ms_tick 100 1)) (eng_vm e') = Res snap" "rs_instance_fields snap = []"
    using idle_capture assms(2) unfolding idle_def by blast
  have g: "rs_globals snap \<noteq> []"
    using snap(1) assms(2)
    by (auto simp: capture_snapshot_def capture_globals_def idle_def idle_vm_def idle_module_def retainable_def
        int_slot_def)
  have written: "eng_file e' = Some snap"
    using checkpoint_writes [OF assms(1), of 2] snap(1) g by (auto simp: ms_tick_def idle_engine_def)
  obtain r where r: "restore_snapshot (vm_new idle_module default_vm_config) snap True = Res r"
    by (simp add: restore_snapshot_def Let_def snap(2))
  have "find_function idle_module global_init_name = None"
    using no_init by (simp add: find_function_def function_pos_def idle_module_def idle_main_def demo_func_def)
  then have "run_global_init env (vm_new idle_module default_vm_config) =
      Some (Finished (vm_new idle_module default_vm_config) V_Void)" for env
    by (simp add: run_global_init_def vm_new_def)
  then show ?thesis
    using r by (cases r)
      (simp add: engine_new_def new_with_native_fbs_def initialised_vm_def cfg restored_vm_def written)
qed

subsection \<open>Errors\<close>



text \<open>When the global initialisers fail with frames left on the stack, the engine is built all the same and its first cycle is
  the rest of the initialiser from the instruction after the failing one, not a scan of the program.\<close>

theorem failed_init_is_resumed:
  assumes "run_global_init (env\<lparr>env_native := (\<lambda>_. None)\<rparr>) (vm_new m (ec_vm_config cfg)) = Some (Failed vm err)"
    "vm_stack vm \<noteq> []" "ec_retain cfg = None \<or> file = None"
    "engine_new env m program cfg file = Some (Res e)"
  shows "eng_vm e = vm \<and> cycle_body env' (eng_program e) (prepare_vm (note_period t e)) =
    execute env' (prepare_vm (note_period t e)) \<and> vm_stack (prepare_vm (note_period t e)) = vm_stack vm"
  using assms
  by (auto simp: engine_new_def new_with_native_fbs_def initialised_vm_def restored_vm_def cycle_body_def
      call_depth_def continue_execution_def split: option.splits)


text \<open>A global initialiser that divides by zero.\<close>

definition bad_init :: func where
  "bad_init = demo_func ''__global_init'' Pou_Function 2
     [LoadConst 0 (V_Int 1), LoadConst 1 (V_Int 0), Div 0 0 1, StoreGlobal 0 0, RetVoid] []"

definition bad_module :: ir_module where
  "bad_module = idle_module\<lparr>md_functions := [idle_main, bad_init]\<rparr>"

lemma bad_find: "find_function bad_module global_init_name = Some (1, bad_init)"
proof -
  have "\<not> eq_ignore_ascii_case ''Main'' global_init_name" "eq_ignore_ascii_case ''__global_init'' global_init_name"
    by code_simp+
  then show ?thesis
    by (simp add: find_function_def function_pos_def bad_module_def idle_main_def bad_init_def demo_func_def)
qed

lemma bad_run:
  "\<exists>vm. run_global_init env (vm_new bad_module default_vm_config) = Some (Failed vm DivisionByZero) \<and> vm_stack vm \<noteq> []"
proof -
  let ?vm = "vm_new bad_module default_vm_config"
  let ?f = "\<lambda>pc regs. (fresh_frame 1 bad_init [] 0 None)\<lparr>fr_pc := pc, fr_regs := regs\<rparr>"
  let ?s = "\<lambda>pc n regs. ?vm\<lparr>vm_stack := [?f pc regs], vm_count := n\<rparr>"
  note d = vm_step_def func_at_def vec_get_def vm_new_def bad_module_def idle_module_def bad_init_def demo_func_def
    fresh_frame_def fetch_execute_def set_top_def default_vm_config_def exec_instr_def put_def reg_set_def Let_def
    top_frame_def vec_set_def
  have regs: "replicate 2 default_val = [default_val, default_val]" by (simp add: numeral_2_eq_2)
  have e: "?vm\<lparr>vm_stack := [entry_frame ?vm 1 bad_init]\<rparr> = ?s 0 0 [default_val, default_val]"
    using regs by (simp add: entry_frame_def bad_init_def demo_func_def vm_new_def fresh_frame_def default_locals_def)
  have 1: "vm_step env (?s 0 0 [default_val, default_val]) = Next (?s 1 1 [V_Int 1, default_val])"
    by (simp add: d)
  have 2: "vm_step env (?s 1 1 [V_Int 1, default_val]) = Next (?s 2 2 [V_Int 1, V_Int 0])"
    by (simp add: d)
  have 3: "vm_step env (?s 2 2 [V_Int 1, V_Int 0]) = Fail (?s 3 3 [V_Int 1, V_Int 0]) DivisionByZero"
    by (simp add: d exec_Div_def reg_get_def)
  have "execute env (?s 0 0 [default_val, default_val]) = Some (Failed (?s 3 3 [V_Int 1, V_Int 0]) DivisionByZero)"
    using execute_Next [OF 1] execute_Next [OF 2] 3 by (simp add: execute.simps)
  then have "run_global_init env ?vm = Some (Failed (?s 3 3 [V_Int 1, V_Int 0]) DivisionByZero)"
    using e bad_find by (simp add: run_global_init_def vm_run_def vm_new_def)
  then show ?thesis by fastforce
qed


theorem failed_init_is_resumed_witness:
  "\<exists>e vm. engine_new demo_env bad_module ''main'' default_engine_config None = Some (Res e) \<and>
     run_global_init (demo_env\<lparr>env_native := (\<lambda>_. None)\<rparr>) (vm_new bad_module default_vm_config) =
       Some (Failed vm DivisionByZero) \<and>
     vm_stack (prepare_vm (note_period 0 e)) = vm_stack vm \<and> vm_stack vm \<noteq> []"
proof -
  let ?env = "demo_env\<lparr>env_native := (\<lambda>_. None)\<rparr>"
  obtain vm where vm: "run_global_init ?env (vm_new bad_module default_vm_config) = Some (Failed vm DivisionByZero)"
    "vm_stack vm \<noteq> []"
    using bad_run by blast
  then obtain e where e: "engine_new demo_env bad_module ''main'' default_engine_config None = Some (Res e)"
    by (simp add: engine_new_def new_with_native_fbs_def initialised_vm_def restored_vm_def default_engine_config_def)
  have "run_global_init ?env (vm_new bad_module (ec_vm_config default_engine_config)) = Some (Failed vm DivisionByZero)"
    using vm by (simp add: default_engine_config_def)
  from failed_init_is_resumed [OF this vm(2) _ e] vm e show ?thesis by blast
qed

subsection \<open>Online change\<close>

text \<open>C28: an online change through the engine is all or nothing: a rejected module leaves the machine, the program name
  and the statistics as they were, and an accepted one is loaded with an empty call stack, so that the next
  cycle is a fresh scan of the new module's first program.\<close>

theorem engine_online_change:
  assumes "online_change_module now saved new_m e = Res (e', r)"
  shows "eng_stats e' = eng_stats e \<and> eng_config e' = eng_config e \<and>
    (case r of
       Inl reasons \<Rightarrow> \<not> ca_compatible (analyze_change (vm_module (eng_vm e)) new_m) \<and>
         eng_vm e' = eng_vm e \<and> eng_program e' = eng_program e
     | Inr a \<Rightarrow> ca_compatible a \<and> a = analyze_change (vm_module (eng_vm e)) new_m \<and>
         vm_module (eng_vm e') = new_m \<and> vm_stack (eng_vm e') = [] \<and>
         (\<forall>f. find (\<lambda>f. fn_kind f = Pou_Program) (md_functions new_m) = Some f \<longrightarrow> eng_program e' = fn_name f))"
proof -
  obtain e1 where e1: "save_retain now saved e = Res e1"
    using assms by (auto simp: online_change_module_def)
  note same = save_retain_same [OF e1]
  let ?a = "analyze_change (vm_module (eng_vm e1)) new_m"
  have adopt: "eng_vm (adopt_program new_m e1) = eng_vm e1" "eng_stats (adopt_program new_m e1) = eng_stats e1"
    "eng_config (adopt_program new_m e1) = eng_config e1"
    "find (\<lambda>f. fn_kind f = Pou_Program) (md_functions new_m) = Some f \<Longrightarrow>
       eng_program (adopt_program new_m e1) = fn_name f" for f
    by (simp_all add: adopt_program_def split: option.split)
  show ?thesis
  proof (cases "ca_compatible ?a")
    case False
    with assms e1 same show ?thesis by (auto simp: online_change_module_def Let_def)
  next
    case True
    with assms e1 obtain r0 where r0: "apply_online_change (eng_vm e1) new_m ?a = Res r0"
      "(case r0 of Inl (Incompatible reasons) \<Rightarrow> Res (adopt_program new_m e1, Inl reasons)
        | Inr vm' \<Rightarrow> Res ((adopt_program new_m e1)\<lparr>eng_vm := vm'\<rparr>, Inr ?a)) = Res (e', r)"
      by (auto simp: online_change_module_def Let_def adopt)
    with True obtain vm' where vm': "r0 = Inr vm'" "vm_module vm' = new_m" "vm_stack vm' = []"
      by (auto simp: apply_online_change_def swap_module_def Let_def)
    with r0(2) have "e' = (adopt_program new_m e1)\<lparr>eng_vm := vm'\<rparr>" "r = Inr ?a" by auto
    with vm' True same adopt show ?thesis by simp
  qed
qed

theorem engine_online_change_witness:
  "\<exists>e' a. online_change_module 0 True demo_module2 ((idle_engine None)\<lparr>eng_vm := demo_running\<rparr>) = Res (e', Inr a) \<and>
     vm_module (eng_vm e') = demo_module2"
proof -
  let ?e = "(idle_engine None)\<lparr>eng_vm := demo_running\<rparr>"
  obtain vm' where "apply_online_change demo_running demo_module2 (analyze_change demo_module demo_module2)
      = Res (Inr vm')" using demo_apply by blast
  then have "\<exists>e' a. online_change_module 0 True demo_module2 ?e = Res (e', Inr a)"
    using demo_change_compatible demo_running_facts
    by (simp add: online_change_module_def save_retain_def Let_def adopt_program_def split: option.split)
  then show ?thesis using engine_online_change [of 0 True demo_module2 ?e] by fastforce
qed

end
