(* ===== verification/Framing.thy ===== *)
theory Framing
  imports Prelude
begin

section \<open>Framed transactions: crates/st-comm-serial/src/framing.rs and transport.rs\<close>

text \<open>
  The contract of a streaming frame parser, and the receive loop of
  \<open>SerialTransport::transaction_framed\<close>. What the port and the clock do is a list of the
  reads that return before the deadline: the bytes each finds in the operating system's
  buffer (none when the read times out), or an error. The end of the list is the deadline.
  Sleeping, logging and clearing the port's buffers are not modelled. The parsers of the
  repository keep no state between calls, so a parser is a function of the bytes so far.
\<close>

type_synonym byte = u8

datatype frame_status = Complete nat | Need nat | Invalid string

datatype bus_read = Got "byte list" | Failed_Read string

datatype frame_error =
    Bad_Complete nat nat
  | Invalid_Frame string
  | Buffer_Small nat nat
  | Bad_Need nat nat
  | Receive_Timeout nat nat
  | Read_Error string

text \<open>One \<open>read\<close> into the free part of the response buffer; what does not fit stays queued.\<close>

fun receive_some :: "nat \<Rightarrow> byte list \<Rightarrow> bus_read \<Rightarrow> bus_read list \<Rightarrow> (frame_error + byte list \<times> bus_read list)" where
  "receive_some cap buf (Failed_Read m) evs = Inl (Read_Error m)"
| "receive_some cap buf (Got bs) evs =
     (let room = cap - length buf in
      Inr (buf @ take room bs, if length bs \<le> room then evs else Got (drop room bs) # evs))"

fun pending :: "bus_read list \<Rightarrow> nat" where
  "pending [] = 0"
| "pending (Got bs # evs) = Suc (length bs + pending evs)"
| "pending (Failed_Read m # evs) = Suc (pending evs)"

lemma receive_some_less:
  "receive_some cap buf e evs = Inr (buf', evs') \<Longrightarrow> length buf < cap \<Longrightarrow> pending evs' < pending (e # evs)"
  by (cases e) (auto simp: Let_def split: if_splits)

text \<open>
  The inner loop: read until the buffer holds \<open>need\<close> bytes or the deadline has passed. With no
  room left every read returns nothing, so the loop ends at the deadline.
\<close>

function read_to :: "nat \<Rightarrow> nat \<Rightarrow> byte list \<Rightarrow> bus_read list \<Rightarrow> (frame_error + byte list \<times> bus_read list)" where
  "read_to need cap buf evs =
     (if need \<le> length buf then Inr (buf, evs)
      else if cap \<le> length buf then Inl (Receive_Timeout (length buf) need)
      else (case evs of
              [] \<Rightarrow> Inl (Receive_Timeout (length buf) need)
            | e # es \<Rightarrow>
                (case receive_some cap buf e es of
                   Inl err \<Rightarrow> Inl err
                 | Inr (buf', evs') \<Rightarrow> read_to need cap buf' evs')))"
  by pat_completeness auto
termination
  by (relation "measure (\<lambda>(_, _, _, evs). pending evs)") (auto dest: receive_some_less)

declare read_to.simps [simp del]


definition bytes_of :: "bus_read list \<Rightarrow> byte list" where
  "bytes_of evs = concat (map (\<lambda>e. case e of Got bs \<Rightarrow> bs | Failed_Read _ \<Rightarrow> []) evs)"

definition no_failure :: "bus_read list \<Rightarrow> bool" where
  "no_failure evs \<longleftrightarrow> (\<forall>e \<in> set evs. \<exists>bs. e = Got bs)"

lemma receive_some_bytes:
  "receive_some cap buf e evs = Inr (buf', evs') \<Longrightarrow>
     buf' @ bytes_of evs' = buf @ bytes_of (e # evs) \<and> length buf \<le> length buf' \<and>
     (no_failure (e # evs) \<longrightarrow> no_failure evs')"
  by (cases e) (auto simp: bytes_of_def no_failure_def Let_def split: if_splits)

text \<open>Reading keeps the bytes in order and, when it succeeds, reaches the length asked for.\<close>

lemma read_to_bytes:
  "read_to need cap buf evs = Inr (buf', evs') \<Longrightarrow>
     buf' @ bytes_of evs' = buf @ bytes_of evs \<and> need \<le> length buf' \<and> (no_failure evs \<longrightarrow> no_failure evs')"
proof (induction need cap buf evs rule: read_to.induct)
  case (1 need cap buf evs)
  show ?case
  proof (cases "need \<le> length buf")
    case True
    with "1.prems" show ?thesis by (simp add: read_to.simps)
  next
    case False
    with "1.prems" obtain e es b2 ev2 where e: "evs = e # es" "receive_some cap buf e es = Inr (b2, ev2)"
      and cap: "\<not> cap \<le> length buf" and rec: "read_to need cap b2 ev2 = Inr (buf', evs')"
      by (subst (asm) read_to.simps) (auto split: if_splits list.splits sum.splits prod.splits)
    from "1.IH" [OF False cap e(1) e(2) refl rec] receive_some_bytes [OF e(2)] e(1) show ?thesis by auto
  qed
qed

lemma read_to_pending:
  "read_to need cap buf evs = Inr (buf', evs') \<Longrightarrow> pending evs' \<le> pending evs"
proof (induction need cap buf evs rule: read_to.induct)
  case (1 need cap buf evs)
  show ?case
  proof (cases "need \<le> length buf")
    case True
    with "1.prems" show ?thesis by (simp add: read_to.simps)
  next
    case False
    with "1.prems" obtain e es b2 ev2 where e: "evs = e # es" "receive_some cap buf e es = Inr (b2, ev2)"
      and cap: "\<not> cap \<le> length buf" and rec: "read_to need cap b2 ev2 = Inr (buf', evs')"
      by (subst (asm) read_to.simps) (auto split: if_splits list.splits sum.splits prod.splits)
    from "1.IH" [OF False cap e(1) e(2) refl rec] receive_some_less [OF e(2)] e(1) cap show ?thesis by auto
  qed
qed

lemma read_to_less:
  assumes "read_to need cap buf evs = Inr (buf', evs')" "length buf < need"
  shows "pending evs' < pending evs"
proof -
  from assms obtain e es b2 ev2 where e: "evs = e # es" "receive_some cap buf e es = Inr (b2, ev2)"
    and cap: "\<not> cap \<le> length buf" and rec: "read_to need cap b2 ev2 = Inr (buf', evs')"
    by (subst (asm) read_to.simps) (auto split: if_splits list.splits sum.splits prod.splits)
  with receive_some_less [OF e(2)] read_to_pending [OF rec] show ?thesis by simp
qed

text \<open>If enough bytes are on their way the inner loop gets them.\<close>

lemma read_to_succeeds:
  assumes "no_failure evs" "need \<le> length buf + length (bytes_of evs)" "need \<le> cap"
  shows "\<exists>buf' evs'. read_to need cap buf evs = Inr (buf', evs')"
  using assms
proof (induction need cap buf evs rule: read_to.induct)
  case (1 need cap buf evs)
  show ?case
  proof (cases "need \<le> length buf")
    case True
    then show ?thesis by (simp add: read_to.simps)
  next
    case False
    with "1.prems" obtain bs es where e: "evs = Got bs # es"
      by (cases evs) (auto simp: bytes_of_def no_failure_def)
    obtain b2 ev2 where r: "receive_some cap buf (Got bs) es = Inr (b2, ev2)" by (simp add: Let_def)
    have cap: "\<not> cap \<le> length buf" using False "1.prems"(3) by simp
    from receive_some_bytes [OF r] have b: "b2 @ bytes_of ev2 = buf @ bytes_of evs" "no_failure ev2"
      using "1.prems"(1) e by auto
    from b(1) have "length b2 + length (bytes_of ev2) = length buf + length (bytes_of evs)"
      by (metis length_append)
    with "1.IH" [OF False cap e r refl b(2)] "1.prems"(2,3) r e False cap show ?thesis
      by (subst read_to.simps) auto
  qed
qed

lemma read_to_error:
  "read_to need cap buf evs = Inl e \<Longrightarrow> (\<exists>got. e = Receive_Timeout got need) \<or> (\<exists>m. Failed_Read m \<in> set evs \<and> e = Read_Error m)"
proof (induction need cap buf evs rule: read_to.induct)
  case (1 need cap buf evs)
  consider "\<exists>got. e = Receive_Timeout got need"
    | ev es where "evs = ev # es" "receive_some cap buf ev es = Inl e"
    | ev es b2 ev2 where "evs = ev # es" "receive_some cap buf ev es = Inr (b2, ev2)" "\<not> need \<le> length buf"
        "\<not> cap \<le> length buf" "read_to need cap b2 ev2 = Inl e"
    using "1.prems" by (subst (asm) (1) read_to.simps) (auto split: if_splits list.splits sum.splits prod.splits)
  then show ?case
  proof cases
    case 2
    then show ?thesis by (cases ev) (auto simp: Let_def)
  next
    case 3
    have "Failed_Read m \<in> set ev2 \<Longrightarrow> Failed_Read m \<in> set es" for m
      using 3(2) by (cases ev) (auto simp: Let_def split: if_splits)
    with "1.IH" [OF 3(3,4,1,2) refl 3(5)] 3(1) show ?thesis by auto
  qed simp
qed

lemma read_to_no_failure:
  "no_failure evs \<Longrightarrow> read_to need cap buf evs = Inl e \<Longrightarrow> \<exists>got. e = Receive_Timeout got need"
  using read_to_error [of need cap buf evs e] by (auto simp: no_failure_def)

text \<open>The outer loop: ask the parser, read up to the length it asks for, ask again.\<close>

function framed_loop ::
  "(byte list \<Rightarrow> frame_status) \<Rightarrow> nat \<Rightarrow> byte list \<Rightarrow> bus_read list \<Rightarrow> (frame_error + nat \<times> byte list)" where
  "framed_loop parse cap buf evs =
     (case parse buf of
        Complete n \<Rightarrow> if length buf < n then Inl (Bad_Complete n (length buf)) else Inr (n, buf)
      | Invalid m \<Rightarrow> Inl (Invalid_Frame m)
      | Need k \<Rightarrow>
          if cap < k then Inl (Buffer_Small k cap)
          else if k \<le> length buf then Inl (Bad_Need k (length buf))
          else (case read_to k cap buf evs of
                  Inl e \<Rightarrow> Inl e
                | Inr (buf', evs') \<Rightarrow> framed_loop parse cap buf' evs'))"
  by pat_completeness auto
termination
  by (relation "measure (\<lambda>(_, _, _, evs). pending evs)") (auto dest: read_to_less)

declare framed_loop.simps [simp del]

text \<open>A transaction returns the frame, the first bytes of what was received.\<close>

definition transaction_framed ::
  "(byte list \<Rightarrow> frame_status) \<Rightarrow> nat \<Rightarrow> bus_read list \<Rightarrow> (frame_error + byte list)" where
  "transaction_framed parse cap evs =
     (case framed_loop parse cap [] evs of Inl e \<Rightarrow> Inl e | Inr (n, buf) \<Rightarrow> Inr (take n buf))"

text \<open>The silence between two frames, in microseconds: three and a half characters, at least 1750.\<close>

definition compute_inter_frame_us :: "nat \<Rightarrow> nat \<Rightarrow> nat \<Rightarrow> nat" where
  "compute_inter_frame_us baud_rate data_bits stop_bits =
     (if baud_rate = 0 then 4000
      else let bits_per_char = 1 + data_bits + 1 + stop_bits;
               char_time_us = bits_per_char * 1000000 div baud_rate;
               gap = char_time_us * 7 div 2
           in max gap 1750)"

subsection \<open>The contract of a parser\<close>

text \<open>
  The documented contract: a parser that asks for more asks for strictly more than it was given,
  and a complete frame lies within the bytes received.
\<close>

locale frame_parser =
  fixes parse :: "byte list \<Rightarrow> frame_status"
  assumes need_more: "parse buf = Need k \<Longrightarrow> length buf < k"
    and complete_fits: "parse buf = Complete n \<Longrightarrow> n \<le> length buf"
begin

lemma framed_loop_contract:
  "framed_loop parse cap buf evs = Inl e \<Longrightarrow> (\<forall>n m. e \<noteq> Bad_Complete n m) \<and> (\<forall>k m. e \<noteq> Bad_Need k m)"
proof (induction "pending evs" arbitrary: buf evs rule: less_induct)
  case less
  show ?case
  proof (cases "parse buf")
    case (Need k)
    with less.prems need_more [OF Need] consider
      "cap < k" "e = Buffer_Small k cap"
      | "read_to k cap buf evs = Inl e"
      | buf' evs' where "read_to k cap buf evs = Inr (buf', evs')" "framed_loop parse cap buf' evs' = Inl e"
      by (subst (asm) framed_loop.simps) (auto split: if_splits sum.splits prod.splits)
    then show ?thesis
    proof cases
      case 2
      then show ?thesis using read_to_error by blast
    next
      case 3
      with less.hyps read_to_less need_more [OF Need] show ?thesis by blast
    qed simp
  qed (use less.prems in \<open>auto simp: framed_loop.simps split: if_splits dest: complete_fits\<close>)
qed

lemma framed_loop_sound:
  "framed_loop parse cap buf evs = Inr (n, buf') \<Longrightarrow>
     parse buf' = Complete n \<and> (\<exists>evs'. buf' @ bytes_of evs' = buf @ bytes_of evs)"
proof (induction "pending evs" arbitrary: buf evs rule: less_induct)
  case less
  show ?case
  proof (cases "parse buf")
    case (Need k)
    with less.prems need_more [OF Need] obtain b2 ev2
      where r: "read_to k cap buf evs = Inr (b2, ev2)" "framed_loop parse cap b2 ev2 = Inr (n, buf')"
      by (subst (asm) framed_loop.simps) (auto split: if_splits sum.splits prod.splits)
    have "pending ev2 < pending evs" by (rule read_to_less [OF r(1) need_more [OF Need]])
    from less.hyps [OF this r(2)] read_to_bytes [OF r(1)] show ?thesis by simp
  qed (use less.prems in \<open>auto simp: framed_loop.simps split: if_splits\<close>)
qed

lemma transaction_prefix:
  assumes "transaction_framed parse cap evs = Inr f"
  shows "\<exists>rest buf n. f @ rest = bytes_of evs \<and> parse buf = Complete n \<and> n = length f \<and> take n buf = f"
proof -
  from assms obtain n buf where l: "framed_loop parse cap [] evs = Inr (n, buf)" and f: "f = take n buf"
    by (auto simp: transaction_framed_def split: sum.splits)
  from framed_loop_sound [OF l] obtain evs' where c: "parse buf = Complete n" "buf @ bytes_of evs' = bytes_of evs"
    by auto
  have "f @ (drop n buf @ bytes_of evs') = bytes_of evs" using c(2) f by simp (metis append.assoc append_take_drop_id)
  then show ?thesis using c(1) f complete_fits [OF c(1)] by (metis length_take min.absorb2)
qed

end

text \<open>
  What makes a parser work on a stream: the frame's end does not depend on what follows it,
  and on a proper prefix of a frame the parser asks for no more than the frame has.
\<close>

locale streaming_parser = frame_parser +
  assumes complete_extends: "parse buf = Complete n \<Longrightarrow> parse (buf @ more) = Complete n"
    and prefix_needs: "parse buf = Complete n \<Longrightarrow> m < n \<Longrightarrow> \<exists>k \<le> n. parse (take m buf) = Need k"
begin

lemma framed_loop_complete:
  assumes "parse frame = Complete (length frame)" "no_failure evs" "buf @ bytes_of evs = frame @ rest"
    "length frame \<le> cap"
  shows "\<exists>more. framed_loop parse cap buf evs = Inr (length frame, frame @ more)"
  using assms(2,3)
proof (induction "pending evs" arbitrary: buf evs rule: less_induct)
  case less
  show ?case
  proof (cases "length frame \<le> length buf")
    case True
    then obtain more where "buf = frame @ more" using less.prems(2) by (metis append_eq_append_conv_if append_take_drop_id)
    then show ?thesis using complete_extends [OF assms(1)] by (simp add: framed_loop.simps)
  next
    case False
    then have "buf = take (length buf) frame"
      using less.prems(2) by (metis append_eq_append_conv_if linorder_le_cases)
    with prefix_needs [OF assms(1), of "length buf"] False obtain k
      where k: "k \<le> length frame" "parse buf = Need k" by auto
    have kb: "length buf < k" by (rule need_more [OF k(2)])
    have "length buf + length (bytes_of evs) = length frame + length rest"
      using less.prems(2) by (metis length_append)
    then obtain b2 ev2 where r: "read_to k cap buf evs = Inr (b2, ev2)"
      using read_to_succeeds [OF less.prems(1), of k buf cap] k(1) assms(4) by auto
    have "\<exists>more. framed_loop parse cap b2 ev2 = Inr (length frame, frame @ more)"
      using less.hyps [OF read_to_less [OF r kb]] read_to_bytes [OF r] less.prems by simp
    then show ?thesis using k assms(4) kb r by (subst framed_loop.simps) auto
  qed
qed

text \<open>However the reads cut the stream up, the transaction returns the frame that starts it.\<close>

lemma transaction_complete:
  assumes "parse frame = Complete (length frame)" "no_failure evs" "bytes_of evs = frame @ rest"
    "length frame \<le> cap"
  shows "transaction_framed parse cap evs = Inr frame"
  using framed_loop_complete [OF assms(1,2), of "[]" rest cap] assms(3,4)
  by (auto simp: transaction_framed_def)

lemma transaction_timeout:
  assumes "parse frame = Complete (length frame)" "no_failure evs" "bytes_of evs = take m frame"
    "m < length frame" "length frame \<le> cap"
  shows "\<exists>got need. transaction_framed parse cap evs = Inl (Receive_Timeout got need)"
proof -
  have "\<exists>got need. framed_loop parse cap buf evs = Inl (Receive_Timeout got need)"
    if "no_failure evs" "buf @ bytes_of evs = take m frame" for buf evs
    using that
  proof (induction "pending evs" arbitrary: buf evs rule: less_induct)
    case less
    have lb: "length buf \<le> m" using less.prems(2) assms(4) by (metis le_add1 length_append length_take min.absorb4)
    then have "buf = take (length buf) frame" using less.prems(2)
      by (metis append_eq_conv_conj min.absorb1 take_take)
    with prefix_needs [OF assms(1), of "length buf"] lb assms(4) obtain k
      where k: "k \<le> length frame" "parse buf = Need k" by auto
    have kb: "length buf < k" by (rule need_more [OF k(2)])
    show ?case
    proof (cases "read_to k cap buf evs")
      case (Inl e)
      then have "e = Receive_Timeout (length buf) k \<or> (\<exists>got. e = Receive_Timeout got k)"
        using read_to_no_failure [OF less.prems(1)] by blast
      then show ?thesis using Inl k kb assms(5) by (subst framed_loop.simps) auto
    next
      case (Inr p)
      obtain b2 ev2 where p: "p = (b2, ev2)" by force
      note r = Inr [unfolded p]
      have "\<exists>got need. framed_loop parse cap b2 ev2 = Inl (Receive_Timeout got need)"
        using less.hyps [OF read_to_less [OF r kb]] read_to_bytes [OF r] less.prems by simp
      then show ?thesis using k assms(5) kb r by (subst framed_loop.simps) auto
    qed
  qed
  from this [OF assms(2), of "[]"] assms(3) show ?thesis by (auto simp: transaction_framed_def)
qed

end

end
