(* ===== verification/Modbus.thy ===== *)
theory Modbus
  imports Framing
begin

unbundle bit_operations_syntax

section \<open>Modbus RTU frames: crates/st-comm-modbus/src/crc.rs and frame.rs\<close>

text \<open>The checksum, the request builders and the response parsers; an error message is a constructor.\<close>

subsection \<open>The checksum\<close>

definition crc_bit :: "u16 \<Rightarrow> u16" where
  "crc_bit crc = (if crc AND 1 \<noteq> 0 then drop_bit 1 crc XOR 0xA001 else drop_bit 1 crc)"

definition crc_byte :: "u16 \<Rightarrow> byte \<Rightarrow> u16" where
  "crc_byte crc b = (crc_bit ^^ 8) (crc XOR ucast b)"

definition crc_loop :: "byte list \<Rightarrow> u16" where
  "crc_loop data = foldl crc_byte 0xFFFF data"

definition crc16 :: "byte list \<Rightarrow> byte \<times> byte" where
  "crc16 data = (ucast (crc_loop data AND 0xFF), ucast (drop_bit 8 (crc_loop data)))"

definition verify_crc :: "byte list \<Rightarrow> bool" where
  "verify_crc frame =
     (if length frame < 3 then False
      else let (lo, hi) = crc16 (take (length frame - 2) frame)
           in frame ! (length frame - 2) = lo \<and> frame ! (length frame - 1) = hi)"

subsection \<open>Building requests\<close>

datatype function_code =
    Read_Coils | Read_Discrete_Inputs | Read_Holding_Registers | Read_Input_Registers
  | Write_Single_Coil | Write_Single_Register | Write_Multiple_Coils | Write_Multiple_Registers

fun fc_byte :: "function_code \<Rightarrow> byte" where
  "fc_byte Read_Coils = 0x01"
| "fc_byte Read_Discrete_Inputs = 0x02"
| "fc_byte Read_Holding_Registers = 0x03"
| "fc_byte Read_Input_Registers = 0x04"
| "fc_byte Write_Single_Coil = 0x05"
| "fc_byte Write_Single_Register = 0x06"
| "fc_byte Write_Multiple_Coils = 0x0F"
| "fc_byte Write_Multiple_Registers = 0x10"

definition be16 :: "u16 \<Rightarrow> byte list" where
  "be16 w = [ucast (drop_bit 8 w), ucast (w AND 0xFF)]"

definition with_crc :: "byte list \<Rightarrow> byte list" where
  "with_crc frame = (case crc16 frame of (lo, hi) \<Rightarrow> frame @ [lo, hi])"

definition build_read_request :: "byte \<Rightarrow> function_code \<Rightarrow> u16 \<Rightarrow> u16 \<Rightarrow> byte list" where
  "build_read_request slave fc start count = with_crc ([slave, fc_byte fc] @ be16 start @ be16 count)"

definition coil_value :: "bool \<Rightarrow> u16" where
  "coil_value v = (if v then 0xFF00 else 0)"

definition build_write_single_coil :: "byte \<Rightarrow> u16 \<Rightarrow> bool \<Rightarrow> byte list" where
  "build_write_single_coil slave addr v =
     with_crc ([slave, fc_byte Write_Single_Coil] @ be16 addr @ be16 (coil_value v))"

definition build_write_single_register :: "byte \<Rightarrow> u16 \<Rightarrow> u16 \<Rightarrow> byte list" where
  "build_write_single_register slave addr v =
     with_crc ([slave, fc_byte Write_Single_Register] @ be16 addr @ be16 v)"

text \<open>The byte of eight coils, least significant bit first.\<close>

definition pack_byte :: "bool list \<Rightarrow> nat \<Rightarrow> byte" where
  "pack_byte coils chunk =
     fold (\<lambda>bit byte. let idx = chunk * 8 + bit in
             if idx < length coils \<and> coils ! idx then byte OR push_bit bit 1 else byte) [0..<8] 0"

definition coil_bytes :: "bool list \<Rightarrow> nat" where
  "coil_bytes coils = (length coils + 7) div 8"

text \<open>The count and the byte count are cast to their field's width.\<close>

definition multiple_coils_pdu :: "u16 \<Rightarrow> bool list \<Rightarrow> byte list" where
  "multiple_coils_pdu start coils =
     (let byte_count = of_nat (coil_bytes coils) :: byte in
      [fc_byte Write_Multiple_Coils] @ be16 start @ be16 (of_nat (length coils)) @ [byte_count] @
        map (pack_byte coils) [0..<unat byte_count])"

definition multiple_registers_pdu :: "u16 \<Rightarrow> u16 list \<Rightarrow> byte list" where
  "multiple_registers_pdu start vals =
     [fc_byte Write_Multiple_Registers] @ be16 start @ be16 (of_nat (length vals)) @
       [of_nat (length vals * 2)] @ concat (map be16 vals)"

definition build_write_multiple_coils :: "byte \<Rightarrow> u16 \<Rightarrow> bool list \<Rightarrow> byte list" where
  "build_write_multiple_coils slave start coils = with_crc (slave # multiple_coils_pdu start coils)"

definition build_write_multiple_registers :: "byte \<Rightarrow> u16 \<Rightarrow> u16 list \<Rightarrow> byte list" where
  "build_write_multiple_registers slave start vals = with_crc (slave # multiple_registers_pdu start vals)"

subsection \<open>Parsing responses\<close>

definition exception_description :: "byte \<Rightarrow> string" where
  "exception_description code =
     (if code = 1 then ''Illegal function''
      else if code = 2 then ''Illegal data address''
      else if code = 3 then ''Illegal data value''
      else if code = 4 then ''Slave device failure''
      else if code = 5 then ''Acknowledge''
      else if code = 6 then ''Slave device busy''
      else ''Unknown exception'')"

datatype rtu_error =
    Too_Short
  | Crc_Mismatch
  | Exception string byte
  | Truncated nat nat

definition parse_read_response :: "byte list \<Rightarrow> (rtu_error + byte list)" where
  "parse_read_response frame =
     (if length frame < 5 then Inl Too_Short
      else if \<not> verify_crc frame then Inl Crc_Mismatch
      else if frame ! 1 AND 0x80 \<noteq> 0 then Inl (Exception (exception_description (frame ! 2)) (frame ! 2))
      else let byte_count = unat (frame ! 2) in
        if length frame < 3 + byte_count + 2 then Inl (Truncated byte_count (length frame - 5))
        else Inr (take byte_count (drop 3 frame)))"

definition parse_write_response :: "byte list \<Rightarrow> (rtu_error + unit)" where
  "parse_write_response frame =
     (if length frame < 5 then Inl Too_Short
      else if \<not> verify_crc frame then Inl Crc_Mismatch
      else if frame ! 1 AND 0x80 \<noteq> 0 then Inl (Exception (exception_description (frame ! 2)) (frame ! 2))
      else Inr ())"

definition from_be16 :: "byte \<Rightarrow> byte \<Rightarrow> u16" where
  "from_be16 hi lo = push_bit 8 (ucast hi) OR ucast lo"

fun extract_registers :: "byte list \<Rightarrow> u16 list" where
  "extract_registers (hi # lo # rest) = from_be16 hi lo # extract_registers rest"
| "extract_registers _ = []"

definition coil_bit :: "byte \<Rightarrow> nat \<Rightarrow> bool" where
  "coil_bit b i \<longleftrightarrow> b AND push_bit i 1 \<noteq> 0"

definition extract_coils :: "byte list \<Rightarrow> nat \<Rightarrow> bool list" where
  "extract_coils data count =
     fold (\<lambda>byte res. fold (\<lambda>i res. if count \<le> length res then res else res @ [coil_bit byte i]) [0..<8] res)
       data []"

subsection \<open>The checksum detects errors\<close>

text \<open>One step, bit by bit; it is linear, and it can be undone, so it never merges two states.\<close>

lemma bit_crc_bit:
  "n < 16 \<Longrightarrow> bit (crc_bit x) n \<longleftrightarrow> bit x (Suc n) \<noteq> (bit x 0 \<and> bit (0xA001 :: u16) n)"
  by (simp add: crc_bit_def bit_drop_bit_eq bit_xor_iff and_one_eq odd_iff_mod_2_eq_one bit_0)

lemma crc_bit_xor: "crc_bit (a XOR b) = crc_bit a XOR crc_bit b"
  by (rule bit_word_eqI) (auto simp: bit_crc_bit bit_xor_iff)

lemma crc_bit_eq_iff [simp]: "crc_bit a = crc_bit b \<longleftrightarrow> a = b"
proof
  assume eq: "crc_bit a = crc_bit b"
  have "bit (0xA001 :: u16) 15" by simp
  moreover have "\<not> bit a 16" "\<not> bit b 16" using bit_imp_le_length by fastforce+
  ultimately have low: "bit a 0 \<longleftrightarrow> bit b 0"
    using bit_crc_bit [of 15 a] bit_crc_bit [of 15 b] eq by simp
  have "bit a n \<longleftrightarrow> bit b n" if "n < 16" for n
  proof (cases n)
    case 0
    with low show ?thesis by simp
  next
    case (Suc k)
    with that show ?thesis using bit_crc_bit [of k a] bit_crc_bit [of k b] low eq by auto
  qed
  then show "a = b" by (intro bit_word_eqI) simp
qed simp

lemma funpow_crc_bit_eq_iff [simp]: "(crc_bit ^^ n) a = (crc_bit ^^ n) b \<longleftrightarrow> a = b"
  by (induction n) simp_all

lemma funpow_crc_bit_xor: "(crc_bit ^^ n) (a XOR b) = (crc_bit ^^ n) a XOR (crc_bit ^^ n) b"
  by (induction n) (simp_all add: crc_bit_xor)

lemma xor_right_eq_iff [simp]: "(a :: 'a::len word) XOR c = b XOR c \<longleftrightarrow> a = b"
  by (metis xor.assoc xor_self_eq xor.right_neutral)

lemma crc_byte_state_inj [simp]: "crc_byte c b = crc_byte d b \<longleftrightarrow> c = d"
  by (simp add: crc_byte_def)

lemma foldl_crc_inj [simp]: "foldl crc_byte c xs = foldl crc_byte d xs \<longleftrightarrow> c = d"
  by (induction xs arbitrary: c d) simp_all

text \<open>Shifting eight zero bits out leaves the upper byte: two bytes enter the state as one word.\<close>

lemma crc_bit_shift: "\<not> bit x 0 \<Longrightarrow> crc_bit x = drop_bit 1 x"
  by (simp add: crc_bit_def and_one_eq bit_0 odd_iff_mod_2_eq_one)

lemma funpow_crc_bit_push: "n \<le> 8 \<Longrightarrow> (crc_bit ^^ n) (push_bit 8 (ucast (b :: byte))) = push_bit (8 - n) (ucast b)"
proof (induction n)
  case (Suc n)
  have "\<not> bit (push_bit (8 - n) (ucast b :: u16)) 0" using Suc.prems by (simp add: bit_push_bit_iff)
  with Suc have "(crc_bit ^^ Suc n) (push_bit 8 (ucast b)) = drop_bit 1 (push_bit (8 - n) (ucast b :: u16))"
    by (simp add: crc_bit_shift)
  also have "\<dots> = push_bit (8 - Suc n) (ucast b)"
    using Suc.prems bit_imp_le_length [of b]
    by (intro bit_word_eqI) (fastforce simp: bit_drop_bit_eq bit_push_bit_iff bit_ucast_iff)
  finally show ?case .
qed simp

lemma crc_two_bytes:
  "crc_byte (crc_byte c a) b = (crc_bit ^^ 16) (c XOR (ucast a XOR push_bit 8 (ucast b)))"
proof -
  have "ucast b = (crc_bit ^^ 8) (push_bit 8 (ucast b) :: u16)"
    using funpow_crc_bit_push [of 8 b] by simp
  then have "crc_byte (crc_byte c a) b = (crc_bit ^^ 8) ((crc_bit ^^ 8) ((c XOR ucast a) XOR push_bit 8 (ucast b)))"
    by (simp only: crc_byte_def funpow_crc_bit_xor)
  also have "\<dots> = (crc_bit ^^ (8 + 8)) (c XOR (ucast a XOR push_bit 8 (ucast b)))"
    by (simp only: funpow_add comp_def xor.assoc)
  finally show ?thesis by simp
qed

lemma two_bytes_inj:
  assumes "ucast (a :: byte) XOR push_bit 8 (ucast (b :: byte)) = (ucast a' XOR push_bit 8 (ucast b') :: u16)"
  shows "a = a' \<and> b = b'"
proof -
  have lo: "bit (ucast a XOR push_bit 8 (ucast b) :: u16) n \<longleftrightarrow> bit a n" if "n < 8" for n and a b :: byte
    using that by (simp add: bit_xor_iff bit_push_bit_iff bit_ucast_iff)
  have hi: "bit (ucast a XOR push_bit 8 (ucast b) :: u16) (n + 8) \<longleftrightarrow> bit b n" if "n < 8" for n and a b :: byte
    using that bit_imp_le_length [of a "n + 8"] by (auto simp: bit_xor_iff bit_push_bit_iff bit_ucast_iff)
  have "bit a n = bit a' n" "bit b n = bit b' n" if "n < 8" for n
    using lo [OF that] hi [OF that] assms by metis+
  then show ?thesis by (auto intro!: bit_word_eqI)
qed

text \<open>The usual reading of the check: the checksum of data and its check bytes is zero.\<close>

lemma crc_loop_append: "crc_loop (xs @ ys) = foldl crc_byte (crc_loop xs) ys"
  by (simp add: crc_loop_def)

lemma and_ff: "(w :: u16) AND 0xFF = take_bit 8 w"
  by (simp add: take_bit_eq_mask mask_eq_exp_minus_1)

lemma word_of_bytes: "ucast (ucast (w AND 0xFF) :: byte) XOR push_bit 8 (ucast (ucast (drop_bit 8 w) :: byte)) = (w :: u16)"
proof (rule bit_word_eqI)
  fix n
  assume n: "n < LENGTH(16)"
  show "bit (ucast (ucast (w AND 0xFF) :: byte) XOR push_bit 8 (ucast (ucast (drop_bit 8 w) :: byte)) :: u16) n = bit w n"
    using n by (cases "n < 8") (auto simp: and_ff bit_xor_iff bit_push_bit_iff bit_ucast_iff bit_take_bit_iff bit_drop_bit_eq)
qed

lemma crc_check_bytes:
  "foldl crc_byte c [lo, hi] = 0 \<longleftrightarrow> lo = ucast (c AND 0xFF) \<and> hi = ucast (drop_bit 8 c)"
proof -
  have z: "(crc_bit ^^ n) 0 = 0" for n by (induction n) (simp_all add: crc_bit_def)
  have "foldl crc_byte c [lo, hi] = 0 \<longleftrightarrow> (crc_bit ^^ 16) (c XOR (ucast lo XOR push_bit 8 (ucast hi))) = (crc_bit ^^ 16) 0"
    by (simp only: foldl.simps crc_two_bytes z)
  also have "\<dots> \<longleftrightarrow> c = ucast lo XOR push_bit 8 (ucast hi)"
    unfolding funpow_crc_bit_eq_iff using xor_right_eq_iff [of c _ "ucast lo XOR push_bit 8 (ucast hi)"]
    by (metis xor_self_eq)
  also have "\<dots> \<longleftrightarrow> lo = ucast (c AND 0xFF) \<and> hi = ucast (drop_bit 8 c)"
    using two_bytes_inj [of lo hi "ucast (c AND 0xFF)" "ucast (drop_bit 8 c)"] word_of_bytes [of c] by auto
  finally show ?thesis .
qed


lemma split_last_two:
  assumes "2 \<le> length xs"
  shows "xs = take (length xs - 2) xs @ [xs ! (length xs - 2), xs ! (length xs - 1)]"
proof -
  obtain ys b where "xs = ys @ [b]" using assms by (cases xs rule: rev_cases) auto
  moreover from this assms obtain zs a where "ys = zs @ [a]" by (cases ys rule: rev_cases) auto
  ultimately show ?thesis by (simp add: nth_append)
qed

lemma verify_crc_append:
  "verify_crc (xs @ [lo, hi]) \<longleftrightarrow> xs \<noteq> [] \<and> crc16 xs = (lo, hi)"
  by (cases xs) (auto simp: verify_crc_def nth_append split: prod.split)

lemma crc_residue: "verify_crc frame \<longleftrightarrow> 3 \<le> length frame \<and> crc_loop frame = 0"
proof (cases "3 \<le> length frame")
  case True
  then obtain xs lo hi where f: "frame = xs @ [lo, hi]" using split_last_two [of frame] by auto
  with True have "xs \<noteq> []" by auto
  have "crc_loop frame = 0 \<longleftrightarrow> lo = ucast (crc_loop xs AND 0xFF) \<and> hi = ucast (drop_bit 8 (crc_loop xs))"
    unfolding f crc_loop_append by (rule crc_check_bytes)
  with f \<open>xs \<noteq> []\<close> True show ?thesis by (auto simp: verify_crc_append crc16_def)
qed (simp add: verify_crc_def)

lemma verify_with_crc: "data \<noteq> [] \<Longrightarrow> verify_crc (with_crc data)"
  by (cases "crc16 data") (simp add: with_crc_def verify_crc_append)

text \<open>C15: a frame whose corruption is confined to two neighbouring bytes never passes the check, wherever the two bytes are, check bytes included.\<close>

theorem crc_detects_burst:
  assumes "verify_crc (pre @ [a, b] @ post)" "(a', b') \<noteq> (a, b)"
  shows "\<not> verify_crc (pre @ [a', b'] @ post)"
proof
  assume "verify_crc (pre @ [a', b'] @ post)"
  with assms(1) have "crc_loop (pre @ [a, b] @ post) = crc_loop (pre @ [a', b'] @ post)"
    by (simp add: crc_residue)
  then have "crc_byte (crc_byte (crc_loop pre) a) b = crc_byte (crc_byte (crc_loop pre) a') b'"
    by (simp add: crc_loop_append)
  then have "ucast a XOR push_bit 8 (ucast b) = (ucast a' XOR push_bit 8 (ucast b') :: u16)"
    unfolding crc_two_bytes funpow_crc_bit_eq_iff by (metis xor_right_eq_iff xor.commute)
  with two_bytes_inj assms(2) show False by blast
qed

theorem crc_detects_burst_witness:
  "\<exists>lo hi. verify_crc ([1, 3, 0, 0] @ [0, 10] @ [lo, hi]) \<and> \<not> verify_crc ([1, 3, 0, 0] @ [0, 11] @ [lo, hi])"
proof -
  obtain lo hi where c: "crc16 [1, 3, 0, 0, 0, 10] = (lo, hi)" by force
  then have v: "verify_crc ([1, 3, 0, 0] @ [0, 10] @ [lo, hi])"
    using verify_crc_append [of "[1, 3, 0, 0, 0, 10]" lo hi] by simp
  have "(0 :: byte, 11 :: byte) \<noteq> (0, 10)" by simp
  from crc_detects_burst [OF v this] v show ?thesis by blast
qed

subsection \<open>Encoding and decoding\<close>

lemma from_be16 [simp]: "from_be16 (ucast (drop_bit 8 w)) (ucast (w AND 0xFF)) = w"
proof -
  have "push_bit 8 (ucast (ucast (drop_bit 8 w) :: byte)) OR ucast (ucast (w AND 0xFF) :: byte) =
      (ucast (ucast (w AND 0xFF) :: byte) XOR push_bit 8 (ucast (ucast (drop_bit 8 w) :: byte)) :: u16)"
    by (rule bit_word_eqI) (auto simp: and_ff bit_or_iff bit_xor_iff bit_push_bit_iff bit_ucast_iff bit_take_bit_iff)
  then show ?thesis by (simp only: from_be16_def word_of_bytes)
qed

lemma extract_registers_be16: "extract_registers (concat (map be16 ws)) = ws"
  by (induction ws) (simp_all add: be16_def)

lemma length_be16 [simp]: "length (be16 w) = 2"
  by (simp add: be16_def)

lemma length_concat_be16 [simp]: "length (concat (map be16 ws)) = 2 * length ws"
  by (induction ws) simp_all

lemma length_with_crc [simp]: "length (with_crc xs) = length xs + 2"
  by (simp add: with_crc_def split: prod.split)

lemma nth_with_crc [simp]: "i < length xs \<Longrightarrow> with_crc xs ! i = xs ! i"
  by (simp add: with_crc_def nth_append split: prod.split)

lemma take_drop_with_crc [simp]: "n + k \<le> length xs \<Longrightarrow> take k (drop n (with_crc xs)) = take k (drop n xs)"
  by (simp add: with_crc_def split: prod.split)


text \<open>A slave's answer to a read, and its exception answer, as the parser's header describes them.\<close>

definition read_response :: "byte \<Rightarrow> byte \<Rightarrow> byte list \<Rightarrow> byte list" where
  "read_response slave fc data = with_crc ([slave, fc, of_nat (length data)] @ data)"

definition exception_response :: "byte \<Rightarrow> byte \<Rightarrow> byte \<Rightarrow> byte list" where
  "exception_response slave fc code = with_crc [slave, fc OR 0x80, code]"

lemma unat_of_nat_byte: "n < 256 \<Longrightarrow> unat (of_nat n :: byte) = n"
  by (simp add: unat_of_nat)

lemma parse_read_response_inv:
  assumes "fc AND 0x80 = 0" "length data < 256"
  shows "parse_read_response (read_response slave fc data) = Inr data"
  using assms verify_with_crc [of "[slave, fc, of_nat (length data)] @ data"]
    take_drop_with_crc [of 3 "length data" "[slave, fc, of_nat (length data)] @ data"]
  by (simp add: parse_read_response_def read_response_def unat_of_nat_byte Let_def
      del: take_drop_with_crc)

lemma or_80: "(fc OR 0x80) AND 0x80 \<noteq> (0 :: byte)"
proof
  assume "(fc OR 0x80) AND 0x80 = (0 :: byte)"
  then have "bit ((fc OR 0x80) AND 0x80) 7 = bit (0 :: byte) 7" by simp
  then show False by (simp add: bit_and_iff bit_or_iff)
qed

lemma parse_exception_inv:
  "parse_read_response (exception_response slave fc code) = Inl (Exception (exception_description code) code)"
  "parse_write_response (exception_response slave fc code) = Inl (Exception (exception_description code) code)"
  using verify_with_crc [of "[slave, fc OR 0x80, code]"] or_80
  by (simp_all add: parse_read_response_def parse_write_response_def exception_response_def)

text \<open>Registers sent in a read response come back from the parser and the decoder unchanged, for every
  register count a response can carry, and the exception a slave reports comes back as that exception.\<close>

theorem registers_roundtrip:
  assumes "fc AND 0x80 = 0" "length regs < 128"
  shows "parse_read_response (read_response slave fc (concat (map be16 regs))) = Inr (concat (map be16 regs)) \<and>
    extract_registers (concat (map be16 regs)) = regs \<and>
    parse_read_response (exception_response slave fc code) = Inl (Exception (exception_description code) code)"
  using assms by (simp add: parse_read_response_inv extract_registers_be16 parse_exception_inv)

theorem registers_roundtrip_witness:
  "parse_read_response (read_response 1 3 (concat (map be16 [0x1234, 7]))) = Inr (concat (map be16 [0x1234, 7])) \<and>
    extract_registers (concat (map be16 [0x1234, 7])) = [0x1234, 7] \<and>
    parse_read_response (exception_response 1 3 2) = Inl (Exception (exception_description 2) 2)"
  by (rule registers_roundtrip) simp_all

subsection \<open>Coils\<close>

lemma coil_bit_iff: "i < 8 \<Longrightarrow> coil_bit b i \<longleftrightarrow> bit b i"
proof -
  assume i: "i < 8"
  have "b AND push_bit i 1 \<noteq> 0 \<longleftrightarrow> bit b i"
  proof
    assume "bit b i"
    then have "bit (b AND push_bit i 1) i" using i by (simp add: bit_and_iff bit_exp_iff)
    then show "b AND push_bit i 1 \<noteq> 0" by auto
  next
    assume "b AND push_bit i 1 \<noteq> 0"
    then obtain n where "bit (b AND push_bit i 1) n" using bit_eqI bit_0_eq by (metis bot_apply bot_bool_def)
    then show "bit b i" by (auto simp: bit_and_iff bit_exp_iff)
  qed
  then show ?thesis by (simp add: coil_bit_def)
qed

lemma bit_fold_set:
  assumes "i < 8"
  shows "bit (fold (\<lambda>j b. if P j then b OR push_bit j 1 else b) js (b0 :: byte)) i \<longleftrightarrow> bit b0 i \<or> i \<in> set js \<and> P i"
  using assms by (induction js arbitrary: b0) (auto simp: bit_or_iff bit_exp_iff)

lemma bit_pack_byte:
  "i < 8 \<Longrightarrow> bit (pack_byte coils k) i \<longleftrightarrow> k * 8 + i < length coils \<and> coils ! (k * 8 + i)"
  unfolding pack_byte_def Let_def by (subst bit_fold_set) simp_all

lemma fold_take_append:
  "fold (\<lambda>i res. if c \<le> length res then res else res @ [f i]) is res = res @ take (c - length res) (map f is)"
  by (induction "is" arbitrary: res) (auto simp: take_Cons' Suc_diff_Suc)

lemma fold_take_concat:
  "fold (\<lambda>b res. res @ take (c - length res) (g b)) data res = res @ take (c - length res) (concat (map g data))"
proof (induction data arbitrary: res)
  case (Cons b data)
  have "c - (length res + min (length (g b)) (c - length res)) = c - length res - length (g b)" by linarith
  then show ?case by (simp add: Cons)
qed simp

lemma extract_coils_eq:
  "extract_coils data count = take count (concat (map (\<lambda>b. map (coil_bit b) [0..<8]) data))"
  unfolding extract_coils_def fold_take_append fold_take_concat by simp

lemma concat_bits_nth:
  assumes "i < 8 * length data"
  shows "concat (map (\<lambda>b. map (coil_bit b) [0..<8]) data) ! i = coil_bit (data ! (i div 8)) (i mod 8)"
  using assms
proof (induction data arbitrary: i)
  case (Cons b data)
  show ?case
  proof (cases "i < 8")
    case True
    then show ?thesis by (simp add: nth_append del: upt_Suc)
  next
    case False
    then obtain j where i: "i = j + 8" by (metis add.commute le_Suc_ex not_less)
    have "(j + 8) div 8 = Suc (j div 8)" by simp
    with i Cons show ?thesis by (simp add: nth_append del: upt_Suc)
  qed
qed simp

lemma extract_pack:
  "extract_coils (map (pack_byte coils) [0..<coil_bytes coils]) (length coils) = coils"
proof (rule nth_equalityI)
  let ?data = "map (pack_byte coils) [0..<coil_bytes coils]"
  have len: "length (concat (map (\<lambda>b. map (coil_bit b) [0..<8]) ds)) = 8 * length ds" for ds :: "byte list"
    by (induction ds) simp_all
  have enough: "length coils \<le> 8 * length ?data" by (simp add: coil_bytes_def)
  show "length (extract_coils ?data (length coils)) = length coils"
    unfolding extract_coils_eq length_take len using enough by simp
  fix i
  assume "i < length (extract_coils ?data (length coils))"
  then have i: "i < length coils" unfolding extract_coils_eq by simp
  have q: "i div 8 < coil_bytes coils" using i by (simp add: coil_bytes_def)
  have "extract_coils ?data (length coils) ! i = coil_bit (?data ! (i div 8)) (i mod 8)"
    unfolding extract_coils_eq using i enough concat_bits_nth [of i ?data] by simp
  also have "\<dots> = coils ! i" using i q by (simp add: coil_bit_iff bit_pack_byte)
  finally show "extract_coils ?data (length coils) ! i = coils ! i" .
qed

text \<open>C31: the coils of a write request can be read back from its data bytes: up to 2040 coils the request's
  length and byte count agree and its data bytes decode to the coils given, so packing and unpacking
  use the same bit order.\<close>

theorem coils_roundtrip:
  assumes "length coils \<le> 2040"
  shows "let frame = build_write_multiple_coils slave start coils; n = unat (frame ! 6)
    in length frame = 9 + n \<and> extract_coils (take n (drop 7 frame)) (length coils) = coils \<and> verify_crc frame"
proof -
  have n: "unat (of_nat (coil_bytes coils) :: byte) = coil_bytes coils"
    using assms by (simp add: coil_bytes_def unat_of_nat_byte)
  let ?body = "slave # multiple_coils_pdu start coils"
  have body: "?body = ([slave, fc_byte Write_Multiple_Coils] @ be16 start @ be16 (of_nat (length coils)) @
      [of_nat (coil_bytes coils)]) @ map (pack_byte coils) [0..<coil_bytes coils]"
    by (simp add: multiple_coils_pdu_def Let_def n)
  have "unat (with_crc ?body ! 6) = coil_bytes coils" unfolding body by (simp add: nth_append n be16_def)
  moreover have "take (coil_bytes coils) (drop 7 (with_crc ?body)) = map (pack_byte coils) [0..<coil_bytes coils]"
    unfolding body by (subst take_drop_with_crc) simp_all
  moreover have "length (with_crc ?body) = 9 + coil_bytes coils" unfolding body by simp
  ultimately show ?thesis
    by (simp add: build_write_multiple_coils_def Let_def extract_pack verify_with_crc)
qed

theorem coils_roundtrip_witness:
  "let frame = build_write_multiple_coils 1 0 [True, False, True]; n = unat (frame ! 6)
    in length frame = 9 + n \<and>
       extract_coils (take n (drop 7 frame)) (length [True, False, True]) = [True, False, True] \<and> verify_crc frame"
  by (rule coils_roundtrip) simp

text \<open>A request to write 128 registers, which the builder accepts, has a byte count of 0 although it carries
  256 data bytes: the byte count is cast to its one-byte field.\<close>

theorem register_count_wraps:
  assumes "length vals = 128"
  shows "build_write_multiple_registers slave start vals ! 6 = 0 \<and>
    length (build_write_multiple_registers slave start vals) = 9 + 256"
proof -
  have "of_nat (length vals * 2) = (0 :: byte)" using assms by simp
  with assms show ?thesis
    by (simp add: build_write_multiple_registers_def multiple_registers_pdu_def be16_def
        del: of_nat_mult)
qed

theorem register_count_wraps_witness:
  "build_write_multiple_registers 1 0 (replicate 128 7) ! 6 = 0 \<and>
    length (build_write_multiple_registers 1 0 (replicate 128 7)) = 9 + 256"
  by (rule register_count_wraps) simp

end
