(* ===== verification/Modbus_Parser.thy ===== *)
theory Modbus_Parser
  imports Modbus
begin

unbundle bit_operations_syntax

section \<open>The streaming parser and the client: frame_parser.rs and rtu_client.rs\<close>

text \<open>
  \<open>RtuFrameParser\<close> keeps the expected slave and function code and nothing else, so a parse is a
  function of the parser and the bytes so far. The client's transactions run it in the framed
  transaction of the serial transport.
\<close>

record rtu_parser =
  rp_slave :: "byte option"
  rp_fc :: "byte option"

definition for_request :: "byte \<Rightarrow> byte \<Rightarrow> rtu_parser" where
  "for_request slave fc = \<lparr>rp_slave = Some slave, rp_fc = Some (fc AND 0x7F)\<rparr>"

definition rtu_parser_new :: rtu_parser where
  "rtu_parser_new = \<lparr>rp_slave = None, rp_fc = None\<rparr>"

definition need_or :: "nat \<Rightarrow> byte list \<Rightarrow> frame_status" where
  "need_or n buf = (if length buf < n then Need n else Complete n)"

text \<open>The length of a response, once its function code is known.\<close>

definition response_status :: "byte \<Rightarrow> byte list \<Rightarrow> frame_status" where
  "response_status fc buf =
     (if fc AND 0x80 \<noteq> 0 then need_or 5 buf
      else if 1 \<le> fc \<and> fc \<le> 4 then
        (if length buf < 3 then Need 3 else need_or (3 + unat (buf ! 2) + 2) buf)
      else if fc = 0x05 \<or> fc = 0x06 \<or> fc = 0x0F \<or> fc = 0x10 then need_or 8 buf
      else Invalid ''Unrecognised Modbus function code'')"

definition rtu_parse :: "rtu_parser \<Rightarrow> byte list \<Rightarrow> frame_status" where
  "rtu_parse p buf =
     (if (case (rp_slave p, buf) of (Some expected, got # _) \<Rightarrow> got \<noteq> expected | _ \<Rightarrow> False)
      then Invalid ''Slave ID mismatch''
      else if length buf < 2 then Need 2
      else if (case rp_fc p of Some expected \<Rightarrow> buf ! 1 AND 0x7F \<noteq> expected | None \<Rightarrow> False)
      then Invalid ''Function code mismatch''
      else response_status (buf ! 1) buf)"

subsection \<open>The parser honours the transport's contract\<close>

lemma need_or_Need [simp]: "need_or t buf = Need k \<longleftrightarrow> k = t \<and> length buf < t"
  by (auto simp: need_or_def)

lemma need_or_Complete [simp]: "need_or t buf = Complete n \<longleftrightarrow> n = t \<and> t \<le> length buf"
  by (auto simp: need_or_def)

lemma need_or_Invalid [simp]: "need_or t buf \<noteq> Invalid m"
  by (simp add: need_or_def)

text \<open>What a complete frame says about its bytes.\<close>

lemma rtu_parse_CompleteD:
  assumes "rtu_parse p buf = Complete n"
  shows "2 \<le> length buf" "n \<le> length buf" "5 \<le> n"
  using assms
  by (auto simp: rtu_parse_def response_status_def split: if_splits option.splits list.splits)

lemma rtu_parse_Need:
  "rtu_parse p buf = Need k \<Longrightarrow> length buf < k"
  by (auto simp: rtu_parse_def response_status_def split: if_splits option.splits list.splits)

text \<open>The parser looks at three bytes and at the length.\<close>

lemma rtu_parse_append:
  assumes "rtu_parse p buf = Complete n"
  shows "rtu_parse p (buf @ rest) = Complete n"
proof -
  have len: "5 \<le> length buf" using rtu_parse_CompleteD [OF assms] by linarith
  then obtain a b c tail where buf: "buf = a # b # c # tail"
    by (cases buf; cases "tl buf"; cases "tl (tl buf)") auto
  show ?thesis
    using assms unfolding buf by (auto simp: rtu_parse_def response_status_def split: if_splits option.splits)
qed

lemma rtu_parse_prefix:
  assumes "rtu_parse p buf = Complete n" "m < n"
  shows "\<exists>k \<le> n. rtu_parse p (take m buf) = Need k"
proof -
  have len: "5 \<le> n" "n \<le> length buf" using rtu_parse_CompleteD [OF assms(1)] by simp_all
  then obtain a b c tail where buf: "buf = a # b # c # tail"
    by (cases buf; cases "tl buf"; cases "tl (tl buf)") auto
  consider "m = 0" | "m = 1" | "m = 2" | j where "m = Suc (Suc (Suc j))"
    by (metis One_nat_def Suc_1 nat.exhaust)
  then show ?thesis
    using assms len unfolding buf
    by cases (auto simp: rtu_parse_def response_status_def split: if_splits option.splits)
qed


text \<open>So every parser of this crate works on a stream.\<close>

interpretation rtu: streaming_parser "rtu_parse p" for p
  by unfold_locales (auto dest: rtu_parse_Need rtu_parse_CompleteD rtu_parse_append rtu_parse_prefix)

subsection \<open>A transaction of the client\<close>

datatype client_error = Request_Short | Transport_Error frame_error | Response_Error rtu_error

text \<open>The response buffer holds 256 bytes; the parser is bound to the request's slave and function.\<close>

definition transact :: "byte list \<Rightarrow> bus_read list \<Rightarrow> (client_error + byte list)" where
  "transact request evs =
     (if length request < 2 then Inl Request_Short
      else case transaction_framed (rtu_parse (for_request (request ! 0) (request ! 1))) 256 evs of
        Inl e \<Rightarrow> Inl (Transport_Error e)
      | Inr frame \<Rightarrow> Inr frame)"

definition read_data :: "byte list \<Rightarrow> bus_read list \<Rightarrow> (client_error + byte list)" where
  "read_data request evs =
     (case transact request evs of
        Inl e \<Rightarrow> Inl e
      | Inr frame \<Rightarrow> (case parse_read_response frame of Inl e \<Rightarrow> Inl (Response_Error e) | Inr d \<Rightarrow> Inr d))"

definition write_ack :: "byte list \<Rightarrow> bus_read list \<Rightarrow> (client_error + unit)" where
  "write_ack request evs =
     (case transact request evs of
        Inl e \<Rightarrow> Inl e
      | Inr frame \<Rightarrow> (case parse_write_response frame of Inl e \<Rightarrow> Inl (Response_Error e) | Inr d \<Rightarrow> Inr d))"

definition map_result :: "('a \<Rightarrow> 'b) \<Rightarrow> 'e + 'a \<Rightarrow> 'e + 'b" where
  "map_result f r = (case r of Inl e \<Rightarrow> Inl e | Inr x \<Rightarrow> Inr (f x))"

definition read_coils :: "byte \<Rightarrow> u16 \<Rightarrow> u16 \<Rightarrow> bus_read list \<Rightarrow> (client_error + bool list)" where
  "read_coils slave start count evs =
     map_result (\<lambda>d. extract_coils d (unat count)) (read_data (build_read_request slave Read_Coils start count) evs)"

definition read_discrete_inputs :: "byte \<Rightarrow> u16 \<Rightarrow> u16 \<Rightarrow> bus_read list \<Rightarrow> (client_error + bool list)" where
  "read_discrete_inputs slave start count evs =
     map_result (\<lambda>d. extract_coils d (unat count))
       (read_data (build_read_request slave Read_Discrete_Inputs start count) evs)"

definition read_holding_registers :: "byte \<Rightarrow> u16 \<Rightarrow> u16 \<Rightarrow> bus_read list \<Rightarrow> (client_error + u16 list)" where
  "read_holding_registers slave start count evs =
     map_result extract_registers (read_data (build_read_request slave Read_Holding_Registers start count) evs)"

definition read_input_registers :: "byte \<Rightarrow> u16 \<Rightarrow> u16 \<Rightarrow> bus_read list \<Rightarrow> (client_error + u16 list)" where
  "read_input_registers slave start count evs =
     map_result extract_registers (read_data (build_read_request slave Read_Input_Registers start count) evs)"

definition write_single_coil :: "byte \<Rightarrow> u16 \<Rightarrow> bool \<Rightarrow> bus_read list \<Rightarrow> (client_error + unit)" where
  "write_single_coil slave addr v evs = write_ack (build_write_single_coil slave addr v) evs"

definition write_single_register :: "byte \<Rightarrow> u16 \<Rightarrow> u16 \<Rightarrow> bus_read list \<Rightarrow> (client_error + unit)" where
  "write_single_register slave addr v evs = write_ack (build_write_single_register slave addr v) evs"

definition write_multiple_coils :: "byte \<Rightarrow> u16 \<Rightarrow> bool list \<Rightarrow> bus_read list \<Rightarrow> (client_error + unit)" where
  "write_multiple_coils slave start coils evs = write_ack (build_write_multiple_coils slave start coils) evs"

definition write_multiple_registers :: "byte \<Rightarrow> u16 \<Rightarrow> u16 list \<Rightarrow> bus_read list \<Rightarrow> (client_error + unit)" where
  "write_multiple_registers slave start vals evs = write_ack (build_write_multiple_registers slave start vals) evs"

lemma read_request_head:
  "2 \<le> length (build_read_request slave fc start count)"
  "build_read_request slave fc start count ! 0 = slave"
  "build_read_request slave fc start count ! Suc 0 = fc_byte fc"
  by (simp_all add: build_read_request_def)

text \<open>A read response of the slave and function asked for is a complete frame.\<close>

lemma read_response_complete:
  assumes "fc \<in> {1, 2, 3, 4}" "length data < 256"
  shows "rtu_parse (for_request slave fc) (read_response slave fc data) = Complete (length (read_response slave fc data))"
proof -
  obtain lo hi where "crc16 ([slave, fc, of_nat (length data)] @ data) = (lo, hi)" by force
  then have f: "read_response slave fc data = slave # fc # of_nat (length data) # data @ [lo, hi]"
    by (simp add: read_response_def with_crc_def)
  with assms show ?thesis
    by (auto simp: rtu_parse_def for_request_def response_status_def unat_of_nat_byte need_or_def)
qed

text \<open>C12: whatever pieces the bytes arrive in, and whatever follows them, a client that asked for registers
  gets exactly the registers the slave put in its response, and returns without waiting for the deadline.\<close>

theorem holding_registers_received:
  assumes "length regs \<le> 125" "no_failure evs"
    "bytes_of evs = read_response slave 3 (concat (map be16 regs)) @ rest"
  shows "read_holding_registers slave start count evs = Inr regs"
proof -
  let ?f = "read_response slave 3 (concat (map be16 regs))"
  have c: "rtu_parse (for_request slave 3) ?f = Complete (length ?f)"
    by (rule read_response_complete) (use assms(1) in simp_all)
  have "length ?f \<le> 256" using assms(1) by (simp add: read_response_def)
  then have "transaction_framed (rtu_parse (for_request slave 3)) 256 evs = Inr ?f"
    using rtu.transaction_complete [OF c assms(2,3)] by simp
  moreover have "parse_read_response ?f = Inr (concat (map be16 regs))"
    using assms(1) by (intro parse_read_response_inv) simp_all
  ultimately show ?thesis
    by (simp add: read_holding_registers_def read_data_def transact_def read_request_head map_result_def
        extract_registers_be16 not_less)
qed


theorem holding_registers_received_witness:
  "read_holding_registers 1 0 2
     [Got [], Got (take 4 (read_response 1 3 (concat (map be16 [5, 6])))),
      Got (drop 4 (read_response 1 3 (concat (map be16 [5, 6]))) @ [0xAA])] = Inr [5, 6]"
  by (rule holding_registers_received [where rest = "[0xAA]"])
    (simp_all add: no_failure_def bytes_of_def)



text \<open>C32: a response that the bus cuts short ends in a receive timeout, for a read or an exception response.\<close>

theorem short_response_times_out:
  assumes "2 \<le> length request" "no_failure evs" "m < length frame" "length frame \<le> 256"
    "bytes_of evs = take m frame"
    "rtu_parse (for_request (request ! 0) (request ! 1)) frame = Complete (length frame)"
  shows "\<exists>got need. transact request evs = Inl (Transport_Error (Receive_Timeout got need))"
  using rtu.transaction_timeout [OF assms(6,2,5,3,4)] assms(1) by (auto simp: transact_def)

theorem short_response_times_out_witness:
  "\<exists>got need. transact (build_read_request 1 Read_Holding_Registers 0 2)
     [Got (take 6 (read_response 1 3 [0, 5, 0, 6]))] = Inl (Transport_Error (Receive_Timeout got need))"
  by (rule short_response_times_out [where m = 6 and frame = "read_response 1 3 [0, 5, 0, 6]"])
    (use read_response_complete [of 3 "[0, 5, 0, 6]" 1] in \<open>simp_all add: read_request_head no_failure_def bytes_of_def
      read_response_def\<close>)

end
