(* ===== verification/Modbus_Tcp.thy ===== *)
theory Modbus_Tcp
  imports Modbus
begin

unbundle bit_operations_syntax

section \<open>Modbus TCP: crates/st-comm-modbus-tcp/src/frame.rs, transport.rs and client.rs\<close>

text \<open>
  The MBAP header, the request builders, the response parser, and a transaction of the
  client. A connection is the bytes that arrive on it before the read timeout; resolving,
  connecting and sending are outcomes given by the network.
\<close>

definition mbap_header_len :: nat where
  "mbap_header_len = 7"

definition protocol_id :: u16 where
  "protocol_id = 0"

definition build_mbap_header :: "u16 \<Rightarrow> byte \<Rightarrow> nat \<Rightarrow> byte list" where
  "build_mbap_header txn unit_id pdu_len =
     be16 txn @ be16 protocol_id @ be16 (of_nat (pdu_len + 1)) @ [unit_id]"

definition tcp_read_request :: "u16 \<Rightarrow> byte \<Rightarrow> function_code \<Rightarrow> u16 \<Rightarrow> u16 \<Rightarrow> byte list" where
  "tcp_read_request txn unit_id fc start count =
     build_mbap_header txn unit_id 5 @ [fc_byte fc] @ be16 start @ be16 count"

definition tcp_write_single_coil :: "u16 \<Rightarrow> byte \<Rightarrow> u16 \<Rightarrow> bool \<Rightarrow> byte list" where
  "tcp_write_single_coil txn unit_id addr v =
     build_mbap_header txn unit_id 5 @ [fc_byte Write_Single_Coil] @ be16 addr @ be16 (coil_value v)"

definition tcp_write_single_register :: "u16 \<Rightarrow> byte \<Rightarrow> u16 \<Rightarrow> u16 \<Rightarrow> byte list" where
  "tcp_write_single_register txn unit_id addr v =
     build_mbap_header txn unit_id 5 @ [fc_byte Write_Single_Register] @ be16 addr @ be16 v"

text \<open>The length field is computed from the byte count after its cast to one byte.\<close>

definition tcp_write_multiple_coils :: "u16 \<Rightarrow> byte \<Rightarrow> u16 \<Rightarrow> bool list \<Rightarrow> byte list" where
  "tcp_write_multiple_coils txn unit_id start coils =
     (let byte_count = of_nat (coil_bytes coils) :: byte in
      build_mbap_header txn unit_id (6 + unat byte_count) @ multiple_coils_pdu start coils)"

definition tcp_write_multiple_registers :: "u16 \<Rightarrow> byte \<Rightarrow> u16 \<Rightarrow> u16 list \<Rightarrow> byte list" where
  "tcp_write_multiple_registers txn unit_id start vals =
     (let byte_count = of_nat (length vals * 2) :: byte in
      build_mbap_header txn unit_id (6 + unat byte_count) @ multiple_registers_pdu start vals)"

subsection \<open>Parsing a response\<close>

datatype tcp_error =
    Header_Short
  | Bad_Protocol u16
  | Exception_Short
  | Device_Exception string byte
  | Read_Short
  | Read_Truncated nat
  | Unknown_Function byte

definition parse_response :: "byte list \<Rightarrow> (tcp_error + u16 \<times> byte list)" where
  "parse_response frame =
     (if length frame < mbap_header_len + 1 then Inl Header_Short
      else let txn = from_be16 (frame ! 0) (frame ! 1);
               proto = from_be16 (frame ! 2) (frame ! 3);
               fc = frame ! 7 in
        if proto \<noteq> protocol_id then Inl (Bad_Protocol proto)
        else if fc AND 0x80 \<noteq> 0 then
          (if length frame < mbap_header_len + 2 then Inl Exception_Short
           else Inl (Device_Exception (exception_description (frame ! 8)) (frame ! 8)))
        else if 1 \<le> fc \<and> fc \<le> 4 then
          (if length frame < mbap_header_len + 2 then Inl Read_Short
           else let n = unat (frame ! 8); data_start = mbap_header_len + 2 in
             if length frame < data_start + n then Inl (Read_Truncated n)
             else Inr (txn, take n (drop data_start frame)))
        else if fc = 0x05 \<or> fc = 0x06 \<or> fc = 0x0F \<or> fc = 0x10 then Inr (txn, [])
        else Inl (Unknown_Function fc))"

subsection \<open>The transport\<close>

datatype tcp_transport_error =
    Write_Failed
  | Buffer_Below_Header
  | Stream_Short
  | Bad_Length
  | Response_Large nat nat
  | Connect_Failed

text \<open>A connection, as one exchange on it goes: whether the send works, and what arrives.\<close>

record connection =
  cn_send :: bool
  cn_bytes :: "byte list"

definition transaction_inner :: "nat \<Rightarrow> connection \<Rightarrow> (tcp_transport_error + byte list)" where
  "transaction_inner cap c =
     (let bs = cn_bytes c in
      if \<not> cn_send c then Inl Write_Failed
      else if cap < 7 then Inl Buffer_Below_Header
      else if length bs < 7 then Inl Stream_Short
      else let len = push_bit 8 (unat (bs ! 4)) OR unat (bs ! 5) in
        if len < 1 then Inl Bad_Length
        else let remaining = len - 1; n = 7 + remaining in
          if cap < n then Inl (Response_Large n cap)
          else if 0 < remaining \<and> length bs < 7 + remaining then Inl Stream_Short
          else Inr (take n bs))"

text \<open>A failure of any kind reconnects once and sends the request again.\<close>

definition transaction :: "nat \<Rightarrow> connection \<Rightarrow> connection option \<Rightarrow> (tcp_transport_error + byte list)" where
  "transaction cap c retry =
     (case transaction_inner cap c of
        Inr frame \<Rightarrow> Inr frame
      | Inl e \<Rightarrow> (case retry of None \<Rightarrow> Inl Connect_Failed | Some c' \<Rightarrow> transaction_inner cap c'))"

subsection \<open>The client\<close>

datatype tcp_client_error = No_Response | Tcp_Transport tcp_transport_error | Tcp_Response tcp_error

text \<open>The response buffer holds 512 bytes. The request reaches the device through \<open>c\<close>.\<close>

definition tcp_transact :: "connection \<Rightarrow> connection option \<Rightarrow> (tcp_client_error + u16 \<times> byte list)" where
  "tcp_transact c retry =
     (case transaction 512 c retry of
        Inl e \<Rightarrow> Inl (Tcp_Transport e)
      | Inr frame \<Rightarrow>
          if frame = [] then Inl No_Response
          else case parse_response frame of Inl e \<Rightarrow> Inl (Tcp_Response e) | Inr r \<Rightarrow> Inr r)"

definition next_transaction_id :: "u16 \<Rightarrow> u16" where
  "next_transaction_id t = t + 1"

text \<open>A device, as seen by the client: the connection and its replacement that answer a request.\<close>

type_synonym device = "byte list \<Rightarrow> connection \<times> connection option"

definition tcp_data :: "device \<Rightarrow> byte list \<Rightarrow> (tcp_client_error + byte list)" where
  "tcp_data dev request =
     (case tcp_transact (fst (dev request)) (snd (dev request)) of Inl e \<Rightarrow> Inl e | Inr (_, data) \<Rightarrow> Inr data)"

text \<open>Each operation takes the last transaction id and returns the new one with its result.\<close>

definition tcp_read_coils :: "device \<Rightarrow> u16 \<Rightarrow> byte \<Rightarrow> u16 \<Rightarrow> u16 \<Rightarrow> u16 \<times> (tcp_client_error + bool list)" where
  "tcp_read_coils dev t unit_id start count =
     (let t' = next_transaction_id t in
      (t', case tcp_data dev (tcp_read_request t' unit_id Read_Coils start count) of
             Inl e \<Rightarrow> Inl e | Inr data \<Rightarrow> Inr (extract_coils data (unat count))))"

definition tcp_read_discrete_inputs ::
  "device \<Rightarrow> u16 \<Rightarrow> byte \<Rightarrow> u16 \<Rightarrow> u16 \<Rightarrow> u16 \<times> (tcp_client_error + bool list)" where
  "tcp_read_discrete_inputs dev t unit_id start count =
     (let t' = next_transaction_id t in
      (t', case tcp_data dev (tcp_read_request t' unit_id Read_Discrete_Inputs start count) of
             Inl e \<Rightarrow> Inl e | Inr data \<Rightarrow> Inr (extract_coils data (unat count))))"

definition tcp_read_holding_registers ::
  "device \<Rightarrow> u16 \<Rightarrow> byte \<Rightarrow> u16 \<Rightarrow> u16 \<Rightarrow> u16 \<times> (tcp_client_error + u16 list)" where
  "tcp_read_holding_registers dev t unit_id start count =
     (let t' = next_transaction_id t in
      (t', case tcp_data dev (tcp_read_request t' unit_id Read_Holding_Registers start count) of
             Inl e \<Rightarrow> Inl e | Inr data \<Rightarrow> Inr (extract_registers data)))"

definition tcp_read_input_registers ::
  "device \<Rightarrow> u16 \<Rightarrow> byte \<Rightarrow> u16 \<Rightarrow> u16 \<Rightarrow> u16 \<times> (tcp_client_error + u16 list)" where
  "tcp_read_input_registers dev t unit_id start count =
     (let t' = next_transaction_id t in
      (t', case tcp_data dev (tcp_read_request t' unit_id Read_Input_Registers start count) of
             Inl e \<Rightarrow> Inl e | Inr data \<Rightarrow> Inr (extract_registers data)))"

definition tcp_write :: "device \<Rightarrow> byte list \<Rightarrow> (tcp_client_error + unit)" where
  "tcp_write dev request = (case tcp_data dev request of Inl e \<Rightarrow> Inl e | Inr _ \<Rightarrow> Inr ())"

definition tcp_client_write_coil :: "device \<Rightarrow> u16 \<Rightarrow> byte \<Rightarrow> u16 \<Rightarrow> bool \<Rightarrow> u16 \<times> (tcp_client_error + unit)" where
  "tcp_client_write_coil dev t unit_id addr v =
     (let t' = next_transaction_id t in (t', tcp_write dev (tcp_write_single_coil t' unit_id addr v)))"

definition tcp_client_write_register :: "device \<Rightarrow> u16 \<Rightarrow> byte \<Rightarrow> u16 \<Rightarrow> u16 \<Rightarrow> u16 \<times> (tcp_client_error + unit)" where
  "tcp_client_write_register dev t unit_id addr v =
     (let t' = next_transaction_id t in (t', tcp_write dev (tcp_write_single_register t' unit_id addr v)))"

definition tcp_client_write_coils ::
  "device \<Rightarrow> u16 \<Rightarrow> byte \<Rightarrow> u16 \<Rightarrow> bool list \<Rightarrow> u16 \<times> (tcp_client_error + unit)" where
  "tcp_client_write_coils dev t unit_id start coils =
     (let t' = next_transaction_id t in (t', tcp_write dev (tcp_write_multiple_coils t' unit_id start coils)))"

definition tcp_client_write_registers ::
  "device \<Rightarrow> u16 \<Rightarrow> byte \<Rightarrow> u16 \<Rightarrow> u16 list \<Rightarrow> u16 \<times> (tcp_client_error + unit)" where
  "tcp_client_write_registers dev t unit_id start vals =
     (let t' = next_transaction_id t in (t', tcp_write dev (tcp_write_multiple_registers t' unit_id start vals)))"


subsection \<open>Framing\<close>

lemma be16_unat: "push_bit 8 (unat (ucast (drop_bit 8 w) :: byte)) OR unat (ucast (w AND 0xFF) :: byte) = unat (w :: u16)"
proof (rule bit_eqI)
  fix n
  show "bit (push_bit 8 (unat (ucast (drop_bit 8 w) :: byte)) OR unat (ucast (w AND 0xFF) :: byte)) n = bit (unat w) n"
    using bit_imp_le_length [of w n]
    by (cases "n < 8") (auto simp: and_ff bit_or_iff bit_push_bit_iff bit_unsigned_iff bit_ucast_iff bit_take_bit_iff
        bit_drop_bit_eq)
qed

text \<open>What the transport does with a frame whose length field is right.\<close>

lemma transaction_inner_frame:
  assumes "cn_send c" "cn_bytes c = build_mbap_header txn u (length pdu) @ pdu @ rest"
    "length pdu + 7 \<le> cap" "length pdu < 65535"
  shows "transaction_inner cap c = Inr (build_mbap_header txn u (length pdu) @ pdu)"
proof -
  let ?h = "build_mbap_header txn u (length pdu)"
  have h: "length ?h = 7" by (simp add: build_mbap_header_def)
  have l: "push_bit 8 (unat (cn_bytes c ! 4)) OR unat (cn_bytes c ! 5) = length pdu + 1"
  proof -
    have "cn_bytes c ! 4 = ucast (drop_bit 8 (of_nat (length pdu + 1) :: u16))"
      "cn_bytes c ! 5 = ucast ((of_nat (length pdu + 1) :: u16) AND 0xFF)"
      unfolding assms(2) by (simp_all add: build_mbap_header_def be16_def nth_append)
    moreover have "unat (of_nat (length pdu + 1) :: u16) = length pdu + 1"
      using assms(4) by (simp only: unat_of_nat) simp
    ultimately show ?thesis by (simp only: be16_unat)
  qed
  have "7 + length pdu \<le> length (cn_bytes c)" unfolding assms(2) by (simp add: h)
  moreover have "take (7 + length pdu) (cn_bytes c) = ?h @ pdu" unfolding assms(2) by (simp add: h)
  ultimately show ?thesis
    using assms(1,3) by (simp add: transaction_inner_def Let_def l)
qed

lemma length_multiple_coils_pdu:
  "length (multiple_coils_pdu start coils) = 6 + unat (of_nat (coil_bytes coils) :: byte)"
  by (simp add: multiple_coils_pdu_def Let_def)

lemma length_multiple_registers_pdu: "length (multiple_registers_pdu start vals) = 6 + 2 * length vals"
  by (simp add: multiple_registers_pdu_def)

text \<open>C30: every request the client builds is delimited by its own length field: a receiver that frames by the MBAP
  header takes exactly the request off the stream, whatever follows, for any number of coils and for up
  to 127 registers.\<close>

theorem requests_are_framed:
  assumes "cn_send c" "cap \<ge> 300" "length vals < 128"
    "frame \<in> {tcp_read_request txn u fc start count, tcp_write_single_coil txn u start v,
       tcp_write_single_register txn u start w, tcp_write_multiple_coils txn u start coils,
       tcp_write_multiple_registers txn u start vals}"
    "cn_bytes c = frame @ rest"
  shows "transaction_inner cap c = Inr frame"
proof -
  have n: "unat (of_nat (coil_bytes coils) :: byte) < 256" using unsigned_less [of "of_nat (coil_bytes coils) :: byte"] by simp
  have r: "unat (of_nat (length vals * 2) :: byte) = 2 * length vals"
    using assms(3) unat_of_nat_byte [of "length vals * 2"] by simp
  have "\<exists>pdu. frame = build_mbap_header txn u (length pdu) @ pdu \<and> length pdu \<le> 270"
    using assms(4)
  proof (elim insertE emptyE)
    assume "frame = tcp_read_request txn u fc start count"
    then show ?thesis
      by (intro exI [of _ "[fc_byte fc] @ be16 start @ be16 count"]) (simp add: tcp_read_request_def)
  next
    assume "frame = tcp_write_single_coil txn u start v"
    then show ?thesis
      by (intro exI [of _ "[fc_byte Write_Single_Coil] @ be16 start @ be16 (coil_value v)"])
        (simp add: tcp_write_single_coil_def)
  next
    assume "frame = tcp_write_single_register txn u start w"
    then show ?thesis
      by (intro exI [of _ "[fc_byte Write_Single_Register] @ be16 start @ be16 w"])
        (simp add: tcp_write_single_register_def)
  next
    assume "frame = tcp_write_multiple_coils txn u start coils"
    then show ?thesis using n
      by (intro exI [of _ "multiple_coils_pdu start coils"])
        (simp add: tcp_write_multiple_coils_def Let_def length_multiple_coils_pdu)
  next
    assume "frame = tcp_write_multiple_registers txn u start vals"
    then show ?thesis using assms(3)
      by (intro exI [of _ "multiple_registers_pdu start vals"])
        (simp add: tcp_write_multiple_registers_def Let_def length_multiple_registers_pdu r del: of_nat_mult)
  qed
  then obtain pdu where f: "frame = build_mbap_header txn u (length pdu) @ pdu" and l: "length pdu \<le> 270" by auto
  show ?thesis unfolding f
    by (rule transaction_inner_frame [OF assms(1)]) (use assms(2,5) f l in simp_all)
qed

theorem requests_are_framed_witness:
  "transaction_inner 512 \<lparr>cn_send = True, cn_bytes = tcp_write_multiple_registers 9 1 0 [3, 4] @ [0xAA]\<rparr> =
     Inr (tcp_write_multiple_registers 9 1 0 [3, 4])"
  by (rule requests_are_framed [where vals = "[3, 4]" and rest = "[0xAA]" and txn = 9 and u = 1 and start = 0])
    simp_all

text \<open>The answer of a device to a read.\<close>

definition tcp_read_response :: "u16 \<Rightarrow> byte \<Rightarrow> byte \<Rightarrow> byte list \<Rightarrow> byte list" where
  "tcp_read_response txn u fc data =
     build_mbap_header txn u (2 + length data) @ [fc, of_nat (length data)] @ data"

lemma parse_tcp_read_response:
  assumes "fc \<in> {1, 2, 3, 4}" "length data < 256"
  shows "parse_response (tcp_read_response txn u fc data) = Inr (txn, data)"
proof -
  let ?f = "tcp_read_response txn u fc data"
  have "?f ! 0 = ucast (drop_bit 8 txn)" "?f ! Suc 0 = ucast (txn AND 0xFF)" "?f ! 2 = 0" "?f ! 3 = 0"
    "?f ! 7 = fc" "?f ! 8 = of_nat (length data)" "drop 9 ?f = data" "length ?f = 9 + length data"
    by (simp_all add: tcp_read_response_def build_mbap_header_def be16_def protocol_id_def nth_append)
  with assms show ?thesis
    by (auto simp: parse_response_def mbap_header_len_def protocol_id_def Let_def unat_of_nat_byte from_be16_def [of 0 0])
qed



end
