(* ===== verification/Compile.thy ===== *)
theory Compile
  imports Literals Vm_State
begin

section \<open>The function compiler: crates/st-compiler/src/compile.rs\<close>

text \<open>
  \<open>FunctionCompiler\<close>: from declarations, statements and expressions to instructions. What
  it only reads is \<open>fn_env\<close>, what it changes is \<open>fn_state\<close>, threaded through every operation.
  Compiling ends with a result, an error, a panic (a register or a label counter that overflows
  in a checked build, arithmetic in a literal), or, in a class hierarchy with a cycle, never.
  The warnings on standard error are left out.
\<close>

datatype compile_error = Undeclared_Variable string | Undeclared_Function string | Internal string

datatype 'a compiled = Code 'a | Rejected compile_error | Abort panic | Hangs

primrec cbind :: "'a compiled \<Rightarrow> ('a \<Rightarrow> 'b compiled) \<Rightarrow> 'b compiled" where
  "cbind (Code x) f = f x"
| "cbind (Rejected e) f = Rejected e"
| "cbind (Abort p) f = Abort p"
| "cbind Hangs f = Hangs"

primrec of_chk :: "'a chk \<Rightarrow> 'a compiled" where
  "of_chk (Res x) = Code x"
| "of_chk (Panic p) = Abort p"

lemma cbind_Code_iff [simp]: "cbind r f = Code y \<longleftrightarrow> (\<exists>x. r = Code x \<and> f x = Code y)"
  by (cases r) auto

lemma of_chk_Code_iff [simp]: "of_chk r = Code y \<longleftrightarrow> r = Res y"
  by (cases r) auto

record fn_env =
  ce_build :: build
  ce_functions :: "func list"
  ce_globals :: memory_layout
  ce_class_bases :: "(string, string) hashmap"

record fn_state =
  fs_instructions :: "instruction list"
  fs_source_map :: "source_location list"
  fs_locals :: memory_layout
  fs_next_reg :: reg
  fs_next_label :: label
  fs_label_positions :: "nat list"
  fs_type_defs :: "type_def list"
  fs_loop_exit_labels :: "label list"
  fs_pending_source :: "text_range option"
  fs_fb_type_names :: "(u16, string) hashmap"

text \<open>The exit labels of the enclosing loops have the innermost first; the source's vector has it last.\<close>

definition fn_state_new :: "type_def list \<Rightarrow> fn_state" where
  "fn_state_new tds =
     \<lparr>fs_instructions = [], fs_source_map = [], fs_locals = \<lparr>slots = []\<rparr>, fs_next_reg = 0,
      fs_next_label = 0, fs_label_positions = [], fs_type_defs = tds, fs_loop_exit_labels = [],
      fs_pending_source = None, fs_fb_type_names = []\<rparr>"

definition current_pc :: "fn_state \<Rightarrow> nat" where
  "current_pc s = length (fs_instructions s)"

subsection \<open>Registers, labels, instructions\<close>

definition alloc_reg :: "fn_env \<Rightarrow> fn_state \<Rightarrow> (reg \<times> fn_state) compiled" where
  "alloc_reg C s =
     (if bd_checks (ce_build C) \<and> unat (fs_next_reg s) = 65535 then Abort ArithPanic
      else Code (fs_next_reg s, s\<lparr>fs_next_reg := fs_next_reg s + 1\<rparr>))"

definition unplaced :: nat where
  "unplaced = 2 ^ 64 - 1"

text \<open>\<open>label_positions.resize(l + 1, usize::MAX)\<close>, if it is shorter.\<close>

definition room_for :: "label \<Rightarrow> nat list \<Rightarrow> nat list" where
  "room_for l ps = pad_to (unat l + 1) unplaced ps"

definition alloc_label :: "fn_env \<Rightarrow> fn_state \<Rightarrow> (label \<times> fn_state) compiled" where
  "alloc_label C s =
     (if bd_checks (ce_build C) \<and> unat (fs_next_label s) = 4294967295 then Abort ArithPanic
      else Code (fs_next_label s,
        s\<lparr>fs_next_label := fs_next_label s + 1,
          fs_label_positions := room_for (fs_next_label s) (fs_label_positions s)\<rparr>))"

definition place_label :: "label \<Rightarrow> fn_state \<Rightarrow> fn_state" where
  "place_label l s =
     s\<lparr>fs_label_positions := (room_for l (fs_label_positions s))[unat l := current_pc s]\<rparr>"

definition location_of :: "text_range \<Rightarrow> source_location" where
  "location_of r = \<lparr>byte_offset = tr_start r, byte_end = tr_end r\<rparr>"

definition emit :: "instruction \<Rightarrow> fn_state \<Rightarrow> fn_state" where
  "emit ins s =
     s\<lparr>fs_source_map := fs_source_map s @
         [case fs_pending_source s of None \<Rightarrow> \<lparr>byte_offset = 0, byte_end = 0\<rparr> | Some r \<Rightarrow> location_of r],
       fs_pending_source := None, fs_instructions := fs_instructions s @ [ins]\<rparr>"

definition emit_sourced :: "instruction \<Rightarrow> text_range \<Rightarrow> fn_state \<Rightarrow> fn_state" where
  "emit_sourced ins r s =
     s\<lparr>fs_pending_source := None, fs_source_map := fs_source_map s @ [location_of r],
       fs_instructions := fs_instructions s @ [ins]\<rparr>"

definition set_source :: "text_range \<Rightarrow> fn_state \<Rightarrow> fn_state" where
  "set_source r s = s\<lparr>fs_pending_source := Some r\<rparr>"

subsection \<open>Names\<close>

definition find_local :: "fn_state \<Rightarrow> string \<Rightarrow> u16 option" where
  "find_local s name = map_option fst (find_slot (fs_locals s) name)"

definition find_global :: "fn_env \<Rightarrow> string \<Rightarrow> u16 option" where
  "find_global C name = map_option fst (find_slot (ce_globals C) name)"

definition function_index :: "fn_env \<Rightarrow> string \<Rightarrow> nat option" where
  "function_index C name = find_index (\<lambda>f. eq_ignore_ascii_case (fn_name f) name) (ce_functions C)"

definition function_slot :: "fn_env \<Rightarrow> string \<Rightarrow> string \<Rightarrow> (u16 \<times> var_slot) option" where
  "function_slot C type_name field_name =
     (case function_index C type_name of
        None \<Rightarrow> None
      | Some i \<Rightarrow> find_slot (fn_locals (ce_functions C ! i)) field_name)"

fun struct_named :: "string \<Rightarrow> type_def list \<Rightarrow> var_slot list option" where
  "struct_named n [] = None"
| "struct_named n (TD_Struct name fls # tds) =
     (if eq_ignore_ascii_case name n then Some fls else struct_named n tds)"
| "struct_named n (_ # tds) = struct_named n tds"

definition resolve_field_index :: "fn_env \<Rightarrow> fn_state \<Rightarrow> string \<Rightarrow> string \<Rightarrow> u16 option" where
  "resolve_field_index C s type_name field_name =
     (case function_slot C type_name field_name of
        Some (i, _) \<Rightarrow> Some i
      | None \<Rightarrow>
          (case struct_named type_name (fs_type_defs s) of
             None \<Rightarrow> None
           | Some fls \<Rightarrow>
               map_option of_nat (find_index (\<lambda>f. eq_ignore_ascii_case (vs_name f) field_name) fls)))"

definition resolve_field_expanded_offset :: "fn_env \<Rightarrow> string \<Rightarrow> string \<Rightarrow> u16 option" where
  "resolve_field_expanded_offset C type_name field_name =
     map_option (\<lambda>(_, s). of_nat (vs_offset s)) (function_slot C type_name field_name)"

text \<open>The walk up the class hierarchy; \<open>None\<close> if it never ends.\<close>

partial_function (option) find_method_in_hierarchy ::
  "func list \<Rightarrow> (string, string) hashmap \<Rightarrow> string \<Rightarrow> string \<Rightarrow> nat option option" where
  "find_method_in_hierarchy fs bases cls method =
     (case find_index (\<lambda>f. eq_ignore_ascii_case (fn_name f) (cls @ ''.'' @ method)) fs of
        Some i \<Rightarrow> Some (Some i)
      | None \<Rightarrow>
          (case hm_get bases (to_upper cls) of
             None \<Rightarrow> Some None
           | Some base \<Rightarrow> find_method_in_hierarchy fs bases base method))"

subsection \<open>Locals\<close>

definition add_local_with_qualifiers ::
  "string \<Rightarrow> var_type \<Rightarrow> int_width \<Rightarrow> bool \<Rightarrow> bool \<Rightarrow> fn_state \<Rightarrow> u16 \<times> fn_state" where
  "add_local_with_qualifiers name ty width retain persistent s =
     (of_nat (length (slots (fs_locals s))),
      s\<lparr>fs_locals := \<lparr>slots = slots (fs_locals s) @
          [\<lparr>vs_name = name, vs_ty = ty, vs_offset = total_size (fs_locals s), vs_size = var_type_size ty,
            vs_retain = retain, vs_persistent = persistent, vs_width = width\<rparr>]\<rparr>\<rparr>)"

definition add_local :: "string \<Rightarrow> var_type \<Rightarrow> int_width \<Rightarrow> fn_state \<Rightarrow> u16 \<times> fn_state" where
  "add_local name ty width = add_local_with_qualifiers name ty width False False"

subsection \<open>Loads\<close>

definition load_const :: "fn_env \<Rightarrow> val \<Rightarrow> fn_state \<Rightarrow> (reg \<times> fn_state) compiled" where
  "load_const C v s = cbind (alloc_reg C s) (\<lambda>(r, s). Code (r, emit (LoadConst r v) s))"

definition compile_load_variable :: "fn_env \<Rightarrow> string \<Rightarrow> fn_state \<Rightarrow> (reg \<times> fn_state) compiled" where
  "compile_load_variable C name s =
     cbind (alloc_reg C s) (\<lambda>(r, s).
       Code (r, emit (case find_local s name of
                        Some slot \<Rightarrow> LoadLocal r slot
                      | None \<Rightarrow> (case find_global C name of
                                   Some slot \<Rightarrow> LoadGlobal r slot
                                 | None \<Rightarrow> LoadConst r (V_Int 0))) s))"

definition partial_read :: "partial_access_kind \<Rightarrow> reg \<Rightarrow> reg \<Rightarrow> u32 \<Rightarrow> instruction" where
  "partial_read k dst src i =
     (case k of
        P_Bit \<Rightarrow> ExtractBit dst src (ucast i)
      | P_Byte \<Rightarrow> ExtractPartial dst src (ucast i) 8
      | P_Word \<Rightarrow> ExtractPartial dst src (ucast i) 16
      | P_DWord \<Rightarrow> ExtractPartial dst src (ucast i) 32
      | P_LWord \<Rightarrow> ExtractPartial dst src (ucast i) 64)"

definition compile_partial_read ::
  "fn_env \<Rightarrow> reg \<Rightarrow> partial_access_kind \<Rightarrow> u32 \<Rightarrow> fn_state \<Rightarrow> (reg \<times> fn_state) compiled" where
  "compile_partial_read C src k i s =
     cbind (alloc_reg C s) (\<lambda>(dst, s). Code (dst, emit (partial_read k dst src i) s))"

fun apply_partial_chain ::
  "fn_env \<Rightarrow> reg \<Rightarrow> access_part list \<Rightarrow> fn_state \<Rightarrow> (reg \<times> fn_state) compiled" where
  "apply_partial_chain C r [] s = Code (r, s)"
| "apply_partial_chain C r (A_Partial k i # ps) s =
     cbind (compile_partial_read C r k i s) (\<lambda>(r, s). apply_partial_chain C r ps s)"
| "apply_partial_chain C r (_ # ps) s = apply_partial_chain C r ps s"

definition binary_instruction :: "binary_op \<Rightarrow> reg \<Rightarrow> reg \<Rightarrow> reg \<Rightarrow> instruction" where
  "binary_instruction op =
     (case op of
        B_Add \<Rightarrow> Add | B_Sub \<Rightarrow> Sub | B_Mul \<Rightarrow> Mul | B_Div \<Rightarrow> Div | B_Mod \<Rightarrow> Mod | B_Power \<Rightarrow> Pow
      | B_And \<Rightarrow> And | B_Or \<Rightarrow> Or | B_Xor \<Rightarrow> Xor
      | B_Eq \<Rightarrow> CmpEq | B_Ne \<Rightarrow> CmpNe | B_Lt \<Rightarrow> CmpLt | B_Gt \<Rightarrow> CmpGt | B_Le \<Rightarrow> CmpLe | B_Ge \<Rightarrow> CmpGe)"

definition unary_instruction :: "unary_op \<Rightarrow> reg \<Rightarrow> reg \<Rightarrow> instruction" where
  "unary_instruction op = (case op of U_Neg \<Rightarrow> Neg | U_Not \<Rightarrow> Not)"

subsection \<open>Intrinsics\<close>

type_synonym unary_make = "reg \<Rightarrow> reg \<Rightarrow> instruction"

definition intrinsics1 :: "(string \<times> unary_make) list" where
  "intrinsics1 =
   [(''SQRT'', Sqrt), (''SIN'', Sin), (''COS'', Cos), (''TAN'', Tan), (''ASIN'', Asin),
    (''ACOS'', Acos), (''ATAN'', Atan), (''LN'', Ln), (''LOG'', Log), (''EXP'', Exp)] @
   map (\<lambda>n. (n, ToReal)) [''INT_TO_REAL'', ''SINT_TO_REAL'', ''DINT_TO_REAL'',
     ''LINT_TO_REAL'', ''UINT_TO_REAL'', ''UDINT_TO_REAL'', ''ULINT_TO_REAL'', ''USINT_TO_REAL'',
     ''BOOL_TO_REAL'', ''INT_TO_LREAL'', ''SINT_TO_LREAL'', ''DINT_TO_LREAL'', ''LINT_TO_LREAL'',
     ''REAL_TO_LREAL'', ''TIME_TO_REAL'', ''TIME_TO_LREAL'', ''TO_REAL'', ''TO_LREAL'',
     ''ANY_TO_REAL'', ''ANY_TO_LREAL''] @
   map (\<lambda>n. (n, ToInt)) [''REAL_TO_INT'', ''LREAL_TO_INT'', ''REAL_TO_DINT'',
     ''LREAL_TO_DINT'', ''REAL_TO_LINT'', ''LREAL_TO_LINT'', ''REAL_TO_SINT'', ''LREAL_TO_SINT'',
     ''BOOL_TO_INT'', ''BOOL_TO_DINT'', ''BOOL_TO_LINT'', ''UINT_TO_INT'', ''UDINT_TO_DINT'',
     ''ULINT_TO_LINT'', ''INT_TO_DINT'', ''INT_TO_LINT'', ''DINT_TO_LINT'', ''SINT_TO_INT'',
     ''SINT_TO_DINT'', ''SINT_TO_LINT'', ''TIME_TO_INT'', ''TIME_TO_SINT'', ''TIME_TO_DINT'',
     ''TIME_TO_LINT'', ''TIME_TO_UINT'', ''TIME_TO_USINT'', ''TIME_TO_UDINT'', ''TIME_TO_ULINT'',
     ''TO_INT'', ''TO_SINT'', ''TO_DINT'', ''TO_LINT'', ''TO_UINT'', ''TO_USINT'', ''TO_UDINT'',
     ''TO_ULINT'', ''ANY_TO_INT'', ''ANY_TO_SINT'', ''ANY_TO_DINT'', ''ANY_TO_LINT'', ''ANY_TO_UINT'',
     ''ANY_TO_USINT'', ''ANY_TO_UDINT'', ''ANY_TO_ULINT''] @
   map (\<lambda>n. (n, ToBool)) [''INT_TO_BOOL'', ''REAL_TO_BOOL'', ''DINT_TO_BOOL'',
     ''LINT_TO_BOOL'', ''TIME_TO_BOOL'', ''TO_BOOL'', ''ANY_TO_BOOL''] @
   map (\<lambda>n. (n, ToTime)) [''INT_TO_TIME'', ''SINT_TO_TIME'', ''DINT_TO_TIME'',
     ''LINT_TO_TIME'', ''UINT_TO_TIME'', ''USINT_TO_TIME'', ''UDINT_TO_TIME'', ''ULINT_TO_TIME'',
     ''REAL_TO_TIME'', ''LREAL_TO_TIME'', ''BOOL_TO_TIME'', ''TO_TIME'', ''ANY_TO_TIME'',
     ''INT_TO_DATE'', ''SINT_TO_DATE'', ''DINT_TO_DATE'', ''LINT_TO_DATE'', ''UINT_TO_DATE'',
     ''USINT_TO_DATE'', ''UDINT_TO_DATE'', ''ULINT_TO_DATE'', ''REAL_TO_DATE'', ''LREAL_TO_DATE'',
     ''TO_DATE'', ''ANY_TO_DATE''] @
   map (\<lambda>n. (n, ToTod)) [''INT_TO_TOD'', ''SINT_TO_TOD'', ''DINT_TO_TOD'', ''LINT_TO_TOD'',
     ''UINT_TO_TOD'', ''USINT_TO_TOD'', ''UDINT_TO_TOD'', ''ULINT_TO_TOD'', ''REAL_TO_TOD'',
     ''LREAL_TO_TOD'', ''TO_TOD'', ''ANY_TO_TOD'', ''TIME_TO_TOD''] @
   map (\<lambda>n. (n, ToTime)) [''INT_TO_DT'', ''SINT_TO_DT'', ''DINT_TO_DT'', ''LINT_TO_DT'',
     ''UINT_TO_DT'', ''USINT_TO_DT'', ''UDINT_TO_DT'', ''ULINT_TO_DT'', ''REAL_TO_DT'',
     ''LREAL_TO_DT'', ''TO_DT'', ''ANY_TO_DT'', ''DATE_TO_DT'', ''TIME_TO_DATE'', ''TIME_TO_DT'',
     ''DATE_TO_TIME'', ''TOD_TO_TIME'', ''DT_TO_TIME''] @
   map (\<lambda>n. (n, ToInt)) [''DATE_TO_INT'', ''DATE_TO_SINT'', ''DATE_TO_DINT'', ''DATE_TO_LINT'',
     ''DATE_TO_UINT'', ''DATE_TO_USINT'', ''DATE_TO_UDINT'', ''DATE_TO_ULINT'', ''TOD_TO_INT'',
     ''TOD_TO_SINT'', ''TOD_TO_DINT'', ''TOD_TO_LINT'', ''TOD_TO_UINT'', ''TOD_TO_USINT'',
     ''TOD_TO_UDINT'', ''TOD_TO_ULINT'', ''DT_TO_INT'', ''DT_TO_SINT'', ''DT_TO_DINT'', ''DT_TO_LINT'',
     ''DT_TO_UINT'', ''DT_TO_USINT'', ''DT_TO_UDINT'', ''DT_TO_ULINT''] @
   map (\<lambda>n. (n, ToReal)) [''DATE_TO_REAL'', ''DATE_TO_LREAL'', ''TOD_TO_REAL'',
     ''TOD_TO_LREAL'', ''DT_TO_REAL'', ''DT_TO_LREAL''] @
   map (\<lambda>n. (n, ToBool)) [''DATE_TO_BOOL'', ''TOD_TO_BOOL'', ''DT_TO_BOOL''] @
   [(''DT_TO_DATE'', DtExtractDate), (''DT_TO_TOD'', DtExtractTod), (''DAY_OF_WEEK'', DayOfWeek),
    (''LEN'', StringLen), (''TRIM'', StringTrim), (''LTRIM'', StringLTrim), (''RTRIM'', StringRTrim)] @
   map (\<lambda>n. (n, StringToUpper)) [''TO_UPPER'', ''UPPER_CASE''] @
   map (\<lambda>n. (n, StringToLower)) [''TO_LOWER'', ''LOWER_CASE''] @
   map (\<lambda>n. (n, IntToString)) [''INT_TO_STRING'', ''SINT_TO_STRING'', ''DINT_TO_STRING'',
     ''LINT_TO_STRING''] @
   map (\<lambda>n. (n, UIntToString)) [''UINT_TO_STRING'', ''USINT_TO_STRING'', ''UDINT_TO_STRING'',
     ''ULINT_TO_STRING''] @
   map (\<lambda>n. (n, RealToString)) [''REAL_TO_STRING'', ''LREAL_TO_STRING''] @
   [(''BOOL_TO_STRING'', BoolToString)] @
   map (\<lambda>n. (n, StringToInt)) [''STRING_TO_INT'', ''STRING_TO_SINT'', ''STRING_TO_DINT'',
     ''STRING_TO_LINT''] @
   map (\<lambda>n. (n, StringToUInt)) [''STRING_TO_UINT'', ''STRING_TO_USINT'', ''STRING_TO_UDINT'',
     ''STRING_TO_ULINT''] @
   map (\<lambda>n. (n, StringToReal)) [''STRING_TO_REAL'', ''STRING_TO_LREAL''] @
   [(''STRING_TO_BOOL'', StringToBool)] @
   map (\<lambda>n. (n, ToString)) [''TO_STRING'', ''ANY_TO_STRING'']"

text \<open>The flag says whether the result is wrapped into a day.\<close>

definition intrinsics2 :: "(string \<times> (reg \<Rightarrow> reg \<Rightarrow> reg \<Rightarrow> instruction) \<times> bool) list" where
  "intrinsics2 =
     [(''ADD_TOD_TIME'', Add, True), (''SUB_TOD_TIME'', Sub, True),
      (''ADD_DT_TIME'', Add, False), (''CONCAT_DATE_TOD'', Add, False),
      (''SUB_DATE_DATE'', Sub, False), (''SUB_TOD_TOD'', Sub, False), (''SUB_DT_TIME'', Sub, False),
      (''SUB_DT_DT'', Sub, False), (''MULTIME'', Mul, False), (''DIVTIME'', Div, False)]"

definition string_intrinsics2 :: "(string \<times> (reg \<Rightarrow> reg \<Rightarrow> reg \<Rightarrow> instruction)) list" where
  "string_intrinsics2 =
     [(''CONCAT'', StringConcat), (''FIND'', StringFind), (''LEFT'', StringLeft), (''RIGHT'', StringRight)]"

definition string_intrinsics3 :: "(string \<times> (reg \<Rightarrow> reg \<Rightarrow> reg \<Rightarrow> reg \<Rightarrow> instruction)) list" where
  "string_intrinsics3 = [(''MID'', StringMid), (''INSERT'', StringInsert), (''DELETE'', StringDelete)]"

subsection \<open>Calls\<close>

text \<open>\<open>REF(x)\<close> takes the first name of its argument.\<close>

definition ref_name :: "argument list \<Rightarrow> string option" where
  "ref_name args =
     (case args of
        a # _ \<Rightarrow> (case argument_value a of
                    E_Variable (VariableAccess (A_Identifier i # _) _) \<Rightarrow> Some (id_name i)
                  | _ \<Rightarrow> None)
      | [] \<Rightarrow> None)"

definition ref_instruction :: "fn_env \<Rightarrow> fn_state \<Rightarrow> argument list \<Rightarrow> reg \<Rightarrow> instruction" where
  "ref_instruction C s args dst =
     (case ref_name args of
        None \<Rightarrow> LoadNull dst
      | Some n \<Rightarrow>
          (case find_local s n of
             Some slot \<Rightarrow> MakeRefLocal dst slot
           | None \<Rightarrow> (case find_global C n of Some slot \<Rightarrow> MakeRefGlobal dst slot | None \<Rightarrow> LoadNull dst)))"

definition index_or_0 :: "nat option \<Rightarrow> u16" where
  "index_or_0 i = (case i of None \<Rightarrow> 0 | Some i \<Rightarrow> of_nat i)"

text \<open>\<open>instance.Method\<close> on a local: its slot, its class and the method; \<open>None\<close> if the walk never ends.\<close>

definition method_target :: "fn_env \<Rightarrow> fn_state \<Rightarrow> qualified_name \<Rightarrow> (u16 \<times> u16 \<times> u16) option option" where
  "method_target C s q =
     (case map id_name (qn_parts q) of
        [obj, method] \<Rightarrow>
          (case find_local s obj of
             None \<Rightarrow> Some None
           | Some slot \<Rightarrow>
               (case hm_get (fs_fb_type_names s) slot of
                  None \<Rightarrow> Some None
                | Some ty \<Rightarrow>
                    map_option (map_option (\<lambda>i. (slot, index_or_0 (function_index C ty), of_nat i)))
                      (find_method_in_hierarchy (ce_functions C) (ce_class_bases C) ty method)))
      | _ \<Rightarrow> Some None)"

text \<open>The function a local is an instance of: its type's, or one of the local's own name.\<close>

definition instance_function :: "fn_env \<Rightarrow> fn_state \<Rightarrow> u16 \<Rightarrow> string \<Rightarrow> u16" where
  "instance_function C s slot name =
     index_or_0 (function_index C (case hm_get (fs_fb_type_names s) slot of None \<Rightarrow> name | Some ty \<Rightarrow> ty))"

text \<open>The field of a local instance that \<open>obj.field\<close> names: its slot, its type and the field.\<close>

definition instance_field :: "fn_env \<Rightarrow> fn_state \<Rightarrow> string \<Rightarrow> string \<Rightarrow> (u16 \<times> string \<times> u16) option" where
  "instance_field C s obj field =
     (case find_local s obj of
        None \<Rightarrow> None
      | Some slot \<Rightarrow>
          map_option (\<lambda>ty. (slot, ty, case resolve_field_index C s ty field of None \<Rightarrow> 0 | Some i \<Rightarrow> i))
            (hm_get (fs_fb_type_names s) slot))"

definition base_offset :: "fn_env \<Rightarrow> string \<Rightarrow> string \<Rightarrow> u16 \<Rightarrow> u16" where
  "base_offset C ty field i =
     (case resolve_field_expanded_offset C ty field of None \<Rightarrow> i | Some off \<Rightarrow> off)"

text \<open>A name with no access of its own: the variable, and the partial accesses that follow it.\<close>

definition compile_plain_access ::
  "fn_env \<Rightarrow> access_part list \<Rightarrow> fn_state \<Rightarrow> (reg \<times> fn_state) compiled" where
  "compile_plain_access C parts s =
     (case parts of
        A_Identifier i # rest \<Rightarrow>
          cbind (compile_load_variable C (id_name i) s) (\<lambda>(r, s). apply_partial_chain C r rest s)
      | _ \<Rightarrow> load_const C (V_Int 0) s)"

subsection \<open>Expressions\<close>

text \<open>
  \<open>compile_argument_at\<close> is the n-th argument of an intrinsic, with a constant for a missing one;
  \<open>compile_call_args\<close> pairs each argument's register with its position, whatever name it has.
\<close>

fun compile_expression :: "fn_env \<Rightarrow> expression \<Rightarrow> fn_state \<Rightarrow> (reg \<times> fn_state) compiled"
  and compile_function_call_expr :: "fn_env \<Rightarrow> function_call_expr \<Rightarrow> fn_state \<Rightarrow> (reg \<times> fn_state) compiled"
  and compile_argument :: "fn_env \<Rightarrow> argument \<Rightarrow> fn_state \<Rightarrow> (reg \<times> fn_state) compiled"
  and compile_argument_at :: "fn_env \<Rightarrow> val \<Rightarrow> argument list \<Rightarrow> nat \<Rightarrow> fn_state \<Rightarrow> (reg \<times> fn_state) compiled"
  and compile_call_args ::
    "fn_env \<Rightarrow> nat \<Rightarrow> argument list \<Rightarrow> fn_state \<Rightarrow> ((u16 \<times> reg) list \<times> fn_state) compiled" where
  "compile_expression C (E_Literal l) s =
     cbind (of_chk (literal_to_value (ce_build C) l)) (\<lambda>v. load_const C v s)"
| "compile_expression C (E_Variable (VariableAccess parts _)) s =
     (case parts of
        A_Identifier i # A_Deref # _ \<Rightarrow>
          cbind (compile_load_variable C (id_name i) s) (\<lambda>(ptr, s).
          cbind (alloc_reg C s) (\<lambda>(dst, s). Code (dst, emit (Deref dst ptr) s)))
      | A_Identifier i # A_Index (e # _) # _ \<Rightarrow>
          (case find_local s (id_name i) of
             None \<Rightarrow> compile_plain_access C parts s
           | Some slot \<Rightarrow>
               cbind (compile_expression C e s) (\<lambda>(idx, s).
               cbind (alloc_reg C s) (\<lambda>(dst, s). Code (dst, emit (LoadArray dst slot idx) s))))
      | A_Identifier obj # A_Identifier fld # rest \<Rightarrow>
          (case instance_field C s (id_name obj) (id_name fld) of
             None \<Rightarrow> compile_plain_access C parts s
           | Some (slot, ty, i) \<Rightarrow>
               (case rest of
                  A_Index (e # _) # _ \<Rightarrow>
                    cbind (compile_expression C e s) (\<lambda>(idx, s).
                    cbind (alloc_reg C s) (\<lambda>(dst, s).
                      Code (dst, emit (LoadFieldIndex dst slot (base_offset C ty (id_name fld) i) idx) s)))
                | _ \<Rightarrow> cbind (alloc_reg C s) (\<lambda>(dst, s). Code (dst, emit (LoadField dst slot i) s))))
      | A_Identifier i # A_Partial k n # _ \<Rightarrow>
          cbind (compile_load_variable C (id_name i) s) (\<lambda>(base, s). compile_partial_read C base k n s)
      | _ \<Rightarrow> compile_plain_access C parts s)"
| "compile_expression C (E_Binary op l r _) s =
     cbind (compile_expression C l s) (\<lambda>(a, s).
     cbind (compile_expression C r s) (\<lambda>(b, s).
     cbind (alloc_reg C s) (\<lambda>(dst, s). Code (dst, emit (binary_instruction op dst a b) s))))"
| "compile_expression C (E_Unary op e _) s =
     cbind (compile_expression C e s) (\<lambda>(a, s).
     cbind (alloc_reg C s) (\<lambda>(dst, s). Code (dst, emit (unary_instruction op dst a) s)))"
| "compile_expression C (E_Parenthesized e) s = compile_expression C e s"
| "compile_expression C (E_This _) s = load_const C (V_Int 0) s"
| "compile_expression C (E_Super _) s = load_const C (V_Int 0) s"
| "compile_expression C (E_FunctionCall fc) s = compile_function_call_expr C fc s"
| "compile_function_call_expr C (FunctionCallExpr q args _) s =
     cbind (alloc_reg C s) (\<lambda>(dst, s).
     case method_target C s q of
       None \<Rightarrow> Hangs
     | Some (Some (slot, cls, method)) \<Rightarrow>
         cbind (compile_call_args C 0 args s) (\<lambda>(as, s). Code (dst, emit (CallMethod slot cls method dst as) s))
     | Some None \<Rightarrow>
         let name = qn_as_str q; upper = to_upper name in
         if upper = ''REF'' then Code (dst, emit (ref_instruction C s args dst) s)
         else if upper = ''SYSTEM_TIME'' then Code (dst, emit (SystemTime dst) s)
         else case map_of intrinsics1 upper of
           Some mk \<Rightarrow>
             cbind (compile_argument_at C (V_Real (f64_zero False)) args 0 s) (\<lambda>(a, s).
               Code (dst, emit (mk dst a) s))
         | None \<Rightarrow> case map_of intrinsics2 upper of
           Some (mk, wrap) \<Rightarrow>
             cbind (compile_argument_at C (V_Time 0) args 0 s) (\<lambda>(a, s).
             cbind (compile_argument_at C (V_Time 0) args 1 s) (\<lambda>(b, s).
               if wrap then cbind (alloc_reg C s) (\<lambda>(tmp, s).
                 Code (dst, emit (ToTod dst tmp) (emit (mk tmp a b) s)))
               else Code (dst, emit (mk dst a b) s)))
         | None \<Rightarrow> case map_of string_intrinsics2 upper of
           Some mk \<Rightarrow>
             cbind (compile_argument_at C (V_Int 0) args 0 s) (\<lambda>(a, s).
             cbind (compile_argument_at C (V_Int 0) args 1 s) (\<lambda>(b, s).
               Code (dst, emit (mk dst a b) s)))
         | None \<Rightarrow> case map_of string_intrinsics3 upper of
           Some mk \<Rightarrow>
             cbind (compile_argument_at C (V_Int 0) args 0 s) (\<lambda>(a, s).
             cbind (compile_argument_at C (V_Int 0) args 1 s) (\<lambda>(b, s).
             cbind (compile_argument_at C (V_Int 0) args 2 s) (\<lambda>(c, s).
               Code (dst, emit (mk dst a b c) s))))
         | None \<Rightarrow>
             if eq_ignore_ascii_case name ''REPLACE'' then
               cbind (compile_argument_at C (V_Int 0) args 0 s) (\<lambda>(a, s).
               cbind (compile_argument_at C (V_Int 0) args 1 s) (\<lambda>(b, s).
               cbind (compile_argument_at C (V_Int 0) args 2 s) (\<lambda>(c, s).
               cbind (compile_argument_at C (V_Int 0) args 3 s) (\<lambda>(d, s).
                 Code (dst, emit (StringReplace dst a b c d) s)))))
             else case find_local s name of
               Some slot \<Rightarrow>
                 cbind (compile_call_args C 0 args s) (\<lambda>(as, s').
                   Code (dst, emit (CallFb slot (instance_function C s slot name) as) s'))
             | None \<Rightarrow>
                 (case function_index C name of
                    Some i \<Rightarrow>
                      cbind (compile_call_args C 0 args s) (\<lambda>(as, s). Code (dst, emit (Call (of_nat i) dst as) s))
                  | None \<Rightarrow> Code (dst, emit (LoadConst dst (V_Int 0)) s)))"
| "compile_argument C (Positional e) s = compile_expression C e s"
| "compile_argument C (Named _ e) s = compile_expression C e s"
| "compile_argument_at C d [] n s = load_const C d s"
| "compile_argument_at C d (a # as) 0 s = compile_argument C a s"
| "compile_argument_at C d (a # as) (Suc n) s = compile_argument_at C d as n s"
| "compile_call_args C i [] s = Code ([], s)"
| "compile_call_args C i (a # as) s =
     cbind (compile_argument C a s) (\<lambda>(r, s).
     cbind (compile_call_args C (i + 1) as s) (\<lambda>(rs, s). Code ((of_nat i, r) # rs, s)))"

end
