(* ===== verification/Compile_Stmt.thy ===== *)
theory Compile_Stmt
  imports Compile
begin

section \<open>Declarations and statements: crates/st-compiler/src/compile.rs\<close>

subsection \<open>Types of declarations\<close>

fun var_type_of_elementary :: "elementary_type \<Rightarrow> var_type" where
  "var_type_of_elementary ET_Bool = T_Bool"
| "var_type_of_elementary ET_Sint = T_Int"
| "var_type_of_elementary ET_Int = T_Int"
| "var_type_of_elementary ET_Dint = T_Int"
| "var_type_of_elementary ET_Lint = T_Int"
| "var_type_of_elementary ET_Usint = T_UInt"
| "var_type_of_elementary ET_Uint = T_UInt"
| "var_type_of_elementary ET_Udint = T_UInt"
| "var_type_of_elementary ET_Ulint = T_UInt"
| "var_type_of_elementary ET_Real = T_Real"
| "var_type_of_elementary ET_Lreal = T_Real"
| "var_type_of_elementary ET_Byte = T_UInt"
| "var_type_of_elementary ET_Word = T_UInt"
| "var_type_of_elementary ET_Dword = T_UInt"
| "var_type_of_elementary ET_Lword = T_UInt"
| "var_type_of_elementary _ = T_Time"

text \<open>Array and named types are placeholders here: the declaration of a local resolves them.\<close>

fun var_type_from_ast :: "data_type \<Rightarrow> var_type" where
  "var_type_from_ast (D_Elementary e) = var_type_of_elementary e"
| "var_type_from_ast (D_String _) = T_String"
| "var_type_from_ast (D_Ref _) = T_Ref"
| "var_type_from_ast (D_Array _) = T_Int"
| "var_type_from_ast (D_UserDefined _) = T_Int"

fun int_width_from_ast :: "data_type \<Rightarrow> int_width" where
  "int_width_from_ast (D_Elementary ET_Sint) = I8"
| "int_width_from_ast (D_Elementary ET_Usint) = U8"
| "int_width_from_ast (D_Elementary ET_Byte) = U8"
| "int_width_from_ast (D_Elementary ET_Int) = I16"
| "int_width_from_ast (D_Elementary ET_Uint) = U16"
| "int_width_from_ast (D_Elementary ET_Word) = U16"
| "int_width_from_ast (D_Elementary ET_Dint) = I32"
| "int_width_from_ast (D_Elementary ET_Udint) = U32"
| "int_width_from_ast (D_Elementary ET_Dword) = U32"
| "int_width_from_ast (D_Elementary ET_Lint) = I64"
| "int_width_from_ast (D_Elementary ET_Ulint) = U64"
| "int_width_from_ast (D_Elementary ET_Lword) = U64"
| "int_width_from_ast _ = W_None"

subsection \<open>Declarations\<close>

text \<open>The bounds of an array: literals and their negations; anything else is 0.\<close>

fun const_eval_int_expr :: "build \<Rightarrow> expression \<Rightarrow> i64 option chk" where
  "const_eval_int_expr b (E_Literal l) =
     Res (case li_kind l of
            L_Integer n \<Rightarrow> Some n
          | L_Bool v \<Rightarrow> Some (if v then 1 else 0)
          | _ \<Rightarrow> None)"
| "const_eval_int_expr b (E_Unary U_Neg e _) =
     chk_bind (const_eval_int_expr b e) (\<lambda>v.
       case v of
         None \<Rightarrow> Res None
       | Some n \<Rightarrow> chk_bind (i64_result (bd_checks b) (- sint n)) (\<lambda>m. Res (Some m)))"
| "const_eval_int_expr b _ = Res None"

definition bound :: "build \<Rightarrow> expression \<Rightarrow> i64 chk" where
  "bound b e = chk_bind (const_eval_int_expr b e) (\<lambda>v. Res (case v of None \<Rightarrow> 0 | Some n \<Rightarrow> n))"

fun dimensions :: "build \<Rightarrow> array_range list \<Rightarrow> (i64 \<times> i64) list chk" where
  "dimensions b [] = Res []"
| "dimensions b (r # rs) =
     chk_bind (bound b (rg_lower r)) (\<lambda>lo. chk_bind (bound b (rg_upper r)) (\<lambda>hi.
     chk_bind (dimensions b rs) (\<lambda>ds. Res ((lo, hi) # ds))))"

definition set_local_type :: "u16 \<Rightarrow> var_type \<Rightarrow> fn_state \<Rightarrow> fn_state" where
  "set_local_type slot ty s =
     (let ss = slots (fs_locals s) in
      s\<lparr>fs_locals := \<lparr>slots = ss[unat slot := (ss ! unat slot)\<lparr>vs_ty := ty\<rparr>]\<rparr>\<rparr>)"

fun struct_pos :: "string \<Rightarrow> type_def list \<Rightarrow> nat option" where
  "struct_pos n [] = None"
| "struct_pos n (TD_Struct name _ # tds) =
     (if eq_ignore_ascii_case name n then Some 0 else map_option Suc (struct_pos n tds))"
| "struct_pos n (_ # tds) = map_option Suc (struct_pos n tds)"

text \<open>A local of a named type remembers the name; a block, a class or a struct gives it its type.\<close>

definition resolve_named :: "fn_env \<Rightarrow> u16 \<Rightarrow> string \<Rightarrow> fn_state \<Rightarrow> fn_state" where
  "resolve_named C slot ty s =
     (let s = s\<lparr>fs_fb_type_names := hm_insert slot ty (fs_fb_type_names s)\<rparr> in
      case function_index C ty of
        Some i \<Rightarrow>
          (case fn_kind (ce_functions C ! i) of
             Pou_FunctionBlock \<Rightarrow> set_local_type slot (T_FbInstance (of_nat i)) s
           | Pou_Class \<Rightarrow> set_local_type slot (T_ClassInstance (of_nat i)) s
           | _ \<Rightarrow> s)
      | None \<Rightarrow>
          (case struct_pos ty (fs_type_defs s) of
             Some i \<Rightarrow> set_local_type slot (T_Struct (of_nat i)) s
           | None \<Rightarrow> s))"

text \<open>Every local of an array type gets a type definition of its own.\<close>

definition resolve_array :: "build \<Rightarrow> u16 \<Rightarrow> array_type \<Rightarrow> fn_state \<Rightarrow> fn_state compiled" where
  "resolve_array b slot a s =
     cbind (of_chk (dimensions b (ar_ranges a))) (\<lambda>ds.
       Code (set_local_type slot (T_Array (of_nat (length (fs_type_defs s))))
         (s\<lparr>fs_type_defs := fs_type_defs s @ [TD_Array (var_type_from_ast (ar_element_type a)) ds]\<rparr>)))"

definition declare_local ::
  "fn_env \<Rightarrow> bool \<Rightarrow> var_block \<Rightarrow> var_declaration \<Rightarrow> string \<Rightarrow> fn_state \<Rightarrow> fn_state compiled" where
  "declare_local C emit_init vb d name s =
     (let (slot, s1) = add_local_with_qualifiers name (var_type_from_ast (vd_ty d)) (int_width_from_ast (vd_ty d))
            (Retain \<in> set (vb_qualifiers vb)) (Persistent \<in> set (vb_qualifiers vb)) s;
          s2 = (case vd_ty d of D_UserDefined q \<Rightarrow> resolve_named C slot (qn_as_str q) s1 | _ \<Rightarrow> s1)
      in cbind (case vd_ty d of D_Array a \<Rightarrow> resolve_array (ce_build C) slot a s2 | _ \<Rightarrow> Code s2) (\<lambda>s3.
         case (if emit_init then vd_initial_value d else None) of
           None \<Rightarrow> Code s3
         | Some e \<Rightarrow> cbind (compile_expression C e s3) (\<lambda>(r, s4). Code (emit (StoreLocal slot r) s4))))"

fun cfold :: "('x \<Rightarrow> 'a \<Rightarrow> 'a compiled) \<Rightarrow> 'x list \<Rightarrow> 'a \<Rightarrow> 'a compiled" where
  "cfold f [] a = Code a"
| "cfold f (x # xs) a = cbind (f x a) (cfold f xs)"

definition compile_var_blocks_inner :: "fn_env \<Rightarrow> bool \<Rightarrow> var_block list \<Rightarrow> fn_state \<Rightarrow> fn_state compiled" where
  "compile_var_blocks_inner C emit_init vbs s =
     cfold (\<lambda>vb. cfold (\<lambda>d. cfold (\<lambda>n. declare_local C emit_init vb d (id_name n)) (vd_names d))
       (vb_declarations vb)) vbs s"

definition compile_var_blocks :: "fn_env \<Rightarrow> var_block list \<Rightarrow> fn_state \<Rightarrow> fn_state compiled" where
  "compile_var_blocks C = compile_var_blocks_inner C True"

definition register_var_blocks :: "fn_env \<Rightarrow> var_block list \<Rightarrow> fn_state \<Rightarrow> fn_state compiled" where
  "register_var_blocks C = compile_var_blocks_inner C False"

subsection \<open>Stores\<close>

definition store_variable :: "fn_env \<Rightarrow> string \<Rightarrow> reg \<Rightarrow> text_range \<Rightarrow> fn_state \<Rightarrow> fn_state" where
  "store_variable C name r rg s =
     (case find_local s name of
        Some slot \<Rightarrow> emit_sourced (StoreLocal slot r) rg s
      | None \<Rightarrow>
          (case find_global C name of
             Some slot \<Rightarrow> emit_sourced (StoreGlobal slot r) rg s
           | None \<Rightarrow> s))"

definition partial_write :: "partial_access_kind \<Rightarrow> reg \<Rightarrow> reg \<Rightarrow> u32 \<Rightarrow> reg \<Rightarrow> instruction" where
  "partial_write k dst base i v =
     (case k of
        P_Bit \<Rightarrow> InsertBit dst base (ucast i) v
      | P_Byte \<Rightarrow> InsertPartial dst base (ucast i) 8 v
      | P_Word \<Rightarrow> InsertPartial dst base (ucast i) 16 v
      | P_DWord \<Rightarrow> InsertPartial dst base (ucast i) 32 v
      | P_LWord \<Rightarrow> InsertPartial dst base (ucast i) 64 v)"

definition compile_store ::
  "fn_env \<Rightarrow> variable_access \<Rightarrow> reg \<Rightarrow> text_range \<Rightarrow> fn_state \<Rightarrow> fn_state compiled" where
  "compile_store C target v rg s =
     (let parts = va_parts target;
          plain = Code (case parts of A_Identifier i # _ \<Rightarrow> store_variable C (id_name i) v rg s | _ \<Rightarrow> s)
      in case parts of
        A_Identifier i # A_Deref # _ \<Rightarrow>
          cbind (compile_load_variable C (id_name i) s) (\<lambda>(ptr, s). Code (emit_sourced (DerefStore ptr v) rg s))
      | A_Identifier i # A_Index (e # _) # _ \<Rightarrow>
          (case find_local s (id_name i) of
             None \<Rightarrow> plain
           | Some slot \<Rightarrow>
               cbind (compile_expression C e s) (\<lambda>(idx, s). Code (emit_sourced (StoreArray slot idx v) rg s)))
      | A_Identifier obj # A_Identifier fld # rest \<Rightarrow>
          (case instance_field C s (id_name obj) (id_name fld) of
             None \<Rightarrow> plain
           | Some (slot, ty, i) \<Rightarrow>
               (case rest of
                  A_Index (e # _) # _ \<Rightarrow>
                    cbind (compile_expression C e s) (\<lambda>(idx, s).
                      Code (emit_sourced (StoreFieldIndex slot (base_offset C ty (id_name fld) i) idx v) rg s))
                | _ \<Rightarrow> Code (emit_sourced (StoreField slot i v) rg s)))
      | A_Identifier i # A_Partial k n # _ \<Rightarrow>
          cbind (compile_load_variable C (id_name i) s) (\<lambda>(base, s).
          cbind (alloc_reg C s) (\<lambda>(dst, s).
            Code (store_variable C (id_name i) dst rg (emit (partial_write k dst base n v) s))))
      | _ \<Rightarrow> plain)"

subsection \<open>Statements\<close>

definition push_exit :: "label \<Rightarrow> fn_state \<Rightarrow> fn_state" where
  "push_exit l s = s\<lparr>fs_loop_exit_labels := l # fs_loop_exit_labels s\<rparr>"

definition pop_exit :: "fn_state \<Rightarrow> fn_state" where
  "pop_exit s = s\<lparr>fs_loop_exit_labels := tl (fs_loop_exit_labels s)\<rparr>"

definition store_loop_variable :: "string \<Rightarrow> reg \<Rightarrow> fn_state \<Rightarrow> fn_state" where
  "store_loop_variable name r s =
     (case find_local s name of Some slot \<Rightarrow> emit (StoreLocal slot r) s | None \<Rightarrow> s)"

definition compile_selector ::
  "fn_env \<Rightarrow> reg \<Rightarrow> label \<Rightarrow> case_selector \<Rightarrow> fn_state \<Rightarrow> fn_state compiled" where
  "compile_selector C r body sel s =
     (case sel of
        Single e \<Rightarrow>
          cbind (compile_expression C e s) (\<lambda>(v, s).
          cbind (alloc_reg C s) (\<lambda>(cmp, s).
            Code (emit (JumpIf cmp body) (emit (CmpEq cmp r v) s))))
      | Range lo hi \<Rightarrow>
          cbind (compile_expression C lo s) (\<lambda>(lo_reg, s).
          cbind (compile_expression C hi s) (\<lambda>(hi_reg, s).
          cbind (alloc_reg C s) (\<lambda>(cmp_lo, s).
          cbind (alloc_reg C s) (\<lambda>(cmp_hi, s).
          cbind (alloc_reg C s) (\<lambda>(both, s).
            Code (emit (JumpIf both body) (emit (And both cmp_lo cmp_hi)
              (emit (CmpLe cmp_hi r hi_reg) (emit (CmpGe cmp_lo r lo_reg) s))))))))))"

definition step_value :: "fn_env \<Rightarrow> expression option \<Rightarrow> fn_state \<Rightarrow> (reg \<times> fn_state) compiled" where
  "step_value C step s =
     (case step of Some e \<Rightarrow> compile_expression C e s | None \<Rightarrow> load_const C (V_Int 1) s)"

text \<open>No statement is rejected, though the source's functions return a \<open>Result\<close>.\<close>

fun compile_statement :: "fn_env \<Rightarrow> statement \<Rightarrow> fn_state \<Rightarrow> fn_state compiled"
  and compile_statements :: "fn_env \<Rightarrow> statement list \<Rightarrow> fn_state \<Rightarrow> fn_state compiled"
  and compile_else :: "fn_env \<Rightarrow> statement list option \<Rightarrow> fn_state \<Rightarrow> fn_state compiled"
  and compile_elsifs :: "fn_env \<Rightarrow> label \<Rightarrow> elsif_clause list \<Rightarrow> fn_state \<Rightarrow> fn_state compiled"
  and compile_branches :: "fn_env \<Rightarrow> reg \<Rightarrow> label \<Rightarrow> case_branch list \<Rightarrow> fn_state \<Rightarrow> fn_state compiled" where
  "compile_statement C (S_Assignment target e r) s =
     cbind (compile_expression C e (set_source r s)) (\<lambda>(v, s). compile_store C target v r s)"
| "compile_statement C (S_FunctionCall fc) s =
     cbind (compile_expression C (E_FunctionCall fc) (set_source (fce_range fc) s)) (\<lambda>(_, s). Code s)"
| "compile_statement C (S_If cond then_body elsifs else_body r) s =
     cbind (alloc_label C (set_source r s)) (\<lambda>(end_label, s).
     cbind (alloc_label C s) (\<lambda>(else_label, s).
     cbind (compile_expression C cond s) (\<lambda>(c, s).
     cbind (compile_statements C then_body (emit (JumpIfNot c else_label) s)) (\<lambda>s.
     cbind (compile_elsifs C end_label elsifs (place_label else_label (emit (Jump end_label) s))) (\<lambda>s.
     cbind (compile_else C else_body s) (\<lambda>s. Code (place_label end_label s)))))))"
| "compile_statement C (S_Case e branches else_body r) s =
     cbind (alloc_label C (set_source r s)) (\<lambda>(end_label, s).
     cbind (compile_expression C e s) (\<lambda>(v, s).
     cbind (compile_branches C v end_label branches s) (\<lambda>s.
     cbind (compile_else C else_body s) (\<lambda>s. Code (place_label end_label s)))))"
| "compile_statement C (S_For x from to step body r) s =
     cbind (alloc_label C (set_source r s)) (\<lambda>(loop_label, s).
     cbind (alloc_label C s) (\<lambda>(exit_label, s).
     cbind (compile_expression C from s) (\<lambda>(from_reg, s).
     cbind (compile_load_variable C (id_name x)
         (place_label loop_label (store_loop_variable (id_name x) from_reg s))) (\<lambda>(var_reg, s).
     cbind (compile_expression C to s) (\<lambda>(to_reg, s).
     cbind (alloc_reg C s) (\<lambda>(cond, s).
     cbind (compile_statements C body
         (push_exit exit_label (emit (JumpIfNot cond exit_label) (emit (CmpLe cond var_reg to_reg) s)))) (\<lambda>s.
     cbind (step_value C step (pop_exit s)) (\<lambda>(step_reg, s).
     cbind (compile_load_variable C (id_name x) s) (\<lambda>(var_reg2, s).
     cbind (alloc_reg C s) (\<lambda>(new_val, s).
       Code (place_label exit_label (emit (Jump loop_label)
         (store_loop_variable (id_name x) new_val (emit (Add new_val var_reg2 step_reg) s))))))))))))))"
| "compile_statement C (S_While cond body r) s =
     cbind (alloc_label C (set_source r s)) (\<lambda>(loop_label, s).
     cbind (alloc_label C s) (\<lambda>(exit_label, s).
     cbind (compile_expression C cond (place_label loop_label s)) (\<lambda>(c, s).
     cbind (compile_statements C body (push_exit exit_label (emit (JumpIfNot c exit_label) s))) (\<lambda>s.
       Code (place_label exit_label (emit (Jump loop_label) (pop_exit s)))))))"
| "compile_statement C (S_Repeat body cond r) s =
     cbind (alloc_label C (set_source r s)) (\<lambda>(loop_label, s).
     cbind (alloc_label C s) (\<lambda>(exit_label, s).
     cbind (compile_statements C body (push_exit exit_label (place_label loop_label s))) (\<lambda>s.
     cbind (compile_expression C cond (pop_exit s)) (\<lambda>(c, s).
       Code (place_label exit_label (emit (JumpIfNot c loop_label) s))))))"
| "compile_statement C (S_Return r) s =
     cbind (alloc_reg C (set_source r s)) (\<lambda>(zero, s).
       Code (emit (Ret zero) (emit_sourced (LoadConst zero (V_Int 0)) r s)))"
| "compile_statement C (S_Exit r) s =
     (let s = set_source r s in
      Code (case fs_loop_exit_labels s of l # _ \<Rightarrow> emit (Jump l) s | [] \<Rightarrow> s))"
| "compile_statement C (S_Empty r) s = Code (set_source r s)"
| "compile_statements C [] s = Code s"
| "compile_statements C (st # sts) s = cbind (compile_statement C st s) (compile_statements C sts)"
| "compile_else C None s = Code s"
| "compile_else C (Some sts) s = compile_statements C sts s"
| "compile_elsifs C end_label [] s = Code s"
| "compile_elsifs C end_label (ElsifClause cond body _ # es) s =
     cbind (alloc_label C s) (\<lambda>(next_label, s).
     cbind (compile_expression C cond s) (\<lambda>(c, s).
     cbind (compile_statements C body (emit (JumpIfNot c next_label) s)) (\<lambda>s.
       compile_elsifs C end_label es (place_label next_label (emit (Jump end_label) s)))))"
| "compile_branches C v end_label [] s = Code s"
| "compile_branches C v end_label (CaseBranch sels body _ # bs) s =
     cbind (alloc_label C s) (\<lambda>(body_label, s).
     cbind (alloc_label C s) (\<lambda>(next_label, s).
     cbind (cfold (compile_selector C v body_label) sels s) (\<lambda>s.
     cbind (compile_statements C body (place_label body_label (emit (Jump next_label) s))) (\<lambda>s.
       compile_branches C v end_label bs (place_label next_label (emit (Jump end_label) s))))))"

end
