(* ===== verification/Compile_Frame.thy ===== *)
theory Compile_Frame
  imports Compile_Stmt
begin

section \<open>What compiling adds to a function\<close>

text \<open>
  Compiling an expression or a statement appends instructions, allocates registers and labels
  upwards and places only labels it has allocated itself; the declarations and the enclosing
  loops stay as they are. \<open>grown n\<close> relates the states before and after for the labels below \<open>n\<close>.
  Counters that overflow panic in a checked build, for which these lemmas are stated.
\<close>

named_theorems grown_intros \<open>one operation of the compiler keeps what was there\<close>

definition same_names :: "fn_state \<Rightarrow> fn_state \<Rightarrow> bool" where
  "same_names s s' \<longleftrightarrow> fs_locals s' = fs_locals s \<and> fs_fb_type_names s' = fs_fb_type_names s \<and>
     fs_type_defs s' = fs_type_defs s"

definition labels_ok :: "fn_state \<Rightarrow> bool" where
  "labels_ok s \<longleftrightarrow> length (fs_label_positions s) = unat (fs_next_label s)"

definition grown :: "nat \<Rightarrow> fn_state \<Rightarrow> fn_state \<Rightarrow> bool" where
  "grown n s s' \<longleftrightarrow> prefix (fs_instructions s) (fs_instructions s') \<and> same_names s s' \<and>
     fs_loop_exit_labels s' = fs_loop_exit_labels s \<and>
     unat (fs_next_reg s) \<le> unat (fs_next_reg s') \<and> unat (fs_next_label s) \<le> unat (fs_next_label s') \<and>
     (labels_ok s \<longrightarrow> labels_ok s') \<and> (\<forall>l < n. fs_label_positions s' ! l = fs_label_positions s ! l)"

text \<open>An expression allocates no label and places none.\<close>

definition same_labels :: "fn_state \<Rightarrow> fn_state \<Rightarrow> bool" where
  "same_labels s s' \<longleftrightarrow> fs_next_label s' = fs_next_label s \<and> fs_label_positions s' = fs_label_positions s"

definition extended :: "fn_state \<Rightarrow> fn_state \<Rightarrow> bool" where
  "extended s s' \<longleftrightarrow> prefix (fs_instructions s) (fs_instructions s') \<and> same_names s s' \<and>
     fs_loop_exit_labels s' = fs_loop_exit_labels s \<and>
     unat (fs_next_reg s) \<le> unat (fs_next_reg s') \<and> same_labels s s'"

lemma extended_refl [simp, intro]: "extended s s"
  by (simp add: extended_def same_names_def same_labels_def)

lemma extended_trans: "extended s1 s2 \<Longrightarrow> extended s2 s3 \<Longrightarrow> extended s1 s3"
  by (auto simp: extended_def same_names_def same_labels_def)

lemma extended_grown: "extended s s' \<Longrightarrow> grown n s s'"
  by (simp add: extended_def grown_def same_labels_def labels_ok_def)

lemma grown_refl [simp, intro]: "grown n s s"
  by (simp add: grown_def same_names_def)

lemma grown_trans: "grown n s1 s2 \<Longrightarrow> grown n s2 s3 \<Longrightarrow> grown n s1 s3"
  by (auto simp: grown_def same_names_def)

lemma alloc_reg_Code:
  "alloc_reg C s = Code (r, s') \<longleftrightarrow>
     \<not> (bd_checks (ce_build C) \<and> unat (fs_next_reg s) = 65535) \<and> r = fs_next_reg s \<and>
     s' = s\<lparr>fs_next_reg := fs_next_reg s + 1\<rparr>"
  by (auto simp: alloc_reg_def)

lemma unat_Suc_u16: "unat (r :: u16) \<noteq> 65535 \<Longrightarrow> unat (r + 1) = unat r + 1"
proof -
  assume "unat r \<noteq> 65535"
  moreover have "unat r < 2 ^ LENGTH(16)" by (rule unsigned_less)
  ultimately show ?thesis by (simp add: unat_word_ariths)
qed

lemma unat_Suc_u32: "unat (l :: u32) \<noteq> 4294967295 \<Longrightarrow> unat (l + 1) = unat l + 1"
proof -
  assume "unat l \<noteq> 4294967295"
  moreover have "unat l < 2 ^ LENGTH(32)" by (rule unsigned_less)
  ultimately show ?thesis by (simp add: unat_word_ariths)
qed

lemma emit_extended [simp, intro]: "extended s (emit ins s)"
  by (simp add: extended_def emit_def same_names_def same_labels_def)

lemma extended_emit [simp]: "extended s s' \<Longrightarrow> extended s (emit ins s')"
  by (auto simp: extended_def emit_def same_names_def same_labels_def)

lemma emit_sourced_extended [simp, intro]: "extended s (emit_sourced ins r s)"
  by (simp add: extended_def emit_sourced_def same_names_def same_labels_def)

lemma set_source_extended [simp, intro]: "extended s (set_source r s)"
  by (simp add: extended_def set_source_def same_names_def same_labels_def)

lemma alloc_reg_extended:
  "bd_checks (ce_build C) \<Longrightarrow> alloc_reg C s = Code (r, s') \<Longrightarrow> extended s s' \<and> r = fs_next_reg s \<and>
     unat (fs_next_reg s') = unat r + 1"
  by (auto simp: alloc_reg_Code extended_def same_names_def same_labels_def unat_Suc_u16)

subsection \<open>Expressions\<close>

text \<open>The register of an expression is one that its code allocated.\<close>

definition fresh :: "fn_state \<Rightarrow> reg \<Rightarrow> fn_state \<Rightarrow> bool" where
  "fresh s r s' \<longleftrightarrow> extended s s' \<and> unat (fs_next_reg s) \<le> unat r \<and> unat r < unat (fs_next_reg s')"

lemma fresh_extended: "fresh s r s' \<Longrightarrow> extended s s'"
  by (simp add: fresh_def)

lemma extended_regs: "extended s s' \<Longrightarrow> unat (fs_next_reg s) \<le> unat (fs_next_reg s')"
  by (simp add: extended_def)

lemma fresh_extend_left: "extended s1 s2 \<Longrightarrow> fresh s2 r s3 \<Longrightarrow> fresh s1 r s3"
  using extended_trans [of s1 s2 s3] extended_regs [of s1 s2] by (simp add: fresh_def)

lemma fresh_extend_right: "fresh s1 r s2 \<Longrightarrow> extended s2 s3 \<Longrightarrow> fresh s1 r s3"
  using extended_trans [of s1 s2 s3] extended_regs [of s2 s3] by (simp add: fresh_def)

lemma fresh_emit [simp]: "fresh s r s' \<Longrightarrow> fresh s r (emit ins s')"
  using fresh_extend_right emit_extended by blast

lemma alloc_reg_fresh: "bd_checks (ce_build C) \<Longrightarrow> alloc_reg C s = Code (r, s') \<Longrightarrow> fresh s r s'"
  using alloc_reg_extended [of C s r s'] by (simp add: fresh_def)

lemma load_const_fresh: "bd_checks (ce_build C) \<Longrightarrow> load_const C v s = Code (r, s') \<Longrightarrow> fresh s r s'"
  by (auto simp: load_const_def dest: alloc_reg_fresh)

lemma compile_load_variable_fresh:
  "bd_checks (ce_build C) \<Longrightarrow> compile_load_variable C n s = Code (r, s') \<Longrightarrow> fresh s r s'"
  by (auto simp: compile_load_variable_def dest: alloc_reg_fresh)

lemma compile_partial_read_fresh:
  "bd_checks (ce_build C) \<Longrightarrow> compile_partial_read C src k i s = Code (r, s') \<Longrightarrow> fresh s r s'"
  by (auto simp: compile_partial_read_def dest: alloc_reg_fresh)

lemma apply_partial_chain_fresh:
  "bd_checks (ce_build C) \<Longrightarrow> fresh s0 r s \<Longrightarrow> apply_partial_chain C r ps s = Code (r', s') \<Longrightarrow> fresh s0 r' s'"
proof (induction C r ps s rule: apply_partial_chain.induct)
  case (2 C r k i ps s)
  then obtain r1 s1 where 1: "compile_partial_read C r k i s = Code (r1, s1)"
    "apply_partial_chain C r1 ps s1 = Code (r', s')" by auto
  then have "fresh s0 r1 s1"
    using compile_partial_read_fresh fresh_extend_left fresh_extended 2 by blast
  with 1 2 show ?case by auto
qed simp_all

text \<open>Most expressions end with a new register and an instruction that sets it.\<close>

lemma fresh_last:
  "bd_checks (ce_build C) \<Longrightarrow> extended s s1 \<Longrightarrow> alloc_reg C s1 = Code (r, s2) \<Longrightarrow> fresh s r (emit ins s2)"
  using alloc_reg_fresh fresh_extend_left fresh_emit by blast

lemma plain_fresh:
  "bd_checks (ce_build C) \<Longrightarrow> compile_plain_access C parts s = Code (r, s') \<Longrightarrow> fresh s r s'"
  by (auto simp: compile_plain_access_def split: list.splits access_part.splits
      dest: load_const_fresh compile_load_variable_fresh apply_partial_chain_fresh)

text \<open>The five ways the first two parts of an access decide how it is compiled.\<close>

lemma access_cases:
  obtains (deref) i rest where "parts = A_Identifier i # A_Deref # rest"
  | (index) i e es rest where "parts = A_Identifier i # A_Index (e # es) # rest"
  | (field) i j rest where "parts = A_Identifier i # A_Identifier j # rest"
  | (bits) i k n rest where "parts = A_Identifier i # A_Partial k n # rest"
  | (plain) "parts = [] \<or> (\<exists>i. parts = [A_Identifier i]) \<or> (\<exists>i rest. parts = A_Identifier i # A_Index [] # rest) \<or>
      (\<exists>p rest. parts = p # rest \<and> (\<forall>i. p \<noteq> A_Identifier i))"
proof (cases parts)
  case (Cons p ps)
  show ?thesis
  proof (cases p)
    case (A_Identifier i)
    show ?thesis
    proof (cases ps)
      case (Cons q qs)
      show ?thesis
      proof (cases q)
        case (A_Index es)
        with Cons \<open>parts = p # ps\<close> A_Identifier index plain show ?thesis by (cases es) auto
      qed (use Cons \<open>parts = p # ps\<close> A_Identifier deref field bits in auto)
    qed (use Cons A_Identifier plain in auto)
  qed (use Cons plain in auto)
qed (use plain in auto)

lemma index_case_split:
  "(case rest of A_Index (e # _) # _ \<Rightarrow> f e | _ \<Rightarrow> g) = Code y \<Longrightarrow>
     (\<exists>e es qs. rest = A_Index (e # es) # qs \<and> f e = Code y) \<or> g = Code y"
  by (auto split: list.split_asm access_part.split_asm)

definition compiles_fresh :: "expression \<Rightarrow> bool" where
  "compiles_fresh e \<longleftrightarrow> (\<forall>C s r s'. bd_checks (ce_build C) \<longrightarrow> compile_expression C e s = Code (r, s') \<longrightarrow> fresh s r s')"

lemma compiles_freshD:
  "compiles_fresh e \<Longrightarrow> bd_checks (ce_build C) \<Longrightarrow> compile_expression C e s = Code (r, s') \<Longrightarrow> fresh s r s'"
  by (auto simp: compiles_fresh_def)

lemma compile_argument_value: "compile_argument C a s = compile_expression C (argument_value a) s"
  by (cases a) simp_all

lemma argument_at_fresh:
  assumes "\<forall>a \<in> set as. compiles_fresh (argument_value a)" "bd_checks (ce_build C)"
    "compile_argument_at C d as n s = Code (r, s')"
  shows "fresh s r s'"
  using assms(1,3)
proof (induction as arbitrary: n)
  case (Cons a as)
  then show ?case using assms(2) by (cases n) (auto simp: compile_argument_value dest: compiles_freshD)
qed (use assms(2) load_const_fresh in auto)

lemma call_args_extended:
  assumes "\<forall>a \<in> set as. compiles_fresh (argument_value a)" "bd_checks (ce_build C)"
    "compile_call_args C i as s = Code (rs, s')"
  shows "extended s s'"
  using assms(1,3)
proof (induction as arbitrary: i s rs)
  case (Cons a as)
  then obtain r s1 rs1 where 1: "compile_argument C a s = Code (r, s1)"
    "compile_call_args C (i + 1) as s1 = Code (rs1, s')" by auto
  then have "extended s s1" using Cons.prems(1) assms(2)
    by (auto simp: compile_argument_value dest!: compiles_freshD fresh_extended)
  moreover have "extended s1 s'" using Cons.IH Cons.prems(1) 1(2) by simp
  ultimately show ?case by (rule extended_trans)
qed simp

lemma compile_call_fresh:
  assumes args: "\<forall>a \<in> set args. compiles_fresh (argument_value a)" and bd: "bd_checks (ce_build C)"
    and code: "compile_expression C (E_FunctionCall (FunctionCallExpr q args rg)) s = Code (r, s')"
  shows "fresh s r s'"
proof -
  note at = argument_at_fresh [OF args bd, THEN fresh_extended]
  note as = call_args_extended [OF args bd]
  note reg = alloc_reg_fresh [OF bd, THEN fresh_extended]
  from code obtain dst s1 where 1: "alloc_reg C s = Code (dst, s1)" by auto
  have "r = dst \<and> extended s1 s'"
  proof (cases "method_target C s1 q")
    case (Some t)
    show ?thesis
    proof (cases t)
      case None
      have at2: "extended s0 s2" if "compile_argument_at C d args n s0 = Code (a, s1)"
        "compile_argument_at C d' args n' s1 = Code (b, s2)" for d d' n n' s0 s1 s2 a b
        using at that extended_trans by blast
      have at4: "extended s0 s4" if "compile_argument_at C d args n s0 = Code (a, s1)"
        "compile_argument_at C d' args n' s1 = Code (b, s2)" "compile_argument_at C d' args n'' s2 = Code (c, s3)"
        "compile_argument_at C d' args n3 s3 = Code (e, s4)" for d d' n n' n'' n3 s0 s1 s2 s3 s4 a b c e
        using at2 [OF that(1,2)] at2 [OF that(3,4)] extended_trans by blast
      have at3: "extended s0 s3" if "compile_argument_at C d args n s0 = Code (a, s1)"
        "compile_argument_at C d' args n' s1 = Code (b, s2)" "compile_argument_at C d' args n'' s2 = Code (c, s3)"
        for d d' n n' n'' s0 s1 s2 s3 a b c
        using at2 [OF that(1,2)] at [OF that(3)] extended_trans by blast
      have at2r: "extended s0 s3" if "compile_argument_at C d args n s0 = Code (a, s1)"
        "compile_argument_at C d' args n' s1 = Code (b, s2)" "alloc_reg C s2 = Code (c, s3)"
        for d d' n n' s0 s1 s2 s3 a b c
        using at2 [OF that(1,2)] reg [OF that(3)] extended_trans by blast
      show ?thesis
        using code 1 Some None
        by (auto simp: Let_def split: if_split_asm option.split_asm
            intro: at at2 at3 at4 as extended_emit) (meson extended_emit at2 at2r)+
    qed (use code 1 Some as in \<open>auto intro: extended_trans\<close>)
  qed (use code 1 in simp)
  with alloc_reg_fresh [OF bd 1] show ?thesis using fresh_extend_right by blast
qed

lemma variable_access_fresh:
  assumes IH: "\<And>e es rest i. parts = A_Identifier i # A_Index (e # es) # rest \<Longrightarrow> compiles_fresh e"
      "\<And>e es rest i j. parts = A_Identifier i # A_Identifier j # A_Index (e # es) # rest \<Longrightarrow> compiles_fresh e"
    and bd: "bd_checks (ce_build C)"
    and code: "compile_expression C (E_Variable (VariableAccess parts rg)) s = Code (r, s')"
  shows "fresh s r s'"
proof -
  note d = compile_load_variable_fresh [OF bd] compile_partial_read_fresh [OF bd] alloc_reg_fresh [OF bd]
    plain_fresh [OF bd] fresh_last [OF bd fresh_extended]
  show ?thesis
  proof (cases parts rule: access_cases)
    case (deref i rest)
    with code show ?thesis by (auto dest: d(1) intro: d(5))
  next
    case (index i e es rest)
    show ?thesis
    proof (cases "find_local s (id_name i)")
      case (Some slot)
      with code index obtain idx s1 s2 where 1: "compile_expression C e s = Code (idx, s1)"
        "alloc_reg C s1 = Code (r, s2)" "s' = emit (LoadArray r slot idx) s2" by auto
      have "fresh s idx s1" by (rule compiles_freshD [OF IH(1) [OF index] bd 1(1)])
      then show ?thesis unfolding 1(3) by (rule d(5) [OF _ 1(2)])
    qed (use code index d in simp)
  next
    case (field i j rest)
    show ?thesis
    proof (cases "instance_field C s (id_name i) (id_name j)")
      case (Some x)
      obtain slot ty k where x: "x = (slot, ty, k)" by (cases x)
      show ?thesis
      proof (cases "\<exists>e es qs. rest = A_Index (e # es) # qs")
        case True
        then obtain e es qs where rest: "rest = A_Index (e # es) # qs" by blast
        with code field Some x obtain idx s1 s2 where 1: "compile_expression C e s = Code (idx, s1)"
          "alloc_reg C s1 = Code (r, s2)"
          "s' = emit (LoadFieldIndex r slot (base_offset C ty (id_name j) k) idx) s2" by auto
        have "fresh s idx s1" by (rule compiles_freshD [OF IH(2) bd 1(1)]) (simp add: field rest)
        then show ?thesis unfolding 1(3) by (rule d(5) [OF _ 1(2)])
      next
        case False
        with code field Some x show ?thesis
          by (auto split: list.split_asm access_part.split_asm dest: d(3))
      qed
    qed (use code field d in simp)
  next
    case (bits i k n rest)
    with code show ?thesis by (auto dest!: d(1,2) intro: fresh_extend_left fresh_extended)
  next
    case plain
    then have "compile_expression C (E_Variable (VariableAccess parts rg)) s = compile_plain_access C parts s"
      by (auto split: access_part.split)
    with code d show ?thesis by simp
  qed
qed

lemma binary_fresh:
  assumes "compiles_fresh l" "compiles_fresh e" "bd_checks (ce_build C)"
    "compile_expression C (E_Binary op l e rg) s = Code (r, s')"
  shows "fresh s r s'"
proof -
  from assms(4) obtain a s1 b s2 s3 where 1: "compile_expression C l s = Code (a, s1)"
    "compile_expression C e s1 = Code (b, s2)" "alloc_reg C s2 = Code (r, s3)" "s' = emit (binary_instruction op r a b) s3"
    by auto
  have "extended s s2"
    using compiles_freshD [OF assms(1,3) 1(1)] compiles_freshD [OF assms(2,3) 1(2)] fresh_extended extended_trans
    by blast
  then show ?thesis unfolding 1(4) by (rule fresh_last [OF assms(3) _ 1(3)])
qed

lemma unary_fresh:
  assumes "compiles_fresh e" "bd_checks (ce_build C)" "compile_expression C (E_Unary op e rg) s = Code (r, s')"
  shows "fresh s r s'"
proof -
  from assms(3) obtain a s1 s2 where 1: "compile_expression C e s = Code (a, s1)"
    "alloc_reg C s1 = Code (r, s2)" "s' = emit (unary_instruction op r a) s2"
    by auto
  have "extended s s1" using compiles_freshD [OF assms(1,2) 1(1)] by (rule fresh_extended)
  then show ?thesis unfolding 1(3) by (rule fresh_last [OF assms(2) _ 1(2)])
qed

lemma size_argument_value: "a \<in> set as \<Longrightarrow> size (argument_value a) < size (E_FunctionCall (FunctionCallExpr q as rg))"
proof -
  assume "a \<in> set as"
  then have "size a \<le> size_list size as" by (simp add: size_list_estimation')
  moreover have "size (argument_value a) < size a" by (cases a) simp_all
  ultimately show ?thesis by simp
qed

lemma expression_fresh: "compiles_fresh e"
proof (induction e rule: measure_induct_rule [where f = size])
  case (less e)
  show ?case
    unfolding compiles_fresh_def
  proof (intro allI impI)
    fix C s r s'
    assume bd: "bd_checks (ce_build C)" and code: "compile_expression C e s = Code (r, s')"
    show "fresh s r s'"
    proof (cases e)
      case (E_Variable va)
      obtain parts rg where va: "va = VariableAccess parts rg" by (cases va)
      show ?thesis
        by (rule variable_access_fresh [OF less less bd code [unfolded E_Variable va]])
          (simp_all add: E_Variable va)
    next
      case (E_FunctionCall fc)
      obtain q as rg where fc: "fc = FunctionCallExpr q as rg" by (cases fc)
      show ?thesis
        by (rule compile_call_fresh [OF _ bd code [unfolded E_FunctionCall fc]])
          (use less size_argument_value E_FunctionCall fc in blast)
    next
      case (E_Binary op l x rg)
      show ?thesis
        by (rule binary_fresh [OF less less bd code [unfolded E_Binary]]) (simp_all add: E_Binary)
    next
      case (E_Unary op x rg)
      show ?thesis
        by (rule unary_fresh [OF less bd code [unfolded E_Unary]]) (simp add: E_Unary)
    next
      case (E_Parenthesized x)
      with less [of x] code bd show ?thesis by (auto dest: compiles_freshD)
    qed (use code bd in \<open>auto dest: load_const_fresh\<close>)
  qed
qed

lemmas compile_expression_fresh = compiles_freshD [OF expression_fresh]

subsection \<open>Labels\<close>

definition good :: "nat \<Rightarrow> fn_state \<Rightarrow> bool" where
  "good n s \<longleftrightarrow> labels_ok s \<and> n \<le> unat (fs_next_label s)"

text \<open>A state reached from another, with the labels allocated on the way.\<close>

definition tracks :: "nat \<Rightarrow> label set \<Rightarrow> fn_state \<Rightarrow> fn_state \<Rightarrow> bool" where
  "tracks n ls s0 s \<longleftrightarrow> grown n s0 s \<and> good n s \<and> (\<forall>l \<in> ls. n \<le> unat l \<and> unat l < unat (fs_next_label s))"

lemma tracks_start: "good n s \<Longrightarrow> tracks n {} s s"
  by (simp add: tracks_def)

lemma tracks_good: "tracks n ls s0 s \<Longrightarrow> good n s"
  by (simp add: tracks_def)

lemma tracks_grown: "tracks n ls s0 s \<Longrightarrow> grown n s0 s"
  by (simp add: tracks_def)

lemma grown_good: "grown n s s' \<Longrightarrow> good n s \<Longrightarrow> good n s'"
  by (auto simp: grown_def good_def)

lemma tracks_step: "tracks n ls s0 s \<Longrightarrow> (good n s \<Longrightarrow> grown n s s') \<Longrightarrow> tracks n ls s0 s'"
  using grown_good [of n s s'] grown_trans [of n s0 s s']
  by (auto simp: tracks_def) (auto simp: grown_def)

lemma tracks_extended: "tracks n ls s0 s \<Longrightarrow> extended s s' \<Longrightarrow> tracks n ls s0 s'"
  using tracks_step extended_grown by blast

lemma tracks_emit: "tracks n ls s0 s \<Longrightarrow> tracks n ls s0 (emit ins s)"
  using tracks_extended emit_extended by blast

lemma alloc_label_Code:
  "alloc_label C s = Code (l, s') \<longleftrightarrow>
     \<not> (bd_checks (ce_build C) \<and> unat (fs_next_label s) = 4294967295) \<and> l = fs_next_label s \<and>
     s' = s\<lparr>fs_next_label := fs_next_label s + 1,
       fs_label_positions := room_for (fs_next_label s) (fs_label_positions s)\<rparr>"
  by (auto simp: alloc_label_def)

lemma tracks_alloc:
  assumes "tracks n ls s0 s" "bd_checks (ce_build C)" "alloc_label C s = Code (l, s')"
  shows "tracks n (insert l ls) s0 s'"
proof -
  have nx: "l = fs_next_label s" "unat (fs_next_label s') = unat l + 1"
    using assms(2,3) by (auto simp: alloc_label_Code unat_Suc_u32)
  have pos: "length (fs_label_positions s) = unat l" using assms(1) nx by (simp add: tracks_def good_def labels_ok_def)
  have lp: "fs_label_positions s' = fs_label_positions s @ [unplaced]"
    using assms(3) pos by (auto simp: alloc_label_Code room_for_def pad_to_def)
  have n: "n \<le> unat l" using assms(1) nx by (simp add: tracks_def good_def)
  have "grown n s s'"
    using assms(3) lp nx n pos by (auto simp: grown_def alloc_label_Code same_names_def labels_ok_def nth_append)
  then have "tracks n ls s0 s'" using assms(1) tracks_step by blast
  then show ?thesis using n nx by (simp add: tracks_def)
qed

lemma tracks_place: "tracks n ls s0 s \<Longrightarrow> l \<in> ls \<Longrightarrow> tracks n ls s0 (place_label l s)"
  by (auto simp: tracks_def good_def labels_ok_def grown_def place_label_def room_for_def same_names_def)

lemma tracks_loop:
  "tracks n ls s0 s \<Longrightarrow> (good n (push_exit l s) \<Longrightarrow> grown n (push_exit l s) s') \<Longrightarrow> tracks n ls s0 (pop_exit s')"
  by (rule tracks_step) (auto simp: good_def grown_def push_exit_def pop_exit_def labels_ok_def same_names_def)

subsection \<open>Statements\<close>

lemma store_variable_extended: "extended s (store_variable C n r rg s)"
  by (auto simp: store_variable_def split: option.split)

lemma compile_store_extended:
  assumes "bd_checks (ce_build C)" "compile_store C t v rg s = Code s'"
  shows "extended s s'"
proof -
  note d = compile_load_variable_fresh [OF assms(1), THEN fresh_extended]
    compile_expression_fresh [OF assms(1), THEN fresh_extended] alloc_reg_fresh [OF assms(1), THEN fresh_extended]
  have src: "extended s1 (emit_sourced ins r s2)" if "extended s1 s2" for s1 s2 ins r
    using that extended_trans by blast
  have var: "extended s1 (store_variable C n r rg s2)" if "extended s1 s2" for s1 s2 n r rg
    using that extended_trans store_variable_extended by blast
  have plain: "extended s s'"
    if "Code (case va_parts t of A_Identifier i # _ \<Rightarrow> store_variable C (id_name i) v rg s | _ \<Rightarrow> s) = Code s'"
    using that store_variable_extended by (auto split: list.split_asm access_part.split_asm)
  show ?thesis
  proof (cases "va_parts t" rule: access_cases)
    case (deref i rest)
    with assms(2) show ?thesis by (auto simp: compile_store_def intro: src d)
  next
    case (index i e es rest)
    with assms(2) plain show ?thesis by (auto simp: compile_store_def split: option.split_asm intro: src d)
  next
    case (field i j rest)
    show ?thesis
    proof (cases "instance_field C s (id_name i) (id_name j)")
      case (Some x)
      with assms(2) field show ?thesis
        by (cases x) (auto simp: compile_store_def split: list.split_asm access_part.split_asm intro: src d)
    qed (use assms(2) plain field in \<open>simp add: compile_store_def\<close>)
  next
    case (bits i k n rest)
    with assms(2) obtain b s1 r s2 where 1: "compile_load_variable C (id_name i) s = Code (b, s1)"
      "alloc_reg C s1 = Code (r, s2)"
      "s' = store_variable C (id_name i) r rg (emit (partial_write k r b n v) s2)"
      by (auto simp: compile_store_def)
    show ?thesis
      unfolding 1(3) by (intro var extended_emit extended_trans [OF d(1) [OF 1(1)] d(3) [OF 1(2)]])
  next
    case access: plain
    then show ?thesis
      using assms(2) plain by (auto simp: compile_store_def split: access_part.split_asm)
  qed
qed

lemma cfold_extended:
  "(\<And>x s s'. f x s = Code s' \<Longrightarrow> extended s s') \<Longrightarrow> cfold f xs s = Code s' \<Longrightarrow> extended s s'"
proof (induction xs arbitrary: s)
  case (Cons x xs)
  from Cons.prems(2) obtain s1 where 1: "f x s = Code s1" "cfold f xs s1 = Code s'" by auto
  show ?case by (rule extended_trans [OF Cons.prems(1) [OF 1(1)] Cons.IH [OF Cons.prems(1) 1(2)]])
qed simp

lemma compile_selector_extended:
  assumes "bd_checks (ce_build C)" "compile_selector C r l sel s = Code s'"
  shows "extended s s'"
proof -
  note d = compile_expression_fresh [OF assms(1), THEN fresh_extended]
    alloc_reg_fresh [OF assms(1), THEN fresh_extended]
  have 2: "extended s1 s3" if "compile_expression C e s1 = Code (a, s2)" "alloc_reg C s2 = Code (b, s3)" for e s1 a s2 b s3
    using d that extended_trans by blast
  have 5: "extended s1 s6" if "compile_expression C e s1 = Code (a, s2)" "compile_expression C e' s2 = Code (b, s3)"
    "alloc_reg C s3 = Code (c, s4)" "alloc_reg C s4 = Code (x, s5)" "alloc_reg C s5 = Code (y, s6)"
    for e e' s1 s2 s3 s4 s5 s6 a b c x y
    using d(1) [OF that(1)] 2 [OF that(2,3)] d(2) [OF that(4)] d(2) [OF that(5)] extended_trans by metis
  show ?thesis
    using assms(2) by (cases sel) (auto simp: compile_selector_def intro!: extended_emit intro: 2 5)
qed

lemma step_value_fresh: "bd_checks (ce_build C) \<Longrightarrow> step_value C st s = Code (r, s') \<Longrightarrow> fresh s r s'"
  by (auto simp: step_value_def split: option.split_asm dest: compile_expression_fresh load_const_fresh)

lemma store_loop_variable_extended [simp, intro]: "extended s (store_loop_variable n r s)"
  by (auto simp: store_loop_variable_def split: option.split)

text \<open>
  Every statement, list of statements, ELSIF chain and CASE branch list keeps what was there. The
  labels of the enclosing statement are those below \<open>n\<close>.
\<close>

lemma compile_statement_grown:
  "bd_checks (ce_build C) \<Longrightarrow> good n s \<Longrightarrow> compile_statement C st s = Code s' \<Longrightarrow> grown n s s'"
  "bd_checks (ce_build C) \<Longrightarrow> good n s \<Longrightarrow> compile_statements C sts s = Code s' \<Longrightarrow> grown n s s'"
  "bd_checks (ce_build C) \<Longrightarrow> good n s \<Longrightarrow> compile_else C els s = Code s' \<Longrightarrow> grown n s s'"
  "bd_checks (ce_build C) \<Longrightarrow> good n s \<Longrightarrow> compile_elsifs C el es s = Code s' \<Longrightarrow> grown n s s'"
  "bd_checks (ce_build C) \<Longrightarrow> good n s \<Longrightarrow> compile_branches C v bl bs s = Code s' \<Longrightarrow> grown n s s'"
proof (induction C st s and C sts s and C els s and C el es s and C v bl bs s arbitrary: s' and s' and s' and s' and s'
    rule: compile_statement_compile_statements_compile_else_compile_elsifs_compile_branches.induct)
  case (1 C target e r s)
  then obtain v s1 where 1: "compile_expression C e (set_source r s) = Code (v, s1)" "compile_store C target v r s1 = Code s'"
    by auto
  then have "extended (set_source r s) s1" "extended s1 s'"
    using compile_expression_fresh fresh_extended compile_store_extended "1.prems"(1) by blast+
  then show ?case using extended_grown extended_trans set_source_extended by blast
next
  case (2 C fc s)
  then obtain v where "compile_expression C (E_FunctionCall fc) (set_source (fce_range fc) s) = Code (v, s')"
    by auto
  then have "extended (set_source (fce_range fc) s) s'"
    using compile_expression_fresh fresh_extended "2.prems"(1) by blast
  then show ?case using extended_grown extended_trans set_source_extended by blast
next
  case (3 C cond body elsifs els r s)
  from "3.prems"(3) obtain end_label s1 else_label s2 c s3 s4 s5 s6 where
    1: "alloc_label C (set_source r s) = Code (end_label, s1)" "alloc_label C s1 = Code (else_label, s2)"
    "compile_expression C cond s2 = Code (c, s3)"
    "compile_statements C body (emit (JumpIfNot c else_label) s3) = Code s4"
    "compile_elsifs C end_label elsifs (place_label else_label (emit (Jump end_label) s4)) = Code s5"
    "compile_else C els s5 = Code s6" "s' = place_label end_label s6"
    by auto
  note bd = "3.prems"(1)
  have "tracks n {} s (set_source r s)"
    using tracks_extended [OF tracks_start [OF "3.prems"(2)]] by simp
  from tracks_extended [OF tracks_alloc [OF tracks_alloc [OF this bd 1(1)] bd 1(2)]
      compile_expression_fresh [OF bd 1(3), THEN fresh_extended]]
  have "tracks n {else_label, end_label} s (emit (JumpIfNot c else_label) s3)" by (rule tracks_emit)
  then have "tracks n {else_label, end_label} s s4"
    using tracks_step "3.IH"(1) [OF bd _ 1(4)] by blast
  then have "tracks n {else_label, end_label} s (place_label else_label (emit (Jump end_label) s4))"
    by (intro tracks_place tracks_emit) simp_all
  then have "tracks n {else_label, end_label} s s5"
    using tracks_step "3.IH"(2) [OF bd _ 1(5)] by blast
  then have "tracks n {else_label, end_label} s s6"
    using tracks_step "3.IH"(3) [OF bd _ 1(6)] by blast
  then show ?case unfolding 1(7) using tracks_place tracks_grown by blast
next
  case (4 C e bs els r s)
  from "4.prems"(3) obtain end_label s1 v s2 s3 s4 where
    1: "alloc_label C (set_source r s) = Code (end_label, s1)" "compile_expression C e s1 = Code (v, s2)"
    "compile_branches C v end_label bs s2 = Code s3" "compile_else C els s3 = Code s4" "s' = place_label end_label s4"
    by auto
  note bd = "4.prems"(1)
  have "tracks n {} s (set_source r s)"
    using tracks_extended [OF tracks_start [OF "4.prems"(2)]] by simp
  from tracks_alloc [OF this bd 1(1)] have "tracks n {end_label} s s2"
    using tracks_extended compile_expression_fresh [OF bd 1(2)] fresh_extended by blast
  then have "tracks n {end_label} s s3" using tracks_step "4.IH"(1) [OF bd _ 1(3)] by blast
  then have "tracks n {end_label} s s4" using tracks_step "4.IH"(2) [OF bd _ 1(4)] by blast
  then show ?case unfolding 1(5) using tracks_place tracks_grown by blast
next
  case (5 C x start to step body r s)
  from "5.prems"(3) obtain loop_label s1 exit_label s2 a s3 b s4 c s5 d s6 s7 f s8 g s9 h s10 where
    1: "alloc_label C (set_source r s) = Code (loop_label, s1)" "alloc_label C s1 = Code (exit_label, s2)"
    "compile_expression C start s2 = Code (a, s3)"
    "compile_load_variable C (id_name x) (place_label loop_label (store_loop_variable (id_name x) a s3)) = Code (b, s4)"
    "compile_expression C to s4 = Code (c, s5)" "alloc_reg C s5 = Code (d, s6)"
    "compile_statements C body (push_exit exit_label (emit (JumpIfNot d exit_label) (emit (CmpLe d b c) s6))) = Code s7"
    "step_value C step (pop_exit s7) = Code (f, s8)" "compile_load_variable C (id_name x) s8 = Code (g, s9)"
    "alloc_reg C s9 = Code (h, s10)"
    "s' = place_label exit_label (emit (Jump loop_label)
       (store_loop_variable (id_name x) h (emit (Add h g f) s10)))"
    by auto
  note bd = "5.prems"(1)
  have "tracks n {} s (set_source r s)"
    using tracks_extended [OF tracks_start [OF "5.prems"(2)]] by simp
  from tracks_extended [OF tracks_alloc [OF tracks_alloc [OF this bd 1(1)] bd 1(2)]
      compile_expression_fresh [OF bd 1(3), THEN fresh_extended]]
  have "tracks n {exit_label, loop_label} s (place_label loop_label (store_loop_variable (id_name x) a s3))"
    by (intro tracks_place tracks_extended [OF _ store_loop_variable_extended]) simp_all
  from tracks_extended [OF tracks_extended [OF tracks_extended [OF this
        compile_load_variable_fresh [OF bd 1(4), THEN fresh_extended]]
      compile_expression_fresh [OF bd 1(5), THEN fresh_extended]]
      alloc_reg_fresh [OF bd 1(6), THEN fresh_extended]]
  have "tracks n {exit_label, loop_label} s (emit (JumpIfNot d exit_label) (emit (CmpLe d b c) s6))"
    by (intro tracks_emit) simp_all
  then have "tracks n {exit_label, loop_label} s (pop_exit s7)"
    by (rule tracks_loop) (rule "5.IH" [OF bd _ 1(7)])
  from tracks_extended [OF tracks_extended [OF tracks_extended [OF this
        step_value_fresh [OF bd 1(8), THEN fresh_extended]]
      compile_load_variable_fresh [OF bd 1(9), THEN fresh_extended]]
      alloc_reg_fresh [OF bd 1(10), THEN fresh_extended]]
  have "tracks n {exit_label, loop_label} s (emit (Jump loop_label)
      (store_loop_variable (id_name x) h (emit (Add h g f) s10)))"
    by (intro tracks_emit tracks_extended [OF _ store_loop_variable_extended])
  then show ?case unfolding 1(11) using tracks_place tracks_grown by blast
next
  case (6 C cond body r s)
  from "6.prems"(3) obtain loop_label s1 exit_label s2 c s3 s4 where
    1: "alloc_label C (set_source r s) = Code (loop_label, s1)" "alloc_label C s1 = Code (exit_label, s2)"
    "compile_expression C cond (place_label loop_label s2) = Code (c, s3)"
    "compile_statements C body (push_exit exit_label (emit (JumpIfNot c exit_label) s3)) = Code s4"
    "s' = place_label exit_label (emit (Jump loop_label) (pop_exit s4))"
    by auto
  note bd = "6.prems"(1)
  have "tracks n {} s (set_source r s)"
    using tracks_extended [OF tracks_start [OF "6.prems"(2)]] by simp
  from tracks_alloc [OF tracks_alloc [OF this bd 1(1)] bd 1(2)]
  have "tracks n {exit_label, loop_label} s (place_label loop_label s2)" by (rule tracks_place) simp
  then have "tracks n {exit_label, loop_label} s (emit (JumpIfNot c exit_label) s3)"
    using tracks_extended compile_expression_fresh [OF bd 1(3)] fresh_extended emit_extended by blast
  then have "tracks n {exit_label, loop_label} s (pop_exit s4)"
    by (rule tracks_loop) (rule "6.IH" [OF bd _ 1(4)])
  then have "tracks n {exit_label, loop_label} s (emit (Jump loop_label) (pop_exit s4))"
    by (intro tracks_emit) simp_all
  then show ?case unfolding 1(5) using tracks_place tracks_grown by blast
next
  case (7 C body cond r s)
  from "7.prems"(3) obtain loop_label s1 exit_label s2 s3 c s4 where
    1: "alloc_label C (set_source r s) = Code (loop_label, s1)" "alloc_label C s1 = Code (exit_label, s2)"
    "compile_statements C body (push_exit exit_label (place_label loop_label s2)) = Code s3"
    "compile_expression C cond (pop_exit s3) = Code (c, s4)"
    "s' = place_label exit_label (emit (JumpIfNot c loop_label) s4)"
    by auto
  note bd = "7.prems"(1)
  have "tracks n {} s (set_source r s)"
    using tracks_extended [OF tracks_start [OF "7.prems"(2)]] by simp
  from tracks_alloc [OF tracks_alloc [OF this bd 1(1)] bd 1(2)]
  have "tracks n {exit_label, loop_label} s (place_label loop_label s2)" by (rule tracks_place) simp
  then have "tracks n {exit_label, loop_label} s (pop_exit s3)"
    by (rule tracks_loop) (rule "7.IH" [OF bd _ 1(3)])
  then have "tracks n {exit_label, loop_label} s (emit (JumpIfNot c loop_label) s4)"
    using tracks_extended compile_expression_fresh [OF bd 1(4)] fresh_extended emit_extended by blast
  then show ?case unfolding 1(5) using tracks_place tracks_grown by blast
next
  case (8 C r s)
  from "8.prems"(3) obtain z s1 where 1: "alloc_reg C (set_source r s) = Code (z, s1)"
    "s' = emit (Ret z) (emit_sourced (LoadConst z (V_Int 0)) r s1)" by auto
  have "extended s s1"
    using extended_trans [OF set_source_extended] alloc_reg_fresh [OF "8.prems"(1) 1(1)] fresh_extended by blast
  then show ?case
    unfolding 1(2) by (intro extended_grown extended_emit extended_trans [OF _ emit_sourced_extended])
next
  case (9 C r s)
  then show ?case by (auto simp: Let_def intro!: extended_grown extended_emit split: list.split)
next
  case (10 C r s)
  then show ?case by (auto intro!: extended_grown)
next
  case (12 C st sts s)
  from "12.prems"(3) obtain s1 where 1: "compile_statement C st s = Code s1" "compile_statements C sts s1 = Code s'"
    by auto
  have "tracks n {} s s1"
    using tracks_step [OF tracks_start] "12.IH"(1) [OF "12.prems"(1,2) 1(1)] "12.prems"(2) by blast
  then have "tracks n {} s s'" using tracks_step "12.IH"(2) [OF "12.prems"(1) _ 1(2)] by blast
  then show ?case by (rule tracks_grown)
next
  case (16 C el cond body r es s)
  from "16.prems"(3) obtain next_label s1 c s2 s3 where
    1: "alloc_label C s = Code (next_label, s1)" "compile_expression C cond s1 = Code (c, s2)"
    "compile_statements C body (emit (JumpIfNot c next_label) s2) = Code s3"
    "compile_elsifs C el es (place_label next_label (emit (Jump el) s3)) = Code s'"
    by auto
  note bd = "16.prems"(1)
  from tracks_extended [OF tracks_alloc [OF tracks_start [OF "16.prems"(2)] bd 1(1)]
      compile_expression_fresh [OF bd 1(2), THEN fresh_extended]]
  have "tracks n {next_label} s (emit (JumpIfNot c next_label) s2)"
    by (intro tracks_emit) simp_all
  then have "tracks n {next_label} s s3" using tracks_step "16.IH"(1) [OF bd _ 1(3)] by blast
  then have "tracks n {next_label} s (place_label next_label (emit (Jump el) s3))"
    by (intro tracks_place tracks_emit) simp_all
  then have "tracks n {next_label} s s'" using tracks_step "16.IH"(2) [OF bd _ 1(4)] by blast
  then show ?case by (rule tracks_grown)
next
  case (18 C v bl sels body r bs s)
  from "18.prems"(3) obtain body_label s1 next_label s2 s3 s4 where
    1: "alloc_label C s = Code (body_label, s1)" "alloc_label C s1 = Code (next_label, s2)"
    "cfold (compile_selector C v body_label) sels s2 = Code s3"
    "compile_statements C body (place_label body_label (emit (Jump next_label) s3)) = Code s4"
    "compile_branches C v bl bs (place_label next_label (emit (Jump bl) s4)) = Code s'"
    by auto
  note bd = "18.prems"(1)
  have "extended s2 s3" using cfold_extended [OF _ 1(3)] compile_selector_extended [OF bd] by blast
  from tracks_extended [OF tracks_alloc [OF tracks_alloc [OF tracks_start [OF "18.prems"(2)] bd 1(1)] bd 1(2)] this]
  have "tracks n {next_label, body_label} s (place_label body_label (emit (Jump next_label) s3))"
    by (intro tracks_place tracks_emit) simp_all
  then have "tracks n {next_label, body_label} s s4" using tracks_step "18.IH"(1) [OF bd _ 1(4)] by blast
  then have "tracks n {next_label, body_label} s (place_label next_label (emit (Jump bl) s4))"
    by (intro tracks_place tracks_emit) simp_all
  then have "tracks n {next_label, body_label} s s'" using tracks_step "18.IH"(2) [OF bd _ 1(5)] by blast
  then show ?case by (rule tracks_grown)
qed auto

end
