(* ===== verification/Compile_Module.thy ===== *)
theory Compile_Module
  imports Compile_Stmt Native_Fb
begin

section \<open>The module compiler: crates/st-compiler/src/compile.rs\<close>

text \<open>
  Three passes over a source file: every program organisation unit is registered, then compiled,
  programs last, then the initialisers of the globals become a function. Compiling one unit
  extends the type definitions and replaces the unit's registered function.
\<close>

record module_compiler =
  mc_functions :: "func list"
  mc_globals :: memory_layout
  mc_type_defs :: "type_def list"
  mc_class_bases :: "(string, string) hashmap"
  mc_class_var_blocks :: "(string, var_block list) hashmap"
  mc_pending_global_inits :: "(u16 \<times> expression) list"

definition module_compiler_new :: module_compiler where
  "module_compiler_new =
     \<lparr>mc_functions = [], mc_globals = \<lparr>slots = []\<rparr>, mc_type_defs = [], mc_class_bases = [],
      mc_class_var_blocks = [], mc_pending_global_inits = []\<rparr>"

definition empty_function :: "string \<Rightarrow> pou_kind \<Rightarrow> memory_layout \<Rightarrow> func" where
  "empty_function name kind l =
     \<lparr>fn_name = name, fn_kind = kind, fn_register_count = 0, fn_instructions = [], fn_label_positions = [],
      fn_locals = l, fn_source_map = [], fn_body_start_pc = 0\<rparr>"

definition push_function :: "func \<Rightarrow> module_compiler \<Rightarrow> module_compiler" where
  "push_function f mc = mc\<lparr>mc_functions := mc_functions mc @ [f]\<rparr>"

definition register_pou :: "string \<Rightarrow> pou_kind \<Rightarrow> module_compiler \<Rightarrow> module_compiler" where
  "register_pou name kind = push_function (empty_function name kind \<lparr>slots = []\<rparr>)"

subsection \<open>Registering\<close>

definition register_global :: "var_block \<Rightarrow> var_declaration \<Rightarrow> string \<Rightarrow> module_compiler \<Rightarrow> module_compiler" where
  "register_global vb d name mc =
     (let ty = var_type_from_ast (vd_ty d);
          gs = mc_globals mc;
          i = of_nat (length (slots gs));
          slot = \<lparr>vs_name = name, vs_ty = ty, vs_offset = total_size gs, vs_size = var_type_size ty,
            vs_retain = (Retain \<in> set (vb_qualifiers vb)), vs_persistent = (Persistent \<in> set (vb_qualifiers vb)),
            vs_width = int_width_from_ast (vd_ty d)\<rparr>
      in mc\<lparr>mc_globals := \<lparr>slots = slots gs @ [slot]\<rparr>,
           mc_pending_global_inits := mc_pending_global_inits mc @
             (case vd_initial_value d of None \<Rightarrow> [] | Some e \<Rightarrow> [(i, e)])\<rparr>)"

definition register_globals :: "var_block \<Rightarrow> module_compiler \<Rightarrow> module_compiler" where
  "register_globals vb =
     fold (\<lambda>d. fold (\<lambda>n. register_global vb d (id_name n)) (vd_names d)) (vb_declarations vb)"

definition method_full_name :: "class_decl \<Rightarrow> method_decl \<Rightarrow> string" where
  "method_full_name cls m = id_name (cl_name cls) @ ''.'' @ id_name (me_name m)"

definition register_class :: "class_decl \<Rightarrow> module_compiler \<Rightarrow> module_compiler" where
  "register_class cls mc =
     (let name = id_name (cl_name cls);
          mc = (case cl_base_class cls of
                  None \<Rightarrow> mc
                | Some base \<Rightarrow> mc\<lparr>mc_class_bases := hm_insert (to_upper name) (to_upper base) (mc_class_bases mc)\<rparr>);
          mc = mc\<lparr>mc_class_var_blocks := hm_insert (to_upper name) (cl_var_blocks cls) (mc_class_var_blocks mc)\<rparr>
      in fold (\<lambda>m. register_pou (method_full_name cls m) Pou_Method)
           (filter (\<lambda>m. \<not> me_is_abstract m) (cl_methods cls)) (register_pou name Pou_Class mc))"

definition struct_slot :: "nat \<Rightarrow> struct_field \<Rightarrow> var_slot" where
  "struct_slot i f =
     \<lparr>vs_name = id_name (sf_name f), vs_ty = var_type_from_ast (sf_ty f), vs_offset = i,
      vs_size = var_type_size (var_type_from_ast (sf_ty f)), vs_retain = False, vs_persistent = False,
      vs_width = int_width_from_ast (sf_ty f)\<rparr>"

definition register_type :: "type_definition \<Rightarrow> module_compiler \<Rightarrow> module_compiler" where
  "register_type td mc =
     (case tn_ty td of
        TK_Struct fs _ \<Rightarrow>
          mc\<lparr>mc_type_defs := mc_type_defs mc @
            [TD_Struct (id_name (tn_name td)) (map (\<lambda>(i, f). struct_slot i f) (List.enumerate 0 fs))]\<rparr>
      | _ \<Rightarrow> mc)"

fun register_item :: "top_level_item \<Rightarrow> module_compiler \<Rightarrow> module_compiler" where
  "register_item (TI_Program p) = register_pou (id_name (pd_name p)) Pou_Program"
| "register_item (TI_Function f) = register_pou (id_name (fd_name f)) Pou_Function"
| "register_item (TI_FunctionBlock fb) = register_pou (id_name (bd_name fb)) Pou_FunctionBlock"
| "register_item (TI_GlobalVarDeclaration vb) = register_globals vb"
| "register_item (TI_Class cls) = register_class cls"
| "register_item (TI_Interface _) = (\<lambda>mc. mc)"
| "register_item (TI_TypeDeclaration tds _) = fold register_type tds"

subsection \<open>Compiling\<close>

definition find_func :: "module_compiler \<Rightarrow> string \<Rightarrow> nat compiled" where
  "find_func mc name =
     (case find_index (\<lambda>f. eq_ignore_ascii_case (fn_name f) name) (mc_functions mc) of
        Some i \<Rightarrow> Code i
      | None \<Rightarrow> Rejected (Internal (''function '' @ [CHR 0x27] @ name @ [CHR 0x27] @ '' not registered'')))"

definition env_of :: "build \<Rightarrow> module_compiler \<Rightarrow> fn_env" where
  "env_of b mc =
     \<lparr>ce_build = b, ce_functions = mc_functions mc, ce_globals = mc_globals mc, ce_class_bases = mc_class_bases mc\<rparr>"

definition finish :: "string \<Rightarrow> pou_kind \<Rightarrow> nat \<Rightarrow> fn_state \<Rightarrow> func" where
  "finish name kind start s =
     \<lparr>fn_name = name, fn_kind = kind, fn_register_count = fs_next_reg s, fn_instructions = fs_instructions s,
      fn_label_positions = fs_label_positions s, fn_locals = fs_locals s, fn_source_map = fs_source_map s,
      fn_body_start_pc = start\<rparr>"

definition finish_at :: "nat \<Rightarrow> string \<Rightarrow> pou_kind \<Rightarrow> nat \<Rightarrow> fn_state \<Rightarrow> module_compiler \<Rightarrow> module_compiler" where
  "finish_at i name kind start s mc =
     mc\<lparr>mc_functions := (mc_functions mc)[i := finish name kind start s], mc_type_defs := fs_type_defs s\<rparr>"

text \<open>A body without a value, and one that returns the local \<open>slot\<close>.\<close>

definition compile_body :: "fn_env \<Rightarrow> u16 option \<Rightarrow> statement list \<Rightarrow> fn_state \<Rightarrow> fn_state compiled" where
  "compile_body C ret body s =
     cbind (compile_statements C body s) (\<lambda>s.
       case ret of
         None \<Rightarrow> Code (emit RetVoid s)
       | Some slot \<Rightarrow> cbind (alloc_reg C s) (\<lambda>(r, s). Code (emit (Ret r) (emit (LoadLocal r slot) s))))"

definition add_result :: "string \<Rightarrow> data_type option \<Rightarrow> fn_state \<Rightarrow> u16 option \<times> fn_state" where
  "add_result name ty s =
     (case ty of
        None \<Rightarrow> (None, s)
      | Some dt \<Rightarrow> (let (slot, s) = add_local name (var_type_from_ast dt) (int_width_from_ast dt) s in (Some slot, s)))"

definition compile_pou :: "build \<Rightarrow> string \<Rightarrow> pou_kind \<Rightarrow> var_block list \<Rightarrow> (string \<times> data_type) option \<Rightarrow>
    statement list \<Rightarrow> module_compiler \<Rightarrow> module_compiler compiled" where
  "compile_pou b name kind vbs result body mc =
     cbind (find_func mc name) (\<lambda>i.
     cbind (compile_var_blocks (env_of b mc) vbs (fn_state_new (mc_type_defs mc))) (\<lambda>s.
       let (ret, s) = (case result of None \<Rightarrow> (None, s) | Some (n, ty) \<Rightarrow> add_result n (Some ty) s) in
       cbind (compile_body (env_of b mc) ret body s) (\<lambda>s'.
         Code (finish_at i name kind (current_pc s) s' mc))))"

text \<open>The variable blocks of the ancestors of a class, nearest first; \<open>None\<close> if they never end.\<close>

partial_function (option) ancestor_blocks ::
  "(string, string) hashmap \<Rightarrow> (string, var_block list) hashmap \<Rightarrow> string option \<Rightarrow> var_block list list option" where
  "ancestor_blocks bases blocks cur =
     (case cur of
        None \<Rightarrow> Some []
      | Some parent \<Rightarrow>
          Option.bind (ancestor_blocks bases blocks (hm_get bases parent)) (\<lambda>rest.
            Some ((case hm_get blocks parent of None \<Rightarrow> [] | Some vbs \<Rightarrow> [vbs]) @ rest)))"

definition collect_inherited_var_blocks :: "module_compiler \<Rightarrow> string \<Rightarrow> var_block list compiled" where
  "collect_inherited_var_blocks mc name =
     (case ancestor_blocks (mc_class_bases mc) (mc_class_var_blocks mc) (hm_get (mc_class_bases mc) (to_upper name)) of
        None \<Rightarrow> Hangs
      | Some chain \<Rightarrow> Code (concat (rev chain)))"

definition compile_method :: "build \<Rightarrow> class_decl \<Rightarrow> var_block list \<Rightarrow> method_decl \<Rightarrow> module_compiler \<Rightarrow> module_compiler compiled" where
  "compile_method b cls inherited m mc =
     (if me_is_abstract m then Code mc
      else
        let name = method_full_name cls m; C = env_of b mc in
        cbind (find_func mc name) (\<lambda>i.
        cbind (cfold (\<lambda>vb. register_var_blocks C [vb]) inherited (fn_state_new (mc_type_defs mc))) (\<lambda>s.
        cbind (register_var_blocks C (cl_var_blocks cls) s) (\<lambda>s.
        cbind (compile_var_blocks C (me_var_blocks m) s) (\<lambda>s.
          let (ret, s) = add_result (id_name (me_name m)) (me_return_type m) s in
          cbind (compile_body C ret (me_body m) s) (\<lambda>s'.
            Code (finish_at i name Pou_Method (current_pc s) s' mc)))))))"

definition compile_class :: "build \<Rightarrow> class_decl \<Rightarrow> module_compiler \<Rightarrow> module_compiler compiled" where
  "compile_class b cls mc =
     (let name = id_name (cl_name cls); C = env_of b mc in
      cbind (find_func mc name) (\<lambda>i.
      cbind (collect_inherited_var_blocks mc name) (\<lambda>inherited.
      cbind (cfold (\<lambda>vb. compile_var_blocks C [vb]) inherited (fn_state_new (mc_type_defs mc))) (\<lambda>s.
      cbind (compile_var_blocks C (cl_var_blocks cls) s) (\<lambda>s.
        cfold (compile_method b cls inherited) (cl_methods cls)
          (finish_at i name Pou_Class (current_pc s) (emit RetVoid s) mc))))))"

fun compile_item :: "build \<Rightarrow> top_level_item \<Rightarrow> module_compiler \<Rightarrow> module_compiler compiled" where
  "compile_item b (TI_Program p) =
     compile_pou b (id_name (pd_name p)) Pou_Program (pd_var_blocks p) None (pd_body p)"
| "compile_item b (TI_Function f) =
     compile_pou b (id_name (fd_name f)) Pou_Function (fd_var_blocks f) (Some (id_name (fd_name f), fd_return_type f))
       (fd_body f)"
| "compile_item b (TI_FunctionBlock fb) =
     compile_pou b (id_name (bd_name fb)) Pou_FunctionBlock (bd_var_blocks fb) None (bd_body fb)"
| "compile_item b (TI_Class cls) = compile_class b cls"
| "compile_item b _ = Code"

definition compile_global_init :: "build \<Rightarrow> module_compiler \<Rightarrow> module_compiler compiled" where
  "compile_global_init b mc =
     (if mc_pending_global_inits mc = [] then Code mc
      else
        cbind (cfold (\<lambda>(slot, e) s.
            cbind (compile_expression (env_of b mc) e (set_source (expression_range e) s)) (\<lambda>(r, s).
              Code (emit (StoreGlobal slot r) s))) (mc_pending_global_inits mc) (fn_state_new (mc_type_defs mc))) (\<lambda>s.
          Code (mc\<lparr>mc_functions := mc_functions mc @ [finish ''__global_init'' Pou_Function 0 (emit RetVoid s)],
            mc_type_defs := fs_type_defs (emit RetVoid s), mc_pending_global_inits := []\<rparr>)))"

definition inject_native :: "build \<Rightarrow> native_layout \<Rightarrow> module_compiler \<times> u16 list \<Rightarrow> (module_compiler \<times> u16 list) compiled" where
  "inject_native b l = (\<lambda>(mc, is).
     cbind (of_chk (layout_to_memory_layout b l (mc_type_defs mc) (of_nat (length (mc_type_defs mc))))) (\<lambda>(ml, tds).
       Code (push_function (empty_function (nl_type_name l) Pou_FunctionBlock ml) (mc\<lparr>mc_type_defs := tds\<rparr>),
         is @ [of_nat (length (mc_functions mc))])))"

fun is_program :: "top_level_item \<Rightarrow> bool" where
  "is_program (TI_Program _) = True"
| "is_program _ = False"

definition module_of :: "module_compiler \<Rightarrow> u16 list \<Rightarrow> ir_module" where
  "module_of mc is = \<lparr>md_functions = mc_functions mc, md_globals = mc_globals mc, md_type_defs = mc_type_defs mc,
     md_native_fb_indices = is\<rparr>"

definition compile_with_native_fbs :: "build \<Rightarrow> source_file \<Rightarrow> native_layout list \<Rightarrow> ir_module compiled" where
  "compile_with_native_fbs b src registry =
     cbind (cfold (inject_native b) registry (module_compiler_new, [])) (\<lambda>(mc, is).
     let mc = fold register_item (sf_items src) mc in
     cbind (cfold (compile_item b) (filter (\<lambda>i. \<not> is_program i) (sf_items src)) mc) (\<lambda>mc.
     cbind (cfold (compile_item b) (filter is_program (sf_items src)) mc) (\<lambda>mc.
     cbind (compile_global_init b mc) (\<lambda>mc. Code (module_of mc is)))))"

definition compile :: "build \<Rightarrow> source_file \<Rightarrow> ir_module compiled" where
  "compile b src = compile_with_native_fbs b src []"

end
