(* ===== verification/Compile_Emit.thy ===== *)
theory Compile_Emit
  imports Compile_Frame Compile_Module Vm_Safe
begin

section \<open>The compiler emits well-formed code\<close>

text \<open>
  What the machine relies on when it indexes without a check: every operand of every instruction
  of a compiled module names something that exists. First the function compiler, where every
  operation keeps this for what has been emitted so far, then the module compiler.
\<close>

subsection \<open>Instructions emitted so far\<close>

text \<open>The module as the function compiler sees it, and the function as it would be now.\<close>

definition seen_module :: "fn_env \<Rightarrow> ir_module" where
  "seen_module C = \<lparr>md_functions = ce_functions C, md_globals = ce_globals C, md_type_defs = [],
     md_native_fb_indices = []\<rparr>"

abbreviation seen_func :: "fn_state \<Rightarrow> func" where
  "seen_func s \<equiv> finish [] Pou_Function 0 s"

definition has_reg :: "fn_state \<Rightarrow> reg \<Rightarrow> bool" where
  "has_reg s r \<longleftrightarrow> unat r < unat (fs_next_reg s)"

definition emittable :: "fn_env \<Rightarrow> fn_state \<Rightarrow> instruction \<Rightarrow> bool" where
  "emittable C s ins \<longleftrightarrow> list_all (has_reg s) (instr_regs ins) \<and> operands_ok (seen_module C) (seen_func s) ins"

definition safe_code :: "fn_env \<Rightarrow> fn_state \<Rightarrow> bool" where
  "safe_code C s \<longleftrightarrow> list_all (emittable C s) (fs_instructions s)"

definition local_count :: "fn_state \<Rightarrow> nat" where
  "local_count s = length (slots (fs_locals s))"

text \<open>One operation of the function compiler: registers and locals only grow, and code stays well-formed.\<close>

definition sound :: "fn_env \<Rightarrow> fn_state \<Rightarrow> fn_state \<Rightarrow> bool" where
  "sound C s s' \<longleftrightarrow> unat (fs_next_reg s) \<le> unat (fs_next_reg s') \<and> local_count s \<le> local_count s' \<and>
     (safe_code C s \<longrightarrow> safe_code C s')"

lemma sound_refl [simp, intro]: "sound C s s"
  by (simp add: sound_def)

lemma sound_trans [trans]: "sound C s1 s2 \<Longrightarrow> sound C s2 s3 \<Longrightarrow> sound C s1 s3"
  by (auto simp: sound_def)

lemma has_reg_sound: "has_reg s r \<Longrightarrow> sound C s s' \<Longrightarrow> has_reg s' r"
  by (simp add: has_reg_def sound_def)

lemma operands_ok_mono:
  "operands_ok m f ins \<Longrightarrow> length (slots (fn_locals f)) \<le> length (slots (fn_locals f')) \<Longrightarrow> operands_ok m f' ins"
  by (auto simp: operands_ok_def split: instruction.split_asm)

lemma emittable_mono:
  "emittable C s ins \<Longrightarrow> unat (fs_next_reg s) \<le> unat (fs_next_reg s') \<Longrightarrow> local_count s \<le> local_count s' \<Longrightarrow>
     emittable C s' ins"
  using operands_ok_mono [of "seen_module C" "seen_func s" ins "seen_func s'"]
  by (auto simp: emittable_def has_reg_def local_count_def finish_def list_all_iff)

text \<open>States that differ in neither code nor counts.\<close>

lemma sound_same:
  "fs_instructions s' = fs_instructions s \<Longrightarrow> unat (fs_next_reg s) \<le> unat (fs_next_reg s') \<Longrightarrow>
     local_count s \<le> local_count s' \<Longrightarrow> sound C s s'"
  using emittable_mono by (auto simp: sound_def safe_code_def list_all_iff)

lemma emit_sound: "emittable C s ins \<Longrightarrow> sound C s (emit ins s)"
  using emittable_mono [of C s _ "emit ins s"]
  by (auto simp: sound_def safe_code_def emit_def local_count_def list_all_iff)

lemma emit_sourced_sound: "emittable C s ins \<Longrightarrow> sound C s (emit_sourced ins r s)"
  using emittable_mono [of C s _ "emit_sourced ins r s"]
  by (auto simp: sound_def safe_code_def emit_sourced_def local_count_def list_all_iff)

lemma small_steps_sound [simp, intro]:
  "sound C s (set_source r s)" "sound C s (place_label l s)" "sound C s (push_exit l s)" "sound C s (pop_exit s)"
  by (rule sound_same; simp add: set_source_def place_label_def push_exit_def pop_exit_def local_count_def)+

lemma has_reg_simps [simp]:
  "has_reg (emit ins s) r = has_reg s r" "has_reg (emit_sourced ins rg s) r = has_reg s r"
  "has_reg (set_source rg s) r = has_reg s r" "has_reg (place_label l s) r = has_reg s r"
  "has_reg (push_exit l s) r = has_reg s r" "has_reg (pop_exit s) r = has_reg s r"
  by (simp_all add: has_reg_def emit_def emit_sourced_def set_source_def place_label_def push_exit_def pop_exit_def)

lemma alloc_label_sound: "alloc_label C s = Code (l, s') \<Longrightarrow> sound C s s'"
  by (rule sound_same) (auto simp: alloc_label_Code local_count_def)

lemma alloc_reg_sound: "bd_checks (ce_build C) \<Longrightarrow> alloc_reg C s = Code (r, s') \<Longrightarrow> sound C s s' \<and> has_reg s' r"
proof -
  assume a: "bd_checks (ce_build C)" "alloc_reg C s = Code (r, s')"
  then have n: "r = fs_next_reg s" "unat (fs_next_reg s') = unat r + 1" using alloc_reg_extended by blast+
  have "sound C s s'" by (rule sound_same) (use a n in \<open>auto simp: alloc_reg_Code local_count_def\<close>)
  then show ?thesis using n by (simp add: has_reg_def)
qed

lemma find_slot_seen: "map_option fst (find_slot l n) = Some i \<Longrightarrow> unat i < length (slots l)"
  by (auto dest: find_slot_SomeD)

lemma find_local_seen: "find_local s n = Some i \<Longrightarrow> unat i < local_count s"
  by (auto simp: find_local_def local_count_def dest: find_slot_SomeD)

lemma find_global_seen: "find_global C n = Some i \<Longrightarrow> unat i < global_count (seen_module C)"
  by (auto simp: find_global_def global_count_def seen_module_def dest: find_slot_SomeD)

lemma seen_locals [simp]: "length (slots (fn_locals (seen_func s))) = local_count s"
  by (simp add: finish_def local_count_def)

subsection \<open>Expressions\<close>

definition yields :: "fn_env \<Rightarrow> fn_state \<Rightarrow> reg \<Rightarrow> fn_state \<Rightarrow> bool" where
  "yields C s r s' \<longleftrightarrow> sound C s s' \<and> has_reg s' r"

text \<open>A method found in a hierarchy exists, and where its search starts is a class.\<close>

definition methods_ok :: "fn_env \<Rightarrow> bool" where
  "methods_ok C \<longleftrightarrow>
     (\<forall>ty method i. find_method_in_hierarchy (ce_functions C) (ce_class_bases C) ty method = Some (Some i) \<longrightarrow>
        i < length (ce_functions C) \<and> is_class (seen_module C) (index_or_0 (function_index C ty)))"

definition env_safe :: "fn_env \<Rightarrow> bool" where
  "env_safe C \<longleftrightarrow> bd_checks (ce_build C) \<and> methods_ok C"

lemma env_safe_bd [simp]: "env_safe C \<Longrightarrow> bd_checks (ce_build C)"
  by (simp add: env_safe_def)

lemmas ins_defs = emittable_def operands_ok_def instr_regs_def

lemma yields_sound: "yields C s r s' \<Longrightarrow> sound C s s'"
  by (simp add: yields_def)

lemma yields_reg: "yields C s r s' \<Longrightarrow> has_reg s' r"
  by (simp add: yields_def)

lemma yields_after: "sound C s1 s2 \<Longrightarrow> yields C s2 r s3 \<Longrightarrow> yields C s1 r s3"
  using sound_trans by (auto simp: yields_def)

lemma yields_emit: "yields C s r s' \<Longrightarrow> emittable C s' ins \<Longrightarrow> yields C s r (emit ins s')"
  using sound_trans emit_sound by (auto simp: yields_def)

lemma alloc_reg_yields: "env_safe C \<Longrightarrow> alloc_reg C s = Code (r, s') \<Longrightarrow> yields C s r s'"
  using alloc_reg_sound [of C s r s'] by (simp add: yields_def)

text \<open>A new register and the instruction that sets it.\<close>

lemma new_reg_yields:
  "env_safe C \<Longrightarrow> alloc_reg C s = Code (r, s1) \<Longrightarrow> (sound C s s1 \<Longrightarrow> has_reg s1 r \<Longrightarrow> emittable C s1 ins) \<Longrightarrow>
     yields C s r (emit ins s1)"
  using alloc_reg_yields [of C s r s1] yields_emit [of C s r s1 ins] by (auto simp: yields_def)

lemma literal_ok: "literal_to_value b l = Res v \<Longrightarrow> val_ok n v"
  by (auto simp: literal_to_value_def split: literal_kind.split_asm option.split_asm)

lemma load_const_yields:
  "env_safe C \<Longrightarrow> load_const C v s = Code (r, s') \<Longrightarrow> (\<And>n. val_ok n v) \<Longrightarrow> yields C s r s'"
  by (auto simp: load_const_def ins_defs intro: new_reg_yields)

lemma compile_load_variable_yields:
  "env_safe C \<Longrightarrow> compile_load_variable C n s = Code (r, s') \<Longrightarrow> yields C s r s'"
  by (auto simp: compile_load_variable_def intro!: new_reg_yields split: option.split,
      auto simp: ins_defs dest: find_local_seen find_global_seen)

lemma compile_partial_read_yields:
  "env_safe C \<Longrightarrow> compile_partial_read C src k i s = Code (r, s') \<Longrightarrow> has_reg s src \<Longrightarrow> yields C s r s'"
  by (cases k) (auto simp: compile_partial_read_def partial_read_def ins_defs intro!: new_reg_yields intro: has_reg_sound)

lemma apply_partial_chain_yields:
  "env_safe C \<Longrightarrow> yields C s0 r s \<Longrightarrow> apply_partial_chain C r ps s = Code (r', s') \<Longrightarrow> yields C s0 r' s'"
proof (induction C r ps s rule: apply_partial_chain.induct)
  case (2 C r k i ps s)
  then obtain r1 s1 where 1: "compile_partial_read C r k i s = Code (r1, s1)"
    "apply_partial_chain C r1 ps s1 = Code (r', s')" by auto
  have "yields C s0 r1 s1"
    using yields_after [OF yields_sound compile_partial_read_yields [OF _ 1(1) yields_reg]] 2 by blast
  with 1 2 show ?case by auto
qed simp_all

lemma plain_yields:
  assumes "env_safe C" "compile_plain_access C parts s = Code (r, s')"
  shows "yields C s r s'"
proof -
  have [simp]: "\<And>n. val_ok n (V_Int 0)" by simp
  show ?thesis
    using assms by (auto simp: compile_plain_access_def split: list.split_asm access_part.split_asm
        intro: load_const_yields apply_partial_chain_yields compile_load_variable_yields)
qed

definition compiles_safe :: "expression \<Rightarrow> bool" where
  "compiles_safe e \<longleftrightarrow> (\<forall>C s r s'. env_safe C \<longrightarrow> compile_expression C e s = Code (r, s') \<longrightarrow> yields C s r s')"

lemma compiles_safeD:
  "compiles_safe e \<Longrightarrow> env_safe C \<Longrightarrow> compile_expression C e s = Code (r, s') \<Longrightarrow> yields C s r s'"
  by (auto simp: compiles_safe_def)

lemma argument_at_yields:
  assumes "\<forall>a \<in> set as. compiles_safe (argument_value a)" "env_safe C" "\<And>n. val_ok n d"
    "compile_argument_at C d as n s = Code (r, s')"
  shows "yields C s r s'"
  using assms(1,4)
proof (induction as arbitrary: n)
  case (Cons a as)
  then show ?case using assms(2) by (cases n) (auto simp: compile_argument_value dest: compiles_safeD)
qed (use assms(2,3) load_const_yields in auto)

lemma call_args_sound:
  assumes "\<forall>a \<in> set as. compiles_safe (argument_value a)" "env_safe C"
    "compile_call_args C i as s = Code (rs, s')"
  shows "sound C s s' \<and> list_all (has_reg s') (map snd rs)"
  using assms(1,3)
proof (induction as arbitrary: i s rs)
  case (Cons a as)
  then obtain r s1 rs1 where 1: "compile_argument C a s = Code (r, s1)"
    "compile_call_args C (i + 1) as s1 = Code (rs1, s')" "rs = (of_nat i, r) # rs1" by auto
  then have y: "yields C s r s1" using Cons.prems(1) assms(2)
    by (auto simp: compile_argument_value dest!: compiles_safeD)
  have "sound C s1 s' \<and> list_all (has_reg s') (map snd rs1)" using Cons.IH Cons.prems(1) 1(2) by simp
  then show ?case using y 1(3) sound_trans has_reg_sound by (auto simp: yields_def)
qed simp

text \<open>The instructions of the intrinsics read and write the registers they are given, and nothing else.\<close>

definition plain_ins :: "instruction \<Rightarrow> reg list \<Rightarrow> bool" where
  "plain_ins ins rs \<longleftrightarrow> instr_regs ins = rs \<and> (\<forall>m f. operands_ok m f ins)"

lemma plain_emittable: "plain_ins ins rs \<Longrightarrow> list_all (has_reg s) rs \<Longrightarrow> emittable C s ins"
  by (simp add: plain_ins_def emittable_def)

lemma intrinsics1_plain: "list_all (\<lambda>(_, mk). \<forall>a b. plain_ins (mk a b) [a, b]) intrinsics1"
  unfolding intrinsics1_def
  by (simp add: list.pred_map comp_def plain_ins_def instr_regs_def operands_ok_def)

lemma intrinsics2_plain: "list_all (\<lambda>(_, mk, _). \<forall>a b c. plain_ins (mk a b c) [a, b, c]) intrinsics2"
  unfolding intrinsics2_def by (simp add: plain_ins_def instr_regs_def operands_ok_def)

lemma string_intrinsics2_plain: "list_all (\<lambda>(_, mk). \<forall>a b c. plain_ins (mk a b c) [a, b, c]) string_intrinsics2"
  unfolding string_intrinsics2_def by (simp add: plain_ins_def instr_regs_def operands_ok_def)

lemma string_intrinsics3_plain:
  "list_all (\<lambda>(_, mk). \<forall>a b c d. plain_ins (mk a b c d) [a, b, c, d]) string_intrinsics3"
  unfolding string_intrinsics3_def by (simp add: plain_ins_def instr_regs_def operands_ok_def)

lemma map_of_list_all: "map_of xs k = Some v \<Longrightarrow> list_all P xs \<Longrightarrow> P (k, v)"
  by (auto simp: list_all_iff dest: map_of_SomeD)

lemma intrinsic1_emittable:
  "map_of intrinsics1 u = Some mk \<Longrightarrow> has_reg s a \<Longrightarrow> has_reg s b \<Longrightarrow> emittable C s (mk a b)"
  by (drule map_of_list_all [OF _ intrinsics1_plain]) (auto simp: plain_ins_def emittable_def)

lemma intrinsic2_emittable:
  "map_of intrinsics2 u = Some (mk, w) \<Longrightarrow> has_reg s a \<Longrightarrow> has_reg s b \<Longrightarrow> has_reg s c \<Longrightarrow> emittable C s (mk a b c)"
  by (drule map_of_list_all [OF _ intrinsics2_plain]) (auto simp: plain_ins_def emittable_def)

lemma string_intrinsic2_emittable:
  "map_of string_intrinsics2 u = Some mk \<Longrightarrow> has_reg s a \<Longrightarrow> has_reg s b \<Longrightarrow> has_reg s c \<Longrightarrow> emittable C s (mk a b c)"
  by (drule map_of_list_all [OF _ string_intrinsics2_plain]) (auto simp: plain_ins_def emittable_def)

lemma string_intrinsic3_emittable:
  "map_of string_intrinsics3 u = Some mk \<Longrightarrow> has_reg s a \<Longrightarrow> has_reg s b \<Longrightarrow> has_reg s c \<Longrightarrow> has_reg s d \<Longrightarrow>
     emittable C s (mk a b c d)"
  by (drule map_of_list_all [OF _ string_intrinsics3_plain]) (auto simp: plain_ins_def emittable_def)

lemma ref_emittable: "has_reg s a \<Longrightarrow> emittable C s (ref_instruction C s args a)"
  by (auto simp: ref_instruction_def ins_defs split: option.split dest: find_global_seen)

lemma method_target_Some:
  assumes "method_target C s q = Some (Some (slot, cls, method))" "env_safe C"
  shows "is_class (seen_module C) cls \<and> unat method < length (ce_functions C)"
proof -
  obtain ty name i where "find_method_in_hierarchy (ce_functions C) (ce_class_bases C) ty name = Some (Some i)"
    "cls = index_or_0 (function_index C ty)" "method = of_nat i"
    using assms(1) by (auto simp: method_target_def split: list.split_asm option.split_asm)
  then show ?thesis
    using assms(2) by (auto simp: env_safe_def methods_ok_def intro: unat_of_nat_u16_less)
qed

text \<open>A call allocates the register of its result first, then compiles its arguments.\<close>

definition safe_args :: "fn_env \<Rightarrow> argument list \<Rightarrow> bool" where
  "safe_args C args \<longleftrightarrow> env_safe C \<and> (\<forall>a \<in> set args. compiles_safe (argument_value a))"

definition default_arg :: "val \<Rightarrow> bool" where
  "default_arg d \<longleftrightarrow> (\<forall>n. val_ok n d)"

lemma default_args [simp]: "default_arg (V_Int i)" "default_arg (V_Time t)" "default_arg (V_Real x)"
  by (simp_all add: default_arg_def)

lemma call_ends:
  assumes "safe_args C args" "alloc_reg C s = Code (dst, s1)" "sound C s1 s2" "has_reg s2 dst \<Longrightarrow> emittable C s2 ins"
  shows "yields C s dst (emit ins s2)"
proof -
  have "yields C s dst s2"
    using alloc_reg_yields [of C s dst s1] assms(1-3) sound_trans has_reg_sound by (auto simp: yields_def safe_args_def)
  then show ?thesis using assms(4) by (intro yields_emit) (simp_all add: yields_def)
qed

lemma argument1:
  "safe_args C args \<Longrightarrow> default_arg d \<Longrightarrow> compile_argument_at C d args n s1 = Code (a, s2) \<Longrightarrow> sound C s1 s2 \<and> has_reg s2 a"
  using argument_at_yields [of args C d n s1 a s2] by (simp add: safe_args_def default_arg_def yields_def)

lemma argument2:
  assumes "safe_args C args" "default_arg d" "compile_argument_at C d args n s1 = Code (a, s2)"
    "compile_argument_at C d args n' s2 = Code (b, s3)"
  shows "sound C s1 s3 \<and> has_reg s3 a \<and> has_reg s3 b"
  using argument1 [OF assms(1-3)] argument1 [OF assms(1,2,4)] sound_trans has_reg_sound by blast

lemma argument3:
  assumes "safe_args C args" "default_arg d" "compile_argument_at C d args n s1 = Code (a, s2)"
    "compile_argument_at C d args n' s2 = Code (b, s3)" "compile_argument_at C d args n'' s3 = Code (c, s4)"
  shows "sound C s1 s4 \<and> has_reg s4 a \<and> has_reg s4 b \<and> has_reg s4 c"
  using argument2 [OF assms(1-4)] argument1 [OF assms(1,2,5)] sound_trans has_reg_sound by blast

lemma argument4:
  assumes "safe_args C args" "default_arg d" "compile_argument_at C d args n s1 = Code (a, s2)"
    "compile_argument_at C d args n' s2 = Code (b, s3)" "compile_argument_at C d args n'' s3 = Code (c, s4)"
    "compile_argument_at C d args m s4 = Code (e, s5)"
  shows "sound C s1 s5 \<and> has_reg s5 a \<and> has_reg s5 b \<and> has_reg s5 c \<and> has_reg s5 e"
  using argument3 [OF assms(1-5)] argument1 [OF assms(1,2,6)] sound_trans has_reg_sound by blast

lemma call_intrinsic1:
  "map_of intrinsics1 u = Some mk \<Longrightarrow> safe_args C args \<Longrightarrow> alloc_reg C s = Code (dst, s1) \<Longrightarrow>
     compile_argument_at C d args n s1 = Code (a, s2) \<Longrightarrow> default_arg d \<Longrightarrow> yields C s dst (emit (mk dst a) s2)"
  using argument1 [of C args d n s1 a s2] by (intro call_ends) (auto intro: intrinsic1_emittable)

lemma call_intrinsic2:
  "map_of intrinsics2 u = Some (mk, w) \<Longrightarrow> safe_args C args \<Longrightarrow> alloc_reg C s = Code (dst, s1) \<Longrightarrow>
     compile_argument_at C d args n s1 = Code (a, s2) \<Longrightarrow> compile_argument_at C d args n' s2 = Code (b, s3) \<Longrightarrow>
     default_arg d \<Longrightarrow> yields C s dst (emit (mk dst a b) s3)"
  using argument2 [of C args d n s1 a s2 n' b s3] by (intro call_ends) (auto intro: intrinsic2_emittable)

lemma call_wrapped:
  assumes "map_of intrinsics2 u = Some (mk, w)" "safe_args C args" "alloc_reg C s = Code (dst, s1)"
    "compile_argument_at C d args n s1 = Code (a, s2)" "compile_argument_at C d args n' s2 = Code (b, s3)"
    "alloc_reg C s3 = Code (x, s4)" "default_arg d"
  shows "yields C s dst (emit (ToTod dst x) (emit (mk x a b) s4))"
proof -
  note 2 = argument2 [OF assms(2,7,4,5)]
  have 3: "yields C s3 x s4" using alloc_reg_yields assms(2,6) by (simp add: safe_args_def)
  with 2 have "has_reg s4 a" "has_reg s4 b" "has_reg s4 x" "sound C s1 s4"
    using sound_trans has_reg_sound by (auto simp: yields_def)
  then have "sound C s1 (emit (mk x a b) s4)"
    using emit_sound intrinsic2_emittable [OF assms(1)] sound_trans by blast
  then show ?thesis by (rule call_ends [OF assms(2,3)]) (use \<open>has_reg s4 x\<close> in \<open>simp add: ins_defs\<close>)
qed

lemma call_string2:
  "map_of string_intrinsics2 u = Some mk \<Longrightarrow> safe_args C args \<Longrightarrow> alloc_reg C s = Code (dst, s1) \<Longrightarrow>
     compile_argument_at C d args n s1 = Code (a, s2) \<Longrightarrow> compile_argument_at C d args n' s2 = Code (b, s3) \<Longrightarrow>
     default_arg d \<Longrightarrow> yields C s dst (emit (mk dst a b) s3)"
  using argument2 [of C args d n s1 a s2 n' b s3] by (intro call_ends) (auto intro: string_intrinsic2_emittable)

lemma call_string3:
  "map_of string_intrinsics3 u = Some mk \<Longrightarrow> safe_args C args \<Longrightarrow> alloc_reg C s = Code (dst, s1) \<Longrightarrow>
     compile_argument_at C d args n s1 = Code (a, s2) \<Longrightarrow> compile_argument_at C d args n' s2 = Code (b, s3) \<Longrightarrow>
     compile_argument_at C d args n'' s3 = Code (c, s4) \<Longrightarrow> default_arg d \<Longrightarrow> yields C s dst (emit (mk dst a b c) s4)"
  using argument3 [of C args d n s1 a s2 n' b s3 n'' c s4] by (intro call_ends) (auto intro: string_intrinsic3_emittable)

lemma call_replace:
  "compile_argument_at C d args 3 s4 = Code (e, s5) \<Longrightarrow> safe_args C args \<Longrightarrow> alloc_reg C s = Code (dst, s1) \<Longrightarrow>
     compile_argument_at C d args n s1 = Code (a, s2) \<Longrightarrow> compile_argument_at C d args n' s2 = Code (b, s3) \<Longrightarrow>
     compile_argument_at C d args n'' s3 = Code (c, s4) \<Longrightarrow>
     default_arg d \<Longrightarrow> yields C s dst (emit (StringReplace dst a b c e) s5)"
  using argument4 [of C args d n s1 a s2 n' b s3 n'' c s4 3 e s5] by (intro call_ends) (auto simp: ins_defs)

lemma call_at_once:
  "safe_args C args \<Longrightarrow> alloc_reg C s = Code (dst, s1) \<Longrightarrow> yields C s dst (emit (ref_instruction C s1 as dst) s1)"
  "safe_args C args \<Longrightarrow> alloc_reg C s = Code (dst, s1) \<Longrightarrow> yields C s dst (emit (SystemTime dst) s1)"
  "safe_args C args \<Longrightarrow> alloc_reg C s = Code (dst, s1) \<Longrightarrow> yields C s dst (emit (LoadConst dst (V_Int i)) s1)"
  by (rule call_ends, assumption, assumption, simp, simp add: ref_emittable,
      (rule call_ends, assumption, assumption, simp, simp add: ins_defs)+)

lemma call_passing:
  assumes "compile_call_args C i args s1 = Code (rs, s2)" "safe_args C args" "alloc_reg C s = Code (dst, s1)"
  shows "yields C s dst (emit (CallFb slot f rs) s2)" "yields C s dst (emit (Call k dst rs) s2)"
    "is_class (seen_module C) cls \<and> unat method < length (ce_functions C) \<Longrightarrow>
       yields C s dst (emit (CallMethod slot cls method dst rs) s2)"
proof -
  have as: "sound C s1 s2 \<and> list_all (has_reg s2) (map snd rs)"
    using call_args_sound [OF _ _ assms(1)] assms(2) by (simp add: safe_args_def)
  show "yields C s dst (emit (CallFb slot f rs) s2)" "yields C s dst (emit (Call k dst rs) s2)"
    by (rule call_ends [OF assms(2,3)]; use as in \<open>simp add: ins_defs\<close>)+
  show "yields C s dst (emit (CallMethod slot cls method dst rs) s2)"
    if "is_class (seen_module C) cls \<and> unat method < length (ce_functions C)"
    by (rule call_ends [OF assms(2,3)]; use as that in \<open>simp add: ins_defs seen_module_def\<close>)
qed

lemma call_yields:
  assumes args: "safe_args C args" and code: "compile_function_call_expr C (FunctionCallExpr q args rg) s = Code (r, s')"
  shows "yields C s r s'"
proof -
  have env: "env_safe C" using args by (simp add: safe_args_def)
  obtain dst s1 where 1: "alloc_reg C s = Code (dst, s1)" using code by auto
  show ?thesis
  proof (cases "method_target C s1 q")
    case (Some t)
    show ?thesis
    proof (cases t)
      case None
      show ?thesis
        using code 1 Some None
        by (auto simp: Let_def split: if_split_asm option.split_asm)
          ((
            (rule call_at_once [OF args] |
             erule call_intrinsic1 [OF _ args] call_intrinsic2 [OF _ args] call_wrapped [OF _ args] call_string2 [OF _ args]
               call_string3 [OF _ args] call_replace [OF _ args] call_passing(1,2) [OF _ args]);
            (assumption | rule default_args)+)+)
    next
      case (Some m)
      obtain slot cls meth where m: "m = (slot, cls, meth)" by (cases m)
      with code 1 Some \<open>method_target C s1 q = Some t\<close> obtain rs s2 where
        "compile_call_args C 0 args s1 = Code (rs, s2)" "r = dst" "s' = emit (CallMethod slot cls meth dst rs) s2"
        by auto
      then show ?thesis
        using call_passing(3) [OF _ args 1] method_target_Some env Some m \<open>method_target C s1 q = Some t\<close> by auto
    qed
  qed (use code 1 in simp)
qed

end
