(* ===== verification/Compile_Safe.thy ===== *)
theory Compile_Safe
  imports Compile_Emit
begin

lemma array_read_yields:
  assumes "env_safe C" "compiles_safe e" "compile_expression C e s = Code (idx, s1)" "alloc_reg C s1 = Code (r, s2)"
    "\<And>s. has_reg s r \<Longrightarrow> has_reg s idx \<Longrightarrow> emittable C s ins"
  shows "yields C s r (emit ins s2)"
proof -
  have 1: "yields C s idx s1" by (rule compiles_safeD [OF assms(2,1,3)])
  have "yields C s1 r (emit ins s2)"
    by (rule new_reg_yields [OF assms(1,4)]) (use 1 in \<open>auto simp: yields_def intro: assms(5) has_reg_sound\<close>)
  with 1 show ?thesis by (rule yields_after [OF yields_sound])
qed

lemma variable_access_yields:
  assumes IH: "\<And>e es rest i. parts = A_Identifier i # A_Index (e # es) # rest \<Longrightarrow> compiles_safe e"
      "\<And>e es rest i j. parts = A_Identifier i # A_Identifier j # A_Index (e # es) # rest \<Longrightarrow> compiles_safe e"
    and env: "env_safe C"
    and code: "compile_expression C (E_Variable (VariableAccess parts rg)) s = Code (r, s')"
  shows "yields C s r s'"
proof (cases parts rule: access_cases)
  case (deref i rest)
  with code obtain ptr s1 s2 where 1: "compile_load_variable C (id_name i) s = Code (ptr, s1)"
    "alloc_reg C s1 = Code (r, s2)" "s' = emit (Deref r ptr) s2" by auto
  have y: "yields C s ptr s1" by (rule compile_load_variable_yields [OF env 1(1)])
  have "yields C s1 r s'"
    unfolding 1(3) by (rule new_reg_yields [OF env 1(2)]) (use y in \<open>auto simp: yields_def ins_defs intro: has_reg_sound\<close>)
  with y show ?thesis by (rule yields_after [OF yields_sound])
next
  case (index i e es rest)
  show ?thesis
  proof (cases "find_local s (id_name i)")
    case (Some slot)
    with code index obtain idx s1 s2 where 1: "compile_expression C e s = Code (idx, s1)"
      "alloc_reg C s1 = Code (r, s2)" "s' = emit (LoadArray r slot idx) s2" by auto
    show ?thesis
      unfolding 1(3) by (rule array_read_yields [OF env IH(1) [OF index] 1(1,2)]) (simp add: ins_defs)
  qed (use code index plain_yields env in simp)
next
  case (field i j rest)
  show ?thesis
  proof (cases "instance_field C s (id_name i) (id_name j)")
    case (Some x)
    obtain slot ty k where x: "x = (slot, ty, k)" by (cases x)
    show ?thesis
    proof (cases "\<exists>e es qs. rest = A_Index (e # es) # qs")
      case True
      then obtain e es qs where rest: "rest = A_Index (e # es) # qs" by blast
      with code field Some x obtain idx s1 s2 where 1: "compile_expression C e s = Code (idx, s1)"
        "alloc_reg C s1 = Code (r, s2)"
        "s' = emit (LoadFieldIndex r slot (base_offset C ty (id_name j) k) idx) s2" by auto
      show ?thesis
        unfolding 1(3) by (rule array_read_yields [OF env IH(2) 1(1,2)]) (simp_all add: field rest ins_defs)
    next
      case False
      with code field Some x obtain s1 where 1: "alloc_reg C s = Code (r, s1)" "s' = emit (LoadField r slot k) s1"
        by (auto split: list.split_asm access_part.split_asm)
      show ?thesis unfolding 1(2) by (rule new_reg_yields [OF env 1(1)]) (simp add: ins_defs)
    qed
  qed (use code field plain_yields env in simp)
next
  case (bits i k n rest)
  with code obtain b s1 where 1: "compile_load_variable C (id_name i) s = Code (b, s1)"
    "compile_partial_read C b k n s1 = Code (r, s')" by auto
  have y: "yields C s b s1" by (rule compile_load_variable_yields [OF env 1(1)])
  from y compile_partial_read_yields [OF env 1(2) yields_reg [OF y]] show ?thesis
    by (rule yields_after [OF yields_sound])
next
  case plain
  then have "compile_expression C (E_Variable (VariableAccess parts rg)) s = compile_plain_access C parts s"
    by (auto split: access_part.split)
  with code plain_yields env show ?thesis by simp
qed

lemma binary_emittable: "has_reg s r \<Longrightarrow> has_reg s a \<Longrightarrow> has_reg s b \<Longrightarrow> emittable C s (binary_instruction op r a b)"
  by (rule plain_emittable [of _ "[r, a, b]"]; cases op) (simp_all add: binary_instruction_def plain_ins_def instr_regs_def operands_ok_def)

lemma unary_emittable: "has_reg s r \<Longrightarrow> has_reg s a \<Longrightarrow> emittable C s (unary_instruction op r a)"
  by (cases op) (simp_all add: unary_instruction_def ins_defs)

lemma expression_safe: "compiles_safe e"
proof (induction e rule: measure_induct_rule [where f = size])
  case (less e)
  show ?case
    unfolding compiles_safe_def
  proof (intro allI impI)
    fix C s r s'
    assume env: "env_safe C" and code: "compile_expression C e s = Code (r, s')"
    show "yields C s r s'"
    proof (cases e)
      case (E_Variable va)
      obtain parts rg where va: "va = VariableAccess parts rg" by (cases va)
      show ?thesis
        by (rule variable_access_yields [OF less less env code [unfolded E_Variable va]])
          (simp_all add: E_Variable va)
    next
      case (E_FunctionCall fc)
      obtain q as rg where fc: "fc = FunctionCallExpr q as rg" by (cases fc)
      have "safe_args C as"
        unfolding safe_args_def using less size_argument_value E_FunctionCall fc env by blast
      with code E_FunctionCall fc show ?thesis by (auto intro: call_yields)
    next
      case (E_Binary op l x rg)
      with code obtain a s1 b s2 s3 where 1: "compile_expression C l s = Code (a, s1)"
        "compile_expression C x s1 = Code (b, s2)" "alloc_reg C s2 = Code (r, s3)"
        "s' = emit (binary_instruction op r a b) s3" by auto
      have l: "yields C s a s1" using compiles_safeD [OF less env 1(1)] E_Binary by simp
      have x: "yields C s1 b s2" using compiles_safeD [OF less env 1(2)] E_Binary by simp
      have a: "has_reg s2 a" using l x has_reg_sound yields_def by blast
      have "yields C s2 r s'"
        unfolding 1(4) by (rule new_reg_yields [OF env 1(3)])
          (use a x in \<open>auto simp: yields_def intro!: binary_emittable has_reg_sound [of s2 _ C s3]\<close>)
      with l x show ?thesis using yields_after [OF yields_sound] by blast
    next
      case (E_Unary op x rg)
      with code obtain a s1 s2 where 1: "compile_expression C x s = Code (a, s1)"
        "alloc_reg C s1 = Code (r, s2)" "s' = emit (unary_instruction op r a) s2" by auto
      show ?thesis
        unfolding 1(3) by (rule array_read_yields [OF env less 1(1,2)])
          (use E_Unary in \<open>simp_all add: unary_emittable\<close>)
    next
      case (E_Parenthesized x)
      with less [of x] code env show ?thesis by (auto dest: compiles_safeD)
    next
      case (E_Literal l)
      with code env show ?thesis by (auto intro!: load_const_yields dest: literal_ok)
    qed (use code env in \<open>auto intro!: load_const_yields\<close>)
  qed
qed

lemmas compile_expression_yields = compiles_safeD [OF expression_safe]

subsection \<open>Statements\<close>

lemma sound_emit: "sound C s s1 \<Longrightarrow> emittable C s1 ins \<Longrightarrow> sound C s (emit ins s1)"
  using emit_sound sound_trans by blast

lemma sound_emit_sourced: "sound C s s1 \<Longrightarrow> emittable C s1 ins \<Longrightarrow> sound C s (emit_sourced ins rg s1)"
  using emit_sourced_sound sound_trans by blast

lemma sound_small:
  "sound C s s1 \<Longrightarrow> sound C s (set_source r s1)" "sound C s s1 \<Longrightarrow> sound C s (place_label l s1)"
  "sound C s s1 \<Longrightarrow> sound C s (push_exit l s1)" "sound C s s1 \<Longrightarrow> sound C s (pop_exit s1)"
  using small_steps_sound sound_trans by blast+

lemma store_variable_sound: "sound C s s1 \<Longrightarrow> has_reg s1 r \<Longrightarrow> sound C s (store_variable C n r rg s1)"
  by (auto simp: store_variable_def ins_defs dest: find_local_seen find_global_seen intro!: sound_emit_sourced split: option.split)

lemma store_loop_variable_sound: "sound C s s1 \<Longrightarrow> has_reg s1 r \<Longrightarrow> sound C s (store_loop_variable n r s1)"
  by (auto simp: store_loop_variable_def ins_defs dest: find_local_seen intro!: sound_emit split: option.split)

lemma partial_write_emittable:
  "has_reg s d \<Longrightarrow> has_reg s b \<Longrightarrow> has_reg s v \<Longrightarrow> emittable C s (partial_write k d b i v)"
  by (cases k) (simp_all add: partial_write_def ins_defs)

lemma store_indexed_sound:
  assumes "env_safe C" "has_reg s v" "compile_expression C e s = Code (idx, s1)"
    "\<And>s. has_reg s idx \<Longrightarrow> has_reg s v \<Longrightarrow> emittable C s ins"
  shows "sound C s (emit_sourced ins rg s1)"
  using compile_expression_yields [OF assms(1,3)] has_reg_sound [OF assms(2)]
  by (auto simp: yields_def intro!: sound_emit_sourced assms(4))

lemma compile_store_sound:
  assumes "env_safe C" "has_reg s v" "compile_store C t v rg s = Code s'"
  shows "sound C s s'"
proof -
  have plain: "sound C s s'"
    if "Code (case va_parts t of A_Identifier i # _ \<Rightarrow> store_variable C (id_name i) v rg s | _ \<Rightarrow> s) = Code s'"
    using that store_variable_sound [OF sound_refl assms(2)] by (auto split: list.split_asm access_part.split_asm)
  show ?thesis
  proof (cases "va_parts t" rule: access_cases)
    case (deref i rest)
    with assms(3) obtain ptr s1 where 1: "compile_load_variable C (id_name i) s = Code (ptr, s1)"
      "s' = emit_sourced (DerefStore ptr v) rg s1"
      by (auto simp: compile_store_def)
    have "yields C s ptr s1" by (rule compile_load_variable_yields [OF assms(1) 1(1)])
    then show ?thesis
      unfolding 1(2) using has_reg_sound [OF assms(2)] by (auto simp: yields_def ins_defs intro!: sound_emit_sourced)
  next
    case (index i e es rest)
    show ?thesis
    proof (cases "find_local s (id_name i)")
      case (Some slot)
      with assms(3) index obtain idx s1 where 1: "compile_expression C e s = Code (idx, s1)"
        "s' = emit_sourced (StoreArray slot idx v) rg s1"
        by (auto simp: compile_store_def)
      show ?thesis unfolding 1(2) by (rule store_indexed_sound [OF assms(1,2) 1(1)]) (simp add: ins_defs)
    qed (use assms(3) plain index in \<open>simp add: compile_store_def\<close>)
  next
    case (field i j rest)
    show ?thesis
    proof (cases "instance_field C s (id_name i) (id_name j)")
      case (Some x)
      obtain slot ty k where x: "x = (slot, ty, k)" by (cases x)
      show ?thesis
      proof (cases "\<exists>e es qs. rest = A_Index (e # es) # qs")
        case True
        then obtain e es qs where rest: "rest = A_Index (e # es) # qs" by blast
        with assms(3) field Some x obtain idx s1 where 1: "compile_expression C e s = Code (idx, s1)"
          "s' = emit_sourced (StoreFieldIndex slot (base_offset C ty (id_name j) k) idx v) rg s1"
          by (auto simp: compile_store_def)
        show ?thesis unfolding 1(2) by (rule store_indexed_sound [OF assms(1,2) 1(1)]) (simp add: ins_defs)
      next
        case False
        with assms(3) field Some x have "s' = emit_sourced (StoreField slot k v) rg s"
          by (auto simp: compile_store_def split: list.split_asm access_part.split_asm)
        then show ?thesis using assms(2) by (simp add: ins_defs emit_sourced_sound)
      qed
    qed (use assms(3) plain field in \<open>simp add: compile_store_def\<close>)
  next
    case (bits i k n rest)
    with assms(3) obtain b s1 d s2 where 1: "compile_load_variable C (id_name i) s = Code (b, s1)"
      "alloc_reg C s1 = Code (d, s2)"
      "s' = store_variable C (id_name i) d rg (emit (partial_write k d b n v) s2)"
      by (auto simp: compile_store_def)
    have y: "yields C s b s1" by (rule compile_load_variable_yields [OF assms(1) 1(1)])
    have z: "yields C s1 d s2" by (rule alloc_reg_yields [OF assms(1) 1(2)])
    have s2: "sound C s s2" "has_reg s2 d" "has_reg s2 b" "has_reg s2 v"
      using y z sound_trans has_reg_sound assms(2) unfolding yields_def by blast+
    then show ?thesis
      unfolding 1(3) by (intro store_variable_sound sound_emit partial_write_emittable) simp_all
  next
    case access: plain
    then show ?thesis
      using assms(3) plain by (auto simp: compile_store_def split: access_part.split_asm)
  qed
qed

lemma compile_selector_sound:
  assumes "env_safe C" "has_reg s r" "compile_selector C r l sel s = Code s'"
  shows "sound C s s'"
proof (cases sel)
  case (Single e)
  with assms(3) obtain v s1 c s2 where 1: "compile_expression C e s = Code (v, s1)" "alloc_reg C s1 = Code (c, s2)"
    "s' = emit (JumpIf c l) (emit (CmpEq c r v) s2)"
    by (auto simp: compile_selector_def)
  have "sound C s s2" "has_reg s2 v" "has_reg s2 c" "has_reg s2 r"
    using compile_expression_yields [OF assms(1) 1(1)] alloc_reg_yields [OF assms(1) 1(2)] sound_trans has_reg_sound assms(2)
    unfolding yields_def by blast+
  then show ?thesis unfolding 1(3) by (intro sound_emit) (simp_all add: ins_defs)
next
  case (Range lo hi)
  with assms(3) obtain a s1 b s2 c s3 d s4 e s5 where 1: "compile_expression C lo s = Code (a, s1)"
    "compile_expression C hi s1 = Code (b, s2)" "alloc_reg C s2 = Code (c, s3)" "alloc_reg C s3 = Code (d, s4)"
    "alloc_reg C s4 = Code (e, s5)"
    "s' = emit (JumpIf e l) (emit (And e c d) (emit (CmpLe d r b) (emit (CmpGe c r a) s5)))"
    by (auto simp: compile_selector_def)
  have 2: "sound C s s3" "has_reg s3 a" "has_reg s3 b" "has_reg s3 c" "has_reg s3 r"
    using compile_expression_yields [OF assms(1) 1(1)] compile_expression_yields [OF assms(1) 1(2)]
      alloc_reg_yields [OF assms(1) 1(3)] sound_trans has_reg_sound assms(2)
    unfolding yields_def by blast+
  have 3: "sound C s3 s5" "has_reg s5 d" "has_reg s5 e"
    using alloc_reg_yields [OF assms(1) 1(4)] alloc_reg_yields [OF assms(1) 1(5)] sound_trans has_reg_sound
    unfolding yields_def by blast+
  have "sound C s s5" "has_reg s5 a" "has_reg s5 b" "has_reg s5 c" "has_reg s5 r"
    using 2 3 sound_trans has_reg_sound by blast+
  with 3 show ?thesis unfolding 1(6) by (intro sound_emit) (simp_all add: ins_defs)
qed

lemma selectors_sound:
  assumes "env_safe C"
  shows "has_reg s r \<Longrightarrow> cfold (compile_selector C r l) sels s = Code s' \<Longrightarrow> sound C s s'"
proof (induction sels arbitrary: s)
  case (Cons sel sels)
  then obtain s1 where 1: "compile_selector C r l sel s = Code s1" "cfold (compile_selector C r l) sels s1 = Code s'"
    by auto
  have 2: "sound C s s1" using compile_selector_sound [OF assms Cons.prems(1) 1(1)] .
  with Cons.IH [OF has_reg_sound [OF Cons.prems(1)] 1(2)] show ?case using sound_trans by blast
qed simp

lemma step_value_yields: "env_safe C \<Longrightarrow> step_value C st s = Code (r, s') \<Longrightarrow> yields C s r s'"
  by (auto simp: step_value_def split: option.split_asm intro: compile_expression_yields load_const_yields)

text \<open>The chain of operations of a statement, one \<open>sound\<close> after the other.\<close>

lemma sound_label: "sound C s s1 \<Longrightarrow> alloc_label C s1 = Code (l, s2) \<Longrightarrow> sound C s s2"
  using alloc_label_sound sound_trans by blast

lemma sound_test:
  "env_safe C \<Longrightarrow> sound C s s1 \<Longrightarrow> compile_expression C e s1 = Code (c, s2) \<Longrightarrow>
     sound C s (emit (JumpIfNot c l) s2)"
  using compile_expression_yields [of C e s1 c s2] sound_trans
  by (auto simp: yields_def ins_defs intro!: sound_emit)

lemma sound_jump: "sound C s s1 \<Longrightarrow> sound C s (emit (Jump l) s1)"
  by (rule sound_emit) (simp_all add: ins_defs)

lemma for_step_sound:
  assumes "env_safe C" "sound C s s1" "step_value C step s1 = Code (f, s2)"
    "compile_load_variable C x s2 = Code (g, s3)" "alloc_reg C s3 = Code (h, s4)"
  shows "sound C s (store_loop_variable x h (emit (Add h g f) s4))"
proof -
  note y = step_value_yields [OF assms(1,3)] compile_load_variable_yields [OF assms(1,4)] alloc_reg_yields [OF assms(1,5)]
  then have "sound C s s4" "has_reg s4 f" "has_reg s4 g" "has_reg s4 h"
    using assms(2) sound_trans has_reg_sound unfolding yields_def by blast+
  then show ?thesis by (intro store_loop_variable_sound sound_emit) (simp_all add: ins_defs)
qed

lemma for_test_sound:
  assumes "env_safe C" "sound C s s1" "compile_load_variable C x s1 = Code (b, s2)"
    "compile_expression C e s2 = Code (c, s3)" "alloc_reg C s3 = Code (d, s4)"
  shows "sound C s (emit (JumpIfNot d l) (emit (CmpLe d b c) s4))"
proof -
  note y = compile_load_variable_yields [OF assms(1,3)] compile_expression_yields [OF assms(1,4)]
    alloc_reg_yields [OF assms(1,5)]
  then have "sound C s s4" "has_reg s4 b" "has_reg s4 c" "has_reg s4 d"
    using assms(2) sound_trans has_reg_sound unfolding yields_def by blast+
  then show ?thesis by (intro sound_emit) (simp_all add: ins_defs)
qed

lemma compile_statement_sound:
  "env_safe C \<Longrightarrow> compile_statement C st s = Code s' \<Longrightarrow> sound C s s'"
  "env_safe C \<Longrightarrow> compile_statements C sts s = Code s' \<Longrightarrow> sound C s s'"
  "env_safe C \<Longrightarrow> compile_else C els s = Code s' \<Longrightarrow> sound C s s'"
  "env_safe C \<Longrightarrow> compile_elsifs C el es s = Code s' \<Longrightarrow> sound C s s'"
  "env_safe C \<Longrightarrow> compile_branches C v bl bs s = Code s' \<Longrightarrow> has_reg s v \<Longrightarrow> sound C s s'"
proof (induction C st s and C sts s and C els s and C el es s and C v bl bs s arbitrary: s' and s' and s' and s' and s'
    rule: compile_statement_compile_statements_compile_else_compile_elsifs_compile_branches.induct)
  case (1 C target e r s)
  then obtain v s1 where 1: "compile_expression C e (set_source r s) = Code (v, s1)" "compile_store C target v r s1 = Code s'"
    by auto
  have "yields C s v s1"
    using yields_after [OF small_steps_sound(1) compile_expression_yields [OF "1.prems"(1) 1(1)]] .
  with compile_store_sound [OF "1.prems"(1) _ 1(2)] show ?case using sound_trans by (auto simp: yields_def)
next
  case (2 C fc s)
  then obtain v where 1: "compile_expression C (E_FunctionCall fc) (set_source (fce_range fc) s) = Code (v, s')"
    by auto
  show ?case
    using yields_after [OF small_steps_sound(1) compile_expression_yields [OF "2.prems"(1) 1]] by (simp add: yields_def)
next
  case (3 C cond body elsifs els r s)
  from "3.prems"(2) obtain end_label s1 else_label s2 c s3 s4 s5 s6 where
    1: "alloc_label C (set_source r s) = Code (end_label, s1)" "alloc_label C s1 = Code (else_label, s2)"
    "compile_expression C cond s2 = Code (c, s3)"
    "compile_statements C body (emit (JumpIfNot c else_label) s3) = Code s4"
    "compile_elsifs C end_label elsifs (place_label else_label (emit (Jump end_label) s4)) = Code s5"
    "compile_else C els s5 = Code s6" "s' = place_label end_label s6"
    by auto
  note env = "3.prems"(1)
  have "sound C s (emit (JumpIfNot c else_label) s3)"
    by (rule sound_test [OF env sound_label [OF sound_label [OF small_steps_sound(1) 1(1)] 1(2)] 1(3)])
  from sound_trans [OF this "3.IH"(1) [OF env 1(4)]]
  have "sound C s (place_label else_label (emit (Jump end_label) s4))" by (intro sound_small sound_jump)
  from sound_trans [OF sound_trans [OF this "3.IH"(2) [OF env 1(5)]] "3.IH"(3) [OF env 1(6)]]
  show ?case unfolding 1(7) by (rule sound_small)
next
  case (4 C e bs els r s)
  from "4.prems"(2) obtain end_label s1 v s2 s3 s4 where
    1: "alloc_label C (set_source r s) = Code (end_label, s1)" "compile_expression C e s1 = Code (v, s2)"
    "compile_branches C v end_label bs s2 = Code s3" "compile_else C els s3 = Code s4" "s' = place_label end_label s4"
    by auto
  note env = "4.prems"(1)
  have y: "yields C s v s2"
    by (rule yields_after [OF sound_label [OF small_steps_sound(1) 1(1)] compile_expression_yields [OF env 1(2)]])
  from sound_trans [OF sound_trans [OF yields_sound [OF y] "4.IH"(1) [OF env 1(3) yields_reg [OF y]]] "4.IH"(2) [OF env 1(4)]]
  show ?case unfolding 1(5) by (rule sound_small)
next
  case (5 C x start to step body r s)
  from "5.prems"(2) obtain loop_label s1 exit_label s2 a s3 b s4 c s5 d s6 s7 f s8 g s9 h s10 where
    1: "alloc_label C (set_source r s) = Code (loop_label, s1)" "alloc_label C s1 = Code (exit_label, s2)"
    "compile_expression C start s2 = Code (a, s3)"
    "compile_load_variable C (id_name x) (place_label loop_label (store_loop_variable (id_name x) a s3)) = Code (b, s4)"
    "compile_expression C to s4 = Code (c, s5)" "alloc_reg C s5 = Code (d, s6)"
    "compile_statements C body (push_exit exit_label (emit (JumpIfNot d exit_label) (emit (CmpLe d b c) s6))) = Code s7"
    "step_value C step (pop_exit s7) = Code (f, s8)" "compile_load_variable C (id_name x) s8 = Code (g, s9)"
    "alloc_reg C s9 = Code (h, s10)"
    "s' = place_label exit_label (emit (Jump loop_label)
       (store_loop_variable (id_name x) h (emit (Add h g f) s10)))"
    by auto
  note env = "5.prems"(1)
  have "yields C s a s3"
    by (rule yields_after [OF sound_label [OF sound_label [OF small_steps_sound(1) 1(1)] 1(2)]
          compile_expression_yields [OF env 1(3)]])
  then have "sound C s (place_label loop_label (store_loop_variable (id_name x) a s3))"
    by (intro sound_small store_loop_variable_sound) (simp_all add: yields_def)
  from sound_small(3) [OF for_test_sound [OF env this 1(4-6)]]
  have "sound C s (push_exit exit_label (emit (JumpIfNot d exit_label) (emit (CmpLe d b c) s6)))" .
  from sound_small(4) [OF sound_trans [OF this "5.IH" [OF env 1(7)]]]
  have "sound C s (store_loop_variable (id_name x) h (emit (Add h g f) s10))"
    by (rule for_step_sound [OF env _ 1(8-10)])
  then show ?case unfolding 1(11) by (intro sound_small sound_jump)
next
  case (6 C cond body r s)
  from "6.prems"(2) obtain loop_label s1 exit_label s2 c s3 s4 where
    1: "alloc_label C (set_source r s) = Code (loop_label, s1)" "alloc_label C s1 = Code (exit_label, s2)"
    "compile_expression C cond (place_label loop_label s2) = Code (c, s3)"
    "compile_statements C body (push_exit exit_label (emit (JumpIfNot c exit_label) s3)) = Code s4"
    "s' = place_label exit_label (emit (Jump loop_label) (pop_exit s4))"
    by auto
  note env = "6.prems"(1)
  have "sound C s (place_label loop_label s2)"
    by (rule sound_small(2) [OF sound_label [OF sound_label [OF small_steps_sound(1) 1(1)] 1(2)]])
  from sound_small(3) [OF sound_test [OF env this 1(3)]]
  have "sound C s (push_exit exit_label (emit (JumpIfNot c exit_label) s3))" .
  from sound_trans [OF this "6.IH" [OF env 1(4)]] show ?case unfolding 1(5) by (intro sound_small sound_jump)
next
  case (7 C body cond r s)
  from "7.prems"(2) obtain loop_label s1 exit_label s2 s3 c s4 where
    1: "alloc_label C (set_source r s) = Code (loop_label, s1)" "alloc_label C s1 = Code (exit_label, s2)"
    "compile_statements C body (push_exit exit_label (place_label loop_label s2)) = Code s3"
    "compile_expression C cond (pop_exit s3) = Code (c, s4)"
    "s' = place_label exit_label (emit (JumpIfNot c loop_label) s4)"
    by auto
  note env = "7.prems"(1)
  have "sound C s (push_exit exit_label (place_label loop_label s2))"
    by (intro sound_small) (rule sound_label [OF sound_label [OF small_steps_sound(1) 1(1)] 1(2)])
  from sound_small(4) [OF sound_trans [OF this "7.IH" [OF env 1(3)]]]
  have "sound C s (emit (JumpIfNot c loop_label) s4)" by (rule sound_test [OF env _ 1(4)])
  then show ?case unfolding 1(5) by (rule sound_small)
next
  case (8 C r s)
  from "8.prems"(2) obtain z s1 where 1: "alloc_reg C (set_source r s) = Code (z, s1)"
    "s' = emit (Ret z) (emit_sourced (LoadConst z (V_Int 0)) r s1)" by auto
  have "yields C s z s1" by (rule yields_after [OF small_steps_sound(1) alloc_reg_yields [OF "8.prems"(1) 1(1)]])
  then show ?case
    unfolding 1(2) by (intro sound_emit sound_emit_sourced) (simp_all add: yields_def ins_defs)
next
  case (9 C r s)
  then show ?case by (auto simp: Let_def intro!: sound_jump split: list.split)
next
  case (12 C st sts s)
  from "12.prems"(2) obtain s1 where 1: "compile_statement C st s = Code s1" "compile_statements C sts s1 = Code s'"
    by auto
  from sound_trans [OF "12.IH"(1) [OF "12.prems"(1) 1(1)] "12.IH"(2) [OF "12.prems"(1) 1(2)]] show ?case .
next
  case (16 C el cond body r es s)
  from "16.prems"(2) obtain next_label s1 c s2 s3 where
    1: "alloc_label C s = Code (next_label, s1)" "compile_expression C cond s1 = Code (c, s2)"
    "compile_statements C body (emit (JumpIfNot c next_label) s2) = Code s3"
    "compile_elsifs C el es (place_label next_label (emit (Jump el) s3)) = Code s'"
    by auto
  note env = "16.prems"(1)
  have "sound C s (emit (JumpIfNot c next_label) s2)"
    by (rule sound_test [OF env alloc_label_sound [OF 1(1)] 1(2)])
  from sound_trans [OF this "16.IH"(1) [OF env 1(3)]]
  have "sound C s (place_label next_label (emit (Jump el) s3))" by (intro sound_small sound_jump)
  from sound_trans [OF this "16.IH"(2) [OF env 1(4)]] show ?case .
next
  case (18 C v bl sels body r bs s)
  from "18.prems"(2) obtain body_label s1 next_label s2 s3 s4 where
    1: "alloc_label C s = Code (body_label, s1)" "alloc_label C s1 = Code (next_label, s2)"
    "cfold (compile_selector C v body_label) sels s2 = Code s3"
    "compile_statements C body (place_label body_label (emit (Jump next_label) s3)) = Code s4"
    "compile_branches C v bl bs (place_label next_label (emit (Jump bl) s4)) = Code s'"
    by auto
  note env = "18.prems"(1)
  have 2: "sound C s s2" by (rule sound_label [OF alloc_label_sound [OF 1(1)] 1(2)])
  from sound_trans [OF this selectors_sound [OF env has_reg_sound [OF "18.prems"(3) 2] 1(3)]]
  have "sound C s (place_label body_label (emit (Jump next_label) s3))" by (intro sound_small sound_jump)
  from sound_trans [OF this "18.IH"(1) [OF env 1(4)]]
  have 3: "sound C s (place_label next_label (emit (Jump bl) s4))" by (intro sound_small sound_jump)
  from sound_trans [OF 3 "18.IH"(2) [OF env 1(5) has_reg_sound [OF "18.prems"(3) 3]]] show ?case .
qed auto

end
