(* ===== verification/Source_Sem.thy ===== *)
theory Source_Sem
  imports Compile_Stmt Vm_Loop
begin

section \<open>What a statement means\<close>

text \<open>
  A reference semantics of the statements a program is made of, on the syntax tree: the values
  of the locals and the globals before and after. It knows nothing of registers, labels or
  instructions. Operators are those of the values in the theory Vm_Ops, assignments narrow to
  the declared width. Expressions are literals, variables with at most one partial access,
  operators and parentheses; statements are assignments to such variables, IF, CASE, FOR, WHILE,
  REPEAT and EXIT. What is beyond this, and an expression that divides by zero or panics, has no
  meaning here.

  The relation does not say what IEC 61131-3 says where the compiled code differs: a FOR loop
  counts upwards whatever the sign of its step.
\<close>

record source_env =
  se_rt :: rt_env
  se_build :: build
  se_locals :: memory_layout
  se_globals :: memory_layout

type_synonym store = "val list \<times> val list"

primrec ok :: "'a chk \<Rightarrow> 'a option" where
  "ok (Res x) = Some x"
| "ok (Panic p) = None"

lemma ok_Some_iff [simp]: "ok r = Some x \<longleftrightarrow> r = Res x"
  by (cases r) auto

subsection \<open>Expressions\<close>

definition binary_value :: "rt_env \<Rightarrow> binary_op \<Rightarrow> val \<Rightarrow> val \<Rightarrow> val option" where
  "binary_value env op a b =
     (case op of
        B_Add \<Rightarrow> ok (val_add a b)
      | B_Sub \<Rightarrow> ok (val_sub a b)
      | B_Mul \<Rightarrow> ok (val_mul a b)
      | B_Div \<Rightarrow> if as_int b = 0 \<and> is_integer_val b then None else ok (val_div a b)
      | B_Mod \<Rightarrow> if as_int b = 0 then None else map_option V_Int (ok (i64_rem (as_int a) (as_int b)))
      | B_Power \<Rightarrow> Some (V_Real (env_powf env (as_real a) (as_real b)))
      | B_And \<Rightarrow> Some (V_Bool (as_bool a \<and> as_bool b))
      | B_Or \<Rightarrow> Some (V_Bool (as_bool a \<or> as_bool b))
      | B_Xor \<Rightarrow> Some (V_Bool (as_bool a \<noteq> as_bool b))
      | B_Eq \<Rightarrow> Some (V_Bool (cmp_eq a b))
      | B_Ne \<Rightarrow> Some (V_Bool (cmp_ne a b))
      | B_Lt \<Rightarrow> Some (V_Bool (cmp_lt a b))
      | B_Gt \<Rightarrow> Some (V_Bool (cmp_gt a b))
      | B_Le \<Rightarrow> Some (V_Bool (cmp_le a b))
      | B_Ge \<Rightarrow> Some (V_Bool (cmp_ge a b)))"

definition unary_value :: "rt_env \<Rightarrow> unary_op \<Rightarrow> val \<Rightarrow> val option" where
  "unary_value env op a =
     (case op of U_Neg \<Rightarrow> ok (val_neg (env_checks env) a) | U_Not \<Rightarrow> Some (V_Bool (\<not> as_bool a)))"

definition part_bits :: "partial_access_kind \<Rightarrow> u8" where
  "part_bits k = (case k of P_Bit \<Rightarrow> 1 | P_Byte \<Rightarrow> 8 | P_Word \<Rightarrow> 16 | P_DWord \<Rightarrow> 32 | P_LWord \<Rightarrow> 64)"

definition partial_value :: "rt_env \<Rightarrow> partial_access_kind \<Rightarrow> u32 \<Rightarrow> val \<Rightarrow> val option" where
  "partial_value env k n a =
     (if k = P_Bit then map_option V_Bool (ok (extract_bit (env_checks env) (as_int a) (ucast n)))
      else map_option V_Int (ok (extract_partial (env_checks env) (as_int a) (ucast n) (part_bits k))))"

definition partial_update :: "rt_env \<Rightarrow> partial_access_kind \<Rightarrow> u32 \<Rightarrow> val \<Rightarrow> val \<Rightarrow> val option" where
  "partial_update env k n a v =
     (if k = P_Bit then map_option V_Int (ok (insert_bit (env_checks env) (as_int a) (ucast n) (as_bool v)))
      else map_option V_Int
        (ok (insert_partial (env_checks env) (as_int a) (ucast n) (part_bits k) (as_int v))))"

text \<open>A local shadows a global; a name that is neither reads as 0 and ignores assignments.\<close>

definition read_var :: "source_env \<Rightarrow> store \<Rightarrow> string \<Rightarrow> val option" where
  "read_var E st x =
     (case find_slot (se_locals E) x of
        Some (i, _) \<Rightarrow> vec_at (fst st) (unat i)
      | None \<Rightarrow>
          (case find_slot (se_globals E) x of
             Some (i, _) \<Rightarrow> vec_at (snd st) (unat i)
           | None \<Rightarrow> Some (V_Int 0)))"

definition assign :: "source_env \<Rightarrow> string \<Rightarrow> val \<Rightarrow> store \<Rightarrow> store" where
  "assign E x v st =
     (case find_slot (se_locals E) x of
        Some (i, _) \<Rightarrow> ((fst st)[unat i := narrow_value v (slot_width (se_locals E) (unat i))], snd st)
      | None \<Rightarrow>
          (case find_slot (se_globals E) x of
             Some (i, _) \<Rightarrow> (fst st, (snd st)[unat i := narrow_value v (slot_width (se_globals E) (unat i))])
           | None \<Rightarrow> st))"

text \<open>The loop variable of FOR is assigned only when it is a local.\<close>

definition assign_local :: "source_env \<Rightarrow> string \<Rightarrow> val \<Rightarrow> store \<Rightarrow> store" where
  "assign_local E x v st = (if find_slot (se_locals E) x = None then st else assign E x v st)"

definition access_value :: "source_env \<Rightarrow> store \<Rightarrow> access_part list \<Rightarrow> val option" where
  "access_value E st parts =
     (case parts of
        [A_Identifier i] \<Rightarrow> read_var E st (id_name i)
      | [A_Identifier i, A_Partial k n] \<Rightarrow> Option.bind (read_var E st (id_name i)) (partial_value (se_rt E) k n)
      | _ \<Rightarrow> None)"

fun eval :: "source_env \<Rightarrow> store \<Rightarrow> expression \<Rightarrow> val option" where
  "eval E st (E_Literal l) = ok (literal_to_value (se_build E) l)"
| "eval E st (E_Variable va) = access_value E st (va_parts va)"
| "eval E st (E_Binary op l r _) =
     Option.bind (eval E st l) (\<lambda>a. Option.bind (eval E st r) (binary_value (se_rt E) op a))"
| "eval E st (E_Unary op e _) = Option.bind (eval E st e) (unary_value (se_rt E) op)"
| "eval E st (E_Parenthesized e) = eval E st e"
| "eval E st _ = None"

text \<open>Whether one of the selectors of a CASE branch matches; they are tried in order.\<close>

fun matches :: "source_env \<Rightarrow> store \<Rightarrow> val \<Rightarrow> case_selector list \<Rightarrow> bool option" where
  "matches E st v [] = Some False"
| "matches E st v (Single e # sels) =
     Option.bind (eval E st e) (\<lambda>w. if cmp_eq v w then Some True else matches E st v sels)"
| "matches E st v (Range lo hi # sels) =
     Option.bind (eval E st lo) (\<lambda>a. Option.bind (eval E st hi) (\<lambda>b.
       if cmp_ge v a \<and> cmp_le v b then Some True else matches E st v sels))"

definition step_of :: "source_env \<Rightarrow> store \<Rightarrow> expression option \<Rightarrow> val option" where
  "step_of E st e = (case e of None \<Rightarrow> Some (V_Int 1) | Some e \<Rightarrow> eval E st e)"

definition else_statements :: "statement list option \<Rightarrow> statement list" where
  "else_statements els = (case els of None \<Rightarrow> [] | Some sts \<Rightarrow> sts)"

subsection \<open>Statements\<close>

text \<open>A statement ends normally or by an EXIT that looks for its loop.\<close>

datatype ending = Normal | Exited

inductive run_stmt :: "source_env \<Rightarrow> statement \<Rightarrow> store \<Rightarrow> ending \<Rightarrow> store \<Rightarrow> bool"
  and run_stmts :: "source_env \<Rightarrow> statement list \<Rightarrow> store \<Rightarrow> ending \<Rightarrow> store \<Rightarrow> bool"
  and run_elsifs :: "source_env \<Rightarrow> elsif_clause list \<Rightarrow> statement list option \<Rightarrow> store \<Rightarrow> ending \<Rightarrow> store \<Rightarrow> bool"
  and run_branches ::
    "source_env \<Rightarrow> val \<Rightarrow> case_branch list \<Rightarrow> statement list option \<Rightarrow> store \<Rightarrow> ending \<Rightarrow> store \<Rightarrow> bool"
  and run_for :: "source_env \<Rightarrow> string \<Rightarrow> expression \<Rightarrow> expression option \<Rightarrow> statement list \<Rightarrow>
    store \<Rightarrow> store \<Rightarrow> bool"
  for E :: source_env where
  run_assign: "eval E st e = Some v \<Longrightarrow>
    run_stmt E (S_Assignment (VariableAccess [A_Identifier x] rg) e r) st Normal (assign E (id_name x) v st)"
| run_assign_part: "eval E st e = Some v \<Longrightarrow> read_var E st (id_name x) = Some a \<Longrightarrow>
    partial_update (se_rt E) k n a v = Some w \<Longrightarrow>
    run_stmt E (S_Assignment (VariableAccess [A_Identifier x, A_Partial k n] rg) e r) st Normal
      (assign E (id_name x) w st)"
| run_if_true: "eval E st c = Some v \<Longrightarrow> as_bool v \<Longrightarrow> run_stmts E body st out st' \<Longrightarrow>
    run_stmt E (S_If c body es els r) st out st'"
| run_if_false: "eval E st c = Some v \<Longrightarrow> \<not> as_bool v \<Longrightarrow> run_elsifs E es els st out st' \<Longrightarrow>
    run_stmt E (S_If c body es els r) st out st'"
| run_case: "eval E st e = Some v \<Longrightarrow> run_branches E v bs els st out st' \<Longrightarrow>
    run_stmt E (S_Case e bs els r) st out st'"
| run_for_start: "eval E st start = Some v \<Longrightarrow>
    run_for E (id_name x) to step body (assign_local E (id_name x) v st) st' \<Longrightarrow>
    run_stmt E (S_For x start to step body r) st Normal st'"
| run_while_end: "eval E st c = Some v \<Longrightarrow> \<not> as_bool v \<Longrightarrow> run_stmt E (S_While c body r) st Normal st"
| run_while_exit: "eval E st c = Some v \<Longrightarrow> as_bool v \<Longrightarrow> run_stmts E body st Exited st' \<Longrightarrow>
    run_stmt E (S_While c body r) st Normal st'"
| run_while_next: "eval E st c = Some v \<Longrightarrow> as_bool v \<Longrightarrow> run_stmts E body st Normal st1 \<Longrightarrow>
    run_stmt E (S_While c body r) st1 Normal st' \<Longrightarrow> run_stmt E (S_While c body r) st Normal st'"
| run_repeat_exit: "run_stmts E body st Exited st' \<Longrightarrow> run_stmt E (S_Repeat body c r) st Normal st'"
| run_repeat_end: "run_stmts E body st Normal st' \<Longrightarrow> eval E st' c = Some v \<Longrightarrow> as_bool v \<Longrightarrow>
    run_stmt E (S_Repeat body c r) st Normal st'"
| run_repeat_next: "run_stmts E body st Normal st1 \<Longrightarrow> eval E st1 c = Some v \<Longrightarrow> \<not> as_bool v \<Longrightarrow>
    run_stmt E (S_Repeat body c r) st1 Normal st' \<Longrightarrow> run_stmt E (S_Repeat body c r) st Normal st'"
| run_exit: "run_stmt E (S_Exit r) st Exited st"
| run_empty: "run_stmt E (S_Empty r) st Normal st"
| run_nil: "run_stmts E [] st Normal st"
| run_cons: "run_stmt E s st Normal st1 \<Longrightarrow> run_stmts E ss st1 out st' \<Longrightarrow> run_stmts E (s # ss) st out st'"
| run_cons_exit: "run_stmt E s st Exited st' \<Longrightarrow> run_stmts E (s # ss) st Exited st'"
| run_else: "run_stmts E (else_statements els) st out st' \<Longrightarrow> run_elsifs E [] els st out st'"
| run_elsif_true: "eval E st c = Some v \<Longrightarrow> as_bool v \<Longrightarrow> run_stmts E body st out st' \<Longrightarrow>
    run_elsifs E (ElsifClause c body r # es) els st out st'"
| run_elsif_false: "eval E st c = Some v \<Longrightarrow> \<not> as_bool v \<Longrightarrow> run_elsifs E es els st out st' \<Longrightarrow>
    run_elsifs E (ElsifClause c body r # es) els st out st'"
| run_no_branch: "run_stmts E (else_statements els) st out st' \<Longrightarrow> run_branches E v [] els st out st'"
| run_branch_taken: "matches E st v sels = Some True \<Longrightarrow> run_stmts E body st out st' \<Longrightarrow>
    run_branches E v (CaseBranch sels body r # bs) els st out st'"
| run_branch_skipped: "matches E st v sels = Some False \<Longrightarrow> run_branches E v bs els st out st' \<Longrightarrow>
    run_branches E v (CaseBranch sels body r # bs) els st out st'"
| run_for_end: "read_var E st x = Some a \<Longrightarrow> eval E st to = Some b \<Longrightarrow> \<not> cmp_le a b \<Longrightarrow>
    run_for E x to step body st st"
| run_for_exit: "read_var E st x = Some a \<Longrightarrow> eval E st to = Some b \<Longrightarrow> cmp_le a b \<Longrightarrow>
    run_stmts E body st Exited st' \<Longrightarrow> run_for E x to step body st st'"
| run_for_next: "read_var E st x = Some a \<Longrightarrow> eval E st to = Some b \<Longrightarrow> cmp_le a b \<Longrightarrow>
    run_stmts E body st Normal st1 \<Longrightarrow> step_of E st1 step = Some d \<Longrightarrow> read_var E st1 x = Some a1 \<Longrightarrow>
    val_add a1 d = Res a2 \<Longrightarrow> run_for E x to step body (assign_local E x a2 st1) st' \<Longrightarrow>
    run_for E x to step body st st'"

inductive_cases run_for_cases: "run_for E x to step body st st'"

subsection \<open>The shape of the store\<close>

definition store_ok :: "source_env \<Rightarrow> store \<Rightarrow> bool" where
  "store_ok E st \<longleftrightarrow> length (fst st) = length (slots (se_locals E)) \<and> length (snd st) = length (slots (se_globals E))"

lemma store_ok_assign [simp]: "store_ok E st \<Longrightarrow> store_ok E (assign E x v st)"
  by (auto simp: store_ok_def assign_def split: option.split)

lemma store_ok_assign_local [simp]: "store_ok E st \<Longrightarrow> store_ok E (assign_local E x v st)"
  by (simp add: assign_local_def)

lemma run_store_ok:
  "run_stmt E s st out st' \<Longrightarrow> store_ok E st \<Longrightarrow> store_ok E st'"
  "run_stmts E ss st out st' \<Longrightarrow> store_ok E st \<Longrightarrow> store_ok E st'"
  "run_elsifs E es els st out st' \<Longrightarrow> store_ok E st \<Longrightarrow> store_ok E st'"
  "run_branches E v bs els st out st' \<Longrightarrow> store_ok E st \<Longrightarrow> store_ok E st'"
  "run_for E x to step body st st' \<Longrightarrow> store_ok E st \<Longrightarrow> store_ok E st'"
  by (induction rule: run_stmt_run_stmts_run_elsifs_run_branches_run_for.inducts) simp_all

end
