(* ===== verification/Compile_Expr.thy ===== *)
theory Compile_Expr
  imports Compile_Frame Source_Sem
begin

section \<open>Compiled expressions compute their values\<close>

text \<open>
  The code of an expression, embedded in a function that the machine is running, leaves the
  value of the reference semantics in its register, the locals, the globals and the lower
  registers as they were and the program counter at its end. The only other thing that can
  happen on the way is that the instruction limit of the machine is reached.
\<close>

subsection \<open>The machine inside one call\<close>

text \<open>
  Where the code runs: the machine and the frame apart from what the code changes, which is the
  program counter, the registers, the locals and the globals (a configuration), the instruction
  counter and the debugger's state.
\<close>

record site =
  si_env :: rt_env
  si_base :: vm
  si_frame :: frame
  si_rest :: "frame list"
  si_func :: func

type_synonym conf = "nat \<times> val list \<times> val list \<times> val list"

definition site_ok :: "site \<Rightarrow> bool" where
  "site_ok S \<longleftrightarrow> func_at (si_base S) (fr_func (si_frame S)) = Res (si_func S) \<and>
     vm_forced (si_base S) = [] \<and> vm_forced_slots (si_base S) = {}"

fun vm_at :: "site \<Rightarrow> conf \<Rightarrow> nat \<Rightarrow> debug_state \<Rightarrow> vm" where
  "vm_at S (pc, regs, ls, gs) n d =
     (si_base S)\<lparr>vm_stack := (si_frame S)\<lparr>fr_pc := pc, fr_regs := regs, fr_locals := ls\<rparr> # si_rest S,
       vm_globals := gs, vm_count := n, vm_debug := d\<rparr>"

text \<open>Updates of the frame and of the machine in one order.\<close>

lemma sort_updates:
  "f\<lparr>fr_regs := r, fr_pc := p\<rparr> = f\<lparr>fr_pc := p, fr_regs := r\<rparr>"
  "f\<lparr>fr_locals := l, fr_pc := p\<rparr> = f\<lparr>fr_pc := p, fr_locals := l\<rparr>"
  "f\<lparr>fr_locals := l, fr_regs := r\<rparr> = f\<lparr>fr_regs := r, fr_locals := l\<rparr>"
  "vm\<lparr>vm_globals := g, vm_stack := st\<rparr> = vm\<lparr>vm_stack := st, vm_globals := g\<rparr>"
  "vm\<lparr>vm_count := n, vm_stack := st\<rparr> = vm\<lparr>vm_stack := st, vm_count := n\<rparr>"
  "vm\<lparr>vm_debug := d, vm_stack := st\<rparr> = vm\<lparr>vm_stack := st, vm_debug := d\<rparr>"
  "vm\<lparr>vm_count := n, vm_globals := g\<rparr> = vm\<lparr>vm_globals := g, vm_count := n\<rparr>"
  "vm\<lparr>vm_debug := d, vm_globals := g\<rparr> = vm\<lparr>vm_globals := g, vm_debug := d\<rparr>"
  "vm\<lparr>vm_debug := d, vm_count := n\<rparr> = vm\<lparr>vm_count := n, vm_debug := d\<rparr>"
  for f :: frame and vm :: vm
  by (cases f; simp; fail | cases vm; simp)+

lemma func_at_updates:
  "func_at (vm\<lparr>vm_stack := st\<rparr>) i = func_at vm i" "func_at (vm\<lparr>vm_globals := g\<rparr>) i = func_at vm i"
  "func_at (vm\<lparr>vm_count := n\<rparr>) i = func_at vm i" "func_at (vm\<lparr>vm_debug := d\<rparr>) i = func_at vm i"
  by (simp_all add: func_at_def)

definition is_at :: "site \<Rightarrow> conf \<Rightarrow> vm \<Rightarrow> bool" where
  "is_at S c vm \<longleftrightarrow> (\<exists>n d. running_free d \<and> vm = vm_at S c n d)"

text \<open>The next step stops the run at its instruction limit.\<close>

definition at_limit :: "site \<Rightarrow> vm \<Rightarrow> bool" where
  "at_limit S vm \<longleftrightarrow> 0 < max_instructions (vm_conf (si_base S)) \<and>
     (\<exists>vm'. vm_step (si_env S) vm = Fail vm' (ExecutionLimit (max_instructions (vm_conf (si_base S)))))"

definition reaches :: "site \<Rightarrow> conf \<Rightarrow> conf \<Rightarrow> bool" where
  "reaches S c c' \<longleftrightarrow> (\<forall>vm. is_at S c vm \<longrightarrow>
     (\<exists>vm'. vm_reach (si_env S) vm vm' \<and> (is_at S c' vm' \<or> at_limit S vm')))"

lemma vm_reach_trans: "vm_reach env vm2 vm3 \<Longrightarrow> vm_reach env vm1 vm2 \<Longrightarrow> vm_reach env vm1 vm3"
  by (induction rule: vm_reach.induct) (auto intro: reach_step)

lemma reaches_refl [simp]: "reaches S c c"
  unfolding reaches_def using reach_refl by blast

lemma reaches_trans [trans]: "reaches S c1 c2 \<Longrightarrow> reaches S c2 c3 \<Longrightarrow> reaches S c1 c3"
  unfolding reaches_def using vm_reach_trans by blast

text \<open>One instruction, if it is not the one at the limit.\<close>

lemma step_reaches:
  assumes "site_ok S" "pc < length (fn_instructions (si_func S))" "fn_instructions (si_func S) ! pc = ins"
    and exec: "\<And>n d. running_free d \<Longrightarrow>
      exec_instr (si_env S) (fr_func (si_frame S)) ins (vm_at S (pc + 1, regs, ls, gs) n d) = Next (vm_at S c' n d)"
  shows "reaches S (pc, regs, ls, gs) c'"
  unfolding reaches_def
proof (intro allI impI)
  fix vm assume "is_at S (pc, regs, ls, gs) vm"
  then obtain n d where d: "running_free d" and vm: "vm = vm_at S (pc, regs, ls, gs) n d" by (auto simp: is_at_def)
  obtain p d' where p: "should_pause (fr_func (si_frame S)) pc (length (vm_stack vm)) (fn_source_map (si_func S)) d = (p, d')"
    by force
  from running_free_no_pause [OF d p] have d': "p = None" "running_free d'" by simp_all
  let ?max = "max_instructions (vm_conf (si_base S))"
  have f: "func_at vm (fr_func (si_frame S)) = Res (si_func S)"
    using assms(1) by (simp add: site_ok_def vm func_at_def)
  have st: "vm_step (si_env S) vm =
    (if 0 < ?max \<and> ?max < n + 1 then Fail (vm_at S (pc + 1, regs, ls, gs) (n + 1) d') (ExecutionLimit ?max)
     else Next (vm_at S c' (n + 1) d'))"
    using assms(2,3) f p exec [OF d'(2), of "n + 1"] d'(1)
    by (simp add: vm_step_def vm fetch_execute_def Let_def set_top_def sort_updates)
  show "\<exists>vm'. vm_reach (si_env S) vm vm' \<and> (is_at S c' vm' \<or> at_limit S vm')"
  proof (cases "0 < ?max \<and> ?max < n + 1")
    case True
    then have "at_limit S vm" using st by (simp add: at_limit_def vm)
    then show ?thesis using reach_refl by blast
  next
    case False
    then have "vm_step (si_env S) vm = Next (vm_at S c' (n + 1) d')" using st by simp
    then have "vm_reach (si_env S) vm (vm_at S c' (n + 1) d')" using reach_step reach_refl by blast
    moreover have "is_at S c' (vm_at S c' (n + 1) d')" using d'(2) by (auto simp: is_at_def)
    ultimately show ?thesis by blast
  qed
qed

subsection \<open>Single instructions\<close>

text \<open>\<open>ins\<close> is at \<open>pc\<close> in the running function.\<close>

definition has_instr :: "site \<Rightarrow> nat \<Rightarrow> instruction \<Rightarrow> bool" where
  "has_instr S pc ins \<longleftrightarrow> pc < length (fn_instructions (si_func S)) \<and> fn_instructions (si_func S) ! pc = ins"

lemmas machine_simps = top_frame_def reg_get_def reg_set_def put_def op1_def op2_def set_top_def vec_get_def vec_set_def
  sort_updates func_at_updates

lemma LoadConst_reaches:
  "site_ok S \<Longrightarrow> has_instr S pc (LoadConst r v) \<Longrightarrow> unat r < length regs \<Longrightarrow>
     reaches S (pc, regs, ls, gs) (pc + 1, regs[unat r := v], ls, gs)"
  by (rule step_reaches) (auto simp: has_instr_def exec_instr_def machine_simps)

lemma LoadLocal_reaches:
  "site_ok S \<Longrightarrow> has_instr S pc (LoadLocal r slot) \<Longrightarrow> unat r < length regs \<Longrightarrow> unat slot < length ls \<Longrightarrow>
     reaches S (pc, regs, ls, gs) (pc + 1, regs[unat r := ls ! unat slot], ls, gs)"
  by (rule step_reaches)
    (auto simp: has_instr_def site_ok_def exec_instr_def exec_LoadLocal_def forced_value_def local_get_def
      machine_simps split: option.split)

lemma LoadGlobal_reaches:
  "site_ok S \<Longrightarrow> has_instr S pc (LoadGlobal r slot) \<Longrightarrow> unat r < length regs \<Longrightarrow> unat slot < length gs \<Longrightarrow>
     reaches S (pc, regs, ls, gs) (pc + 1, regs[unat r := gs ! unat slot], ls, gs)"
  by (rule step_reaches)
    (auto simp: has_instr_def site_ok_def exec_instr_def exec_LoadGlobal_def forced_value_def machine_simps
      split: option.split)

lemma StoreLocal_reaches:
  "site_ok S \<Longrightarrow> has_instr S pc (StoreLocal slot r) \<Longrightarrow> unat r < length regs \<Longrightarrow> unat slot < length ls \<Longrightarrow>
     reaches S (pc, regs, ls, gs)
       (pc + 1, regs, ls[unat slot := narrow_value (regs ! unat r) (slot_width (fn_locals (si_func S)) (unat slot))], gs)"
  by (rule step_reaches)
    (auto simp: has_instr_def site_ok_def exec_instr_def exec_StoreLocal_def local_set_def machine_simps)

lemma StoreGlobal_reaches:
  "site_ok S \<Longrightarrow> has_instr S pc (StoreGlobal slot r) \<Longrightarrow> unat r < length regs \<Longrightarrow> unat slot < length gs \<Longrightarrow>
     reaches S (pc, regs, ls, gs)
       (pc + 1, regs, ls,
        gs[unat slot := narrow_value (regs ! unat r) (slot_width (md_globals (vm_module (si_base S))) (unat slot))])"
  by (rule step_reaches)
    (auto simp: has_instr_def site_ok_def exec_instr_def exec_StoreGlobal_def machine_simps)

lemma Jump_reaches:
  "site_ok S \<Longrightarrow> has_instr S pc (Jump l) \<Longrightarrow> vec_at (fn_label_positions (si_func S)) (unat l) = Some t \<Longrightarrow>
     reaches S (pc, regs, ls, gs) (t, regs, ls, gs)"
  by (rule step_reaches) (auto simp: has_instr_def site_ok_def exec_instr_def jump_to_def machine_simps simp del: vec_at_Some_iff)

lemma JumpIf_reaches:
  "site_ok S \<Longrightarrow> has_instr S pc (JumpIf r l) \<Longrightarrow> vec_at (fn_label_positions (si_func S)) (unat l) = Some t \<Longrightarrow>
     unat r < length regs \<Longrightarrow>
     reaches S (pc, regs, ls, gs) (if as_bool (regs ! unat r) then t else pc + 1, regs, ls, gs)"
  by (rule step_reaches)
    (auto simp: has_instr_def site_ok_def exec_instr_def exec_JumpIf_def jump_to_def machine_simps simp del: vec_at_Some_iff)

lemma JumpIfNot_reaches:
  "site_ok S \<Longrightarrow> has_instr S pc (JumpIfNot r l) \<Longrightarrow> vec_at (fn_label_positions (si_func S)) (unat l) = Some t \<Longrightarrow>
     unat r < length regs \<Longrightarrow>
     reaches S (pc, regs, ls, gs) (if as_bool (regs ! unat r) then pc + 1 else t, regs, ls, gs)"
  by (rule step_reaches)
    (auto simp: has_instr_def site_ok_def exec_instr_def exec_JumpIf_def jump_to_def machine_simps simp del: vec_at_Some_iff)

lemma binary_reaches:
  assumes "site_ok S" "has_instr S pc (binary_instruction op dst a b)"
    "unat dst < length regs" "unat a < length regs" "unat b < length regs"
    "binary_value (si_env S) op (regs ! unat a) (regs ! unat b) = Some v"
  shows "reaches S (pc, regs, ls, gs) (pc + 1, regs[unat dst := v], ls, gs)"
  by (rule step_reaches [OF assms(1)])
    (use assms in \<open>auto simp: has_instr_def binary_instruction_def binary_value_def exec_instr_def exec_Div_def
      exec_Mod_def machine_simps split: binary_op.splits if_splits\<close>)

lemma unary_reaches:
  assumes "site_ok S" "has_instr S pc (unary_instruction op dst a)"
    "unat dst < length regs" "unat a < length regs" "unary_value (si_env S) op (regs ! unat a) = Some v"
  shows "reaches S (pc, regs, ls, gs) (pc + 1, regs[unat dst := v], ls, gs)"
  by (rule step_reaches [OF assms(1)])
    (use assms in \<open>auto simp: has_instr_def unary_instruction_def unary_value_def exec_instr_def machine_simps
      split: unary_op.splits\<close>)

lemma partial_read_reaches:
  assumes "site_ok S" "has_instr S pc (partial_read k dst a n)"
    "unat dst < length regs" "unat a < length regs" "partial_value (si_env S) k n (regs ! unat a) = Some v"
  shows "reaches S (pc, regs, ls, gs) (pc + 1, regs[unat dst := v], ls, gs)"
  by (rule step_reaches [OF assms(1)])
    (use assms in \<open>auto simp: has_instr_def partial_read_def partial_value_def part_bits_def exec_instr_def
      machine_simps split: partial_access_kind.splits if_splits\<close>)

lemma partial_write_reaches:
  assumes "site_ok S" "has_instr S pc (partial_write k dst a n b)"
    "unat dst < length regs" "unat a < length regs" "unat b < length regs"
    "partial_update (si_env S) k n (regs ! unat a) (regs ! unat b) = Some v"
  shows "reaches S (pc, regs, ls, gs) (pc + 1, regs[unat dst := v], ls, gs)"
  by (rule step_reaches [OF assms(1)])
    (use assms in \<open>auto simp: has_instr_def partial_write_def partial_update_def part_bits_def exec_instr_def
      machine_simps split: partial_access_kind.splits if_splits\<close>)

subsection \<open>Expressions\<close>

text \<open>The compiler, the semantics and the site are about the same function.\<close>

definition linked :: "source_env \<Rightarrow> fn_env \<Rightarrow> fn_state \<Rightarrow> site \<Rightarrow> bool" where
  "linked E C s S \<longleftrightarrow> site_ok S \<and> bd_checks (ce_build C) \<and> se_build E = ce_build C \<and> se_rt E = si_env S \<and>
     se_locals E = fs_locals s \<and> fn_locals (si_func S) = fs_locals s \<and>
     se_globals E = ce_globals C \<and> md_globals (vm_module (si_base S)) = ce_globals C"

lemma linked_site: "linked E C s S \<Longrightarrow> site_ok S \<and> bd_checks (ce_build C)"
  by (simp add: linked_def)

lemma linked_same_names: "linked E C s S \<Longrightarrow> same_names s s' \<Longrightarrow> linked E C s' S"
  by (simp add: linked_def same_names_def)

lemma linked_extended: "linked E C s S \<Longrightarrow> extended s s' \<Longrightarrow> linked E C s' S"
  using linked_same_names by (simp add: extended_def)

lemma linked_fresh: "linked E C s S \<Longrightarrow> fresh s r s' \<Longrightarrow> linked E C s' S"
  using linked_extended fresh_extended by blast

definition within :: "site \<Rightarrow> fn_state \<Rightarrow> bool" where
  "within S s \<longleftrightarrow> prefix (fs_instructions s) (fn_instructions (si_func S))"

lemma within_prefix: "within S s' \<Longrightarrow> prefix (fs_instructions s) (fs_instructions s') \<Longrightarrow> within S s"
  unfolding within_def using prefix_order.trans by blast

lemma within_extended: "within S s' \<Longrightarrow> extended s s' \<Longrightarrow> within S s"
  using within_prefix by (simp add: extended_def)

lemma current_pc_emit [simp]:
  "current_pc (emit ins s) = current_pc s + 1" "current_pc (emit_sourced ins rg s) = current_pc s + 1"
  "current_pc (set_source rg s) = current_pc s" "current_pc (push_exit l s) = current_pc s"
  "current_pc (pop_exit s) = current_pc s" "current_pc (place_label l s) = current_pc s"
  by (simp_all add: current_pc_def emit_def emit_sourced_def set_source_def push_exit_def pop_exit_def place_label_def)

lemma has_instr_append:
  "prefix (code @ [ins]) (fn_instructions (si_func S)) \<Longrightarrow> has_instr S (length code) ins"
  by (auto simp: has_instr_def prefix_def nth_append)

lemma within_emit: "within S (emit ins s) \<Longrightarrow> has_instr S (current_pc s) ins \<and> within S s"
  using has_instr_append [of "fs_instructions s" ins S] within_extended [of S "emit ins s" s]
  by (simp add: within_def emit_def current_pc_def append_prefixD)

lemma within_emit_sourced: "within S (emit_sourced ins rg s) \<Longrightarrow> has_instr S (current_pc s) ins \<and> within S s"
  using has_instr_append [of "fs_instructions s" ins S]
  by (simp add: within_def emit_sourced_def current_pc_def append_prefixD)

text \<open>Code that leaves a value in a register, the lower registers and the store as they are.\<close>

definition computes :: "site \<Rightarrow> fn_state \<Rightarrow> fn_state \<Rightarrow> store \<Rightarrow> reg \<Rightarrow> val \<Rightarrow> val list \<Rightarrow> val list \<Rightarrow> bool" where
  "computes S s s' st r v regs regs' \<longleftrightarrow>
     reaches S (current_pc s, regs, st) (current_pc s', regs', st) \<and>
     length regs' = length regs \<and> regs' ! unat r = v \<and> (\<forall>k < unat (fs_next_reg s). regs' ! k = regs ! k)"

lemma alloc_reg_pc: "alloc_reg C s = Code (r, s') \<Longrightarrow> current_pc s' = current_pc s"
  by (auto simp: alloc_reg_Code current_pc_def)

text \<open>The last instruction of an expression, after code that only touched registers from \<open>s\<close> on.\<close>

lemma computes_last:
  assumes "reaches S (current_pc s, regs, st) (current_pc s1, regs1, st)"
    "length regs1 = length regs" "\<forall>k < unat (fs_next_reg s). regs1 ! k = regs ! k"
    "bd_checks (ce_build C)" "alloc_reg C s1 = Code (r, s2)" "extended s s1" "unat (fs_next_reg s2) \<le> length regs"
    "reaches S (current_pc s1, regs1, st) (current_pc s1 + 1, regs1[unat r := v], st)"
  shows "computes S s (emit ins s2) st r v regs (regs1[unat r := v])"
proof -
  have r: "r = fs_next_reg s1" "unat (fs_next_reg s2) = unat r + 1" using alloc_reg_extended [OF assms(4,5)] by simp_all
  have "unat (fs_next_reg s) \<le> unat r" using assms(6) r by (simp add: extended_def)
  then show ?thesis
    using assms(2,3,7) r(2) alloc_reg_pc [OF assms(5)] reaches_trans [OF assms(1,8)] by (simp add: computes_def)
qed

lemma load_const_computes:
  assumes "site_ok S" "bd_checks (ce_build C)" "load_const C v s = Code (r, s')" "within S s'"
    "unat (fs_next_reg s') \<le> length regs"
  shows "\<exists>regs'. computes S s s' st r v regs regs'"
proof -
  from assms(3) obtain s1 where 1: "alloc_reg C s = Code (r, s1)" "s' = emit (LoadConst r v) s1"
    by (auto simp: load_const_def)
  have r: "unat r < length regs" using alloc_reg_extended [OF assms(2) 1(1)] assms(5) 1(2) by (simp add: emit_def)
  have "has_instr S (current_pc s) (LoadConst r v)"
    using within_emit assms(4) alloc_reg_pc [OF 1(1)] 1(2) by metis
  with LoadConst_reaches [OF assms(1) _ r] have
    i: "reaches S (current_pc s, regs, st) (current_pc s + 1, regs[unat r := v], st)" by (cases st) blast
  have "computes S s (emit (LoadConst r v) s1) st r v regs (regs[unat r := v])"
    by (rule computes_last [OF reaches_refl refl _ assms(2) 1(1) _ _ i]) (use assms(5) 1(2) in \<open>simp_all add: emit_def\<close>)
  then show ?thesis using 1(2) by blast
qed

lemma find_local_iff:
  "find_local s x = (case find_slot (fs_locals s) x of None \<Rightarrow> None | Some (i, _) \<Rightarrow> Some i)"
  by (auto simp: find_local_def split: option.split)

lemma find_global_iff:
  "find_global C x = (case find_slot (ce_globals C) x of None \<Rightarrow> None | Some (i, _) \<Rightarrow> Some i)"
  by (auto simp: find_global_def split: option.split)

lemma load_variable_computes:
  assumes "linked E C s S" "compile_load_variable C x s = Code (r, s')" "read_var E st x = Some v"
    "within S s'" "unat (fs_next_reg s') \<le> length regs"
  shows "\<exists>regs'. computes S s s' st r v regs regs'"
proof -
  note bd = linked_site [OF assms(1), THEN conjunct2] and site = linked_site [OF assms(1), THEN conjunct1]
  from assms(2) obtain s1 ins where 1: "alloc_reg C s = Code (r, s1)" "s' = emit ins s1" and
    ins: "ins = (case find_local s1 x of Some slot \<Rightarrow> LoadLocal r slot
       | None \<Rightarrow> (case find_global C x of Some slot \<Rightarrow> LoadGlobal r slot | None \<Rightarrow> LoadConst r (V_Int 0)))"
    by (auto simp: compile_load_variable_def)
  have r: "unat r < length regs" using alloc_reg_extended [OF bd 1(1)] assms(5) 1(2) by (simp add: emit_def)
  have loc: "fs_locals s1 = se_locals E" "ce_globals C = se_globals E"
    using alloc_reg_extended [OF bd 1(1)] assms(1) by (auto simp: extended_def same_names_def linked_def)
  have i: "has_instr S (current_pc s) ins"
    using within_emit assms(4) alloc_reg_pc [OF 1(1)] 1(2) by metis
  obtain ls gs where st: "st = (ls, gs)" by (cases st)
  have "reaches S (current_pc s, regs, st) (current_pc s + 1, regs[unat r := v], st)"
    using i assms(3) LoadLocal_reaches [OF site _ r] LoadGlobal_reaches [OF site _ r] LoadConst_reaches [OF site _ r]
    by (auto simp: st ins find_local_iff find_global_iff loc read_var_def split: option.split_asm)
  then have "computes S s (emit ins s1) st r v regs (regs[unat r := v])"
    by (intro computes_last [OF reaches_refl refl _ bd 1(1)]) (use assms(5) 1(2) in \<open>simp_all add: emit_def\<close>)
  then show ?thesis using 1(2) by blast
qed

lemma computesD:
  assumes "computes S s s' st r v regs regs'"
  shows "reaches S (current_pc s, regs, st) (current_pc s', regs', st)" "length regs' = length regs"
    "regs' ! unat r = v" "\<forall>k < unat (fs_next_reg s). regs' ! k = regs ! k"
  using assms by (simp_all add: computes_def)

lemma fresh_room: "fresh s r s' \<Longrightarrow> unat (fs_next_reg s') \<le> n \<Longrightarrow> unat r < n"
  by (simp add: fresh_def)

lemma extended_room: "extended s s' \<Longrightarrow> unat (fs_next_reg s') \<le> n \<Longrightarrow> unat (fs_next_reg s) \<le> n"
  by (simp add: extended_def)

lemma emit_next_reg [simp]: "fs_next_reg (emit ins s) = fs_next_reg s" "fs_next_reg (emit_sourced ins rg s) = fs_next_reg s"
  by (simp_all add: emit_def emit_sourced_def)

lemma partial_read_computes:
  assumes "linked E C s S" "compile_load_variable C x s = Code (a, s1)" "compile_partial_read C a k n s1 = Code (r, s')"
    "read_var E st x = Some w" "partial_value (se_rt E) k n w = Some v" "within S s'" "unat (fs_next_reg s') \<le> length regs"
  shows "\<exists>regs'. computes S s s' st r v regs regs'"
proof -
  note bd = linked_site [OF assms(1), THEN conjunct2] and site = linked_site [OF assms(1), THEN conjunct1]
  from assms(3) obtain s2 where 1: "alloc_reg C s1 = Code (r, s2)" "s' = emit (partial_read k r a n) s2"
    by (auto simp: compile_partial_read_def)
  note f = compile_load_variable_fresh [OF bd assms(2)] and g = alloc_reg_fresh [OF bd 1(1)]
  have room2: "unat (fs_next_reg s2) \<le> length regs" using assms(7) 1(2) by simp
  have i: "has_instr S (current_pc s1) (partial_read k r a n)" "within S s2"
    using within_emit [of S "partial_read k r a n" s2] assms(6) 1(2) alloc_reg_pc [OF 1(1)] by simp_all
  have w1: "within S s1" using within_extended [OF i(2) fresh_extended [OF g]] .
  from load_variable_computes [OF assms(1,2,4) w1 extended_room [OF fresh_extended [OF g] room2]]
  obtain regs1 where c: "computes S s s1 st a w regs regs1" by blast
  note d = computesD [OF c]
  obtain ls gs where st: "st = (ls, gs)" by (cases st)
  have "partial_value (si_env S) k n (regs1 ! unat a) = Some v"
    using assms(1,5) d(3) by (simp add: linked_def)
  from partial_read_reaches [OF site i(1) _ _ this, of ls gs]
  have "reaches S (current_pc s1, regs1, st) (current_pc s1 + 1, regs1[unat r := v], st)"
    using d(2) fresh_room [OF g room2] fresh_room [OF f extended_room [OF fresh_extended [OF g] room2]] st by simp
  from computes_last [OF d(1,2,4) bd 1(1) fresh_extended [OF f] room2 this]
  show ?thesis using 1(2) by blast
qed

lemma binary_computes:
  assumes "linked E C s S" "compile_expression C l s = Code (a, s1)" "compile_expression C e s1 = Code (b, s2)"
    "alloc_reg C s2 = Code (r, s3)" "computes S s s1 st a x regs regs1" "computes S s1 s2 st b y regs1 regs2"
    "binary_value (se_rt E) op x y = Some v" "within S (emit (binary_instruction op r a b) s3)"
    "unat (fs_next_reg s3) \<le> length regs"
  shows "\<exists>regs'. computes S s (emit (binary_instruction op r a b) s3) st r v regs regs'"
proof -
  note bd = linked_site [OF assms(1), THEN conjunct2] and site = linked_site [OF assms(1), THEN conjunct1]
  note f = compile_expression_fresh [OF bd assms(2)] and g = compile_expression_fresh [OF bd assms(3)]
    and h = alloc_reg_fresh [OF bd assms(4)]
  note d = computesD [OF assms(5)] and e = computesD [OF assms(6)]
  obtain ls gs where st: "st = (ls, gs)" by (cases st)
  have i: "has_instr S (current_pc s2) (binary_instruction op r a b)"
    using within_emit [OF assms(8)] alloc_reg_pc [OF assms(4)] by simp
  have a: "regs2 ! unat a = x" using e(4) d(3) f by (simp add: fresh_def)
  have room2: "unat (fs_next_reg s2) \<le> length regs" using extended_room [OF fresh_extended [OF h] assms(9)] .
  have "binary_value (si_env S) op (regs2 ! unat a) (regs2 ! unat b) = Some v"
    using assms(1,7) a e(3) by (simp add: linked_def)
  from binary_reaches [OF site i _ _ _ this, of ls gs]
  have last: "reaches S (current_pc s2, regs2, st) (current_pc s2 + 1, regs2[unat r := v], st)"
    using d(2) e(2) fresh_room [OF h assms(9)] fresh_room [OF g room2]
      fresh_room [OF f extended_room [OF fresh_extended [OF g] room2]] st by simp
  have keep: "\<forall>k < unat (fs_next_reg s). regs2 ! k = regs ! k"
    using d(4) e(4) extended_regs [OF fresh_extended [OF f]] by simp
  have "extended s s2" using extended_trans [OF fresh_extended [OF f] fresh_extended [OF g]] .
  from computes_last [OF reaches_trans [OF d(1) e(1)] _ keep bd assms(4) this assms(9) last] d(2) e(2)
  show ?thesis by auto
qed

lemma unary_computes:
  assumes "linked E C s S" "compile_expression C e s = Code (a, s1)" "alloc_reg C s1 = Code (r, s2)"
    "computes S s s1 st a x regs regs1" "unary_value (se_rt E) op x = Some v"
    "within S (emit (unary_instruction op r a) s2)" "unat (fs_next_reg s2) \<le> length regs"
  shows "\<exists>regs'. computes S s (emit (unary_instruction op r a) s2) st r v regs regs'"
proof -
  note bd = linked_site [OF assms(1), THEN conjunct2] and site = linked_site [OF assms(1), THEN conjunct1]
  note f = compile_expression_fresh [OF bd assms(2)] and h = alloc_reg_fresh [OF bd assms(3)]
  note d = computesD [OF assms(4)]
  obtain ls gs where st: "st = (ls, gs)" by (cases st)
  have i: "has_instr S (current_pc s1) (unary_instruction op r a)"
    using within_emit [OF assms(6)] alloc_reg_pc [OF assms(3)] by simp
  have "unary_value (si_env S) op (regs1 ! unat a) = Some v" using assms(1,5) d(3) by (simp add: linked_def)
  from unary_reaches [OF site i _ _ this, of ls gs]
  have "reaches S (current_pc s1, regs1, st) (current_pc s1 + 1, regs1[unat r := v], st)"
    using d(2) fresh_room [OF h assms(7)] fresh_room [OF f extended_room [OF fresh_extended [OF h] assms(7)]] st by simp
  from computes_last [OF d(1,2,4) bd assms(3) fresh_extended [OF f] assms(7) this]
  show ?thesis by blast
qed

lemma access_computes:
  assumes "linked E C s S" "compile_expression C (E_Variable (VariableAccess parts rg)) s = Code (r, s')"
    "access_value E st parts = Some v" "within S s'" "unat (fs_next_reg s') \<le> length regs"
  shows "\<exists>regs'. computes S s s' st r v regs regs'"
proof -
  from assms(3) consider (name) i where "parts = [A_Identifier i]" "read_var E st (id_name i) = Some v"
    | (bits) i k n w where "parts = [A_Identifier i, A_Partial k n]" "read_var E st (id_name i) = Some w"
      "partial_value (se_rt E) k n w = Some v"
    by (auto simp: access_value_def bind_eq_Some_conv split: list.split_asm access_part.split_asm)
  then show ?thesis
  proof cases
    case name
    with assms(2) have "compile_load_variable C (id_name i) s = Code (r, s')"
      by (auto simp: compile_plain_access_def)
    from load_variable_computes [OF assms(1) this name(2) assms(4,5)] show ?thesis .
  next
    case bits
    with assms(2) obtain a s1 where "compile_load_variable C (id_name i) s = Code (a, s1)"
      "compile_partial_read C a k n s1 = Code (r, s')" by auto
    from partial_read_computes [OF assms(1) this bits(2,3) assms(4,5)] show ?thesis .
  qed
qed

lemma expression_computes:
  "linked E C s S \<Longrightarrow> compile_expression C e s = Code (r, s') \<Longrightarrow> eval E st e = Some v \<Longrightarrow> within S s' \<Longrightarrow>
     unat (fs_next_reg s') \<le> length regs \<Longrightarrow> \<exists>regs'. computes S s s' st r v regs regs'"
proof (induction E st e arbitrary: s r s' v regs rule: eval.induct)
  case (1 E st l)
  have "site_ok S" "bd_checks (ce_build C)" "load_const C v s = Code (r, s')"
    using 1 by (auto simp: linked_def)
  from load_const_computes [OF this 1(4,5)] show ?case .
next
  case (2 E st va)
  then show ?case using access_computes by (cases va) simp
next
  case (3 E st op l e rg)
  note bd = linked_site [OF "3.prems"(1), THEN conjunct2]
  from "3.prems"(2) obtain a s1 b s2 s3 where c: "compile_expression C l s = Code (a, s1)"
    "compile_expression C e s1 = Code (b, s2)" "alloc_reg C s2 = Code (r, s3)" "s' = emit (binary_instruction op r a b) s3"
    by auto
  from "3.prems"(3) obtain x y where v: "eval E st l = Some x" "eval E st e = Some y" "binary_value (se_rt E) op x y = Some v"
    by (auto simp: bind_eq_Some_conv)
  note f = compile_expression_fresh [OF bd c(1)] and g = compile_expression_fresh [OF bd c(2)]
    and h = alloc_reg_fresh [OF bd c(3)]
  have w2: "within S s2"
    using within_emit "3.prems"(4) within_extended [OF _ fresh_extended [OF h]] c(4) by blast
  have room3: "unat (fs_next_reg s3) \<le> length regs" using "3.prems"(5) c(4) by simp
  note room2 = extended_room [OF fresh_extended [OF h] room3]
  from "3.IH"(1) [OF "3.prems"(1) c(1) v(1) within_extended [OF w2 fresh_extended [OF g]]
      extended_room [OF fresh_extended [OF g] room2]]
  obtain regs1 where r1: "computes S s s1 st a x regs regs1" by blast
  have "unat (fs_next_reg s2) \<le> length regs1" using room2 computesD(2) [OF r1] by simp
  from "3.IH"(2) [OF v(1) linked_fresh [OF "3.prems"(1) f] c(2) v(2) w2 this]
  obtain regs2 where r2: "computes S s1 s2 st b y regs1 regs2" by blast
  from binary_computes [OF "3.prems"(1) c(1-3) r1 r2 v(3) _ room3] "3.prems"(4) c(4) show ?case by simp
next
  case (4 E st op e rg)
  note bd = linked_site [OF "4.prems"(1), THEN conjunct2]
  from "4.prems"(2) obtain a s1 s2 where c: "compile_expression C e s = Code (a, s1)"
    "alloc_reg C s1 = Code (r, s2)" "s' = emit (unary_instruction op r a) s2"
    by auto
  from "4.prems"(3) obtain x where v: "eval E st e = Some x" "unary_value (se_rt E) op x = Some v"
    by (auto simp: bind_eq_Some_conv)
  note h = alloc_reg_fresh [OF bd c(2)]
  have w1: "within S s1"
    using within_emit "4.prems"(4) within_extended [OF _ fresh_extended [OF h]] c(3) by blast
  have room2: "unat (fs_next_reg s2) \<le> length regs" using "4.prems"(5) c(3) by simp
  from "4.IH" [OF "4.prems"(1) c(1) v(1) w1 extended_room [OF fresh_extended [OF h] room2]]
  obtain regs1 where r1: "computes S s s1 st a x regs regs1" by blast
  from unary_computes [OF "4.prems"(1) c(1,2) r1 v(2) _ room2] "4.prems"(4) c(3) show ?case by simp
qed auto

end
