(* ===== verification/Compile_Code.thy ===== *)
theory Compile_Code
  imports Compile_Expr
begin

section \<open>The code of a statement in the finished function\<close>

text \<open>
  What the compiled function holds for every statement: the code of its parts, the jumps between
  them and where the labels lead. For each construct one lemma takes its code apart, going forward
  by what had been compiled (\<open>tracks\<close>) and backward by what the finished function still has
  (\<open>final\<close>). Runs of the machine over it are \<open>carries\<close>.
\<close>

subsection \<open>Labels and code in the finished function\<close>

abbreviation labels_below :: "fn_state \<Rightarrow> nat" where
  "labels_below s \<equiv> unat (fs_next_label s)"

abbreviation label_at :: "site \<Rightarrow> label \<Rightarrow> nat option" where
  "label_at S l \<equiv> vec_at (fn_label_positions (si_func S)) (unat l)"

text \<open>
  The finished function begins with the code of \<open>s\<close>, has enough registers for it, and has the
  labels of \<open>A\<close> where \<open>s\<close> has placed them.
\<close>

definition final :: "site \<Rightarrow> nat \<Rightarrow> nat set \<Rightarrow> fn_state \<Rightarrow> bool" where
  "final S n A s \<longleftrightarrow> within S s \<and> unat (fs_next_reg s) \<le> n \<and>
     (\<forall>l \<in> A. l < labels_below s \<longrightarrow>
       vec_at (fn_label_positions (si_func S)) l = Some (fs_label_positions s ! l))"

lemma final_mono: "final S n A s \<Longrightarrow> B \<subseteq> A \<Longrightarrow> final S n B s"
  unfolding final_def by blast

lemma final_grown:
  assumes "final S n A s'" "grown (labels_below s) s s'"
  shows "final S n A s"
proof -
  have "within S s" "unat (fs_next_reg s) \<le> n"
    using assms within_prefix [of S s' s] by (simp_all add: final_def grown_def)
  moreover have "vec_at (fn_label_positions (si_func S)) l = Some (fs_label_positions s ! l)"
    if "l \<in> A" "l < labels_below s" for l
  proof -
    have "l < labels_below s'" "fs_label_positions s' ! l = fs_label_positions s ! l"
      using that(2) assms(2) by (simp_all add: grown_def)
    with that(1) assms(1) show ?thesis unfolding final_def by metis
  qed
  ultimately show ?thesis unfolding final_def by blast
qed

lemma final_extended: "final S n A s' \<Longrightarrow> extended s s' \<Longrightarrow> final S n A s"
  by (erule final_grown) (rule extended_grown)

lemma final_emit:
  assumes "final S n A (emit ins s)"
  shows "has_instr S (current_pc s) ins" "final S n A s"
  using assms within_emit [of S ins s] final_extended [OF assms emit_extended] by (simp_all add: final_def)

lemma final_push_pop [simp]: "final S n A (pop_exit s) = final S n A s" "final S n A (push_exit l s) = final S n A s"
  by (simp_all add: final_def pop_exit_def push_exit_def within_def)

lemma final_place:
  assumes "final S n A (place_label l s)" "unat l \<in> A" "unat l < labels_below s" "labels_ok s"
  shows "label_at S l = Some (current_pc s)" "final S n (A - {unat l}) s"
proof -
  have p: "fs_label_positions (place_label l s) = (fs_label_positions s)[unat l := current_pc s]"
    using assms(3,4) by (simp add: place_label_def room_for_def labels_ok_def pad_to_def)
  have f: "vec_at (fn_label_positions (si_func S)) k = Some ((fs_label_positions s)[unat l := current_pc s] ! k)"
    if "k \<in> A" "k < labels_below s" for k
    using that assms(1) unfolding final_def p by (simp add: place_label_def)
  show "label_at S l = Some (current_pc s)"
    using f [OF assms(2,3)] assms(3,4) by (simp add: labels_ok_def)
  have "vec_at (fn_label_positions (si_func S)) k = Some (fs_label_positions s ! k)"
    if "k \<in> A - {unat l}" "k < labels_below s" for k
    using f [of k] that by simp
  moreover have "within S s" "unat (fs_next_reg s) \<le> n"
    using assms(1) by (simp_all add: final_def place_label_def within_def)
  ultimately show "final S n (A - {unat l}) s" unfolding final_def by blast
qed

text \<open>A piece of code between two states, inside the finished function.\<close>

definition piece :: "source_env \<Rightarrow> fn_env \<Rightarrow> site \<Rightarrow> nat \<Rightarrow> fn_state \<Rightarrow> fn_state \<Rightarrow> bool" where
  "piece E C S n s s' \<longleftrightarrow> linked E C s S \<and> labels_ok s \<and> final S n {labels_below s..} s'"

lemma piece_bd: "piece E C S n s s' \<Longrightarrow> bd_checks (ce_build C)"
  by (simp add: piece_def linked_def)

lemma piece_site: "piece E C S n s s' \<Longrightarrow> site_ok S"
  by (simp add: piece_def linked_def)

subsection \<open>Runs that may change registers\<close>

definition carries :: "site \<Rightarrow> nat \<Rightarrow> nat \<Rightarrow> store \<Rightarrow> nat \<Rightarrow> store \<Rightarrow> bool" where
  "carries S n pc st pc' st' \<longleftrightarrow>
     (\<forall>regs. n \<le> length regs \<longrightarrow> (\<exists>regs'. length regs' = length regs \<and> reaches S (pc, regs, st) (pc', regs', st')))"

lemma carries_refl [simp]: "carries S n pc st pc st"
  unfolding carries_def using reaches_refl by blast

lemma carries_trans [trans]: "carries S n p1 s1 p2 s2 \<Longrightarrow> carries S n p2 s2 p3 s3 \<Longrightarrow> carries S n p1 s1 p3 s3"
proof -
  assume c1: "carries S n p1 s1 p2 s2" and c2: "carries S n p2 s2 p3 s3"
  show "carries S n p1 s1 p3 s3"
    unfolding carries_def
  proof (intro allI impI)
    fix regs :: "val list" assume "n \<le> length regs"
    with c1 obtain r1 where r1: "length r1 = length regs" "reaches S (p1, regs, s1) (p2, r1, s2)"
      unfolding carries_def by blast
    with \<open>n \<le> length regs\<close> c2 obtain r2 where r2: "length r2 = length r1" "reaches S (p2, r1, s2) (p3, r2, s3)"
      unfolding carries_def by (metis r1(1))
    from reaches_trans [OF r1(2) r2(2)] r1(1) r2(1)
    show "\<exists>regs'. length regs' = length regs \<and> reaches S (p1, regs, s1) (p3, regs', s3)" by metis
  qed
qed

lemma carriesI:
  assumes "\<And>regs. n \<le> length regs \<Longrightarrow>
    \<exists>c regs2. reaches S (p1, regs, s1) c \<and> reaches S c (p3, regs2, s3) \<and> length regs2 = length regs"
  shows "carries S n p1 s1 p3 s3"
  unfolding carries_def
proof (intro allI impI)
  fix regs :: "val list" assume "n \<le> length regs"
  from assms [OF this] obtain c r2 where "length r2 = length regs"
    "reaches S (p1, regs, s1) c" "reaches S c (p3, r2, s3)" by blast
  with reaches_trans [OF this(2,3)]
  show "\<exists>regs'. length regs' = length regs \<and> reaches S (p1, regs, s1) (p3, regs', s3)" by blast
qed

lemma jump_carries:
  assumes "site_ok S" "has_instr S pc (Jump l)" "label_at S l = Some t"
  shows "carries S n pc st t st"
  using Jump_reaches [OF assms, of _ "fst st" "snd st"] by (auto simp: carries_def)

text \<open>A condition and the jump that tests it.\<close>

lemma expression_then:
  assumes "linked E C s S" "compile_expression C e s = Code (r, s1)" "eval E st e = Some v"
    "final S n a s1" "n \<le> length regs"
  obtains regs' where "computes S s s1 st r v regs regs'" "unat r < length regs'"
proof -
  have room: "within S s1" "unat (fs_next_reg s1) \<le> length regs" using assms(4,5) by (simp_all add: final_def)
  obtain regs' where c: "computes S s s1 st r v regs regs'"
    using expression_computes [OF assms(1-3) room] by blast
  moreover have "unat r < length regs'"
    using fresh_room [OF compile_expression_fresh [OF linked_site [OF assms(1), THEN conjunct2] assms(2)] room(2)]
      computesD(2) [OF c] by simp
  ultimately show thesis by (rule that)
qed

lemma branch_carries:
  assumes "linked E C s S" "compile_expression C e s = Code (r, s1)"
    "final S n a (emit (JumpIfNot r l) s1)" "label_at S l = Some t" "eval E st e = Some v"
  shows "carries S n (current_pc s) st (if as_bool v then current_pc s1 + 1 else t) st"
proof (rule carriesI)
  fix regs :: "val list" assume n: "n \<le> length regs"
  note site = linked_site [OF assms(1), THEN conjunct1]
  note f = final_emit [OF assms(3)]
  obtain regs' where c: "computes S s s1 st r v regs regs'" and r: "unat r < length regs'"
    using expression_then [OF assms(1,2,5) f(2) n] by blast
  note d = computesD [OF c]
  have "reaches S (current_pc s1, regs', st) (if as_bool v then current_pc s1 + 1 else t, regs', st)"
    using JumpIfNot_reaches [OF site f(1) assms(4) r, of "fst st" "snd st"] d(3) by simp
  with d(1,2) show "\<exists>c regs2. reaches S (current_pc s, regs, st) c \<and>
      reaches S c (if as_bool v then current_pc s1 + 1 else t, regs2, st) \<and> length regs2 = length regs"
    by blast
qed

subsection \<open>Assignments\<close>

lemma find_slot_less: "find_slot l x = Some (i, v) \<Longrightarrow> unat i < length (slots l)"
  using find_slot_SomeD by blast

lemma store_variable_reaches:
  assumes "linked E C s S" "store_ok E st" "within S (store_variable C x r rg s)" "unat r < length regs"
    "regs ! unat r = v"
  shows "reaches S (current_pc s, regs, st) (current_pc (store_variable C x r rg s), regs, assign E x v st)"
proof -
  obtain ls gs where st: "st = (ls, gs)" by (cases st)
  have l: "fs_locals s = se_locals E" "ce_globals C = se_globals E" "fn_locals (si_func S) = se_locals E"
    "md_globals (vm_module (si_base S)) = se_globals E" "site_ok S"
    using assms(1) by (auto simp: linked_def)
  note i = within_emit_sourced [of S _ rg s]
  show ?thesis
  proof (cases "find_slot (se_locals E) x")
    case (Some p)
    then obtain i v' where p: "find_slot (se_locals E) x = Some (i, v')" by (cases p) auto
    have "unat i < length ls" using find_slot_less [OF p] assms(2) st by (simp add: store_ok_def)
    with StoreLocal_reaches [OF l(5) _ assms(4), of "current_pc s" i ls gs] i assms(3,5) p show ?thesis
      by (auto simp: store_variable_def find_local_iff l assign_def st)
  next
    case None
    note loc = None
    show ?thesis
    proof (cases "find_slot (se_globals E) x")
      case (Some p)
      then obtain i v' where p: "find_slot (se_globals E) x = Some (i, v')" by (cases p) auto
      have "unat i < length gs" using find_slot_less [OF p] assms(2) st by (simp add: store_ok_def)
      with StoreGlobal_reaches [OF l(5) _ assms(4), of "current_pc s" i gs ls] i assms(3,5) p loc show ?thesis
        by (auto simp: store_variable_def find_local_iff find_global_iff l assign_def st)
    qed (use loc in \<open>simp add: store_variable_def find_local_iff find_global_iff l assign_def\<close>)
  qed
qed

lemma final_store_variable: "final S n a (store_variable C x r rg s) \<Longrightarrow> final S n a s"
  by (erule final_extended) (rule store_variable_extended)

lemma set_source_final [simp]: "final S n a (set_source rg s) = final S n a s"
  by (simp add: final_def set_source_def within_def)

lemma set_source_linked [simp]: "linked E C (set_source rg s) S = linked E C s S"
  by (simp add: linked_def set_source_def)

lemma assign_carries:
  assumes "compile_statement C (S_Assignment (VariableAccess [A_Identifier x] rg) e r) s = Code s'"
    "linked E C s S" "final S n a s'" "store_ok E st" "eval E st e = Some v"
  shows "carries S n (current_pc s) st (current_pc s') (assign E (id_name x) v st)"
proof (rule carriesI)
  fix regs :: "val list" assume n: "n \<le> length regs"
  note bd = linked_site [OF assms(2), THEN conjunct2]
  obtain k s1 where 1: "compile_expression C e (set_source r s) = Code (k, s1)" "s' = store_variable C (id_name x) k r s1"
    using assms(1) by (auto simp: compile_store_def)
  have f: "final S n a s1" using assms(3) 1(2) final_store_variable by blast
  obtain regs' where c: "computes S (set_source r s) s1 st k v regs regs'" and k: "unat k < length regs'"
    using expression_then [OF _ 1(1) assms(5) f n] assms(2) by auto
  note d = computesD [OF c]
  have "linked E C s1 S"
    using linked_fresh [OF _ compile_expression_fresh [OF bd 1(1)]] assms(2) by simp
  moreover have "within S (store_variable C (id_name x) k r s1)" using assms(3) 1(2) by (simp add: final_def)
  ultimately have "reaches S (current_pc s1, regs', st) (current_pc s', regs', assign E (id_name x) v st)"
    using store_variable_reaches [OF _ assms(4) _ k d(3)] 1(2) by simp
  with d(1,2) show "\<exists>c regs2. reaches S (current_pc s, regs, st) c \<and>
      reaches S c (current_pc s', regs2, assign E (id_name x) v st) \<and> length regs2 = length regs"
    unfolding current_pc_emit by blast
qed

lemma load_then:
  assumes "linked E C s S" "compile_load_variable C x s = Code (r, s1)" "read_var E st x = Some v"
    "final S n a s1" "n \<le> length regs"
  obtains regs' where "computes S s s1 st r v regs regs'" "unat r < length regs'"
proof -
  have room: "within S s1" "unat (fs_next_reg s1) \<le> length regs" using assms(4,5) by (simp_all add: final_def)
  obtain regs' where c: "computes S s s1 st r v regs regs'"
    using load_variable_computes [OF assms(1-3) room] by blast
  moreover have "unat r < length regs'"
    using fresh_room [OF compile_load_variable_fresh [OF linked_site [OF assms(1), THEN conjunct2] assms(2)] room(2)]
      computesD(2) [OF c] by simp
  ultimately show thesis by (rule that)
qed

lemma assign_part_carries:
  assumes "compile_statement C (S_Assignment (VariableAccess [A_Identifier x, A_Partial k i] rg) e r) s = Code s'"
    "linked E C s S" "final S n a s'" "store_ok E st" "eval E st e = Some v" "read_var E st (id_name x) = Some u"
    "partial_update (se_rt E) k i u v = Some w"
  shows "carries S n (current_pc s) st (current_pc s') (assign E (id_name x) w st)"
proof (rule carriesI)
  fix regs :: "val list" assume n: "n \<le> length regs"
  note bd = linked_site [OF assms(2), THEN conjunct2] and site = linked_site [OF assms(2), THEN conjunct1]
  obtain q s1 b s2 d s3 where 1: "compile_expression C e (set_source r s) = Code (q, s1)"
    "compile_load_variable C (id_name x) s1 = Code (b, s2)" "alloc_reg C s2 = Code (d, s3)"
    "s' = store_variable C (id_name x) d r (emit (partial_write k d b i q) s3)"
    using assms(1) by (auto simp: compile_store_def)
  note fq = compile_expression_fresh [OF bd 1(1)] and fb = compile_load_variable_fresh [OF bd 1(2)]
    and fd = alloc_reg_fresh [OF bd 1(3)]
  have f4: "final S n a (emit (partial_write k d b i q) s3)" using assms(3) 1(4) final_store_variable by blast
  note f3 = final_emit [OF f4]
  have f2: "final S n a s2" using final_extended [OF f3(2) fresh_extended [OF fd]] .
  have f1: "final S n a s1" using final_extended [OF f2 fresh_extended [OF fb]] .
  have l0: "linked E C (set_source r s) S" using assms(2) by simp
  note l1 = linked_fresh [OF l0 fq]
  note l2 = linked_fresh [OF l1 fb]
  have l4: "linked E C (emit (partial_write k d b i q) s3) S"
    using linked_extended [OF linked_fresh [OF l2 fd] emit_extended] .
  obtain r1 where c1: "computes S (set_source r s) s1 st q v regs r1" and q: "unat q < length r1"
    using expression_then [OF l0 1(1) assms(5) f1 n] .
  note d1 = computesD [OF c1]
  obtain r2 where c2: "computes S s1 s2 st b u r1 r2" and b: "unat b < length r2"
    using load_then [OF l1 1(2) assms(6) f2] n d1(2) by metis
  note d2 = computesD [OF c2]
  have q2: "r2 ! unat q = v" using d2(4) d1(3) fq by (simp add: fresh_def)
  have d: "unat d < length r2" using fresh_room [OF fd] f3(2) n d1(2) d2(2) by (simp add: final_def)
  have upd: "partial_update (si_env S) k i (r2 ! unat b) (r2 ! unat q) = Some w"
    using assms(2,7) q2 d2(3) by (simp add: linked_def)
  have "has_instr S (current_pc s2) (partial_write k d b i q)" using f3(1) alloc_reg_pc [OF 1(3)] by simp
  from partial_write_reaches [OF site this d b _ upd, of "fst st" "snd st"] q d2(2)
  have e3: "reaches S (current_pc s2, r2, st) (current_pc s2 + 1, r2[unat d := w], st)" by simp
  have "within S s'" using assms(3) by (simp add: final_def)
  then have e4: "reaches S (current_pc s2 + 1, r2[unat d := w], st) (current_pc s', r2[unat d := w], assign E (id_name x) w st)"
    using store_variable_reaches [OF l4 assms(4), of "id_name x" d r "r2[unat d := w]" w] d 1(4) alloc_reg_pc [OF 1(3)]
    by simp
  from reaches_trans [OF reaches_trans [OF d1(1) d2(1)] e3]
  have "reaches S (current_pc s, regs, st) (current_pc s2 + 1, r2[unat d := w], st)" by simp
  moreover have "length (r2[unat d := w]) = length regs" using d1(2) d2(2) by simp
  ultimately show "\<exists>c regs2. reaches S (current_pc s, regs, st) c \<and>
      reaches S c (current_pc s', regs2, assign E (id_name x) w st) \<and> length regs2 = length regs"
    using e4 by blast
qed

subsection \<open>Pieces of code\<close>

text \<open>Going forward through a function's code, by what has been compiled so far.\<close>

lemma tracks_expression:
  "tracks k ls s0 s \<Longrightarrow> bd_checks (ce_build C) \<Longrightarrow> compile_expression C e s = Code (r, s') \<Longrightarrow> tracks k ls s0 s'"
  by (erule tracks_extended) (rule compile_expression_fresh [THEN fresh_extended])

lemma tracks_statements:
  "tracks k ls s0 s \<Longrightarrow> bd_checks (ce_build C) \<Longrightarrow> compile_statements C ss s = Code s' \<Longrightarrow> tracks k ls s0 s'"
  by (erule tracks_step) (rule compile_statement_grown(2))

lemma tracks_else:
  "tracks k ls s0 s \<Longrightarrow> bd_checks (ce_build C) \<Longrightarrow> compile_else C els s = Code s' \<Longrightarrow> tracks k ls s0 s'"
  by (erule tracks_step) (rule compile_statement_grown(3))

lemma tracks_elsifs:
  "tracks k ls s0 s \<Longrightarrow> bd_checks (ce_build C) \<Longrightarrow> compile_elsifs C l es s = Code s' \<Longrightarrow> tracks k ls s0 s'"
  by (erule tracks_step) (rule compile_statement_grown(4))

lemma tracks_branches:
  "tracks k ls s0 s \<Longrightarrow> bd_checks (ce_build C) \<Longrightarrow> compile_branches C v l bs s = Code s' \<Longrightarrow> tracks k ls s0 s'"
  by (erule tracks_step) (rule compile_statement_grown(5))

lemma tracks_loop_body:
  "tracks k ls s0 s \<Longrightarrow> bd_checks (ce_build C) \<Longrightarrow> compile_statements C ss (push_exit l s) = Code s' \<Longrightarrow>
     tracks k ls s0 (pop_exit s')"
  by (erule tracks_loop) (rule compile_statement_grown(2))

lemma tracks_labels_ok: "tracks k ls s0 s \<Longrightarrow> labels_ok s"
  by (simp add: tracks_def good_def)

lemma tracks_label: "tracks k ls s0 s \<Longrightarrow> l \<in> ls \<Longrightarrow> k \<le> unat l \<and> unat l < labels_below s"
  by (simp add: tracks_def)

lemma tracks_linked: "tracks k ls s0 s \<Longrightarrow> linked E C s0 S \<Longrightarrow> linked E C s S"
  using linked_same_names by (simp add: tracks_def grown_def)

lemma tracks_exits: "tracks k ls s0 s \<Longrightarrow> fs_loop_exit_labels s = fs_loop_exit_labels s0"
  by (simp add: tracks_def grown_def)

lemma alloc_label_next:
  "bd_checks (ce_build C) \<Longrightarrow> alloc_label C s = Code (l, s') \<Longrightarrow> unat l = labels_below s \<and> labels_below s' = unat l + 1"
  by (auto simp: alloc_label_Code unat_Suc_u32)

lemma alloc_label_pc: "alloc_label C s = Code (l, s') \<Longrightarrow> current_pc s' = current_pc s"
  by (auto simp: alloc_label_Code current_pc_def)

text \<open>Going backward, by what is in the finished function.\<close>

lemma good_below: "labels_ok s \<Longrightarrow> good (labels_below s) s"
  by (simp add: good_def)

lemma final_expression:
  "final S n a s' \<Longrightarrow> bd_checks (ce_build C) \<Longrightarrow> compile_expression C e s = Code (r, s') \<Longrightarrow> final S n a s"
  by (erule final_extended) (rule compile_expression_fresh [THEN fresh_extended])

lemma final_statements:
  "final S n a s' \<Longrightarrow> labels_ok s \<Longrightarrow> bd_checks (ce_build C) \<Longrightarrow> compile_statements C ss s = Code s' \<Longrightarrow> final S n a s"
  by (erule final_grown) (rule compile_statement_grown(2) [OF _ good_below])

lemma final_else:
  "final S n a s' \<Longrightarrow> labels_ok s \<Longrightarrow> bd_checks (ce_build C) \<Longrightarrow> compile_else C els s = Code s' \<Longrightarrow> final S n a s"
  by (erule final_grown) (rule compile_statement_grown(3) [OF _ good_below])

lemma final_elsifs:
  "final S n a s' \<Longrightarrow> labels_ok s \<Longrightarrow> bd_checks (ce_build C) \<Longrightarrow> compile_elsifs C l es s = Code s' \<Longrightarrow> final S n a s"
  by (erule final_grown) (rule compile_statement_grown(4) [OF _ good_below])

lemma final_branches:
  "final S n a s' \<Longrightarrow> labels_ok s \<Longrightarrow> bd_checks (ce_build C) \<Longrightarrow> compile_branches C v l bs s = Code s' \<Longrightarrow> final S n a s"
  by (erule final_grown) (rule compile_statement_grown(5) [OF _ good_below])

lemma final_placed:
  assumes "final S n A (place_label l s)" "tracks k ls s0 s" "l \<in> ls" "unat l \<in> A"
  shows "label_at S l = Some (current_pc s)" "final S n (A - {unat l}) s"
  using final_place [OF assms(1,4)] tracks_label [OF assms(2,3)] tracks_labels_ok [OF assms(2)] by blast+

lemma push_exit_simps [simp]:
  "labels_ok (push_exit l s) = labels_ok s" "linked E C (push_exit l s) S = linked E C s S"
  "fs_loop_exit_labels (push_exit l s) = l # fs_loop_exit_labels s"
  by (simp_all add: labels_ok_def push_exit_def linked_def)

lemma piece_part:
  assumes "final S n A s'" "tracks k ls s0 s" "linked E C s0 S" "{k..} - unat ` ls \<subseteq> A"
  shows "piece E C S n s s'"
proof -
  have "{labels_below s..} \<subseteq> {k..} - unat ` ls"
    using assms(2) by (auto simp: tracks_def good_def)
  then show ?thesis
    using assms tracks_labels_ok tracks_linked final_mono by (simp add: piece_def)
qed

lemma piece_push_exit: "piece E C S n (push_exit l s) s' = piece E C S n s s'"
  by (simp add: piece_def) (simp add: push_exit_def)

text \<open>How the parts are connected.\<close>

definition jumps :: "site \<Rightarrow> nat \<Rightarrow> nat \<Rightarrow> nat \<Rightarrow> bool" where
  "jumps S n p t \<longleftrightarrow> (\<forall>st. carries S n p st t st)"

definition tests :: "source_env \<Rightarrow> site \<Rightarrow> nat \<Rightarrow> expression \<Rightarrow> nat \<Rightarrow> nat \<Rightarrow> nat \<Rightarrow> bool" where
  "tests E S n c p t f \<longleftrightarrow> (\<forall>st v. eval E st c = Some v \<longrightarrow> carries S n p st (if as_bool v then t else f) st)"

lemma testsD: "tests E S n c p t f \<Longrightarrow> eval E st c = Some v \<Longrightarrow> carries S n p st (if as_bool v then t else f) st"
  unfolding tests_def by blast

lemma branch_tests:
  "linked E C s S \<Longrightarrow> compile_expression C e s = Code (r, s1) \<Longrightarrow> final S n A (emit (JumpIfNot r l) s1) \<Longrightarrow>
     label_at S l = Some t \<Longrightarrow> tests E S n e (current_pc s) (current_pc s1 + 1) t"
  unfolding tests_def using branch_carries by blast

text \<open>What follows, one construct at a time, is the code of its parts and how they are connected.\<close>

lemma statements_code:
  assumes "compile_statements C (x # xs) s = Code s'" "piece E C S n s s'"
  obtains s1 where "compile_statement C x s = Code s1" "piece E C S n s s1"
    "compile_statements C xs s1 = Code s'" "piece E C S n s1 s'" "fs_loop_exit_labels s1 = fs_loop_exit_labels s"
proof -
  obtain s1 where 1: "compile_statement C x s = Code s1" "compile_statements C xs s1 = Code s'" using assms(1) by auto
  have p: "linked E C s S" "labels_ok s" "final S n {labels_below s..} s'" and bd: "bd_checks (ce_build C)"
    using assms(2) linked_site by (auto simp: piece_def)
  note t0 = tracks_start [OF good_below [OF p(2)]]
  note t1 = tracks_step [OF t0 compile_statement_grown(1) [OF bd _ 1(1)]]
  have "final S n {labels_below s..} s1" using final_statements [OF p(3) tracks_labels_ok [OF t1] bd 1(2)] .
  then have "piece E C S n s s1" using p by (simp add: piece_def)
  moreover have "piece E C S n s1 s'" by (rule piece_part [OF p(3) t1 p(1)]) auto
  ultimately show thesis using that 1 tracks_exits [OF t1] by blast
qed

lemma elsif_code:
  assumes "compile_elsifs C l (ElsifClause c body r # es) s = Code s'" "compile_else C els s' = Code s''"
    "piece E C S n s s''" "label_at S l = Some t"
  obtains s1 s2 s3 where
    "compile_statements C body s1 = Code s2" "piece E C S n s1 s2" "fs_loop_exit_labels s1 = fs_loop_exit_labels s"
    "jumps S n (current_pc s2) t"
    "compile_elsifs C l es s3 = Code s'" "piece E C S n s3 s''" "fs_loop_exit_labels s3 = fs_loop_exit_labels s"
    "tests E S n c (current_pc s) (current_pc s1) (current_pc s3)"
proof -
  obtain m s1 q s2 s3 where 1: "alloc_label C s = Code (m, s1)" "compile_expression C c s1 = Code (q, s2)"
    "compile_statements C body (emit (JumpIfNot q m) s2) = Code s3"
    "compile_elsifs C l es (place_label m (emit (Jump l) s3)) = Code s'"
    using assms(1) by auto
  have p: "linked E C s S" "labels_ok s" "final S n {labels_below s..} s''" and bd: "bd_checks (ce_build C)"
    using assms(3) linked_site by (auto simp: piece_def)
  note t1 = tracks_alloc [OF tracks_start [OF good_below [OF p(2)]] bd 1(1)]
  note t2 = tracks_emit [OF tracks_expression [OF t1 bd 1(2)], of "JumpIfNot q m"]
  note t3 = tracks_emit [OF tracks_statements [OF t2 bd 1(3)], of "Jump l"]
  note t4 = tracks_place [OF t3 insertI1]
  note t5 = tracks_elsifs [OF t4 bd 1(4)]
  note f5 = final_elsifs [OF final_else [OF p(3) tracks_labels_ok [OF t5] bd assms(2)] tracks_labels_ok [OF t4] bd 1(4)]
  have m: "unat m \<in> {labels_below s..}" using tracks_label [OF t3 insertI1] by simp
  note f4 = final_placed [OF f5 t3 insertI1 m]
  note f3 = final_emit [OF f4(2)]
  note f2 = final_statements [OF f3(2) tracks_labels_ok [OF t2] bd 1(3)]
  have "piece E C S n (emit (JumpIfNot q m) s2) s3" by (rule piece_part [OF f3(2) t2 p(1)]) auto
  moreover have "piece E C S n (place_label m (emit (Jump l) s3)) s''" by (rule piece_part [OF p(3) t4 p(1)]) auto
  moreover have "jumps S n (current_pc s3) t"
    unfolding jumps_def using jump_carries [OF _ f3(1) assms(4)] linked_site [OF p(1)] by simp
  moreover have "tests E S n c (current_pc s) (current_pc (emit (JumpIfNot q m) s2)) (current_pc (place_label m (emit (Jump l) s3)))"
    using branch_tests [OF tracks_linked [OF t1 p(1)] 1(2) f2 f4(1)] alloc_label_pc [OF 1(1)] by simp
  ultimately show thesis
    using that [OF 1(3) _ tracks_exits [OF t2] _ 1(4) _ tracks_exits [OF t4]] by blast
qed

text \<open>IF is an ELSIF chain with an end label of its own.\<close>

lemma cbind_assoc: "cbind (cbind r f) g = cbind r (\<lambda>x. cbind (f x) g)"
  by (cases r) simp_all

lemma if_as_elsif:
  "compile_statement C (S_If c body es els r) s =
     cbind (alloc_label C (set_source r s)) (\<lambda>(l, s).
     cbind (compile_elsifs C l (ElsifClause c body r # es) s) (\<lambda>s.
     cbind (compile_else C els s) (\<lambda>s. Code (place_label l s))))"
  by (simp add: cbind_assoc case_prod_unfold)

lemma if_code:
  assumes "compile_statement C (S_If c body es els r) s = Code s'" "piece E C S n s s'"
  obtains l s1 s2 s3 where
    "compile_elsifs C l (ElsifClause c body r # es) s1 = Code s2" "compile_else C els s2 = Code s3" "piece E C S n s1 s3"
    "label_at S l = Some (current_pc s3)" "current_pc s1 = current_pc s" "current_pc s3 = current_pc s'"
    "fs_loop_exit_labels s1 = fs_loop_exit_labels s"
proof -
  obtain l s1 s2 s3 where 1: "alloc_label C (set_source r s) = Code (l, s1)"
    "compile_elsifs C l (ElsifClause c body r # es) s1 = Code s2" "compile_else C els s2 = Code s3"
    "s' = place_label l s3"
    using assms(1) unfolding if_as_elsif by auto
  have p: "linked E C s S" "labels_ok s" "final S n {labels_below s..} s'" and bd: "bd_checks (ce_build C)"
    using assms(2) linked_site by (auto simp: piece_def)
  note t0 = tracks_extended [OF tracks_start [OF good_below [OF p(2)]] set_source_extended]
  note t1 = tracks_alloc [OF t0 bd 1(1)]
  note t3 = tracks_else [OF tracks_elsifs [OF t1 bd 1(2)] bd 1(3)]
  have l: "unat l \<in> {labels_below s..}" using tracks_label [OF t3 insertI1] by simp
  note f3 = final_placed [OF p(3) [unfolded 1(4)] t3 insertI1 l]
  have "piece E C S n s1 s3" by (rule piece_part [OF f3(2) t1 p(1)]) auto
  then show thesis
    using that [OF 1(2,3) _ f3(1)] alloc_label_pc [OF 1(1)] tracks_exits [OF t1] 1(4) by simp
qed

lemma while_code:
  assumes "compile_statement C (S_While c body r) s = Code s'" "piece E C S n s s'"
  obtains l s1 s2 where "compile_statements C body s1 = Code s2" "piece E C S n s1 s2"
    "fs_loop_exit_labels s1 = l # fs_loop_exit_labels s" "label_at S l = Some (current_pc s')"
    "jumps S n (current_pc s2) (current_pc s)"
    "tests E S n c (current_pc s) (current_pc s1) (current_pc s')"
proof -
  obtain m s1 l s2 q s3 s4 where 1: "alloc_label C (set_source r s) = Code (m, s1)" "alloc_label C s1 = Code (l, s2)"
    "compile_expression C c (place_label m s2) = Code (q, s3)"
    "compile_statements C body (push_exit l (emit (JumpIfNot q l) s3)) = Code s4"
    "s' = place_label l (emit (Jump m) (pop_exit s4))"
    using assms(1) by auto
  have p: "linked E C s S" "labels_ok s" "final S n {labels_below s..} s'" and bd: "bd_checks (ce_build C)"
    using assms(2) linked_site by (auto simp: piece_def)
  note t0 = tracks_extended [OF tracks_start [OF good_below [OF p(2)]] set_source_extended]
  note t2 = tracks_alloc [OF tracks_alloc [OF t0 bd 1(1)] bd 1(2)]
  have ml: "unat m \<noteq> unat l"
    using alloc_label_next [OF bd 1(1)] alloc_label_next [OF bd 1(2)] by simp
  have mem: "m \<in> {l, m}" "l \<in> {l, m}" by simp_all
  note t2' = tracks_place [OF t2 mem(1)]
  note t3 = tracks_emit [OF tracks_expression [OF t2' bd 1(3)], of "JumpIfNot q l"]
  note t4 = tracks_emit [OF tracks_loop_body [OF t3 bd 1(4)], of "Jump m"]
  have l: "unat l \<in> {labels_below s..}" using tracks_label [OF t4 mem(2)] by simp
  note f4 = final_placed [OF p(3) [unfolded 1(5)] t4 mem(2) l]
  note f3 = final_emit [OF f4(2), unfolded final_push_pop]
  have ok: "labels_ok (push_exit l (emit (JumpIfNot q l) s3))" using tracks_labels_ok [OF t3] by simp
  note f2 = final_statements [OF f3(2) ok bd 1(4), unfolded final_push_pop]
  have m: "unat m \<in> {labels_below s..} - {unat l}" using tracks_label [OF t4 mem(1)] ml by simp
  note f1 = final_placed [OF final_expression [OF final_emit(2) [OF f2] bd 1(3)] t2 mem(1) m]
  have pc: "current_pc s2 = current_pc s" using alloc_label_pc [OF 1(1)] alloc_label_pc [OF 1(2)] by simp
  have "piece E C S n (push_exit l (emit (JumpIfNot q l) s3)) s4"
    unfolding piece_push_exit by (rule piece_part [OF f3(2) t3 p(1)]) auto
  moreover have "jumps S n (current_pc s4) (current_pc s)"
    unfolding jumps_def using jump_carries [OF _ f3(1) f1(1)] linked_site [OF p(1)] pc by simp
  moreover have "tests E S n c (current_pc s) (current_pc (push_exit l (emit (JumpIfNot q l) s3))) (current_pc s')"
    using branch_tests [OF tracks_linked [OF t2' p(1)] 1(3) f2 f4(1)] pc 1(5) by simp
  ultimately show thesis
    using that [OF 1(4)] tracks_exits [OF t3] f4(1) 1(5) by simp
qed

lemma repeat_code:
  assumes "compile_statement C (S_Repeat body c r) s = Code s'" "piece E C S n s s'"
  obtains l s1 s2 where "compile_statements C body s1 = Code s2" "piece E C S n s1 s2"
    "fs_loop_exit_labels s1 = l # fs_loop_exit_labels s" "label_at S l = Some (current_pc s')"
    "current_pc s1 = current_pc s"
    "tests E S n c (current_pc s2) (current_pc s') (current_pc s)"
proof -
  obtain m s1 l s2 s3 q s4 where 1: "alloc_label C (set_source r s) = Code (m, s1)" "alloc_label C s1 = Code (l, s2)"
    "compile_statements C body (push_exit l (place_label m s2)) = Code s3"
    "compile_expression C c (pop_exit s3) = Code (q, s4)"
    "s' = place_label l (emit (JumpIfNot q m) s4)"
    using assms(1) by auto
  have p: "linked E C s S" "labels_ok s" "final S n {labels_below s..} s'" and bd: "bd_checks (ce_build C)"
    using assms(2) linked_site by (auto simp: piece_def)
  note t0 = tracks_extended [OF tracks_start [OF good_below [OF p(2)]] set_source_extended]
  note t2 = tracks_alloc [OF tracks_alloc [OF t0 bd 1(1)] bd 1(2)]
  have ml: "unat m \<noteq> unat l"
    using alloc_label_next [OF bd 1(1)] alloc_label_next [OF bd 1(2)] by simp
  have mem: "m \<in> {l, m}" "l \<in> {l, m}" by simp_all
  note t2' = tracks_place [OF t2 mem(1)]
  note t3 = tracks_loop_body [OF t2' bd 1(3)]
  note t4 = tracks_emit [OF tracks_expression [OF t3 bd 1(4)], of "JumpIfNot q m"]
  have l: "unat l \<in> {labels_below s..}" using tracks_label [OF t4 mem(2)] by simp
  note f4 = final_placed [OF p(3) [unfolded 1(5)] t4 mem(2) l]
  note f3 = final_expression [OF final_emit(2) [OF f4(2)] bd 1(4), unfolded final_push_pop]
  have ok: "labels_ok (push_exit l (place_label m s2))" using tracks_labels_ok [OF t2'] by simp
  note f2 = final_statements [OF f3 ok bd 1(3), unfolded final_push_pop]
  have m: "unat m \<in> {labels_below s..} - {unat l}" using tracks_label [OF t4 mem(1)] ml by simp
  note f1 = final_placed [OF f2 t2 mem(1) m]
  have pc: "current_pc s2 = current_pc s" using alloc_label_pc [OF 1(1)] alloc_label_pc [OF 1(2)] by simp
  have "piece E C S n (push_exit l (place_label m s2)) s3"
    unfolding piece_push_exit by (rule piece_part [OF f3 t2' p(1)]) auto
  moreover have "tests E S n c (current_pc s3) (current_pc s') (current_pc s)"
    using branch_tests [OF tracks_linked [OF t3 p(1)] 1(4) f4(2) f1(1)] pc 1(5) by simp
  ultimately show thesis
    using that [OF 1(3)] tracks_exits [OF t2'] f4(1) 1(5) pc by simp
qed

subsection \<open>FOR\<close>

text \<open>What a FOR compiles to after the label of its loop.\<close>

definition for_loop ::
  "fn_env \<Rightarrow> string \<Rightarrow> expression \<Rightarrow> expression option \<Rightarrow> statement list \<Rightarrow> label \<Rightarrow> label \<Rightarrow> fn_state \<Rightarrow> fn_state compiled"
  where
  "for_loop C x to step body loop_label exit_label s =
     cbind (compile_load_variable C x s) (\<lambda>(var_reg, s).
     cbind (compile_expression C to s) (\<lambda>(to_reg, s).
     cbind (alloc_reg C s) (\<lambda>(cond, s).
     cbind (compile_statements C body
         (push_exit exit_label (emit (JumpIfNot cond exit_label) (emit (CmpLe cond var_reg to_reg) s)))) (\<lambda>s.
     cbind (step_value C step (pop_exit s)) (\<lambda>(step_reg, s).
     cbind (compile_load_variable C x s) (\<lambda>(var_reg2, s).
     cbind (alloc_reg C s) (\<lambda>(new_val, s).
       Code (place_label exit_label (emit (Jump loop_label)
         (store_loop_variable x new_val (emit (Add new_val var_reg2 step_reg) s)))))))))))"

lemma for_as_loop:
  "compile_statement C (S_For x start to step body r) s =
     cbind (alloc_label C (set_source r s)) (\<lambda>(loop_label, s).
     cbind (alloc_label C s) (\<lambda>(exit_label, s).
     cbind (compile_expression C start s) (\<lambda>(k, s).
       for_loop C (id_name x) to step body loop_label exit_label
         (place_label loop_label (store_loop_variable (id_name x) k s)))))"
  by (simp add: for_loop_def)

lemma tracks_load:
  "tracks k ls s0 s \<Longrightarrow> bd_checks (ce_build C) \<Longrightarrow> compile_load_variable C x s = Code (r, s') \<Longrightarrow> tracks k ls s0 s'"
  by (erule tracks_extended) (rule compile_load_variable_fresh [THEN fresh_extended])

lemma tracks_reg:
  "tracks k ls s0 s \<Longrightarrow> bd_checks (ce_build C) \<Longrightarrow> alloc_reg C s = Code (r, s') \<Longrightarrow> tracks k ls s0 s'"
  by (erule tracks_extended) (rule alloc_reg_fresh [THEN fresh_extended])

lemma tracks_step_value:
  "tracks k ls s0 s \<Longrightarrow> bd_checks (ce_build C) \<Longrightarrow> step_value C st s = Code (r, s') \<Longrightarrow> tracks k ls s0 s'"
  by (erule tracks_extended) (rule step_value_fresh [THEN fresh_extended])

lemma tracks_store_loop: "tracks k ls s0 s \<Longrightarrow> tracks k ls s0 (store_loop_variable x r s)"
  by (erule tracks_extended) (rule store_loop_variable_extended)

lemma final_load:
  "final S n A s' \<Longrightarrow> bd_checks (ce_build C) \<Longrightarrow> compile_load_variable C x s = Code (r, s') \<Longrightarrow> final S n A s"
  by (erule final_extended) (rule compile_load_variable_fresh [THEN fresh_extended])

lemma final_reg:
  "final S n A s' \<Longrightarrow> bd_checks (ce_build C) \<Longrightarrow> alloc_reg C s = Code (r, s') \<Longrightarrow> final S n A s"
  by (erule final_extended) (rule alloc_reg_fresh [THEN fresh_extended])

lemma final_step_value:
  "final S n A s' \<Longrightarrow> bd_checks (ce_build C) \<Longrightarrow> step_value C st s = Code (r, s') \<Longrightarrow> final S n A s"
  by (erule final_extended) (rule step_value_fresh [THEN fresh_extended])

lemma final_store_loop: "final S n A (store_loop_variable x r s) \<Longrightarrow> final S n A s"
  by (erule final_extended) (rule store_loop_variable_extended)

lemma store_loop_variable_reaches:
  assumes "linked E C s S" "store_ok E st" "final S n A (store_loop_variable x r s)" "unat r < length regs"
    "regs ! unat r = v"
  shows "reaches S (current_pc s, regs, st) (current_pc (store_loop_variable x r s), regs, assign_local E x v st)"
proof -
  have l: "fs_locals s = se_locals E" "fn_locals (si_func S) = se_locals E" "site_ok S"
    using assms(1) by (auto simp: linked_def)
  show ?thesis
  proof (cases "find_slot (se_locals E) x")
    case (Some p)
    then obtain i v' where p: "find_slot (se_locals E) x = Some (i, v')" by (cases p) auto
    have "unat i < length (fst st)" using find_slot_less [OF p] assms(2) by (simp add: store_ok_def)
    moreover have "has_instr S (current_pc s) (StoreLocal i r)"
      using final_emit [of S n A "StoreLocal i r" s] assms(3) p by (simp add: store_loop_variable_def find_local_iff l)
    ultimately show ?thesis
      using StoreLocal_reaches [OF l(3) _ assms(4), of "current_pc s" i "fst st" "snd st"] assms(5) p
      by (simp add: store_loop_variable_def find_local_iff l assign_local_def assign_def)
  qed (simp add: store_loop_variable_def find_local_iff l assign_local_def)
qed

text \<open>A value of a second expression beside that of a first one.\<close>

lemma computes_keeps: "computes S s s' st r v regs regs' \<Longrightarrow> unat k < unat (fs_next_reg s) \<Longrightarrow> regs' ! unat k = regs ! unat k"
  by (simp add: computes_def)

lemma for_test_carries:
  assumes "compile_load_variable C x s = Code (a, s1)" "compile_expression C to s1 = Code (b, s2)"
    "alloc_reg C s2 = Code (c, s3)" "linked E C s S" "final S n A (emit (JumpIfNot c l) (emit (CmpLe c a b) s3))"
    "label_at S l = Some t" "read_var E st x = Some u" "eval E st to = Some w"
  shows "carries S n (current_pc s) st (if cmp_le u w then current_pc s3 + 2 else t) st"
proof (rule carriesI)
  fix regs :: "val list" assume n: "n \<le> length regs"
  note bd = linked_site [OF assms(4), THEN conjunct2] and site = linked_site [OF assms(4), THEN conjunct1]
  note fa = compile_load_variable_fresh [OF bd assms(1)] and fb = compile_expression_fresh [OF bd assms(2)]
    and fc = alloc_reg_fresh [OF bd assms(3)]
  note f4 = final_emit [OF assms(5)]
  note f3 = final_emit [OF f4(2)]
  note f2 = final_reg [OF f3(2) bd assms(3)]
  note f1 = final_expression [OF f2 bd assms(2)]
  obtain r1 where c1: "computes S s s1 st a u regs r1" and a: "unat a < length r1"
    using load_then [OF assms(4,1,7) f1 n] .
  note d1 = computesD [OF c1]
  obtain r2 where c2: "computes S s1 s2 st b w r1 r2" and b: "unat b < length r2"
    using expression_then [OF linked_fresh [OF assms(4) fa] assms(2,8) f2] n d1(2) by metis
  note d2 = computesD [OF c2]
  have a2: "r2 ! unat a = u" using computes_keeps [OF c2, of a] d1(3) fa by (simp add: fresh_def)
  have c: "unat c < length r2" using fresh_room [OF fc] f3(2) n d1(2) d2(2) by (simp add: final_def)
  let ?v = "V_Bool (cmp_le u w)" and ?ls = "fst st" and ?gs = "snd st"
  have "has_instr S (current_pc s2) (binary_instruction B_Le c a b)"
    using f3(1) alloc_reg_pc [OF assms(3)] by (simp add: binary_instruction_def)
  from binary_reaches [OF site this c _ b, of ?v ?ls ?gs]
  have e3: "reaches S (current_pc s2, r2, st) (current_pc s2 + 1, r2[unat c := ?v], st)"
    using a d2(2) a2 d2(3) by (simp add: binary_value_def)
  have "has_instr S (current_pc s2 + 1) (JumpIfNot c l)" using f4(1) alloc_reg_pc [OF assms(3)] by simp
  from JumpIfNot_reaches [OF site this assms(6), of "r2[unat c := ?v]" ?ls ?gs]
  have e4: "reaches S (current_pc s2 + 1, r2[unat c := ?v], st) (if cmp_le u w then current_pc s3 + 2 else t, r2[unat c := ?v], st)"
    using c alloc_reg_pc [OF assms(3)] by (simp split: if_split_asm)
  have "length (r2[unat c := ?v]) = length regs" using d1(2) d2(2) by simp
  with reaches_trans [OF reaches_trans [OF d1(1) d2(1)] e3] e4
  show "\<exists>c regs2. reaches S (current_pc s, regs, st) c \<and>
      reaches S c (if cmp_le u w then current_pc s3 + 2 else t, regs2, st) \<and> length regs2 = length regs"
    by blast
qed

lemma step_then:
  assumes "linked E C s S" "step_value C step s = Code (r, s1)" "step_of E st step = Some v"
    "final S n A s1" "n \<le> length regs"
  obtains regs' where "computes S s s1 st r v regs regs'" "unat r < length regs'"
proof (cases step)
  case None
  note l = linked_site [OF assms(1)]
  have room: "within S s1" "unat (fs_next_reg s1) \<le> length regs" using assms(4,5) by (simp_all add: final_def)
  have c: "load_const C v s = Code (r, s1)" using None assms(2,3) by (simp add: step_value_def step_of_def)
  obtain regs' where 1: "computes S s s1 st r v regs regs'"
    using load_const_computes [OF _ _ c room] l by blast
  moreover have "unat r < length regs'"
    using fresh_room [OF load_const_fresh [OF _ c] room(2)] l computesD(2) [OF 1] by simp
  ultimately show thesis by (rule that)
next
  case (Some e)
  then have "compile_expression C e s = Code (r, s1)" "eval E st e = Some v"
    using assms(2,3) by (simp_all add: step_value_def step_of_def)
  from expression_then [OF assms(1) this assms(4,5) that] show thesis .
qed

lemma for_step_carries:
  assumes "step_value C step s = Code (f, s1)" "compile_load_variable C x s1 = Code (g, s2)"
    "alloc_reg C s2 = Code (h, s3)" "linked E C s S"
    "final S n A (emit (Jump l) (store_loop_variable x h (emit (Add h g f) s3)))" "label_at S l = Some t"
    "store_ok E st" "step_of E st step = Some d" "read_var E st x = Some u" "val_add u d = Res w"
  shows "carries S n (current_pc s) st t (assign_local E x w st)"
proof (rule carries_trans)
  let ?s4 = "emit (Add h g f) s3" let ?s5 = "store_loop_variable x h ?s4"
  note bd = linked_site [OF assms(4), THEN conjunct2] and site = linked_site [OF assms(4), THEN conjunct1]
  note ff = step_value_fresh [OF bd assms(1)] and fg = compile_load_variable_fresh [OF bd assms(2)]
    and fh = alloc_reg_fresh [OF bd assms(3)]
  note f5 = final_emit [OF assms(5)]
  show "carries S n (current_pc ?s5) (assign_local E x w st) t (assign_local E x w st)"
    using jump_carries [OF site f5(1) assms(6)] .
  show "carries S n (current_pc s) st (current_pc ?s5) (assign_local E x w st)"
  proof (rule carriesI)
    fix regs :: "val list" assume n: "n \<le> length regs"
    note f4 = final_emit [OF final_store_loop [OF f5(2)]]
    note f2 = final_reg [OF f4(2) bd assms(3)]
    note f1 = final_load [OF f2 bd assms(2)]
    note l1 = linked_fresh [OF assms(4) ff]
    have l4: "linked E C ?s4 S"
      using linked_extended [OF linked_fresh [OF linked_fresh [OF l1 fg] fh] emit_extended] .
    obtain r1 where c1: "computes S s s1 st f d regs r1" and f: "unat f < length r1"
      using step_then [OF assms(4,1,8) f1 n] .
    note d1 = computesD [OF c1]
    obtain r2 where c2: "computes S s1 s2 st g u r1 r2" and g: "unat g < length r2"
      using load_then [OF l1 assms(2,9) f2] n d1(2) by metis
    note d2 = computesD [OF c2]
    have v: "r2 ! unat f = d" using computes_keeps [OF c2, of f] d1(3) ff by (simp add: fresh_def)
    have h: "unat h < length r2" using fresh_room [OF fh] f4(2) n d1(2) d2(2) by (simp add: final_def)
    have "has_instr S (current_pc s2) (binary_instruction B_Add h g f)"
      using f4(1) alloc_reg_pc [OF assms(3)] by (simp add: binary_instruction_def)
    from binary_reaches [OF site this h g, of w "fst st" "snd st"]
    have e3: "reaches S (current_pc s2, r2, st) (current_pc ?s4, r2[unat h := w], st)"
      using f d2(2,3) v assms(10) alloc_reg_pc [OF assms(3)] by (simp add: binary_value_def)
    have e4: "reaches S (current_pc ?s4, r2[unat h := w], st) (current_pc ?s5, r2[unat h := w], assign_local E x w st)"
      by (rule store_loop_variable_reaches [OF l4 assms(7) f5(2)]) (use h in simp_all)
    have "length (r2[unat h := w]) = length regs" using d1(2) d2(2) by simp
    with reaches_trans [OF reaches_trans [OF d1(1) d2(1)] e3] e4
    show "\<exists>c regs2. reaches S (current_pc s, regs, st) c \<and>
        reaches S c (current_pc ?s5, regs2, assign_local E x w st) \<and> length regs2 = length regs"
      by blast
  qed
qed

definition tests_for :: "source_env \<Rightarrow> site \<Rightarrow> nat \<Rightarrow> string \<Rightarrow> expression \<Rightarrow> nat \<Rightarrow> nat \<Rightarrow> nat \<Rightarrow> bool" where
  "tests_for E S n x to p t f \<longleftrightarrow> (\<forall>st a b. read_var E st x = Some a \<longrightarrow> eval E st to = Some b \<longrightarrow>
     carries S n p st (if cmp_le a b then t else f) st)"

lemma tests_forD: "tests_for E S n x to p t f \<Longrightarrow> read_var E st x = Some a \<Longrightarrow> eval E st to = Some b \<Longrightarrow>
    carries S n p st (if cmp_le a b then t else f) st"
  unfolding tests_for_def by blast

definition steps_for :: "source_env \<Rightarrow> site \<Rightarrow> nat \<Rightarrow> string \<Rightarrow> expression option \<Rightarrow> nat \<Rightarrow> nat \<Rightarrow> bool" where
  "steps_for E S n x step p t \<longleftrightarrow> (\<forall>st d u w. store_ok E st \<longrightarrow> step_of E st step = Some d \<longrightarrow>
     read_var E st x = Some u \<longrightarrow> val_add u d = Res w \<longrightarrow> carries S n p st t (assign_local E x w st))"

lemma steps_forD: "steps_for E S n x step p t \<Longrightarrow> store_ok E st \<Longrightarrow> step_of E st step = Some d \<Longrightarrow>
    read_var E st x = Some u \<Longrightarrow> val_add u d = Res w \<Longrightarrow> carries S n p st t (assign_local E x w st)"
  unfolding steps_for_def by blast

definition starts_for :: "source_env \<Rightarrow> site \<Rightarrow> nat \<Rightarrow> string \<Rightarrow> expression \<Rightarrow> nat \<Rightarrow> nat \<Rightarrow> bool" where
  "starts_for E S n x e p t \<longleftrightarrow> (\<forall>st v. store_ok E st \<longrightarrow> eval E st e = Some v \<longrightarrow>
     carries S n p st t (assign_local E x v st))"

lemma for_test:
  "compile_load_variable C x s = Code (a, s1) \<Longrightarrow> compile_expression C to s1 = Code (b, s2) \<Longrightarrow>
     alloc_reg C s2 = Code (c, s3) \<Longrightarrow> linked E C s S \<Longrightarrow>
     final S n A (emit (JumpIfNot c l) (emit (CmpLe c a b) s3)) \<Longrightarrow> label_at S l = Some t \<Longrightarrow>
     tests_for E S n x to (current_pc s) (current_pc s3 + 2) t"
  unfolding tests_for_def using for_test_carries by blast

lemma for_step:
  "step_value C step s = Code (f, s1) \<Longrightarrow> compile_load_variable C x s1 = Code (g, s2) \<Longrightarrow>
     alloc_reg C s2 = Code (h, s3) \<Longrightarrow> linked E C s S \<Longrightarrow>
     final S n A (emit (Jump l) (store_loop_variable x h (emit (Add h g f) s3))) \<Longrightarrow> label_at S l = Some t \<Longrightarrow>
     steps_for E S n x step (current_pc s) t"
  unfolding steps_for_def using for_step_carries by blast

lemma for_loop_code:
  assumes "for_loop C x to step body m l s = Code s'" "linked E C s S" "labels_ok s"
    "unat l < labels_below s" "final S n A s'" "insert (unat l) {labels_below s..} \<subseteq> A"
  obtains s1 s2 where "final S n (A - {unat l}) s" "compile_statements C body s1 = Code s2" "piece E C S n s1 s2"
    "fs_loop_exit_labels s1 = l # fs_loop_exit_labels s" "label_at S l = Some (current_pc s')"
    "tests_for E S n x to (current_pc s) (current_pc s1) (current_pc s')"
    "label_at S m = Some (current_pc s) \<Longrightarrow> steps_for E S n x step (current_pc s2) (current_pc s)"
proof -
  obtain a s1 b s2 c s3 s4 f s5 g s6 h s7 where
    1: "compile_load_variable C x s = Code (a, s1)" "compile_expression C to s1 = Code (b, s2)"
    "alloc_reg C s2 = Code (c, s3)"
    "compile_statements C body (push_exit l (emit (JumpIfNot c l) (emit (CmpLe c a b) s3))) = Code s4"
    "step_value C step (pop_exit s4) = Code (f, s5)" "compile_load_variable C x s5 = Code (g, s6)"
    "alloc_reg C s6 = Code (h, s7)"
    "s' = place_label l (emit (Jump m) (store_loop_variable x h (emit (Add h g f) s7)))"
    using assms(1) unfolding for_loop_def by auto
  let ?b = "emit (JumpIfNot c l) (emit (CmpLe c a b) s3)"
  let ?e = "emit (Jump m) (store_loop_variable x h (emit (Add h g f) s7))"
  have bd: "bd_checks (ce_build C)" using linked_site [OF assms(2)] by simp
  note t0 = tracks_start [OF good_below [OF assms(3)]]
  note t3 = tracks_emit [OF tracks_emit [OF tracks_reg [OF tracks_expression [OF tracks_load [OF t0 bd 1(1)] bd 1(2)] bd 1(3)]],
      of "JumpIfNot c l" "CmpLe c a b"]
  note t4 = tracks_loop_body [OF t3 bd 1(4)]
  note t7 = tracks_reg [OF tracks_load [OF tracks_step_value [OF t4 bd 1(5)] bd 1(6)] bd 1(7)]
  have t8: "tracks (labels_below s) {} s ?e" using tracks_emit [OF tracks_store_loop [OF tracks_emit [OF t7]]] .
  have "unat l < labels_below ?e" using t8 assms(4) by (simp add: tracks_def good_def)
  moreover have "unat l \<in> A" using assms(6) by simp
  ultimately have f8: "label_at S l = Some (current_pc ?e)" "final S n (A - {unat l}) ?e"
    using final_place [OF assms(5) [unfolded 1(8)] _ _ tracks_labels_ok [OF t8]] by simp_all
  note f7 = final_emit(2) [OF final_store_loop [OF final_emit(2) [OF f8(2)]]]
  note f4 = final_step_value [OF final_load [OF final_reg [OF f7 bd 1(7)] bd 1(6)] bd 1(5), unfolded final_push_pop]
  have ok: "labels_ok (push_exit l ?b)" using tracks_labels_ok [OF t3] by simp
  note f3 = final_statements [OF f4 ok bd 1(4), unfolded final_push_pop]
  have "piece E C S n (push_exit l ?b) s4"
    unfolding piece_push_exit by (rule piece_part [OF f4 t3 assms(2)]) (use assms(4,6) in auto)
  moreover have "tests_for E S n x to (current_pc s) (current_pc (push_exit l ?b)) (current_pc s')"
    using for_test [OF 1(1-3) assms(2) f3 f8(1)] 1(8) by simp
  moreover have "steps_for E S n x step (current_pc s4) (current_pc s)" if "label_at S m = Some (current_pc s)"
    using for_step [OF 1(5-7) tracks_linked [OF t4 assms(2)] f8(2) that] by simp
  moreover have "final S n (A - {unat l}) s"
    using final_load [OF final_expression [OF final_reg [OF final_emit(2) [OF final_emit(2) [OF f3]] bd 1(3)] bd 1(2)] bd 1(1)] .
  ultimately show thesis
    using that [OF _ 1(4)] tracks_exits [OF t3] f8(1) 1(8) by simp
qed

lemma for_code:
  assumes "compile_statement C (S_For x start to step body r) s = Code s'" "piece E C S n s s'"
  obtains m l s1 where "for_loop C (id_name x) to step body m l s1 = Code s'" "linked E C s1 S" "labels_ok s1"
    "unat l < labels_below s1" "final S n (insert (unat l) {labels_below s1..}) s'" "label_at S m = Some (current_pc s1)"
    "fs_loop_exit_labels s1 = fs_loop_exit_labels s"
    "starts_for E S n (id_name x) start (current_pc s) (current_pc s1)"
proof -
  obtain m s1 l s2 k s3 where 1: "alloc_label C (set_source r s) = Code (m, s1)" "alloc_label C s1 = Code (l, s2)"
    "compile_expression C start s2 = Code (k, s3)"
    "for_loop C (id_name x) to step body m l (place_label m (store_loop_variable (id_name x) k s3)) = Code s'"
    using assms(1) unfolding for_as_loop by auto
  let ?s4 = "store_loop_variable (id_name x) k s3" let ?s5 = "place_label m ?s4"
  have p: "linked E C s S" "labels_ok s" "final S n {labels_below s..} s'" and bd: "bd_checks (ce_build C)"
    using assms(2) linked_site by (auto simp: piece_def)
  note t0 = tracks_extended [OF tracks_start [OF good_below [OF p(2)]] set_source_extended]
  note t2 = tracks_alloc [OF tracks_alloc [OF t0 bd 1(1)] bd 1(2)]
  have ml: "unat m \<noteq> unat l"
    using alloc_label_next [OF bd 1(1)] alloc_label_next [OF bd 1(2)] by simp
  have mem: "m \<in> {l, m}" "l \<in> {l, m}" by simp_all
  have t4: "tracks (labels_below s) {l, m} s ?s4" using tracks_store_loop [OF tracks_expression [OF t2 bd 1(3)]] .
  note t5 = tracks_place [OF t4 mem(1)]
  note lm = tracks_label [OF t5 mem(2)] tracks_label [OF t4 mem(1)]
  have low: "labels_below s \<le> labels_below ?s5" using t5 by (simp add: tracks_def good_def)
  have sub: "insert (unat l) {labels_below ?s5..} \<subseteq> {labels_below s..}" using lm low by auto
  have l: "unat l < labels_below ?s5" using lm by simp
  obtain s6 where f5: "final S n ({labels_below s..} - {unat l}) ?s5"
    using for_loop_code [OF 1(4) tracks_linked [OF t5 p(1)] tracks_labels_ok [OF t5] l p(3) sub] by blast
  have "unat m \<in> {labels_below s..} - {unat l}" using lm ml by simp
  note f4 = final_placed [OF f5 t4 mem(1) this]
  have pc: "current_pc s2 = current_pc s" using alloc_label_pc [OF 1(1)] alloc_label_pc [OF 1(2)] by simp
  note f3 = final_store_loop [OF f4(2)]
  have "carries S n (current_pc s) st (current_pc ?s5) (assign_local E (id_name x) v st)"
    if v: "store_ok E st" "eval E st start = Some v" for st v
  proof (rule carriesI)
    fix regs :: "val list" assume n: "n \<le> length regs"
    note l2 = tracks_linked [OF t2 p(1)]
    obtain r1 where c1: "computes S s2 s3 st k v regs r1" and k: "unat k < length r1"
      using expression_then [OF l2 1(3) v(2) f3 n] .
    note d1 = computesD [OF c1]
    have "reaches S (current_pc s3, r1, st) (current_pc ?s4, r1, assign_local E (id_name x) v st)"
      using store_loop_variable_reaches [OF linked_fresh [OF l2 compile_expression_fresh [OF bd 1(3)]] v(1) f4(2) k d1(3)] .
    with d1(1,2) pc show "\<exists>c regs2. reaches S (current_pc s, regs, st) c \<and>
        reaches S c (current_pc ?s5, regs2, assign_local E (id_name x) v st) \<and> length regs2 = length regs"
      by (intro exI [of _ "(current_pc s3, r1, st)"] exI [of _ r1]) simp
  qed
  then have "starts_for E S n (id_name x) start (current_pc s) (current_pc ?s5)"
    unfolding starts_for_def by blast
  then show thesis
    using that [OF 1(4) tracks_linked [OF t5 p(1)] tracks_labels_ok [OF t5] l final_mono [OF p(3) sub]]
      f4(1) tracks_exits [OF t5] by simp
qed

subsection \<open>CASE\<close>

text \<open>The selectors of a branch keep the register of the selected value and go to its body on a match.\<close>

definition decides :: "site \<Rightarrow> nat \<Rightarrow> reg \<Rightarrow> val \<Rightarrow> nat \<Rightarrow> nat \<Rightarrow> store \<Rightarrow> bool" where
  "decides S n r v p q st \<longleftrightarrow> (\<forall>regs. n \<le> length regs \<longrightarrow> regs ! unat r = v \<longrightarrow>
     (\<exists>regs'. length regs' = length regs \<and> regs' ! unat r = v \<and> reaches S (p, regs, st) (q, regs', st)))"

lemma decides_trans:
  assumes "decides S n r v p q st" "decides S n r v q q' st"
  shows "decides S n r v p q' st"
  unfolding decides_def
proof (intro allI impI)
  fix regs :: "val list" assume n: "n \<le> length regs" "regs ! unat r = v"
  with assms(1) obtain r1 where 1: "length r1 = length regs" "r1 ! unat r = v" "reaches S (p, regs, st) (q, r1, st)"
    unfolding decides_def by blast
  with n assms(2) obtain r2 where 2: "length r2 = length r1" "r2 ! unat r = v" "reaches S (q, r1, st) (q', r2, st)"
    unfolding decides_def by metis
  from reaches_trans [OF 1(3) 2(3)] 1(1) 2(1,2)
  show "\<exists>regs'. length regs' = length regs \<and> regs' ! unat r = v \<and> reaches S (p, regs, st) (q', regs', st)"
    by metis
qed

lemma JumpIf_then:
  assumes "site_ok S" "has_instr S pc (JumpIf r l)" "label_at S l = Some t" "unat r < length regs" "regs ! unat r = V_Bool b"
  shows "reaches S (pc, regs, st) (if b then t else pc + 1, regs, st)"
  using JumpIf_reaches [OF assms(1-4), of "fst st" "snd st"] assms(5) by simp

lemma compare_reaches:
  assumes "site_ok S" "has_instr S pc (binary_instruction op c a b)" "unat c < length regs" "unat a < length regs"
    "unat b < length regs" "binary_value (si_env S) op (regs ! unat a) (regs ! unat b) = Some v"
  shows "reaches S (pc, regs, st) (pc + 1, regs[unat c := v], st)"
  using binary_reaches [OF assms, of "fst st" "snd st"] by simp

lemma single_decides:
  assumes "compile_selector C r l (Single e) s = Code s'" "linked E C s S" "final S n A s'" "label_at S l = Some t"
    "unat r < unat (fs_next_reg s)" "eval E st e = Some w"
  shows "decides S n r v (current_pc s) (if cmp_eq v w then t else current_pc s') st"
  unfolding decides_def
proof (intro allI impI)
  fix regs :: "val list" assume n: "n \<le> length regs" and r: "regs ! unat r = v"
  note bd = linked_site [OF assms(2), THEN conjunct2] and site = linked_site [OF assms(2), THEN conjunct1]
  obtain a s1 c s2 where 1: "compile_expression C e s = Code (a, s1)" "alloc_reg C s1 = Code (c, s2)"
    "s' = emit (JumpIf c l) (emit (CmpEq c r a) s2)"
    using assms(1) by (auto simp: compile_selector_def)
  note fa = compile_expression_fresh [OF bd 1(1)] and fc = alloc_reg_fresh [OF bd 1(2)]
  note f2 = final_emit [OF assms(3) [unfolded 1(3)]]
  note f1 = final_emit [OF f2(2)]
  obtain r1 where c1: "computes S s s1 st a w regs r1" and a: "unat a < length r1"
    using expression_then [OF assms(2) 1(1) assms(6) final_reg [OF f1(2) bd 1(2)] n] .
  note d1 = computesD [OF c1]
  have r1: "r1 ! unat r = v" "unat r < length r1"
    using computes_keeps [OF c1 assms(5)] r fa f1(2) n d1(2) assms(5) fc
    by (simp_all add: fresh_def extended_def final_def)
  have c: "unat c < length r1" "unat r < unat c"
    using fresh_room [OF fc] f1(2) n d1(2) fc fa assms(5) by (simp_all add: final_def fresh_def extended_def)
  let ?r2 = "r1[unat c := V_Bool (cmp_eq v w)]"
  have e2: "reaches S (current_pc s1, r1, st) (current_pc s1 + 1, ?r2, st)"
    by (rule compare_reaches [OF site, of _ B_Eq c r a])
      (use f1(1) alloc_reg_pc [OF 1(2)] c a r1 d1(3) in \<open>simp_all add: binary_instruction_def binary_value_def\<close>)
  have e3: "reaches S (current_pc s1 + 1, ?r2, st) (if cmp_eq v w then t else current_pc s1 + 1 + 1, ?r2, st)"
    by (rule JumpIf_then [OF site _ assms(4), of _ c]) (use f2(1) alloc_reg_pc [OF 1(2)] c in simp_all)
  have "length ?r2 = length regs" "?r2 ! unat r = v" using d1(2) r1 c by simp_all
  moreover have "current_pc s' = current_pc s1 + 1 + 1" using 1(3) alloc_reg_pc [OF 1(2)] by simp
  ultimately show "\<exists>regs'. length regs' = length regs \<and> regs' ! unat r = v \<and>
      reaches S (current_pc s, regs, st) (if cmp_eq v w then t else current_pc s', regs', st)"
    using reaches_trans [OF reaches_trans [OF d1(1) e2] e3] by metis
qed

lemma range_decides:
  assumes "compile_selector C r l (Range lo hi) s = Code s'" "linked E C s S" "final S n A s'" "label_at S l = Some t"
    "unat r < unat (fs_next_reg s)" "eval E st lo = Some x" "eval E st hi = Some y"
  shows "decides S n r v (current_pc s) (if cmp_ge v x \<and> cmp_le v y then t else current_pc s') st"
  unfolding decides_def
proof (intro allI impI)
  fix regs :: "val list" assume n: "n \<le> length regs" and r: "regs ! unat r = v"
  note bd = linked_site [OF assms(2), THEN conjunct2] and site = linked_site [OF assms(2), THEN conjunct1]
  obtain a s1 b s2 c s3 d s4 e s5 where 1: "compile_expression C lo s = Code (a, s1)"
    "compile_expression C hi s1 = Code (b, s2)" "alloc_reg C s2 = Code (c, s3)" "alloc_reg C s3 = Code (d, s4)"
    "alloc_reg C s4 = Code (e, s5)"
    "s' = emit (JumpIf e l) (emit (And e c d) (emit (CmpLe d r b) (emit (CmpGe c r a) s5)))"
    using assms(1) by (auto simp: compile_selector_def)
  note fa = compile_expression_fresh [OF bd 1(1)] and fb = compile_expression_fresh [OF bd 1(2)]
    and fc = alloc_reg_fresh [OF bd 1(3)] and fd = alloc_reg_fresh [OF bd 1(4)] and fe = alloc_reg_fresh [OF bd 1(5)]
  note f5 = final_emit [OF assms(3) [unfolded 1(6)]]
  note f4 = final_emit [OF f5(2)]
  note f3 = final_emit [OF f4(2)]
  note f2 = final_emit [OF f3(2)]
  note g2 = final_reg [OF final_reg [OF final_reg [OF f2(2) bd 1(5)] bd 1(4)] bd 1(3)]
  obtain r1 where c1: "computes S s s1 st a x regs r1" and a: "unat a < length r1"
    using expression_then [OF assms(2) 1(1) assms(6) final_expression [OF g2 bd 1(2)] n] .
  note d1 = computesD [OF c1]
  obtain r2 where c2: "computes S s1 s2 st b y r1 r2" and b: "unat b < length r2"
    using expression_then [OF linked_fresh [OF assms(2) fa] 1(2) assms(7) g2] n d1(2) by metis
  note d2 = computesD [OF c2]
  have order: "unat r < unat a" "unat a < unat b" "unat b < unat c" "unat c < unat d" "unat d < unat e"
    using assms(5) fa fb fc fd fe by (simp_all add: fresh_def)
  have e: "unat e < length r2"
    using fresh_room [OF fe] f2(2) n d1(2) d2(2) by (simp add: final_def)
  have v: "r2 ! unat r = v" "r2 ! unat a = x" "r2 ! unat b = y"
    using computes_keeps [OF c1 assms(5)] computes_keeps [OF c2, of r] computes_keeps [OF c2, of a] r d1(3) d2(3) fa assms(5)
    by (simp_all add: fresh_def)
  have pc: "current_pc s5 = current_pc s2"
    using alloc_reg_pc [OF 1(3)] alloc_reg_pc [OF 1(4)] alloc_reg_pc [OF 1(5)] by simp
  let ?r3 = "r2[unat c := V_Bool (cmp_ge v x)]"
  let ?r4 = "?r3[unat d := V_Bool (cmp_le v y)]"
  let ?r5 = "?r4[unat e := V_Bool (cmp_ge v x \<and> cmp_le v y)]"
  let ?p = "current_pc s2"
  have e3: "reaches S (?p, r2, st) (?p + 1, ?r3, st)"
    by (rule compare_reaches [OF site, of _ B_Ge c r a])
      (use f2(1) pc order e v in \<open>simp_all add: binary_instruction_def binary_value_def\<close>)
  have e4: "reaches S (?p + 1, ?r3, st) (?p + 1 + 1, ?r4, st)"
    by (rule compare_reaches [OF site, of _ B_Le d r b])
      (use f3(1) pc order e v in \<open>simp_all add: binary_instruction_def binary_value_def\<close>)
  have e5: "reaches S (?p + 1 + 1, ?r4, st) (?p + 1 + 1 + 1, ?r5, st)"
    by (rule compare_reaches [OF site, of _ B_And e c d])
      (use f4(1) pc order e v in \<open>simp_all add: binary_instruction_def binary_value_def\<close>)
  have e6: "reaches S (?p + 1 + 1 + 1, ?r5, st) (if cmp_ge v x \<and> cmp_le v y then t else ?p + 1 + 1 + 1 + 1, ?r5, st)"
    by (rule JumpIf_then [OF site _ assms(4), of _ e]) (use f5(1) pc e in simp_all)
  have "length ?r5 = length regs" "?r5 ! unat r = v" using d1(2) d2(2) v order by simp_all
  moreover have "current_pc s' = ?p + 1 + 1 + 1 + 1" using 1(6) pc by simp
  ultimately show "\<exists>regs'. length regs' = length regs \<and> regs' ! unat r = v \<and>
      reaches S (current_pc s, regs, st) (if cmp_ge v x \<and> cmp_le v y then t else current_pc s', regs', st)"
    using reaches_trans [OF reaches_trans [OF reaches_trans [OF reaches_trans [OF reaches_trans [OF d1(1) d2(1)] e3] e4] e5] e6]
    by metis
qed

lemma selectors_extended:
  "bd_checks (ce_build C) \<Longrightarrow> cfold (compile_selector C r l) sels s = Code s' \<Longrightarrow> extended s s'"
  by (rule cfold_extended [OF compile_selector_extended])

lemma selectors_decide:
  "cfold (compile_selector C r l) sels s = Code s' \<Longrightarrow> linked E C s S \<Longrightarrow> final S n A s' \<Longrightarrow> label_at S l = Some t \<Longrightarrow>
     unat r < unat (fs_next_reg s) \<Longrightarrow> matches E st v sels = Some b \<Longrightarrow>
     decides S n r v (current_pc s) (if b then t else current_pc s') st"
proof (induction sels arbitrary: s)
  case Nil
  then show ?case by (auto simp: decides_def)
next
  case (Cons sel sels)
  note bd = linked_site [OF Cons.prems(2), THEN conjunct2]
  obtain s1 where 1: "compile_selector C r l sel s = Code s1" "cfold (compile_selector C r l) sels s1 = Code s'"
    using Cons.prems(1) by auto
  note ex = compile_selector_extended [OF bd 1(1)]
  have f1: "final S n A s1" using final_extended [OF Cons.prems(3) selectors_extended [OF bd 1(2)]] .
  have "unat r < unat (fs_next_reg s1)" using Cons.prems(5) ex by (simp add: extended_def)
  note rest = Cons.IH [OF 1(2) linked_extended [OF Cons.prems(2) ex] Cons.prems(3,4) this]
  show ?case
  proof (cases sel)
    case (Single e)
    then obtain w where w: "eval E st e = Some w" "(if cmp_eq v w then Some True else matches E st v sels) = Some b"
      using Cons.prems(6) by (auto simp: bind_eq_Some_conv)
    note d = single_decides [OF 1(1) [unfolded Single] Cons.prems(2) f1 Cons.prems(4,5) w(1), of v]
    show ?thesis using d w(2) decides_trans [OF _ rest] by (cases "cmp_eq v w") auto
  next
    case (Range lo hi)
    then obtain x y where w: "eval E st lo = Some x" "eval E st hi = Some y"
      "(if cmp_ge v x \<and> cmp_le v y then Some True else matches E st v sels) = Some b"
      using Cons.prems(6) by (auto simp: bind_eq_Some_conv)
    note d = range_decides [OF 1(1) [unfolded Range] Cons.prems(2) f1 Cons.prems(4,5) w(1,2), of v]
    show ?thesis using d w(3) decides_trans [OF _ rest] by (cases "cmp_ge v x \<and> cmp_le v y") auto
  qed
qed

definition selects :: "source_env \<Rightarrow> site \<Rightarrow> nat \<Rightarrow> reg \<Rightarrow> case_selector list \<Rightarrow> nat \<Rightarrow> nat \<Rightarrow> nat \<Rightarrow> bool" where
  "selects E S n r sels p t f \<longleftrightarrow> (\<forall>st v b. matches E st v sels = Some b \<longrightarrow>
     decides S n r v p (if b then t else f) st)"

definition puts :: "source_env \<Rightarrow> site \<Rightarrow> nat \<Rightarrow> expression \<Rightarrow> reg \<Rightarrow> nat \<Rightarrow> nat \<Rightarrow> bool" where
  "puts E S n e r p t \<longleftrightarrow> (\<forall>st v regs. eval E st e = Some v \<longrightarrow> n \<le> length regs \<longrightarrow>
     (\<exists>regs'. length regs' = length regs \<and> regs' ! unat r = v \<and> reaches S (p, regs, st) (t, regs', st)))"

lemma selectsD:
  assumes "selects E S n r sels p t f" "matches E st v sels = Some b" "n \<le> length regs" "regs ! unat r = v"
  obtains regs' where "length regs' = length regs" "regs' ! unat r = v" "reaches S (p, regs, st) (if b then t else f, regs', st)"
  using assms unfolding selects_def decides_def by blast

lemma putsD:
  assumes "puts E S n e r p t" "eval E st e = Some v" "n \<le> length regs"
  obtains regs' where "length regs' = length regs" "regs' ! unat r = v" "reaches S (p, regs, st) (t, regs', st)"
  using assms unfolding puts_def by blast

lemma branch_code:
  assumes "compile_branches C r l (CaseBranch sels body rg # bs) s = Code s'" "compile_else C els s' = Code s''"
    "piece E C S n s s''" "label_at S l = Some t" "unat r < unat (fs_next_reg s)"
  obtains s1 s2 s3 where
    "compile_statements C body s1 = Code s2" "piece E C S n s1 s2" "fs_loop_exit_labels s1 = fs_loop_exit_labels s"
    "jumps S n (current_pc s2) t"
    "compile_branches C r l bs s3 = Code s'" "piece E C S n s3 s''" "fs_loop_exit_labels s3 = fs_loop_exit_labels s"
    "unat r < unat (fs_next_reg s3)"
    "selects E S n r sels (current_pc s) (current_pc s1) (current_pc s3)"
proof -
  obtain m s1 k s2 s3 s4 where 1: "alloc_label C s = Code (m, s1)" "alloc_label C s1 = Code (k, s2)"
    "cfold (compile_selector C r m) sels s2 = Code s3"
    "compile_statements C body (place_label m (emit (Jump k) s3)) = Code s4"
    "compile_branches C r l bs (place_label k (emit (Jump l) s4)) = Code s'"
    using assms(1) by auto
  let ?b = "place_label m (emit (Jump k) s3)" and ?e = "place_label k (emit (Jump l) s4)"
  have p: "linked E C s S" "labels_ok s" "final S n {labels_below s..} s''" and bd: "bd_checks (ce_build C)"
    using assms(3) linked_site by (auto simp: piece_def)
  note t2 = tracks_alloc [OF tracks_alloc [OF tracks_start [OF good_below [OF p(2)]] bd 1(1)] bd 1(2)]
  note t3 = tracks_emit [OF tracks_extended [OF t2 selectors_extended [OF bd 1(3)]], of "Jump k"]
  have mem: "m \<in> {k, m}" "k \<in> {k, m}" by simp_all
  note tb = tracks_place [OF t3 mem(1)]
  note t4 = tracks_emit [OF tracks_statements [OF tb bd 1(4)], of "Jump l"]
  note te = tracks_place [OF t4 mem(2)]
  note t5 = tracks_branches [OF te bd 1(5)]
  have mk: "unat m \<noteq> unat k"
    using alloc_label_next [OF bd 1(1)] alloc_label_next [OF bd 1(2)] by simp
  note fe = final_branches [OF final_else [OF p(3) tracks_labels_ok [OF t5] bd assms(2)] tracks_labels_ok [OF te] bd 1(5)]
  have k: "unat k \<in> {labels_below s..}" using tracks_label [OF t4 mem(2)] by simp
  note f4 = final_placed [OF fe t4 mem(2) k]
  note f4' = final_emit [OF f4(2)]
  note fb = final_statements [OF f4'(2) tracks_labels_ok [OF tb] bd 1(4)]
  have m: "unat m \<in> {labels_below s..} - {unat k}" using tracks_label [OF t3 mem(1)] mk by simp
  note f3 = final_placed [OF fb t3 mem(1) m]
  note f3' = final_emit [OF f3(2)]
  have "piece E C S n ?b s4" by (rule piece_part [OF f4'(2) tb p(1)]) auto
  moreover have "piece E C S n ?e s''" by (rule piece_part [OF p(3) te p(1)]) auto
  moreover have "jumps S n (current_pc s4) t"
    unfolding jumps_def using jump_carries [OF _ f4'(1) assms(4)] linked_site [OF p(1)] by simp
  moreover have sel: "decides S n r v (current_pc s) (if b then current_pc ?b else current_pc ?e) st"
    if "matches E st v sels = Some b" for st v b
  proof -
    have pc: "current_pc s2 = current_pc s" using alloc_label_pc [OF 1(1)] alloc_label_pc [OF 1(2)] by simp
    have r: "unat r < unat (fs_next_reg s2)" using assms(5) 1(1,2) by (auto simp: alloc_label_Code)
    have "decides S n r v (current_pc s) (if b then current_pc ?b else current_pc s3) st"
      using selectors_decide [OF 1(3) tracks_linked [OF t2 p(1)] f3'(2) f3(1) r that] pc
      by (simp split: if_split_asm)
    moreover have "decides S n r v (current_pc s3) (current_pc ?e) st"
      using Jump_reaches [OF _ f3'(1) f4(1), of _ "fst st" "snd st"] linked_site [OF p(1)]
      by (auto simp: decides_def)
    ultimately show ?thesis using decides_trans by (cases b) auto
  qed
  then have "selects E S n r sels (current_pc s) (current_pc ?b) (current_pc ?e)"
    unfolding selects_def by blast
  moreover have "unat r < unat (fs_next_reg ?e)"
    using assms(5) te by (simp add: tracks_def grown_def)
  ultimately show thesis
    using that [OF 1(4) _ tracks_exits [OF tb] _ 1(5) _ tracks_exits [OF te]] by blast
qed

lemma case_code:
  assumes "compile_statement C (S_Case e bs els rg) s = Code s'" "piece E C S n s s'"
  obtains r l s1 s2 s3 where
    "compile_branches C r l bs s1 = Code s2" "compile_else C els s2 = Code s3" "piece E C S n s1 s3"
    "label_at S l = Some (current_pc s3)" "unat r < unat (fs_next_reg s1)" "current_pc s3 = current_pc s'"
    "fs_loop_exit_labels s1 = fs_loop_exit_labels s"
    "puts E S n e r (current_pc s) (current_pc s1)"
proof -
  obtain l s1 r s2 s3 s4 where 1: "alloc_label C (set_source rg s) = Code (l, s1)" "compile_expression C e s1 = Code (r, s2)"
    "compile_branches C r l bs s2 = Code s3" "compile_else C els s3 = Code s4" "s' = place_label l s4"
    using assms(1) by auto
  have p: "linked E C s S" "labels_ok s" "final S n {labels_below s..} s'" and bd: "bd_checks (ce_build C)"
    using assms(2) linked_site by (auto simp: piece_def)
  note t0 = tracks_extended [OF tracks_start [OF good_below [OF p(2)]] set_source_extended]
  note t1 = tracks_alloc [OF t0 bd 1(1)]
  note t2 = tracks_expression [OF t1 bd 1(2)]
  note t3 = tracks_branches [OF t2 bd 1(3)]
  note t4 = tracks_else [OF t3 bd 1(4)]
  have l: "unat l \<in> {labels_below s..}" using tracks_label [OF t4 insertI1] by simp
  note f4 = final_placed [OF p(3) [unfolded 1(5)] t4 insertI1 l]
  note f2 = final_branches [OF final_else [OF f4(2) tracks_labels_ok [OF t3] bd 1(4)] tracks_labels_ok [OF t2] bd 1(3)]
  have "piece E C S n s2 s4" by (rule piece_part [OF f4(2) t2 p(1)]) auto
  have "unat r < unat (fs_next_reg s2)" using compile_expression_fresh [OF bd 1(2)] by (simp add: fresh_def)
  moreover have val: "\<exists>regs'. length regs' = length regs \<and> regs' ! unat r = v \<and>
      reaches S (current_pc s, regs, st) (current_pc s2, regs', st)"
    if v: "eval E st e = Some v" "n \<le> length regs" for st v regs
  proof -
    obtain regs' where "computes S s1 s2 st r v regs regs'"
      using expression_then [OF tracks_linked [OF t1 p(1)] 1(2) v(1) f2 v(2)] .
    from computesD [OF this] show ?thesis using alloc_label_pc [OF 1(1)] by auto
  qed
  then have "puts E S n e r (current_pc s) (current_pc s2)" unfolding puts_def by blast
  moreover have "piece E C S n s2 s4" by (rule piece_part [OF f4(2) t2 p(1)]) auto
  ultimately show thesis
    using that [OF 1(3,4) _ f4(1)] tracks_exits [OF t2] 1(5) by simp
qed

end
