(* ===== verification/Compile_Correct.thy ===== *)
theory Compile_Correct
  imports Compile_Code
begin

section \<open>Compiled statements do what their source means\<close>

text \<open>
  The code of a statement takes the locals and the globals from what they are to what the
  reference semantics says, and the program counter to the end of the code; an EXIT takes it to
  the exit label of its loop. One lemma per rule of the semantics, put together by rule
  induction.
\<close>

subsection \<open>The rules of the semantics\<close>

text \<open>Where a statement ends: at the end of its code, or at the exit label of the innermost loop.\<close>

definition ends_at :: "site \<Rightarrow> label list \<Rightarrow> nat \<Rightarrow> ending \<Rightarrow> nat \<Rightarrow> bool" where
  "ends_at S ls p out t \<longleftrightarrow>
     (case out of Normal \<Rightarrow> t = p | Exited \<Rightarrow> (case ls of [] \<Rightarrow> False | l # _ \<Rightarrow> label_at S l = Some t))"

lemma ends_at_simps [simp]: "ends_at S ls p Normal t \<longleftrightarrow> t = p" "\<not> ends_at S [] p Exited t"
  "ends_at S (l # ls) p Exited t \<longleftrightarrow> label_at S l = Some t"
  by (simp_all add: ends_at_def)

lemma ends_at_cases: "ends_at S ls p out t \<Longrightarrow> out = Normal \<and> t = p \<or> out = Exited \<and> (\<forall>q. ends_at S ls q out t)"
  by (cases out) (auto simp: ends_at_def)

definition valid_stmt :: "source_env \<Rightarrow> site \<Rightarrow> nat \<Rightarrow> statement \<Rightarrow> store \<Rightarrow> ending \<Rightarrow> store \<Rightarrow> bool" where
  "valid_stmt E S n x st out st' \<longleftrightarrow> (\<forall>C s s' t. compile_statement C x s = Code s' \<longrightarrow> piece E C S n s s' \<longrightarrow>
     store_ok E st \<longrightarrow> ends_at S (fs_loop_exit_labels s) (current_pc s') out t \<longrightarrow>
     carries S n (current_pc s) st t st')"

definition valid_stmts :: "source_env \<Rightarrow> site \<Rightarrow> nat \<Rightarrow> statement list \<Rightarrow> store \<Rightarrow> ending \<Rightarrow> store \<Rightarrow> bool" where
  "valid_stmts E S n xs st out st' \<longleftrightarrow> (\<forall>C s s' t. compile_statements C xs s = Code s' \<longrightarrow> piece E C S n s s' \<longrightarrow>
     store_ok E st \<longrightarrow> ends_at S (fs_loop_exit_labels s) (current_pc s') out t \<longrightarrow>
     carries S n (current_pc s) st t st')"

definition valid_elsifs ::
  "source_env \<Rightarrow> site \<Rightarrow> nat \<Rightarrow> elsif_clause list \<Rightarrow> statement list option \<Rightarrow> store \<Rightarrow> ending \<Rightarrow> store \<Rightarrow> bool" where
  "valid_elsifs E S n es els st out st' \<longleftrightarrow> (\<forall>C l s s' s'' t. compile_elsifs C l es s = Code s' \<longrightarrow>
     compile_else C els s' = Code s'' \<longrightarrow> piece E C S n s s'' \<longrightarrow> label_at S l = Some (current_pc s'') \<longrightarrow>
     store_ok E st \<longrightarrow> ends_at S (fs_loop_exit_labels s) (current_pc s'') out t \<longrightarrow>
     carries S n (current_pc s) st t st')"

definition valid_branches :: "source_env \<Rightarrow> site \<Rightarrow> nat \<Rightarrow> val \<Rightarrow> case_branch list \<Rightarrow> statement list option \<Rightarrow>
    store \<Rightarrow> ending \<Rightarrow> store \<Rightarrow> bool" where
  "valid_branches E S n v bs els st out st' \<longleftrightarrow> (\<forall>C r l s s' s'' t regs. compile_branches C r l bs s = Code s' \<longrightarrow>
     compile_else C els s' = Code s'' \<longrightarrow> piece E C S n s s'' \<longrightarrow> label_at S l = Some (current_pc s'') \<longrightarrow>
     store_ok E st \<longrightarrow> ends_at S (fs_loop_exit_labels s) (current_pc s'') out t \<longrightarrow>
     unat r < unat (fs_next_reg s) \<longrightarrow> n \<le> length regs \<longrightarrow> regs ! unat r = v \<longrightarrow>
     (\<exists>regs'. length regs' = length regs \<and> reaches S (current_pc s, regs, st) (t, regs', st')))"

definition valid_for :: "source_env \<Rightarrow> site \<Rightarrow> nat \<Rightarrow> string \<Rightarrow> expression \<Rightarrow> expression option \<Rightarrow> statement list \<Rightarrow>
    store \<Rightarrow> store \<Rightarrow> bool" where
  "valid_for E S n x to step body st st' \<longleftrightarrow> (\<forall>C m l s s'. for_loop C x to step body m l s = Code s' \<longrightarrow>
     linked E C s S \<longrightarrow> labels_ok s \<longrightarrow> unat l < labels_below s \<longrightarrow>
     final S n (insert (unat l) {labels_below s..}) s' \<longrightarrow> label_at S m = Some (current_pc s) \<longrightarrow>
     store_ok E st \<longrightarrow> carries S n (current_pc s) st (current_pc s') st')"

lemmas valid_defs = valid_stmt_def valid_stmts_def valid_elsifs_def valid_branches_def valid_for_def

lemma valid_stmtsD:
  "valid_stmts E S n xs st out st' \<Longrightarrow> compile_statements C xs s = Code s' \<Longrightarrow> piece E C S n s s' \<Longrightarrow> store_ok E st \<Longrightarrow>
     ends_at S (fs_loop_exit_labels s) (current_pc s') out t \<Longrightarrow> carries S n (current_pc s) st t st'"
  unfolding valid_stmts_def by blast

lemma valid_stmtD:
  "valid_stmt E S n x st out st' \<Longrightarrow> compile_statement C x s = Code s' \<Longrightarrow> piece E C S n s s' \<Longrightarrow> store_ok E st \<Longrightarrow>
     ends_at S (fs_loop_exit_labels s) (current_pc s') out t \<Longrightarrow> carries S n (current_pc s) st t st'"
  unfolding valid_stmt_def by blast

lemma valid_elsifsD:
  "valid_elsifs E S n es els st out st' \<Longrightarrow> compile_elsifs C l es s = Code s' \<Longrightarrow> compile_else C els s' = Code s'' \<Longrightarrow>
     piece E C S n s s'' \<Longrightarrow> label_at S l = Some (current_pc s'') \<Longrightarrow> store_ok E st \<Longrightarrow>
     ends_at S (fs_loop_exit_labels s) (current_pc s'') out t \<Longrightarrow> carries S n (current_pc s) st t st'"
  unfolding valid_elsifs_def by blast

lemma valid_branchesD:
  assumes "valid_branches E S n v bs els st out st'" "compile_branches C r l bs s = Code s'"
    "compile_else C els s' = Code s''" "piece E C S n s s''" "label_at S l = Some (current_pc s'')" "store_ok E st"
    "ends_at S (fs_loop_exit_labels s) (current_pc s'') out t" "unat r < unat (fs_next_reg s)" "n \<le> length regs"
    "regs ! unat r = v"
  obtains regs' where "length regs' = length regs" "reaches S (current_pc s, regs, st) (t, regs', st')"
  using assms unfolding valid_branches_def by blast

lemma valid_forD:
  "valid_for E S n x to step body st st' \<Longrightarrow> for_loop C x to step body m l s = Code s' \<Longrightarrow> linked E C s S \<Longrightarrow>
     labels_ok s \<Longrightarrow> unat l < labels_below s \<Longrightarrow> final S n (insert (unat l) {labels_below s..}) s' \<Longrightarrow>
     label_at S m = Some (current_pc s) \<Longrightarrow> store_ok E st \<Longrightarrow> carries S n (current_pc s) st (current_pc s') st'"
  unfolding valid_for_def by blast

lemma carriesD:
  assumes "carries S n p st t st'" "n \<le> length regs"
  obtains regs' where "length regs' = length regs" "reaches S (p, regs, st) (t, regs', st')"
  using assms unfolding carries_def by blast

text \<open>A body whose end is followed by a jump to where the construct ends.\<close>

lemma valid_ends:
  assumes "valid_stmts E S n xs st out st'" "compile_statements C xs s = Code s'" "piece E C S n s s'" "store_ok E st"
    "ends_at S (fs_loop_exit_labels s) p out t" "jumps S n (current_pc s') p"
  shows "carries S n (current_pc s) st t st'"
proof (cases out)
  case Normal
  then have "carries S n (current_pc s) st (current_pc s') st'"
    using valid_stmtsD [OF assms(1-4)] by simp
  moreover have "carries S n (current_pc s') st' p st'" using assms(6) unfolding jumps_def by blast
  ultimately have "carries S n (current_pc s) st p st'" by (rule carries_trans)
  then show ?thesis using assms(5) Normal by simp
next
  case Exited
  then show ?thesis
    using valid_stmtsD [OF assms(1-4)] assms(5) by (simp add: ends_at_def)
qed

lemma valid_assign: "eval E st e = Some v \<Longrightarrow>
    valid_stmt E S n (S_Assignment (VariableAccess [A_Identifier x] rg) e r) st Normal (assign E (id_name x) v st)"
  unfolding valid_stmt_def ends_at_simps piece_def using assign_carries by blast

lemma valid_assign_part: "eval E st e = Some v \<Longrightarrow> read_var E st (id_name x) = Some a \<Longrightarrow>
    partial_update (se_rt E) k i a v = Some w \<Longrightarrow>
    valid_stmt E S n (S_Assignment (VariableAccess [A_Identifier x, A_Partial k i] rg) e r) st Normal
      (assign E (id_name x) w st)"
  unfolding valid_stmt_def ends_at_simps piece_def using assign_part_carries by blast

lemma valid_if:
  assumes "valid_elsifs E S n (ElsifClause c body r # es) els st out st'"
  shows "valid_stmt E S n (S_If c body es els r) st out st'"
  unfolding valid_stmt_def
proof (intro allI impI)
  fix C s s' t assume 1: "compile_statement C (S_If c body es els r) s = Code s'" "piece E C S n s s'" "store_ok E st"
    "ends_at S (fs_loop_exit_labels s) (current_pc s') out t"
  obtain l s1 s2 s3 where 2: "compile_elsifs C l (ElsifClause c body r # es) s1 = Code s2" "compile_else C els s2 = Code s3"
    "piece E C S n s1 s3" "label_at S l = Some (current_pc s3)" "current_pc s1 = current_pc s" "current_pc s3 = current_pc s'"
    "fs_loop_exit_labels s1 = fs_loop_exit_labels s"
    using if_code [OF 1(1,2)] .
  show "carries S n (current_pc s) st t st'"
    using valid_elsifsD [OF assms 2(1-4) 1(3)] 1(4) 2(5-7) by simp
qed

lemma valid_elsif:
  assumes "eval E st c = Some v" "as_bool v \<Longrightarrow> valid_stmts E S n body st out st'"
    "\<not> as_bool v \<Longrightarrow> valid_elsifs E S n es els st out st'"
  shows "valid_elsifs E S n (ElsifClause c body r # es) els st out st'"
  unfolding valid_elsifs_def
proof (intro allI impI)
  fix C l s s' s'' t assume 1: "compile_elsifs C l (ElsifClause c body r # es) s = Code s'" "compile_else C els s' = Code s''"
    "piece E C S n s s''" "label_at S l = Some (current_pc s'')" "store_ok E st"
    "ends_at S (fs_loop_exit_labels s) (current_pc s'') out t"
  obtain s1 s2 s3 where 2: "compile_statements C body s1 = Code s2" "piece E C S n s1 s2"
    "fs_loop_exit_labels s1 = fs_loop_exit_labels s" "jumps S n (current_pc s2) (current_pc s'')"
    "compile_elsifs C l es s3 = Code s'" "piece E C S n s3 s''" "fs_loop_exit_labels s3 = fs_loop_exit_labels s"
    "tests E S n c (current_pc s) (current_pc s1) (current_pc s3)"
    using elsif_code [OF 1(1-4)] .
  note test = testsD [OF 2(8) assms(1)]
  show "carries S n (current_pc s) st t st'"
  proof (cases "as_bool v")
    case True
    have "carries S n (current_pc s1) st t st'"
      using valid_ends [OF assms(2) [OF True] 2(1,2) 1(5) _ 2(4)] 1(6) 2(3) by simp
    with test True show ?thesis by (auto intro: carries_trans)
  next
    case False
    have "carries S n (current_pc s3) st t st'"
      using valid_elsifsD [OF assms(3) [OF False] 2(5) 1(2) 2(6) 1(4,5)] 1(6) 2(7) by simp
    with test False show ?thesis by (auto intro: carries_trans)
  qed
qed

lemma compile_else_statements: "compile_else C els s = compile_statements C (else_statements els) s"
  by (cases els) (simp_all add: else_statements_def)

lemma valid_else: "valid_stmts E S n (else_statements els) st out st' \<Longrightarrow> valid_elsifs E S n [] els st out st'"
  unfolding valid_elsifs_def valid_stmts_def by (simp add: compile_else_statements)

lemma valid_no_branch: "valid_stmts E S n (else_statements els) st out st' \<Longrightarrow> valid_branches E S n v [] els st out st'"
  unfolding valid_branches_def valid_stmts_def carries_def by (simp add: compile_else_statements)

lemma valid_branch:
  assumes "matches E st v sels = Some b" "b \<Longrightarrow> valid_stmts E S n body st out st'"
    "\<not> b \<Longrightarrow> valid_branches E S n v bs els st out st'"
  shows "valid_branches E S n v (CaseBranch sels body rg # bs) els st out st'"
  unfolding valid_branches_def
proof (intro allI impI)
  fix C r l s s' s'' t and regs :: "val list"
  assume 1: "compile_branches C r l (CaseBranch sels body rg # bs) s = Code s'" "compile_else C els s' = Code s''"
    "piece E C S n s s''" "label_at S l = Some (current_pc s'')" "store_ok E st"
    "ends_at S (fs_loop_exit_labels s) (current_pc s'') out t" "unat r < unat (fs_next_reg s)" "n \<le> length regs"
    "regs ! unat r = v"
  obtain s1 s2 s3 where 2: "compile_statements C body s1 = Code s2" "piece E C S n s1 s2"
    "fs_loop_exit_labels s1 = fs_loop_exit_labels s" "jumps S n (current_pc s2) (current_pc s'')"
    "compile_branches C r l bs s3 = Code s'" "piece E C S n s3 s''" "fs_loop_exit_labels s3 = fs_loop_exit_labels s"
    "unat r < unat (fs_next_reg s3)" "selects E S n r sels (current_pc s) (current_pc s1) (current_pc s3)"
    using branch_code [OF 1(1-4,7)] .
  obtain r1 where r1: "length r1 = length regs" "r1 ! unat r = v"
    "reaches S (current_pc s, regs, st) (if b then current_pc s1 else current_pc s3, r1, st)"
    using selectsD [OF 2(9) assms(1) 1(8,9)] .
  have n: "n \<le> length r1" using 1(8) r1(1) by simp
  have "\<exists>r2. length r2 = length r1 \<and> reaches S (if b then current_pc s1 else current_pc s3, r1, st) (t, r2, st')"
  proof (cases b)
    case True
    have "carries S n (current_pc s1) st t st'"
      using valid_ends [OF assms(2) [OF True] 2(1,2) 1(5) _ 2(4)] 1(6) 2(3) by simp
    from carriesD [OF this n] True show ?thesis by auto
  next
    case False
    have "ends_at S (fs_loop_exit_labels s3) (current_pc s'') out t" using 1(6) 2(7) by simp
    from valid_branchesD [OF assms(3) [OF False] 2(5) 1(2) 2(6) 1(4,5) this 2(8) n r1(2)] False show ?thesis by auto
  qed
  then obtain r2 where r2: "length r2 = length r1"
    "reaches S (if b then current_pc s1 else current_pc s3, r1, st) (t, r2, st')" by blast
  from reaches_trans [OF r1(3) r2(2)] r1(1) r2(1)
  show "\<exists>regs'. length regs' = length regs \<and> reaches S (current_pc s, regs, st) (t, regs', st')"
    by (intro exI [of _ r2]) simp
qed

lemma valid_case:
  assumes "eval E st e = Some v" "valid_branches E S n v bs els st out st'"
  shows "valid_stmt E S n (S_Case e bs els rg) st out st'"
  unfolding valid_stmt_def
proof (intro allI impI)
  fix C s s' t assume 1: "compile_statement C (S_Case e bs els rg) s = Code s'" "piece E C S n s s'" "store_ok E st"
    "ends_at S (fs_loop_exit_labels s) (current_pc s') out t"
  obtain r l s1 s2 s3 where 2: "compile_branches C r l bs s1 = Code s2" "compile_else C els s2 = Code s3" "piece E C S n s1 s3"
    "label_at S l = Some (current_pc s3)" "unat r < unat (fs_next_reg s1)" "current_pc s3 = current_pc s'"
    "fs_loop_exit_labels s1 = fs_loop_exit_labels s" "puts E S n e r (current_pc s) (current_pc s1)"
    using case_code [OF 1(1,2)] .
  have ends: "ends_at S (fs_loop_exit_labels s1) (current_pc s3) out t" using 1(4) 2(6,7) by simp
  show "carries S n (current_pc s) st t st'"
  proof (rule carriesI)
    fix regs :: "val list" assume n: "n \<le> length regs"
    obtain r1 where r1: "length r1 = length regs" "r1 ! unat r = v" "reaches S (current_pc s, regs, st) (current_pc s1, r1, st)"
      using putsD [OF 2(8) assms(1) n] .
    have "n \<le> length r1" using n r1(1) by simp
    then obtain r2 where "length r2 = length r1" "reaches S (current_pc s1, r1, st) (t, r2, st')"
      using valid_branchesD [OF assms(2) 2(1-4) 1(3) ends 2(5) _ r1(2)] by blast
    with r1(1,3) show "\<exists>c regs2. reaches S (current_pc s, regs, st) c \<and> reaches S c (t, regs2, st') \<and> length regs2 = length regs"
      by (intro exI [of _ "(current_pc s1, r1, st)"] exI [of _ r2]) simp
  qed
qed

lemma valid_cons:
  assumes "valid_stmt E S n x st Normal st1" "store_ok E st \<Longrightarrow> store_ok E st1" "valid_stmts E S n xs st1 out st'"
  shows "valid_stmts E S n (x # xs) st out st'"
  unfolding valid_stmts_def
proof (intro allI impI)
  fix C s s' t assume 1: "compile_statements C (x # xs) s = Code s'" "piece E C S n s s'" "store_ok E st"
    "ends_at S (fs_loop_exit_labels s) (current_pc s') out t"
  obtain s1 where 2: "compile_statement C x s = Code s1" "piece E C S n s s1"
    "compile_statements C xs s1 = Code s'" "piece E C S n s1 s'" "fs_loop_exit_labels s1 = fs_loop_exit_labels s"
    using statements_code [OF 1(1,2)] .
  have "carries S n (current_pc s) st (current_pc s1) st1"
    using valid_stmtD [OF assms(1) 2(1,2) 1(3)] by simp
  moreover have "carries S n (current_pc s1) st1 t st'"
    using valid_stmtsD [OF assms(3) 2(3,4) assms(2) [OF 1(3)]] 1(4) 2(5) by simp
  ultimately show "carries S n (current_pc s) st t st'" by (rule carries_trans)
qed

lemma valid_cons_exit:
  assumes "valid_stmt E S n x st Exited st'"
  shows "valid_stmts E S n (x # xs) st Exited st'"
  unfolding valid_stmts_def
proof (intro allI impI)
  fix C s s' t assume 1: "compile_statements C (x # xs) s = Code s'" "piece E C S n s s'" "store_ok E st"
    "ends_at S (fs_loop_exit_labels s) (current_pc s') Exited t"
  obtain s1 where 2: "compile_statement C x s = Code s1" "piece E C S n s s1"
    "compile_statements C xs s1 = Code s'" "piece E C S n s1 s'" "fs_loop_exit_labels s1 = fs_loop_exit_labels s"
    using statements_code [OF 1(1,2)] .
  show "carries S n (current_pc s) st t st'"
    using valid_stmtD [OF assms 2(1,2) 1(3)] 1(4) by (simp add: ends_at_def)
qed

subsection \<open>Loops\<close>

lemma valid_while:
  assumes "eval E st c = Some v" "\<not> as_bool v \<Longrightarrow> st' = st" "as_bool v \<Longrightarrow> valid_stmts E S n body st out st1"
    "as_bool v \<Longrightarrow> out = Exited \<Longrightarrow> st' = st1"
    "as_bool v \<Longrightarrow> out = Normal \<Longrightarrow> (store_ok E st \<longrightarrow> store_ok E st1) \<and> valid_stmt E S n (S_While c body r) st1 Normal st'"
  shows "valid_stmt E S n (S_While c body r) st Normal st'"
  unfolding valid_stmt_def
proof (intro allI impI)
  fix C s s' t assume 1: "compile_statement C (S_While c body r) s = Code s'" "piece E C S n s s'" "store_ok E st"
    "ends_at S (fs_loop_exit_labels s) (current_pc s') Normal t"
  obtain l s1 s2 where 2: "compile_statements C body s1 = Code s2" "piece E C S n s1 s2"
    "fs_loop_exit_labels s1 = l # fs_loop_exit_labels s" "label_at S l = Some (current_pc s')"
    "jumps S n (current_pc s2) (current_pc s)" "tests E S n c (current_pc s) (current_pc s1) (current_pc s')"
    using while_code [OF 1(1,2)] .
  note test = testsD [OF 2(6) assms(1)]
  show "carries S n (current_pc s) st t st'"
  proof (cases "as_bool v")
    case True
    have body: "carries S n (current_pc s1) st (case out of Normal \<Rightarrow> current_pc s | Exited \<Rightarrow> t) st1"
      by (rule valid_ends [OF assms(3) [OF True] 2(1,2) 1(3) _ 2(5)]) (use 1(4) 2(3,4) in \<open>cases out; simp\<close>)
    have "carries S n (case out of Normal \<Rightarrow> current_pc s | Exited \<Rightarrow> t) st1 t st'"
    proof (cases out)
      case Normal
      with assms(5) [OF True] valid_stmtD [OF _ 1(1,2) _ 1(4)] 1(3) show ?thesis by simp
    next
      case Exited
      with assms(4) [OF True] show ?thesis by simp
    qed
    from carries_trans [OF body this] test True show ?thesis by (auto intro: carries_trans)
  next
    case False
    with test assms(2) 1(4) show ?thesis by simp
  qed
qed

lemma valid_repeat:
  assumes "valid_stmts E S n body st out st1" "out = Exited \<Longrightarrow> st' = st1" "store_ok E st \<longrightarrow> store_ok E st1"
    "out = Normal \<Longrightarrow> eval E st1 c = Some v \<and> (if as_bool v then st' = st1 else valid_stmt E S n (S_Repeat body c r) st1 Normal st')"
  shows "valid_stmt E S n (S_Repeat body c r) st Normal st'"
  unfolding valid_stmt_def
proof (intro allI impI)
  fix C s s' t assume 1: "compile_statement C (S_Repeat body c r) s = Code s'" "piece E C S n s s'" "store_ok E st"
    "ends_at S (fs_loop_exit_labels s) (current_pc s') Normal t"
  obtain l s1 s2 where 2: "compile_statements C body s1 = Code s2" "piece E C S n s1 s2"
    "fs_loop_exit_labels s1 = l # fs_loop_exit_labels s" "label_at S l = Some (current_pc s')"
    "current_pc s1 = current_pc s" "tests E S n c (current_pc s2) (current_pc s') (current_pc s)"
    using repeat_code [OF 1(1,2)] .
  note body = valid_stmtsD [OF assms(1) 2(1,2) 1(3)]
  show "carries S n (current_pc s) st t st'"
  proof (cases out)
    case Normal
    then have b: "carries S n (current_pc s) st (current_pc s2) st1" using body 2(5) by simp
    have e: "eval E st1 c = Some v" using assms(4) Normal by simp
    have "carries S n (if as_bool v then current_pc s' else current_pc s) st1 t st'"
      using assms(4) [OF Normal] valid_stmtD [OF _ 1(1,2) _ 1(4)] assms(3) 1(3,4) by (auto split: if_split_asm)
    from carries_trans [OF b carries_trans [OF testsD [OF 2(6) e] this]] show ?thesis .
  next
    case Exited
    with body assms(2) 1(4) 2(3-5) show ?thesis by simp
  qed
qed

lemma valid_exit: "valid_stmt E S n (S_Exit r) st Exited st"
  unfolding valid_stmt_def
proof (intro allI impI)
  fix C s s' t assume 1: "compile_statement C (S_Exit r) s = Code s'" "piece E C S n s s'"
    "ends_at S (fs_loop_exit_labels s) (current_pc s') Exited t"
  from 1(3) obtain l ls where l: "fs_loop_exit_labels s = l # ls" "label_at S l = Some t"
    by (cases "fs_loop_exit_labels s") simp_all
  then have "s' = emit (Jump l) (set_source r s)" using 1(1) by (simp add: Let_def set_source_def)
  with 1(2) have "has_instr S (current_pc s) (Jump l)"
    using final_emit(1) [of S n _ "Jump l" "set_source r s"] by (auto simp: piece_def)
  with jump_carries [OF piece_site [OF 1(2)] _ l(2)] show "carries S n (current_pc s) st t st" by blast
qed

lemma valid_empty: "valid_stmt E S n (S_Empty r) st Normal st"
  unfolding valid_stmt_def by auto

lemma valid_nil: "valid_stmts E S n [] st Normal st"
  unfolding valid_stmts_def by auto

lemma valid_for_start:
  assumes "eval E st start = Some v" "valid_for E S n (id_name x) to step body (assign_local E (id_name x) v st) st'"
  shows "valid_stmt E S n (S_For x start to step body r) st Normal st'"
  unfolding valid_stmt_def
proof (intro allI impI)
  fix C s s' t assume 1: "compile_statement C (S_For x start to step body r) s = Code s'" "piece E C S n s s'" "store_ok E st"
    "ends_at S (fs_loop_exit_labels s) (current_pc s') Normal t"
  obtain m l s1 where 2: "for_loop C (id_name x) to step body m l s1 = Code s'" "linked E C s1 S" "labels_ok s1"
    "unat l < labels_below s1" "final S n (insert (unat l) {labels_below s1..}) s'" "label_at S m = Some (current_pc s1)"
    "fs_loop_exit_labels s1 = fs_loop_exit_labels s" "starts_for E S n (id_name x) start (current_pc s) (current_pc s1)"
    using for_code [OF 1(1,2)] .
  have "carries S n (current_pc s) st (current_pc s1) (assign_local E (id_name x) v st)"
    using 2(8) 1(3) assms(1) unfolding starts_for_def by blast
  moreover have "carries S n (current_pc s1) (assign_local E (id_name x) v st) t st'"
    using valid_forD [OF assms(2) 2(1-6)] 1(3,4) by simp
  ultimately show "carries S n (current_pc s) st t st'" by (rule carries_trans)
qed

lemma valid_for_round:
  assumes "read_var E st x = Some a" "eval E st to = Some b" "\<not> cmp_le a b \<Longrightarrow> st' = st"
    "cmp_le a b \<Longrightarrow> valid_stmts E S n body st out st1" "cmp_le a b \<Longrightarrow> out = Exited \<Longrightarrow> st' = st1"
    "cmp_le a b \<Longrightarrow> out = Normal \<Longrightarrow> (store_ok E st \<longrightarrow> store_ok E st1) \<and> step_of E st1 step = Some d \<and>
       read_var E st1 x = Some a1 \<and> val_add a1 d = Res a2 \<and> valid_for E S n x to step body (assign_local E x a2 st1) st'"
  shows "valid_for E S n x to step body st st'"
  unfolding valid_for_def
proof (intro allI impI)
  fix C m l s s' assume 1: "for_loop C x to step body m l s = Code s'" "linked E C s S" "labels_ok s"
    "unat l < labels_below s" "final S n (insert (unat l) {labels_below s..}) s'" "label_at S m = Some (current_pc s)"
    "store_ok E st"
  obtain s1 s2 where 2: "final S n (insert (unat l) {labels_below s..} - {unat l}) s"
    "compile_statements C body s1 = Code s2" "piece E C S n s1 s2"
    "fs_loop_exit_labels s1 = l # fs_loop_exit_labels s" "label_at S l = Some (current_pc s')"
    "tests_for E S n x to (current_pc s) (current_pc s1) (current_pc s')"
    "label_at S m = Some (current_pc s) \<Longrightarrow> steps_for E S n x step (current_pc s2) (current_pc s)"
    using for_loop_code [OF 1(1-5) subset_refl] by blast
  note test = tests_forD [OF 2(6) assms(1,2)]
  show "carries S n (current_pc s) st (current_pc s') st'"
  proof (cases "cmp_le a b")
    case True
    note body = valid_stmtsD [OF assms(4) [OF True] 2(2,3) 1(7)]
    have "carries S n (current_pc s1) st (current_pc s') st'"
    proof (cases out)
      case Normal
      note x = assms(6) [OF True Normal]
      have "carries S n (current_pc s1) st (current_pc s2) st1" using body Normal by simp
      moreover have "carries S n (current_pc s2) st1 (current_pc s) (assign_local E x a2 st1)"
        using steps_forD [OF 2(7) [OF 1(6)]] x 1(7) by blast
      moreover have "carries S n (current_pc s) (assign_local E x a2 st1) (current_pc s') st'"
        using valid_forD [OF _ 1(1-6)] x 1(7) by simp
      ultimately show ?thesis using carries_trans by meson
    next
      case Exited
      then show ?thesis using body 2(4,5) assms(5) [OF True] by simp
    qed
    with test True show ?thesis by (auto intro: carries_trans)
  next
    case False
    with test assms(3) show ?thesis by simp
  qed
qed

subsection \<open>Every statement\<close>

theorem statements_correct:
  "run_stmt E x st out st' \<Longrightarrow> valid_stmt E S n x st out st'"
  "run_stmts E xs st out st' \<Longrightarrow> valid_stmts E S n xs st out st'"
  "run_elsifs E es els st out st' \<Longrightarrow> valid_elsifs E S n es els st out st'"
  "run_branches E v bs els st out st' \<Longrightarrow> valid_branches E S n v bs els st out st'"
  "run_for E y to step body st st' \<Longrightarrow> valid_for E S n y to step body st st'"
proof (induction rule: run_stmt_run_stmts_run_elsifs_run_branches_run_for.inducts)
  case (run_for_next st x a to b body st1 step d a1 a2 st')
  then show ?case
    using valid_for_round [of E st x a to b st' S n body Normal st1 step d a1 a2] run_store_ok(2) by blast
next
  case (run_for_exit st x a to b body st' step)
  then show ?case
    using valid_for_round [of E st x a to b st' S n body Exited st' step] by blast
next
  case (run_for_end st x a to b step body)
  then show ?case
    using valid_for_round [of E st x a to b st S n body _ _ step] by blast
qed (auto intro: valid_assign valid_assign_part valid_exit valid_empty valid_nil valid_else valid_no_branch valid_cons_exit
    valid_if valid_elsif valid_branch valid_case valid_for_start valid_while valid_repeat valid_cons dest: run_store_ok)

end
