(* ===== verification/Compile_Sample.thy ===== *)
theory Compile_Sample
  imports Compile_Module Source_Sem Sample
begin

section \<open>A compiled program, run\<close>

text \<open>
  A program with a FOR loop, a CASE with a range, an EXIT and a partial access, compiled by the
  module compiler and run for a cycle: the instance the theorems about the compiler are applied to.
\<close>

definition at0 :: text_range where
  "at0 = \<lparr>tr_start = 0, tr_end = 0\<rparr>"

definition named :: "string \<Rightarrow> ident" where
  "named n = \<lparr>id_name = n, id_range = at0\<rparr>"

definition var :: "string \<Rightarrow> expression" where
  "var n = E_Variable (VariableAccess [A_Identifier (named n)] at0)"

definition num :: "i64 \<Rightarrow> expression" where
  "num k = E_Literal \<lparr>li_kind = L_Integer k, li_range = at0\<rparr>"

definition bin :: "binary_op \<Rightarrow> expression \<Rightarrow> expression \<Rightarrow> expression" where
  "bin op l r = E_Binary op l r at0"

definition set_to :: "string \<Rightarrow> expression \<Rightarrow> statement" where
  "set_to n e = S_Assignment (VariableAccess [A_Identifier (named n)] at0) e at0"

definition int_vars :: "var_kind \<Rightarrow> string list \<Rightarrow> var_block" where
  "int_vars k ns = \<lparr>vb_kind = k, vb_qualifiers = [],
     vb_declarations = [\<lparr>vd_names = map named ns, vd_ty = D_Elementary ET_Int, vd_initial_value = None, vd_range = at0\<rparr>],
     vb_range = at0\<rparr>"

definition plain_build :: build where
  "plain_build = \<lparr>bd_checks = True, bd_parse_f64 = (\<lambda>_. None)\<rparr>"

definition sum_body :: "statement list" where
  "sum_body =
     [S_For (named ''i'') (num 1) (num 9) None
        [set_to ''sum'' (bin B_Add (var ''sum'') (var ''i'')),
         S_If (bin B_Ge (var ''sum'') (num 3)) [S_Exit at0] [] None at0] at0,
      S_Case (var ''sum'') [CaseBranch [Single (num 7), Range (num 2) (num 4)]
        [S_Assignment (VariableAccess [A_Identifier (named ''out''), A_Partial P_Bit 3] at0) (bin B_Gt (var ''i'') (num 1)) at0]
        at0] None at0]"

definition sum_program :: program_decl where
  "sum_program = \<lparr>pd_name = named ''Main'', pd_var_blocks = [int_vars Var [''i'', ''sum'']],
     pd_body = sum_body, pd_range = at0\<rparr>"

definition sum_source :: source_file where
  "sum_source = \<lparr>sf_items = [TI_GlobalVarDeclaration (int_vars VarGlobal [''out'']), TI_Program sum_program], sf_file_range = at0\<rparr>"

lemmas sample_defs = at0_def named_def var_def num_def bin_def set_to_def int_vars_def plain_build_def sum_body_def
  sum_program_def sum_source_def

declare find_method_in_hierarchy.simps [code] ancestor_blocks.simps [code]



lemma names_eq [simp]:
  "eq_ignore_ascii_case ''i'' ''i''" "eq_ignore_ascii_case ''sum'' ''sum''" "eq_ignore_ascii_case ''out'' ''out''"
  "\<not> eq_ignore_ascii_case ''i'' ''sum''" "\<not> eq_ignore_ascii_case ''i'' ''out''" "\<not> eq_ignore_ascii_case ''sum'' ''out''"
  "\<not> eq_ignore_ascii_case ''out'' ''i''" "\<not> eq_ignore_ascii_case ''out'' ''sum''"
  "eq_ignore_ascii_case ''Main'' ''Main''"
  by code_simp+

definition sum_env :: fn_env where
  "sum_env = env_of plain_build (fold register_item (sf_items sum_source) module_compiler_new)"

definition sum_start :: fn_state where
  "sum_start = (fn_state_new [])\<lparr>fs_locals := \<lparr>slots = [(int_slot ''i'' I16)\<lparr>vs_retain := False\<rparr>, (int_slot ''sum'' I16)\<lparr>vs_retain := False, vs_offset := 8\<rparr>]\<rparr>\<rparr>"

lemmas emitted = fn_state_new_def int_slot_def load_const_def alloc_reg_def alloc_label_def place_label_def room_for_def pad_to_def emit_def
  set_source_def location_of_def current_pc_def compile_load_variable_def compile_plain_access_def
  emit_sourced_def compile_store_def store_variable_def push_exit_def pop_exit_def store_loop_variable_def compile_selector_def step_value_def compile_partial_read_def partial_write_def binary_instruction_def unplaced_def

lemmas registered = env_of_def register_pou_def push_function_def empty_function_def
  register_globals_def register_global_def module_compiler_new_def Let_def

lemma found: "find_global sum_env ''out'' = Some 0" "find_global sum_env ''i'' = None" "find_global sum_env ''sum'' = None"
  "bd_checks (ce_build sum_env)" "ce_build sum_env = plain_build"
  by (simp_all add: sum_env_def sample_defs registered slot_pos_def find_global_def find_slot_def)


definition sum_locals :: memory_layout where
  "sum_locals = fs_locals sum_start"

definition sum_globals :: memory_layout where
  "sum_globals = ce_globals sum_env"

lemma sum_code: "\<exists>s. compile_statements sum_env sum_body sum_start = Code s \<and> fs_locals s = sum_locals"
  by (simp add: sum_locals_def sum_start_def sample_defs found emitted slot_pos_def find_slot_def find_local_def literal_to_value_def)

definition sum_sem :: source_env where
  "sum_sem = \<lparr>se_rt = demo_env, se_build = plain_build, se_locals = sum_locals, se_globals = sum_globals\<rparr>"

lemma sum_names [simp]:
  "find_slot sum_locals ''i'' = Some (0, slots sum_locals ! 0)"
  "find_slot sum_locals ''sum'' = Some (1, slots sum_locals ! 1)"
  "find_slot sum_locals ''out'' = None"
  "find_slot sum_globals ''out'' = Some (0, slots sum_globals ! 0)"
  by (simp_all add: sum_locals_def sum_start_def sum_globals_def sum_env_def sample_defs registered int_slot_def find_slot_def slot_pos_def)

lemma sum_widths [simp]:
  "slot_width sum_locals 0 = I16" "slot_width sum_locals (Suc 0) = I16" "slot_width sum_globals 0 = I16"
  by (simp_all add: sum_locals_def sum_start_def sum_globals_def sum_env_def sample_defs registered int_slot_def slot_width_def vec_at_def)

lemma narrow_small [simp]: "narrow_value (V_Int 1) I16 = V_Int 1" "narrow_value (V_Int 2) I16 = V_Int 2"
  "narrow_value (V_Int 3) I16 = V_Int 3" "narrow_value (V_Int 8) I16 = V_Int 8"
  by code_simp+

lemma add_small [simp]: "val_add (V_Int 0) (V_Int 1) = Res (V_Int 1)" "val_add (V_Int 1) (V_Int 1) = Res (V_Int 2)"
  "val_add (V_Int 1) (V_Int 2) = Res (V_Int 3)"
  by code_simp+

lemma cmp_small [simp]: "cmp_le (V_Int 1) (V_Int 9)" "cmp_le (V_Int 2) (V_Int 9)" "\<not> cmp_ge (V_Int 1) (V_Int 3)"
  "cmp_ge (V_Int 3) (V_Int 3)" "cmp_gt (V_Int 2) (V_Int 1)" "\<not> cmp_eq (V_Int 3) (V_Int 7)" "cmp_ge (V_Int 3) (V_Int 2)" "cmp_le (V_Int 3) (V_Int 4)"
  by code_simp+

lemma bit_small [simp]: "partial_update demo_env P_Bit 3 (V_Int 0) (V_Bool True) = Some (V_Int 8)"
  by code_simp

lemma sum_sem_simps [simp]: "se_rt sum_sem = demo_env" "se_build sum_sem = plain_build" "se_locals sum_sem = sum_locals"
  "se_globals sum_sem = sum_globals"
  by (simp_all add: sum_sem_def)

lemma sext_small [simp]: "sext16 1 = 1" "sext16 2 = 2" "sext16 3 = 3" "sext16 8 = 8"
  by code_simp+

lemmas sem_defs = sample_defs access_value_def read_var_def assign_def assign_local_def literal_to_value_def
  binary_value_def step_of_def else_statements_def vec_at_def

definition sum_loop :: "statement list" where
  "sum_loop = [set_to ''sum'' (bin B_Add (var ''sum'') (var ''i'')),
     S_If (bin B_Ge (var ''sum'') (num 3)) [S_Exit at0] [] None at0]"

lemma sum_loop_first: "run_stmts sum_sem sum_loop ([V_Int 1, V_Int 0], g) Normal ([V_Int 1, V_Int 1], g)"
  unfolding sum_loop_def set_to_def
  apply (rule run_cons, rule run_assign, simp add: sem_defs)
  apply (rule run_cons, rule run_if_false, simp add: sem_defs, simp add: sem_defs, rule run_else)
  by (simp add: sem_defs, rule run_nil, rule run_nil)

lemma sum_loop_second: "run_stmts sum_sem sum_loop ([V_Int 2, V_Int 1], g) Exited ([V_Int 2, V_Int 3], g)"
  unfolding sum_loop_def set_to_def
  apply (rule run_cons, rule run_assign, simp add: sem_defs)
  apply (rule run_cons_exit, rule run_if_true, simp add: sem_defs, simp)
  by (simp add: sem_defs run_cons_exit run_exit)

lemma sum_for: "run_for sum_sem ''i'' (num 9) None sum_loop ([V_Int 1, V_Int 0], g) ([V_Int 2, V_Int 3], g)"
proof (rule run_for_next)
  show "run_for sum_sem ''i'' (num 9) None sum_loop (assign_local sum_sem ''i'' (V_Int 2) ([V_Int 1, V_Int 1], g)) ([V_Int 2, V_Int 3], g)"
    using sum_loop_second [of g] by - (rule run_for_exit, (simp add: sem_defs)+)
qed (rule sum_loop_first | simp add: sem_defs)+

lemma sum_case: "matches sum_sem st (V_Int 3) [Single (num 7), Range (num 2) (num 4)] = Some True"
  by (simp add: sem_defs)

lemma sum_runs: "run_stmts sum_sem sum_body ([V_Int 0, V_Int 0], [V_Int 0]) Normal ([V_Int 2, V_Int 3], [V_Int 8])"
  unfolding sum_body_def sum_loop_def [symmetric]
proof (rule run_cons)
  show "run_stmt sum_sem (S_For (named ''i'') (num 1) (num 9) None sum_loop at0) ([V_Int 0, V_Int 0], [V_Int 0]) Normal
    ([V_Int 2, V_Int 3], [V_Int 0])"
    using sum_for [of "[V_Int 0]"] by - (rule run_for_start, (simp add: sem_defs)+)
  let ?st = "([V_Int 2, V_Int 3], [V_Int 0])"
  have "run_stmt sum_sem (S_Assignment (VariableAccess [A_Identifier (named ''out''), A_Partial P_Bit 3] at0)
      (bin B_Gt (var ''i'') (num 1)) at0) ?st Normal (assign sum_sem ''out'' (V_Int 8) ?st)"
    using run_assign_part [of sum_sem ?st "bin B_Gt (var ''i'') (num 1)" "V_Bool True" "named ''out''" "V_Int 0" P_Bit 3 "V_Int 8"] by (simp add: sem_defs)
  then show "run_stmts sum_sem [S_Case (var ''sum'') [CaseBranch [Single (num 7), Range (num 2) (num 4)]
        [S_Assignment (VariableAccess [A_Identifier (named ''out''), A_Partial P_Bit 3] at0)
          (bin B_Gt (var ''i'') (num 1)) at0] at0] None at0] ?st Normal ([V_Int 2, V_Int 3], [V_Int 8])"
    by - (rule run_cons [OF _ run_nil], rule run_case, simp add: sem_defs, rule run_branch_taken [OF sum_case],
      rule run_cons [OF _ run_nil], simp add: sem_defs)
qed

text \<open>The module compiler accepts the program, and its function is the only one.\<close>

lemma sum_vars: "compile_var_blocks sum_env [int_vars Var [''i'', ''sum'']] (fn_state_new []) = Code sum_start"
  by (simp add: compile_var_blocks_def compile_var_blocks_inner_def declare_local_def add_local_with_qualifiers_def
      sum_start_def sample_defs fn_state_new_def int_slot_def total_size_def)

lemma sum_compiles:
  "\<exists>m fn. compile_with_native_fbs plain_build sum_source [] = Code m \<and> md_functions m = [fn] \<and> fn_kind fn = Pou_Program \<and>
     md_globals m = sum_globals \<and> find_function m ''Main'' = Some (0, fn) \<and> fn_locals fn = sum_locals"
proof -
  let ?mc = "fold register_item (sf_items sum_source) module_compiler_new"
  obtain s where s: "compile_statements sum_env sum_body sum_start = Code s" "fs_locals s = sum_locals"
    using sum_code by blast
  have fs: "mc_functions ?mc = [empty_function ''Main'' Pou_Program \<lparr>slots = []\<rparr>]" "mc_type_defs ?mc = []"
    "mc_pending_global_inits ?mc = []" "mc_globals ?mc = sum_globals"
    by (simp_all add: sum_globals_def sum_env_def sample_defs registered)
  let ?fn = "finish ''Main'' Pou_Program (current_pc sum_start) (emit RetVoid s)"
  have "compile_item plain_build (TI_Program sum_program) ?mc =
      Code (finish_at 0 ''Main'' Pou_Program (current_pc sum_start) (emit RetVoid s) ?mc)"
    using s(1) sum_vars fs(1,2) unfolding sum_env_def [symmetric]
    by (simp add: sum_program_def named_def compile_pou_def find_func_def compile_body_def sum_env_def [symmetric] empty_function_def)
  then have "compile_with_native_fbs plain_build sum_source [] =
      Code (module_of (finish_at 0 ''Main'' Pou_Program (current_pc sum_start) (emit RetVoid s) ?mc) [])"
    using fs(3) by (simp add: compile_with_native_fbs_def compile_global_init_def sum_source_def finish_at_def)
  moreover have "find_function (module_of (finish_at 0 ''Main'' Pou_Program (current_pc sum_start) (emit RetVoid s) ?mc) [])
      ''Main'' = Some (0, ?fn)"
    by (simp add: module_of_def finish_at_def fs find_function_def function_pos_def finish_def)
  ultimately show ?thesis
    using s(2) fs by (auto simp: module_of_def finish_at_def finish_def emit_def)
qed

end
