(* ===== verification/Compile_Run.thy ===== *)
theory Compile_Run
  imports Compile_Correct Compile_Sample
begin

section \<open>Compiled programs run as their source says\<close>

text \<open>
  From a source file to a scan cycle: the module compiler leaves the code of every program where
  the machine finds it, and running it takes the retained locals and the globals of one cycle to
  those of the next as the statements of the program do.
\<close>

subsection \<open>Where a program's code ends up\<close>

lemma cfold_append [simp]: "cfold f (xs @ ys) a = cbind (cfold f xs a) (cfold f ys)"
proof (induction xs arbitrary: a)
  case (Cons x xs)
  then have "cfold f (xs @ ys) = (\<lambda>a. cbind (cfold f xs a) (cfold f ys))" by (rule ext)
  then show ?case by (simp add: cbind_assoc)
qed simp

abbreviation folded_names :: "module_compiler \<Rightarrow> string list" where
  "folded_names mc \<equiv> map (\<lambda>f. to_lower (fn_name f)) (mc_functions mc)"

text \<open>Only functions with a name of \<open>N\<close> have changed.\<close>

definition keeps :: "string set \<Rightarrow> module_compiler \<Rightarrow> module_compiler \<Rightarrow> bool" where
  "keeps N mc mc' \<longleftrightarrow> folded_names mc' = folded_names mc \<and> mc_globals mc' = mc_globals mc \<and>
     (\<forall>i < length (mc_functions mc). to_lower (fn_name (mc_functions mc ! i)) \<notin> N \<longrightarrow>
        mc_functions mc' ! i = mc_functions mc ! i)"

lemma keeps_refl [simp]: "keeps N mc mc"
  by (simp add: keeps_def)

lemma folded_names_nth:
  "folded_names mc' = folded_names mc \<Longrightarrow> i < length (mc_functions mc) \<Longrightarrow>
     to_lower (fn_name (mc_functions mc' ! i)) = to_lower (fn_name (mc_functions mc ! i))"
  by (metis (no_types, lifting) length_map nth_map)

lemma keeps_trans: "keeps N mc1 mc2 \<Longrightarrow> keeps N mc2 mc3 \<Longrightarrow> keeps N mc1 mc3"
  unfolding keeps_def by (metis (no_types, lifting) folded_names_nth length_map)

lemma keeps_mono: "keeps N mc mc' \<Longrightarrow> N \<subseteq> M \<Longrightarrow> keeps M mc mc'"
  unfolding keeps_def by blast

lemma find_func_Code:
  "find_func mc name = Code i \<Longrightarrow> i < length (mc_functions mc) \<and> to_lower (fn_name (mc_functions mc ! i)) = to_lower name"
  by (auto simp: find_func_def eq_ignore_ascii_case_def split: option.split_asm dest: find_index_SomeD)

lemma finish_at_keeps:
  assumes "find_func mc name = Code i" "to_lower name \<in> N"
  shows "keeps N mc (finish_at i name kind start s mc)"
proof -
  note f = find_func_Code [OF assms(1)]
  have "folded_names (finish_at i name kind start s mc) = folded_names mc"
    using f by (simp add: finish_at_def finish_def map_update list_update_same_conv)
  with f assms(2) show ?thesis by (auto simp: keeps_def finish_at_def nth_list_update)
qed

lemma compile_pou_keeps:
  "compile_pou b name kind vbs result body mc = Code mc' \<Longrightarrow> to_lower name \<in> N \<Longrightarrow> keeps N mc mc'"
  by (auto simp: compile_pou_def Let_def case_prod_unfold split: option.split_asm intro: finish_at_keeps)

lemma compile_method_keeps:
  "compile_method b cls inherited m mc = Code mc' \<Longrightarrow> to_lower (method_full_name cls m) \<in> N \<or> me_is_abstract m \<Longrightarrow>
     keeps N mc mc'"
  by (auto simp: compile_method_def Let_def case_prod_unfold split: if_split_asm intro: finish_at_keeps)

lemma cfold_keeps:
  "(\<And>x mc mc'. x \<in> set xs \<Longrightarrow> f x mc = Code mc' \<Longrightarrow> keeps N mc mc') \<Longrightarrow> cfold f xs mc = Code mc' \<Longrightarrow> keeps N mc mc'"
proof (induction xs arbitrary: mc)
  case (Cons x xs)
  then obtain mc1 where 1: "f x mc = Code mc1" "cfold f xs mc1 = Code mc'" by auto
  have "keeps N mc mc1" using Cons.prems(1) [OF _ 1(1)] by simp
  moreover have "keeps N mc1 mc'" by (rule Cons.IH [OF Cons.prems(1) 1(2)]) simp_all
  ultimately show ?case by (rule keeps_trans)
qed simp

text \<open>The names an item registers.\<close>

fun pou_names :: "top_level_item \<Rightarrow> string list" where
  "pou_names (TI_Program p) = [id_name (pd_name p)]"
| "pou_names (TI_Function f) = [id_name (fd_name f)]"
| "pou_names (TI_FunctionBlock fb) = [id_name (bd_name fb)]"
| "pou_names (TI_Class cls) =
     id_name (cl_name cls) # map (method_full_name cls) (filter (\<lambda>m. \<not> me_is_abstract m) (cl_methods cls))"
| "pou_names _ = []"

lemma compile_item_keeps:
  assumes "compile_item b it mc = Code mc'" "to_lower ` set (pou_names it) \<subseteq> N"
  shows "keeps N mc mc'"
proof (cases it)
  case (TI_Class cls)
  with assms(1) obtain i inherited s s1 where 1: "find_func mc (id_name (cl_name cls)) = Code i"
    "cfold (compile_method b cls inherited) (cl_methods cls)
       (finish_at i (id_name (cl_name cls)) Pou_Class (current_pc s) s1 mc) = Code mc'"
    by (auto simp: compile_class_def Let_def)
  have "keeps N mc (finish_at i (id_name (cl_name cls)) Pou_Class (current_pc s) s1 mc)"
    using finish_at_keeps [OF 1(1)] assms(2) TI_Class by simp
  moreover have "keeps N (finish_at i (id_name (cl_name cls)) Pou_Class (current_pc s) s1 mc) mc'"
    by (rule cfold_keeps [OF _ 1(2)], rule compile_method_keeps) (use assms(2) TI_Class in auto)
  ultimately show ?thesis by (rule keeps_trans)
qed (use assms in \<open>auto intro: compile_pou_keeps\<close>)

subsection \<open>Registration\<close>

definition registers :: "string list \<Rightarrow> module_compiler \<Rightarrow> module_compiler \<Rightarrow> bool" where
  "registers ns mc mc' \<longleftrightarrow> map fn_name (mc_functions mc') = map fn_name (mc_functions mc) @ ns"

lemma registers_trans: "registers ns mc mc1 \<Longrightarrow> registers ns' mc1 mc2 \<Longrightarrow> registers (ns @ ns') mc mc2"
  by (simp add: registers_def)

lemma fold_registers:
  "(\<And>x mc. x \<in> set xs \<Longrightarrow> registers (names x) mc (f x mc)) \<Longrightarrow> registers (concat (map names xs)) mc (fold f xs mc)"
proof (induction xs arbitrary: mc)
  case (Cons x xs)
  have "registers (concat (map names xs)) (f x mc) (fold f xs (f x mc))" by (rule Cons.IH) (simp add: Cons.prems)
  with Cons.prems [of x mc] show ?case using registers_trans by simp
qed (simp add: registers_def)

lemma fold_registers_none:
  "(\<And>x mc. x \<in> set xs \<Longrightarrow> registers [] mc (f x mc)) \<Longrightarrow> registers [] mc (fold f xs mc)"
  using fold_registers [of xs "\<lambda>_. []" f mc] by (simp add: map_replicate_const)

lemma register_pou_registers: "registers [name] mc (register_pou name kind mc)"
  by (simp add: registers_def register_pou_def push_function_def empty_function_def)

lemma register_globals_registers: "registers [] mc (register_globals vb mc)"
proof -
  have "registers [] mc (register_global vb d n mc)" for d n mc
    by (simp add: registers_def register_global_def Let_def)
  then show ?thesis
    unfolding register_globals_def by (intro fold_registers_none)
qed

lemma register_class_registers: "registers (pou_names (TI_Class cls)) mc (register_class cls mc)"
proof -
  let ?ms = "filter (\<lambda>m. \<not> me_is_abstract m) (cl_methods cls)"
  have "registers (map (method_full_name cls) ?ms) mc (fold (\<lambda>m. register_pou (method_full_name cls m) Pou_Method) ?ms mc)" for mc
    using fold_registers [of ?ms "\<lambda>m. [method_full_name cls m]" "\<lambda>m. register_pou (method_full_name cls m) Pou_Method"]
      register_pou_registers by simp
  from registers_trans [OF register_pou_registers this] show ?thesis
    by (auto simp: register_class_def Let_def registers_def split: option.split)
qed

lemma register_item_registers: "registers (pou_names it) mc (register_item it mc)"
proof (cases it)
  case (TI_TypeDeclaration tds r)
  have "registers [] mc (register_type td mc)" for td mc
    by (simp add: registers_def register_type_def split: type_def_kind.split)
  then show ?thesis
    using fold_registers_none [of tds register_type mc] TI_TypeDeclaration by simp
qed (auto simp: register_pou_registers register_globals_registers register_class_registers [simplified], simp add: registers_def)

lemma inject_native_registers:
  "inject_native b l (mc, is) = Code (mc', is') \<Longrightarrow> registers [nl_type_name l] mc mc'"
  by (auto simp: inject_native_def registers_def push_function_def empty_function_def)

lemma inject_all_registers:
  "cfold (inject_native b) ls (mc, is) = Code (mc', is') \<Longrightarrow> registers (map nl_type_name ls) mc mc'"
proof (induction ls arbitrary: mc "is")
  case (Cons l ls)
  then obtain mc1 is1 where 1: "inject_native b l (mc, is) = Code (mc1, is1)" "cfold (inject_native b) ls (mc1, is1) = Code (mc', is')"
    by auto
  show ?case using registers_trans [OF inject_native_registers [OF 1(1)] Cons.IH [OF 1(2)]] by simp
qed (simp add: registers_def)

lemma registers_folded: "registers ns mc mc' \<Longrightarrow> folded_names mc' = folded_names mc @ map to_lower ns"
proof -
  have f: "folded_names mc = map to_lower (map fn_name (mc_functions mc))" for mc by simp
  assume "registers ns mc mc'"
  then show ?thesis unfolding f registers_def by simp
qed

text \<open>Every name of the source and of the registry is its own, whatever its case.\<close>

definition distinct_pous :: "source_file \<Rightarrow> native_layout list \<Rightarrow> bool" where
  "distinct_pous src registry \<longleftrightarrow>
     distinct (map to_lower (map nl_type_name registry @ concat (map pou_names (sf_items src))))"

lemma find_index_distinct:
  assumes "distinct (map f xs)" "i < length xs" "\<And>x. P x \<longleftrightarrow> f x = f (xs ! i)"
  shows "find_index P xs = Some i"
  using assms
proof (induction xs arbitrary: i)
  case (Cons x xs)
  show ?case
  proof (cases i)
    case (Suc j)
    have P: "P = (\<lambda>y. f y = f (xs ! j))" using Cons.prems(3) Suc by (intro ext) simp
    have "find_index P xs = Some j"
      by (rule Cons.IH) (use Cons.prems Suc in simp_all)
    moreover have "\<not> P x" unfolding P using Cons.prems(1,2) Suc by auto
    ultimately show ?thesis using Suc by simp
  qed (use Cons.prems(3) in simp)
qed simp

lemma find_index_append: "find_index P xs = Some i \<Longrightarrow> find_index P (xs @ ys) = Some i"
  by (induction xs arbitrary: i) (auto split: if_split_asm)

lemma distinct_concat_filter: "distinct (concat (map f xs)) \<Longrightarrow> distinct (concat (map f (filter P xs)))"
  by (induction xs) auto

text \<open>How a program is compiled in the end: after everything else, with the final globals.\<close>

lemma compiled_program:
  assumes "compile_with_native_fbs b src registry = Code m" "distinct_pous src registry"
    "TI_Program p \<in> set (sf_items src)"
  obtains mc mc' i fs where
    "compile_item b (TI_Program p) mc = Code mc'" "find_func mc (id_name (pd_name p)) = Code i"
    "md_globals m = mc_globals mc" "i < length (md_functions m)" "md_functions m ! i = mc_functions mc' ! i"
    "function_pos m (id_name (pd_name p)) = Some i"
proof -
  obtain mc1 "is" mc2 mc3 mc4 where 1: "cfold (inject_native b) registry (module_compiler_new, []) = Code (mc1, is)"
    "cfold (compile_item b) (filter (\<lambda>i. \<not> is_program i) (sf_items src)) (fold register_item (sf_items src) mc1) = Code mc2"
    "cfold (compile_item b) (filter is_program (sf_items src)) mc2 = Code mc3"
    "compile_global_init b mc3 = Code mc4" "m = module_of mc4 is"
    using assms(1) by (auto simp: compile_with_native_fbs_def Let_def)
  have p: "TI_Program p \<in> set (filter is_program (sf_items src))" using assms(3) by simp
  obtain xs ys where items: "filter is_program (sf_items src) = xs @ TI_Program p # ys"
    using split_list [OF p] by blast
  obtain mc mc' where 2: "cfold (compile_item b) xs mc2 = Code mc" "compile_item b (TI_Program p) mc = Code mc'"
    "cfold (compile_item b) ys mc' = Code mc3"
    using 1(3) unfolding items by auto
  let ?names = "map nl_type_name registry @ concat (map pou_names (sf_items src))"
  have "registers ?names module_compiler_new (fold register_item (sf_items src) mc1)"
    using registers_trans [OF inject_all_registers [OF 1(1)] fold_registers [OF register_item_registers]] .
  from registers_folded [OF this] have names: "folded_names (fold register_item (sf_items src) mc1) = map to_lower ?names"
    by (simp add: module_compiler_new_def)
  let ?n = "to_lower (id_name (pd_name p))"
  have k2: "keeps UNIV (fold register_item (sf_items src) mc1) mc2" and k: "keeps UNIV mc2 mc"
    by (rule cfold_keeps [OF _ 1(2)] cfold_keeps [OF _ 2(1)], rule compile_item_keeps, simp_all)+
  have k': "keeps {?n} mc mc'" using compile_item_keeps [OF 2(2)] by simp
  have k3: "keeps (- {?n}) mc' mc3"
  proof (rule cfold_keeps [OF _ 2(3)], rule compile_item_keeps)
    fix y assume y: "y \<in> set ys"
    have "distinct (concat (map (map to_lower \<circ> pou_names) (sf_items src)))"
      using assms(2) by (simp add: distinct_pous_def map_concat)
    from distinct_concat_filter [OF this, of is_program] y
    show "to_lower ` set (pou_names y) \<subseteq> - {?n}" by (auto simp: items)
  qed
  obtain i where i: "find_func mc (id_name (pd_name p)) = Code i" using 2(2) by (auto simp: compile_pou_def)
  note fi = find_func_Code [OF i]
  have fs: "\<exists>ext. mc_functions mc4 = mc_functions mc3 @ ext" and gl: "mc_globals mc4 = mc_globals mc3"
    using 1(4) by (auto simp: compile_global_init_def split: if_split_asm)
  have len: "length (mc_functions mc3) = length (mc_functions mc)"
    using k' k3 unfolding keeps_def by (metis length_map)
  have nm: "to_lower (fn_name (mc_functions mc' ! i)) = ?n" "to_lower (fn_name (mc_functions mc3 ! i)) = ?n"
    using fi k' k3 folded_names_nth [of mc' mc i] folded_names_nth [of mc3 mc' i]
    unfolding keeps_def by (metis length_map)+
  have "i < length (mc_functions mc')" using fi k' unfolding keeps_def by (metis length_map)
  then have "mc_functions mc3 ! i = mc_functions mc' ! i" using k3 nm(1) unfolding keeps_def by blast
  have "folded_names mc3 = map to_lower ?names"
    using names k2 k k' k3 unfolding keeps_def by simp
  with assms(2) have "distinct (folded_names mc3)" unfolding distinct_pous_def by metis
  from find_index_distinct [OF this, of i "\<lambda>f. eq_ignore_ascii_case (fn_name f) (id_name (pd_name p))"]
  have "find_index (\<lambda>f. eq_ignore_ascii_case (fn_name f) (id_name (pd_name p))) (mc_functions mc3) = Some i"
    using fi nm(2) len by (simp add: eq_ignore_ascii_case_def)
  from find_index_append [OF this] have "function_pos m (id_name (pd_name p)) = Some i"
    using fs by (auto simp: function_pos_def 1(5) module_of_def)
  moreover have "md_globals m = mc_globals mc" using gl k' k3 by (simp add: 1(5) module_of_def keeps_def)
  moreover have "i < length (md_functions m)" "md_functions m ! i = mc_functions mc' ! i"
    using fs fi len \<open>mc_functions mc3 ! i = mc_functions mc' ! i\<close> by (auto simp: 1(5) module_of_def nth_append)
  ultimately show thesis using that [OF 2(2) i] by blast
qed

subsection \<open>The code of a program\<close>

definition no_labels :: "fn_state \<Rightarrow> bool" where
  "no_labels s \<longleftrightarrow> fs_next_label s = 0 \<and> fs_label_positions s = []"

lemma no_labels_ok: "no_labels s \<Longrightarrow> labels_ok s"
  by (simp add: no_labels_def labels_ok_def)

lemma extended_no_labels: "extended s s' \<Longrightarrow> no_labels s \<Longrightarrow> no_labels s'"
  by (simp add: extended_def same_labels_def no_labels_def)

lemma set_local_type_labels [simp]: "no_labels (set_local_type slot ty s) = no_labels s"
  by (simp add: set_local_type_def no_labels_def Let_def)

lemma declare_local_no_labels:
  assumes "bd_checks (ce_build C)" "declare_local C e vb d n s = Code s'" "no_labels s"
  shows "no_labels s'"
proof -
  have named: "no_labels (resolve_named C slot ty s) = no_labels s" for slot ty s
    by (simp add: resolve_named_def Let_def no_labels_def set_local_type_def split: option.split pou_kind.split)
  have arr: "resolve_array b slot a s = Code s' \<Longrightarrow> no_labels s' = no_labels s" for b slot a s s'
    by (auto simp: resolve_array_def no_labels_def set_local_type_def Let_def)
  have loc: "add_local_with_qualifiers n ty w r q s = (slot, s1) \<Longrightarrow> no_labels s1 = no_labels s" for n ty w r q s slot s1
    by (auto simp: add_local_with_qualifiers_def no_labels_def)
  obtain slot s1 where 1: "add_local_with_qualifiers n (var_type_from_ast (vd_ty d)) (int_width_from_ast (vd_ty d))
      (Retain \<in> set (vb_qualifiers vb)) (Persistent \<in> set (vb_qualifiers vb)) s = (slot, s1)" by force
  let ?s2 = "case vd_ty d of D_UserDefined q \<Rightarrow> resolve_named C slot (qn_as_str q) s1 | _ \<Rightarrow> s1"
  have 2: "no_labels ?s2" using loc [OF 1] assms(3) named by (simp split: data_type.split)
  obtain s3 where 3: "(case vd_ty d of D_Array a \<Rightarrow> resolve_array (ce_build C) slot a ?s2 | _ \<Rightarrow> Code ?s2) = Code s3"
    "(case if e then vd_initial_value d else None of None \<Rightarrow> Code s3
      | Some e \<Rightarrow> cbind (compile_expression C e s3) (\<lambda>(r, s4). Code (emit (StoreLocal slot r) s4))) = Code s'"
    using assms(2) 1 by (auto simp: declare_local_def Let_def)
  have "no_labels s3" using 2 3(1) arr by (cases "vd_ty d") auto
  with 3(2) show ?thesis
    using compile_expression_fresh [OF assms(1), THEN fresh_extended] extended_no_labels emit_extended
    by (auto split: option.split_asm) blast
qed

lemma cfold_no_labels:
  "(\<And>x s s'. f x s = Code s' \<Longrightarrow> no_labels s \<Longrightarrow> no_labels s') \<Longrightarrow> cfold f xs s = Code s' \<Longrightarrow> no_labels s \<Longrightarrow> no_labels s'"
proof (induction xs arbitrary: s)
  case (Cons x xs)
  from Cons.prems(2) obtain s1 where 1: "f x s = Code s1" "cfold f xs s1 = Code s'" by auto
  show ?case by (rule Cons.IH [OF Cons.prems(1) 1(2) Cons.prems(1) [OF 1(1) Cons.prems(3)]])
qed simp

lemma compile_var_blocks_no_labels:
  assumes "bd_checks (ce_build C)" "compile_var_blocks_inner C e vbs s = Code s'" "no_labels s"
  shows "no_labels s'"
proof -
  have d: "no_labels s'"
    if "cfold (\<lambda>n. declare_local C e vb d (id_name n)) ns s = Code s'" "no_labels s" for vb d ns s s'
    by (rule cfold_no_labels [OF _ that]) (rule declare_local_no_labels [OF assms(1)])
  have v: "no_labels s'"
    if "cfold (\<lambda>d. cfold (\<lambda>n. declare_local C e vb d (id_name n)) (vd_names d)) ds s = Code s'" "no_labels s" for vb ds s s'
    by (rule cfold_no_labels [OF _ that]) (rule d)
  show ?thesis
    by (rule cfold_no_labels [OF _ assms(2) [unfolded compile_var_blocks_inner_def] assms(3)]) (rule v)
qed

text \<open>The machine at the entry of a compiled program, and its code in the function it runs.\<close>

definition program_site :: "rt_env \<Rightarrow> vm \<Rightarrow> u16 \<Rightarrow> func \<Rightarrow> site" where
  "program_site env vm fi fn =
     \<lparr>si_env = env, si_base = vm, si_frame = fresh_frame fi fn [] 0 None, si_rest = [], si_func = fn\<rparr>"

definition program_env :: "rt_env \<Rightarrow> build \<Rightarrow> ir_module \<Rightarrow> func \<Rightarrow> source_env" where
  "program_env env b m fn =
     \<lparr>se_rt = env, se_build = b, se_locals = fn_locals fn, se_globals = md_globals m\<rparr>"

lemma program_piece:
  assumes "compile_item b (TI_Program p) mc = Code mc'" "find_func mc (id_name (pd_name p)) = Code i"
    "fn = mc_functions mc' ! i" "bd_checks b" "md_globals m = mc_globals mc" "vm_module vm = m"
    "func_at vm fi = Res fn" "vm_forced vm = []" "vm_forced_slots vm = {}"
  obtains C s s' where "compile_statements C (pd_body p) s = Code s'" "current_pc s = fn_body_start_pc fn"
    "piece (program_env env b m fn) C (program_site env vm fi fn) (unat (fn_register_count fn)) s s'"
    "has_instr (program_site env vm fi fn) (current_pc s') RetVoid"
    "fn_kind fn = Pou_Program"
proof -
  let ?C = "env_of b mc" and ?S = "program_site env vm fi fn"
  obtain s s' where 1: "compile_var_blocks ?C (pd_var_blocks p) (fn_state_new (mc_type_defs mc)) = Code s"
    "compile_statements ?C (pd_body p) s = Code s'"
    "mc' = finish_at i (id_name (pd_name p)) Pou_Program (current_pc s) (emit RetVoid s') mc"
    using assms(1,2) by (auto simp: compile_pou_def compile_body_def)
  have fn: "fn = finish (id_name (pd_name p)) Pou_Program (current_pc s) (emit RetVoid s')"
    using assms(3) 1(3) find_func_Code [OF assms(2)] by (simp add: finish_at_def)
  have bd: "bd_checks (ce_build ?C)" using assms(4) by (simp add: env_of_def)
  have "no_labels (fn_state_new (mc_type_defs mc))" by (simp add: no_labels_def fn_state_new_def)
  then have ok: "labels_ok s"
    using compile_var_blocks_no_labels [OF bd] 1(1) no_labels_ok unfolding compile_var_blocks_def by blast
  have g: "grown (labels_below s) s s'" using compile_statement_grown(2) [OF bd good_below [OF ok] 1(2)] .
  have ok': "labels_ok s'" using g ok by (simp add: grown_def)
  have names: "fs_locals (emit RetVoid s') = fs_locals s" using g by (simp add: grown_def same_names_def emit_def)
  have "linked (program_env env b m fn) ?C s ?S"
    using names assms(4-9) by (simp add: linked_def site_ok_def program_site_def program_env_def fresh_frame_def
        env_of_def fn finish_def)
  moreover have "final ?S (unat (fn_register_count fn)) {labels_below s..} s'"
    using ok' by (auto simp: final_def within_def program_site_def fn finish_def emit_def labels_ok_def)
  moreover have "has_instr ?S (current_pc s') RetVoid"
    by (simp add: has_instr_def program_site_def fn finish_def emit_def current_pc_def nth_append)
  ultimately show thesis
    using that [OF 1(2)] ok fn by (simp add: piece_def finish_def)
qed

subsection \<open>One scan cycle of a program\<close>

text \<open>How a cycle ends: with the new globals and the new retained locals, or at the instruction limit.\<close>

definition cycle_ends :: "vm \<Rightarrow> u16 \<Rightarrow> store \<Rightarrow> run_end option \<Rightarrow> bool" where
  "cycle_ends vm fi st r \<longleftrightarrow>
     (\<exists>vm'. r = Some (Finished vm' V_Void) \<and> vm_globals vm' = snd st \<and> hm_get (vm_retained vm') fi = Some (fst st) \<and>
        vm_stack vm' = [] \<and> vm_module vm' = vm_module vm) \<or>
     (0 < max_instructions (vm_conf vm) \<and>
        (\<exists>vm'. r = Some (Failed vm' (ExecutionLimit (max_instructions (vm_conf vm))))))"

lemma at_limit_ends:
  "at_limit (program_site env vm fi fn) vm' \<Longrightarrow> cycle_ends vm fi st (execute env vm')"
  by (auto simp: at_limit_def program_site_def cycle_ends_def execute.simps)

lemma ret_void_ends:
  assumes "has_instr (program_site env vm fi fn) pc RetVoid" "fn_kind fn = Pou_Program" "func_at vm fi = Res fn"
    "is_at (program_site env vm fi fn) (pc, regs, st) vm'"
  shows "cycle_ends vm fi st (execute env vm')"
proof -
  let ?S = "program_site env vm fi fn"
  obtain ls gs where st: "st = (ls, gs)" by (cases st)
  obtain n d where d: "running_free d" and vm': "vm' = vm_at ?S (pc, regs, ls, gs) n d"
    using assms(4) by (auto simp: is_at_def st)
  obtain p d' where p: "should_pause fi pc (length (vm_stack vm')) (fn_source_map fn) d = (p, d')" by force
  have d': "p = None" using running_free_no_pause [OF d p] by simp
  let ?max = "max_instructions (vm_conf vm)"
  let ?vm1 = "vm_at ?S (pc + 1, regs, ls, gs) (n + 1) d'"
  have f: "func_at vm' fi = Res fn" using assms(3) by (simp add: vm' program_site_def func_at_updates)
  have ret: "exec_RetVoid ?vm1 = Done (pop_frame (?vm1\<lparr>vm_retained := hm_insert fi ls (vm_retained vm)\<rparr>)) V_Void"
    using assms(2,3) by (simp add: exec_RetVoid_def save_retained_locals_def program_site_def fresh_frame_def
        func_at_updates pop_frame_def)
  have "vm_step env vm' =
    (if 0 < ?max \<and> ?max < n + 1 then Fail ?vm1 (ExecutionLimit ?max) else exec_RetVoid ?vm1)"
    using assms(1) f p d' by (simp add: vm_step_def vm' fetch_execute_def Let_def set_top_def sort_updates has_instr_def
        program_site_def fresh_frame_def exec_instr_def)
  then show ?thesis
    using ret by (simp add: st cycle_ends_def execute.simps pop_frame_def program_site_def hm_get_insert)
qed

lemma program_cycle:
  assumes "compile_item b (TI_Program p) mc = Code mc'" "find_func mc (id_name (pd_name p)) = Code i"
    "fn = mc_functions mc' ! i" "bd_checks b" "md_globals m = mc_globals mc" "vm_module vm = m"
    "func_at vm fi = Res fn" "vm_forced vm = []" "vm_forced_slots vm = {}" "vm_stack vm = []"
    "running_free (vm_debug vm)" "hm_get (vm_retained vm) fi = Some ls" "store_ok (program_env env b m fn) (ls, vm_globals vm)"
    "run_stmts (program_env env b m fn) (pd_body p) (ls, vm_globals vm) Normal st'"
  shows "cycle_ends vm fi st' (execute env (vm\<lparr>vm_stack := [entry_frame vm fi fn]\<rparr>))"
proof -
  let ?S = "program_site env vm fi fn" and ?E = "program_env env b m fn" and ?n = "unat (fn_register_count fn)"
  let ?regs = "replicate (max ?n 1) default_val" and ?vm0 = "vm\<lparr>vm_stack := [entry_frame vm fi fn]\<rparr>"
  obtain C s s' where 1: "compile_statements C (pd_body p) s = Code s'" "current_pc s = fn_body_start_pc fn"
    "piece ?E C ?S ?n s s'" "has_instr ?S (current_pc s') RetVoid" "fn_kind fn = Pou_Program"
    using program_piece [OF assms(1-9)] .
  have "carries ?S ?n (current_pc s) (ls, vm_globals vm) (current_pc s') st'"
    using valid_stmtsD [OF statements_correct(2) [OF assms(14)] 1(1,3) assms(13)] by simp
  then obtain regs' where r: "reaches ?S (current_pc s, ?regs, ls, vm_globals vm) (current_pc s', regs', st')"
    by (rule carriesD [of _ _ _ _ _ _ ?regs]) auto
  have "is_at ?S (current_pc s, ?regs, ls, vm_globals vm) ?vm0"
    unfolding is_at_def using assms(10-12) 1(2,5)
    by (intro exI [of _ "vm_count vm"] exI [of _ "vm_debug vm"]) (simp add: entry_frame_def fresh_frame_def program_site_def)
  with r obtain vm' where vm': "vm_reach env ?vm0 vm'" "is_at ?S (current_pc s', regs', st') vm' \<or> at_limit ?S vm'"
    unfolding reaches_def by (auto simp: program_site_def)
  from vm'(2) have "cycle_ends vm fi st' (execute env vm')"
    using ret_void_ends [OF 1(4,5) assms(7)] at_limit_ends by blast
  then show ?thesis using execute_along [OF vm'(1)] by simp
qed



end
