(* ===== verification/Compile_Wf.thy ===== *)
theory Compile_Wf
  imports Compile_Safe Compile_Run Vm_Props
begin

section \<open>Compiled modules are well-formed\<close>

text \<open>
  The module compiler puts the pieces together: the functions it registers, with their kinds, are
  the ones the code refers to, whatever else it compiles later. So what it returns satisfies the
  machine's \<open>module_ok\<close>, and no run of a compiled program indexes out of bounds.
\<close>

subsection \<open>Declarations and bodies\<close>

lemma add_local_sound:
  "add_local_with_qualifiers n ty w r q s = (slot, s') \<Longrightarrow> sound C s s' \<and> unat slot < local_count s'"
proof
  assume "add_local_with_qualifiers n ty w r q s = (slot, s')"
  then have 1: "slot = of_nat (local_count s)" "local_count s' = local_count s + 1"
    "fs_instructions s' = fs_instructions s" "fs_next_reg s' = fs_next_reg s"
    by (auto simp: add_local_with_qualifiers_def local_count_def)
  then show "sound C s s'" by (intro sound_same) simp_all
  show "unat slot < local_count s'" using 1 unat_of_nat_u16_less [of "local_count s" "local_count s'"] by simp
qed

lemma set_local_type_sound: "sound C s (set_local_type slot ty s)"
  by (rule sound_same) (simp_all add: set_local_type_def Let_def local_count_def)

lemma resolve_named_sound: "sound C s (resolve_named D slot ty s)"
proof -
  have "sound C s (s\<lparr>fs_fb_type_names := x\<rparr>)" for x by (rule sound_same) (simp_all add: local_count_def)
  moreover from this have "sound C s (set_local_type slot t (s\<lparr>fs_fb_type_names := x\<rparr>))" for x t
    using sound_trans set_local_type_sound by blast
  ultimately show ?thesis
    by (auto simp: resolve_named_def Let_def split: option.split pou_kind.split)
qed

lemma resolve_array_sound: "resolve_array b slot a s = Code s' \<Longrightarrow> sound C s s'"
proof -
  assume "resolve_array b slot a s = Code s'"
  then obtain x t where s': "s' = set_local_type slot t (s\<lparr>fs_type_defs := x\<rparr>)" by (auto simp: resolve_array_def)
  have "sound C s (s\<lparr>fs_type_defs := x\<rparr>)" by (rule sound_same) (simp_all add: local_count_def)
  then show ?thesis unfolding s' using sound_trans set_local_type_sound by blast
qed

lemma declare_local_sound:
  assumes "env_safe C" "declare_local C e vb d n s = Code s'"
  shows "sound C s s'"
proof -
  obtain slot s1 where 1: "add_local_with_qualifiers n (var_type_from_ast (vd_ty d)) (int_width_from_ast (vd_ty d))
      (Retain \<in> set (vb_qualifiers vb)) (Persistent \<in> set (vb_qualifiers vb)) s = (slot, s1)" by force
  let ?s2 = "case vd_ty d of D_UserDefined q \<Rightarrow> resolve_named C slot (qn_as_str q) s1 | _ \<Rightarrow> s1"
  have 2: "sound C s1 ?s2" using resolve_named_sound by (simp split: data_type.split)
  obtain s3 where 3: "(case vd_ty d of D_Array a \<Rightarrow> resolve_array (ce_build C) slot a ?s2 | _ \<Rightarrow> Code ?s2) = Code s3"
    "(case if e then vd_initial_value d else None of None \<Rightarrow> Code s3
      | Some e \<Rightarrow> cbind (compile_expression C e s3) (\<lambda>(r, s4). Code (emit (StoreLocal slot r) s4))) = Code s'"
    using assms(2) 1 by (auto simp: declare_local_def Let_def)
  have "sound C ?s2 s3" using 3(1) resolve_array_sound by (cases "vd_ty d") auto
  with 2 have s3: "sound C s1 s3" using sound_trans by blast
  note slot = add_local_sound [OF 1, of C]
  with s3 have "sound C s s3" and sl: "unat slot < local_count s3" using sound_trans by (auto simp: sound_def)
  show ?thesis
  proof (cases "if e then vd_initial_value d else None")
    case None
    with 3(2) \<open>sound C s s3\<close> show ?thesis by simp
  next
    case (Some x)
    with 3(2) obtain r s4 where 4: "compile_expression C x s3 = Code (r, s4)" "s' = emit (StoreLocal slot r) s4" by auto
    note y = compile_expression_yields [OF assms(1) 4(1)]
    with sl have "unat slot < local_count s4" by (simp add: yields_def sound_def)
    with y \<open>sound C s s3\<close> show ?thesis
      unfolding 4(2) by (intro sound_emit sound_trans [OF \<open>sound C s s3\<close>]) (simp_all add: yields_def ins_defs)
  qed
qed

lemma cfold_sound:
  "(\<And>x s s'. f x s = Code s' \<Longrightarrow> sound C s s') \<Longrightarrow> cfold f xs s = Code s' \<Longrightarrow> sound C s s'"
proof (induction xs arbitrary: s)
  case (Cons x xs)
  from Cons.prems(2) obtain s1 where 1: "f x s = Code s1" "cfold f xs s1 = Code s'" by auto
  show ?case by (rule sound_trans [OF Cons.prems(1) [OF 1(1)] Cons.IH [OF Cons.prems(1) 1(2)]])
qed simp

lemma var_blocks_inner_sound:
  assumes "env_safe C" "compile_var_blocks_inner C e vbs s = Code s'"
  shows "sound C s s'"
  by (rule cfold_sound [OF _ assms(2) [unfolded compile_var_blocks_inner_def]],
      rule cfold_sound, rule cfold_sound, rule declare_local_sound [OF assms(1)])

lemma var_blocks_sound:
  "env_safe C \<Longrightarrow> compile_var_blocks C vbs s = Code s' \<Longrightarrow> sound C s s'"
  "env_safe C \<Longrightarrow> register_var_blocks C vbs s = Code s' \<Longrightarrow> sound C s s'"
  using var_blocks_inner_sound by (simp_all add: compile_var_blocks_def register_var_blocks_def)

text \<open>A body, with the slot of its result among its locals.\<close>

lemma add_result_sound:
  assumes "add_result n ty s = (ret, s')"
  shows "sound C s s' \<and> (\<forall>slot. ret = Some slot \<longrightarrow> unat slot < local_count s')"
proof (cases ty)
  case (Some dt)
  obtain slot s1 where 1: "add_local_with_qualifiers n (var_type_from_ast dt) (int_width_from_ast dt) False False s = (slot, s1)"
    by force
  with assms Some have "ret = Some slot" "s' = s1" by (auto simp: add_result_def add_local_def)
  with add_local_sound [OF 1, of C] show ?thesis by simp
qed (use assms in \<open>simp add: add_result_def\<close>)

lemma compile_body_sound:
  assumes "env_safe C" "compile_body C ret body s = Code s'" "\<forall>slot. ret = Some slot \<longrightarrow> unat slot < local_count s"
  shows "sound C s s'"
proof -
  obtain s1 where 1: "compile_statements C body s = Code s1" using assms(2) by (auto simp: compile_body_def)
  note 2 = compile_statement_sound(2) [OF assms(1) 1]
  show ?thesis
  proof (cases ret)
    case None
    with assms(2) 1 have "s' = emit RetVoid s1" by (simp add: compile_body_def)
    with 2 show ?thesis by (simp add: sound_emit ins_defs)
  next
    case (Some slot)
    with assms(2) 1 obtain r s2 where 3: "alloc_reg C s1 = Code (r, s2)" "s' = emit (Ret r) (emit (LoadLocal r slot) s2)"
      by (auto simp: compile_body_def)
    have y: "yields C s r s2" by (rule yields_after [OF 2 alloc_reg_yields [OF assms(1) 3(1)]])
    with assms(3) Some have "unat slot < local_count s2" by (auto simp: yields_def sound_def)
    with y show ?thesis unfolding 3(2) by (intro sound_emit) (simp_all add: yields_def ins_defs)
  qed
qed

text \<open>The shape of a module: what an operand can name.\<close>

definition kinds :: "func list \<Rightarrow> pou_kind list" where
  "kinds fs = map fn_kind fs"

lemma operands_ok_extend:
  assumes "operands_ok m f ins" "prefix (kinds (md_functions m)) (kinds (md_functions m'))" "md_globals m' = md_globals m"
  shows "operands_ok m' f ins"
proof -
  obtain ks where ks: "kinds (md_functions m') = kinds (md_functions m) @ ks" using assms(2) by (auto simp: prefix_def)
  then have len: "length (md_functions m) \<le> length (md_functions m')" by (metis kinds_def length_append length_map le_add1)
  have "fn_kind (md_functions m' ! i) = fn_kind (md_functions m ! i)" if "i < length (md_functions m)" for i
    using ks that len by (metis kinds_def length_map nth_append nth_map order_less_le_trans)
  then have "is_class m i \<Longrightarrow> is_class m' i" for i using len by (auto simp: is_class_def)
  then show ?thesis
    using assms(1,3) len by (auto simp: operands_ok_def global_count_def split: instruction.split_asm)
qed

definition code_ok :: "ir_module \<Rightarrow> func \<Rightarrow> bool" where
  "code_ok m f \<longleftrightarrow> list_all (instr_ok m f) (fn_instructions f)"

lemma code_ok_extend:
  "code_ok m f \<Longrightarrow> prefix (kinds (md_functions m)) (kinds (md_functions m')) \<Longrightarrow> md_globals m' = md_globals m \<Longrightarrow> code_ok m' f"
  using operands_ok_extend by (auto simp: code_ok_def instr_ok_def list_all_iff)

lemma safe_start [simp]: "safe_code C (fn_state_new tds)"
  by (simp add: safe_code_def fn_state_new_def)

lemma safe_finish:
  assumes "sound C (fn_state_new tds) s" "seen_module C = m"
  shows "code_ok m (finish n k start s)"
proof -
  have "safe_code C s" using assms(1) by (simp add: sound_def)
  then show ?thesis
    using assms(2) operands_ok_mono [of m "seen_func s" _ "finish n k start s"]
    by (auto simp: safe_code_def code_ok_def instr_ok_def emittable_def has_reg_def reg_count_def list_all_iff finish_def less_max_iff_disj)
qed

subsection \<open>What a source file registers\<close>

type_synonym entry = "string \<times> pou_kind"

definition entry_of :: "func \<Rightarrow> entry" where
  "entry_of f = (to_lower (fn_name f), fn_kind f)"

abbreviation entries :: "module_compiler \<Rightarrow> entry list" where
  "entries mc \<equiv> map entry_of (mc_functions mc)"

fun item_entries :: "top_level_item \<Rightarrow> entry list" where
  "item_entries (TI_Program p) = [(to_lower (id_name (pd_name p)), Pou_Program)]"
| "item_entries (TI_Function f) = [(to_lower (id_name (fd_name f)), Pou_Function)]"
| "item_entries (TI_FunctionBlock fb) = [(to_lower (id_name (bd_name fb)), Pou_FunctionBlock)]"
| "item_entries (TI_Class cls) = (to_lower (id_name (cl_name cls)), Pou_Class) #
     map (\<lambda>m. (to_lower (method_full_name cls m), Pou_Method)) (filter (\<lambda>m. \<not> me_is_abstract m) (cl_methods cls))"
| "item_entries _ = []"

definition source_entries :: "source_file \<Rightarrow> native_layout list \<Rightarrow> entry list" where
  "source_entries src registry =
     map (\<lambda>l. (to_lower (nl_type_name l), Pou_FunctionBlock)) registry @ concat (map item_entries (sf_items src))"

lemma item_entries_names: "map fst (item_entries it) = map to_lower (pou_names it)"
  by (cases it) (simp_all add: comp_def)

lemma source_entries_distinct: "distinct_pous src registry \<Longrightarrow> distinct (map fst (source_entries src registry))"
proof -
  have "map fst (concat (map item_entries its)) = map to_lower (concat (map pou_names its))" for its
    by (induction its) (simp_all add: item_entries_names)
  then show "distinct_pous src registry \<Longrightarrow> distinct (map fst (source_entries src registry))"
    by (simp add: distinct_pous_def source_entries_def comp_def)
qed

text \<open>Registration adds entries without code, classes with a base among them, and initialisers of globals.\<close>

definition inits_ok :: "module_compiler \<Rightarrow> bool" where
  "inits_ok mc \<longleftrightarrow> (\<forall>(i, e) \<in> set (mc_pending_global_inits mc). unat i < length (slots (mc_globals mc)))"

definition bases_ok :: "module_compiler \<Rightarrow> bool" where
  "bases_ok mc \<longleftrightarrow> (\<forall>k. hm_get (mc_class_bases mc) k \<noteq> None \<longrightarrow> (to_lower k, Pou_Class) \<in> set (entries mc))"

definition registered_ok :: "module_compiler \<Rightarrow> bool" where
  "registered_ok mc \<longleftrightarrow> inits_ok mc \<and> bases_ok mc \<and> list_all (\<lambda>f. fn_instructions f = []) (mc_functions mc)"

definition enrols :: "entry list \<Rightarrow> module_compiler \<Rightarrow> module_compiler \<Rightarrow> bool" where
  "enrols es mc mc' \<longleftrightarrow> entries mc' = entries mc @ es \<and> (registered_ok mc \<longrightarrow> registered_ok mc')"

lemma enrols_trans: "enrols es mc mc1 \<Longrightarrow> enrols es' mc1 mc2 \<Longrightarrow> enrols (es @ es') mc mc2"
  by (simp add: enrols_def)

lemma enrols_refl: "enrols [] mc mc"
  by (simp add: enrols_def)

lemma fold_enrols:
  "(\<And>x mc. x \<in> set xs \<Longrightarrow> enrols (es x) mc (f x mc)) \<Longrightarrow> enrols (concat (map es xs)) mc (fold f xs mc)"
proof (induction xs arbitrary: mc)
  case (Cons x xs)
  have "enrols (concat (map es xs)) (f x mc) (fold f xs (f x mc))" by (rule Cons.IH) (simp add: Cons.prems)
  with Cons.prems [of x mc] show ?case using enrols_trans by simp
qed (simp add: enrols_refl)

lemma push_enrols:
  "fn_instructions f = [] \<Longrightarrow> enrols [entry_of f] mc (push_function f (mc\<lparr>mc_type_defs := tds\<rparr>))"
  "fn_instructions f = [] \<Longrightarrow> enrols [entry_of f] mc (push_function f mc)"
  by (auto simp: enrols_def push_function_def registered_ok_def inits_ok_def bases_ok_def)

lemma register_pou_enrols: "enrols [(to_lower n, k)] mc (register_pou n k mc)"
  using push_enrols(2) [of "empty_function n k \<lparr>slots = []\<rparr>" mc]
  by (simp add: register_pou_def entry_of_def empty_function_def)

lemma register_global_enrols: "enrols [] mc (register_global vb d n mc)"
  using unat_of_nat_u16_less [of "length (slots (mc_globals mc))" "Suc (length (slots (mc_globals mc)))"]
  by (auto simp: enrols_def register_global_def Let_def registered_ok_def inits_ok_def bases_ok_def
      split: option.split)

lemma fold_enrols_none:
  "(\<And>x mc. x \<in> set xs \<Longrightarrow> enrols [] mc (f x mc)) \<Longrightarrow> enrols [] mc (fold f xs mc)"
  using fold_enrols [of xs "\<lambda>_. []" f mc] by (simp add: map_replicate_const)

lemma lower_upper [simp]: "to_lower (to_upper s) = to_lower s"
proof -
  have "ascii_lower (ascii_upper c) = ascii_lower c" for c
  proof (cases "97 \<le> byte c \<and> byte c \<le> 122")
    case True
    then have "byte (char_of (byte c - 32)) = byte c - 32" by (intro byte_char_of) linarith
    with True have "byte (ascii_upper c) = byte c - 32" by (simp add: ascii_upper_def)
    moreover from True have "65 \<le> byte c - 32" "byte c - 32 \<le> 90" "byte c - 32 + 32 = byte c" by linarith+
    ultimately have "ascii_lower (ascii_upper c) = char_of (byte c)" by (simp only: ascii_lower_def) simp
    then show ?thesis using True by (simp add: ascii_lower_def byte_def)
  next
    case False
    then have "ascii_upper c = c" by (simp only: ascii_upper_def if_False)
    then show ?thesis by simp
  qed
  then show ?thesis by (simp add: to_lower_def to_upper_def)
qed

lemma register_class_enrols: "enrols (item_entries (TI_Class cls)) mc (register_class cls mc)"
proof -
  let ?n = "id_name (cl_name cls)" and ?ms = "filter (\<lambda>m. \<not> me_is_abstract m) (cl_methods cls)"
  let ?mc1 = "case cl_base_class cls of None \<Rightarrow> mc
      | Some base \<Rightarrow> mc\<lparr>mc_class_bases := hm_insert (to_upper ?n) (to_upper base) (mc_class_bases mc)\<rparr>"
  let ?mc2 = "?mc1\<lparr>mc_class_var_blocks := hm_insert (to_upper ?n) (cl_var_blocks cls) (mc_class_var_blocks ?mc1)\<rparr>"
  have "enrols [(to_lower ?n, Pou_Class)] mc (register_pou ?n Pou_Class ?mc2)"
    by (auto simp: enrols_def register_pou_def push_function_def empty_function_def entry_of_def registered_ok_def
        inits_ok_def bases_ok_def hm_get_insert split: option.split if_split_asm)
  from enrols_trans [OF this fold_enrols [OF register_pou_enrols]] show ?thesis
    by (simp add: register_class_def Let_def comp_def map_replicate_const concat_map_singleton)
qed

lemma register_item_enrols: "enrols (item_entries it) mc (register_item it mc)"
proof (cases it)
  case (TI_GlobalVarDeclaration vb)
  then show ?thesis by (auto simp: register_globals_def intro!: fold_enrols_none register_global_enrols)
next
  case (TI_TypeDeclaration tds r)
  have "enrols [] mc (register_type td mc)" for td mc
    by (auto simp: enrols_def register_type_def registered_ok_def inits_ok_def bases_ok_def split: type_def_kind.split)
  then show ?thesis using TI_TypeDeclaration by (auto intro!: fold_enrols_none)
qed (simp_all add: register_pou_enrols enrols_refl register_class_enrols [simplified])

lemma inject_native_enrols:
  assumes "inject_native b l (mc, is) = Code (mc', is')"
  shows "enrols [(to_lower (nl_type_name l), Pou_FunctionBlock)] mc mc'"
proof -
  obtain ml tds where "mc' = push_function (empty_function (nl_type_name l) Pou_FunctionBlock ml) (mc\<lparr>mc_type_defs := tds\<rparr>)"
    using assms by (auto simp: inject_native_def)
  then show ?thesis
    using push_enrols(1) [of "empty_function (nl_type_name l) Pou_FunctionBlock ml" mc tds]
    by (simp add: entry_of_def empty_function_def)
qed

lemma inject_all_enrols:
  "cfold (inject_native b) ls (mc, is) = Code (mc', is') \<Longrightarrow>
     enrols (map (\<lambda>l. (to_lower (nl_type_name l), Pou_FunctionBlock)) ls) mc mc'"
proof (induction ls arbitrary: mc "is")
  case (Cons l ls)
  then obtain mc1 is1 where 1: "inject_native b l (mc, is) = Code (mc1, is1)" "cfold (inject_native b) ls (mc1, is1) = Code (mc', is')"
    by auto
  show ?case using enrols_trans [OF inject_native_enrols [OF 1(1)] Cons.IH [OF 1(2)]] by simp
qed (simp add: enrols_refl)

lemma registration_enrols:
  assumes "cfold (inject_native b) registry (module_compiler_new, []) = Code (mc, is)"
  shows "entries (fold register_item (sf_items src) mc) = source_entries src registry \<and>
    registered_ok (fold register_item (sf_items src) mc)"
proof -
  have "enrols (source_entries src registry) module_compiler_new (fold register_item (sf_items src) mc)"
    using enrols_trans [OF inject_all_enrols [OF assms] fold_enrols [OF register_item_enrols]]
    by (simp add: source_entries_def)
  moreover have "registered_ok module_compiler_new" "entries module_compiler_new = []"
    by (simp_all add: module_compiler_new_def registered_ok_def inits_ok_def bases_ok_def)
  ultimately show ?thesis by (simp add: enrols_def)
qed

subsection \<open>Methods are found in classes\<close>

text \<open>No name that a source file or a registry declares has a dot in it.\<close>

definition undotted :: "string \<Rightarrow> bool" where
  "undotted s \<longleftrightarrow> CHR ''.'' \<notin> set s"

fun undotted_item :: "top_level_item \<Rightarrow> bool" where
  "undotted_item (TI_Class cls) \<longleftrightarrow>
     undotted (id_name (cl_name cls)) \<and> list_all (\<lambda>m. undotted (id_name (me_name m))) (cl_methods cls)"
| "undotted_item it \<longleftrightarrow> list_all undotted (pou_names it)"

definition undotted_source :: "source_file \<Rightarrow> native_layout list \<Rightarrow> bool" where
  "undotted_source src registry \<longleftrightarrow>
     list_all undotted_item (sf_items src) \<and> list_all (\<lambda>l. undotted (nl_type_name l)) registry"

text \<open>A dotted entry is a method's, and the part before the dot is its class.\<close>

definition methods_of_classes :: "entry list \<Rightarrow> bool" where
  "methods_of_classes K \<longleftrightarrow>
     (\<forall>c me k. (c @ CHR ''.'' # me, k) \<in> set K \<longrightarrow> (c, Pou_Class) \<in> set K)"

lemma dot_lower [simp]: "ascii_lower c = CHR ''.'' \<longleftrightarrow> c = CHR ''.''"
proof
  assume a: "ascii_lower c = CHR ''.''"
  have "ascii_lower c = c"
  proof (rule ccontr)
    assume "ascii_lower c \<noteq> c"
    then have c: "65 \<le> byte c" "byte c \<le> 90" "ascii_lower c = char_of (byte c + 32)"
      by (auto simp: ascii_lower_def split: if_split_asm)
    then have "byte (ascii_lower c) = byte c + 32" by simp
    moreover have "byte (CHR ''.'') = 46" by (simp add: byte_def)
    ultimately show False using a c(1) by simp
  qed
  with a show "c = CHR ''.''" by simp
qed (simp add: ascii_lower_def byte_def)

lemma undotted_lower [simp]: "undotted (to_lower s) = undotted s"
proof -
  have "CHR ''.'' \<in> ascii_lower ` set s \<longleftrightarrow> CHR ''.'' \<in> set s" by (metis dot_lower image_iff)
  then show ?thesis by (simp add: undotted_def to_lower_def)
qed

lemma to_lower_append [simp]: "to_lower (a @ b) = to_lower a @ to_lower b"
  by (simp add: to_lower_def)

lemma to_lower_dot [simp]: "to_lower (CHR ''.'' # s) = CHR ''.'' # to_lower s"
  by (simp add: to_lower_def)

lemma item_methods_of_classes:
  assumes "undotted_item it" "(c @ CHR ''.'' # me, k) \<in> set (item_entries it)"
  shows "(c, Pou_Class) \<in> set (item_entries it)"
proof -
  have not: "\<not> undotted (c @ CHR ''.'' # me)" by (simp add: undotted_def)
  show ?thesis
  proof (cases it)
    case (TI_Class cls)
    let ?n = "to_lower (id_name (cl_name cls))"
    have n: "undotted ?n" using assms(1) TI_Class by simp
    then have "c @ CHR ''.'' # me \<noteq> ?n" using not by auto
    then obtain m where m: "m \<in> set (cl_methods cls)" "c @ CHR ''.'' # me = ?n @ CHR ''.'' # to_lower (id_name (me_name m))"
      using assms(2) TI_Class by (auto simp: method_full_name_def)
    have "undotted (to_lower (id_name (me_name m)))" using assms(1) m(1) TI_Class by (simp add: list_all_iff)
    with n have "c = ?n" using m(2) by (auto simp: undotted_def append_Cons_eq_iff dest: sym)
    then show ?thesis using TI_Class by simp
  qed (use assms not undotted_lower in auto)
qed

lemma source_methods_of_classes:
  assumes "undotted_source src registry"
  shows "methods_of_classes (source_entries src registry)"
  unfolding methods_of_classes_def
proof (intro allI impI)
  fix c me k assume "(c @ CHR ''.'' # me, k) \<in> set (source_entries src registry)"
  then consider l where "l \<in> set registry" "c @ CHR ''.'' # me = to_lower (nl_type_name l)"
    | it where "it \<in> set (sf_items src)" "(c @ CHR ''.'' # me, k) \<in> set (item_entries it)"
    by (auto simp: source_entries_def)
  then show "(c, Pou_Class) \<in> set (source_entries src registry)"
  proof cases
    case 1
    then have "undotted (c @ CHR ''.'' # me)" using assms by (simp add: undotted_source_def list_all_iff)
    then show ?thesis by (simp add: undotted_def)
  next
    case 2
    then have "(c, Pou_Class) \<in> set (item_entries it)"
      using item_methods_of_classes assms by (simp add: undotted_source_def list_all_iff)
    then show ?thesis using 2(1) by (auto simp: source_entries_def)
  qed
qed

lemma find_method_less:
  assumes "find_method_in_hierarchy fs bases ty method = Some (Some i)"
  shows "i < length fs"
proof -
  have "\<forall>i. r = Some i \<longrightarrow> i < length fs" if "find_method_in_hierarchy fs bases ty method = Some r" for r
    by (rule find_method_in_hierarchy.raw_induct [OF _ that])
      (auto split: option.split_asm dest: find_index_SomeD)
  with assms show ?thesis by blast
qed

lemma find_method_class:
  assumes "find_method_in_hierarchy fs bases ty method = Some (Some i)"
    "methods_of_classes (map entry_of fs)" "\<And>k. hm_get bases k \<noteq> None \<Longrightarrow> (to_lower k, Pou_Class) \<in> entry_of ` set fs"
  shows "i < length fs \<and> (to_lower ty, Pou_Class) \<in> entry_of ` set fs"
proof -
  have step: "find_method_in_hierarchy fs bases ty method =
     (case find_index (\<lambda>f. eq_ignore_ascii_case (fn_name f) (ty @ ''.'' @ method)) fs of
        Some i \<Rightarrow> Some (Some i)
      | None \<Rightarrow>
          (case hm_get bases (to_upper ty) of
             None \<Rightarrow> Some None
           | Some base \<Rightarrow> find_method_in_hierarchy fs bases base method))" for ty
    by (subst find_method_in_hierarchy.simps) simp
  have len: "i < length fs" using assms(1) by (rule find_method_less)
  show ?thesis
  proof (cases "find_index (\<lambda>f. eq_ignore_ascii_case (fn_name f) (ty @ ''.'' @ method)) fs")
    case None
    with assms(1) step [of ty] have "hm_get bases (to_upper ty) \<noteq> None" by (auto split: option.split_asm)
    with assms(3) [of "to_upper ty"] len show ?thesis by simp
  next
    case (Some j)
    note f = find_index_SomeD [OF Some]
    then have "(to_lower ty @ CHR ''.'' # to_lower method, fn_kind (fs ! j)) = entry_of (fs ! j)"
      by (simp add: entry_of_def eq_ignore_ascii_case_def)
    then have "(to_lower ty @ CHR ''.'' # to_lower method, fn_kind (fs ! j)) \<in> set (map entry_of fs)"
      using f by (metis (no_types, lifting) image_eqI list.set_map nth_mem)
    then have "(to_lower ty, Pou_Class) \<in> set (map entry_of fs)"
      using assms(2) unfolding methods_of_classes_def by blast
    then show ?thesis using len by simp
  qed
qed

subsection \<open>Compiling keeps the module well-formed\<close>

text \<open>The function compiler's view of a module that has the entries of the source.\<close>

lemma entry_unique:
  assumes "distinct (map fst K)" "(n, k) \<in> set K" "i < length K" "fst (K ! i) = n"
  shows "K ! i = (n, k)"
  using assms by (metis eq_key_imp_eq_value nth_mem prod.collapse)

definition compiling :: "entry list \<Rightarrow> build \<Rightarrow> module_compiler \<Rightarrow> bool" where
  "compiling K b mc \<longleftrightarrow> bd_checks b \<and> entries mc = K \<and> distinct (map fst K) \<and> methods_of_classes K \<and>
     length K \<le> 65536 \<and> inits_ok mc \<and> bases_ok mc \<and>
     list_all (code_ok (module_of mc [])) (mc_functions mc)"

lemma compiling_env_safe:
  assumes "compiling K b mc"
  shows "env_safe (env_of b mc)"
proof -
  have K: "map entry_of (mc_functions mc) = K" "distinct (map fst K)" "methods_of_classes K" "length K \<le> 65536"
    "bd_checks b" "bases_ok mc"
    using assms by (simp_all add: compiling_def)
  have len: "length (mc_functions mc) = length K" using K(1) by (metis length_map)
  have nth: "entry_of (mc_functions mc ! i) = K ! i" if "i < length K" for i using that K(1) len by (metis nth_map)
  have "i < length (mc_functions mc) \<and> is_class (seen_module (env_of b mc)) (index_or_0 (function_index (env_of b mc) ty))"
    if "find_method_in_hierarchy (mc_functions mc) (mc_class_bases mc) ty meth = Some (Some i)" for ty meth i
  proof -
    have "i < length (mc_functions mc) \<and> (to_lower ty, Pou_Class) \<in> entry_of ` set (mc_functions mc)"
      by (rule find_method_class [OF that]) (use K in \<open>auto simp: bases_ok_def\<close>)
    then have i: "i < length (mc_functions mc)" and ty: "(to_lower ty, Pou_Class) \<in> set K"
      using K(1) by auto
    then obtain f where "f \<in> set (mc_functions mc)" "entry_of f = (to_lower ty, Pou_Class)" using K(1) by auto
    then have "\<not> (\<forall>f \<in> set (mc_functions mc). \<not> eq_ignore_ascii_case (fn_name f) ty)"
      by (auto simp: entry_of_def eq_ignore_ascii_case_def)
    then obtain j where j: "find_index (\<lambda>f. eq_ignore_ascii_case (fn_name f) ty) (mc_functions mc) = Some j"
      using find_index_None_iff by (metis option.exhaust)
    note J = find_index_SomeD [OF j]
    then have "fst (K ! j) = to_lower ty"
      using nth [of j, symmetric] len by (simp add: entry_of_def eq_ignore_ascii_case_def)
    then have "K ! j = (to_lower ty, Pou_Class)" using entry_unique [OF K(2) ty] J len by simp
    then have "fn_kind (mc_functions mc ! j) = Pou_Class" using nth [of j] J len by (simp add: entry_of_def)
    moreover have "unat (of_nat j :: u16) = j" using J len K(4) by (intro unat_of_nat_u16) linarith
    ultimately show ?thesis
      using i J j by (simp add: is_class_def seen_module_def env_of_def index_or_0_def function_index_def)
  qed
  then show ?thesis using K(5) by (auto simp: env_safe_def methods_ok_def env_of_def)
qed

lemma seen_module_env [simp]:
  "md_functions (seen_module (env_of b mc)) = mc_functions mc" "md_globals (seen_module (env_of b mc)) = mc_globals mc"
  by (simp_all add: seen_module_def env_of_def)

lemma module_of_simps [simp]:
  "md_functions (module_of mc is) = mc_functions mc" "md_globals (module_of mc is) = mc_globals mc"
  by (simp_all add: module_of_def)

text \<open>Replacing a registered function by its code.\<close>

lemma finish_at_compiling:
  assumes "compiling K b mc" "find_func mc name = Code i" "(to_lower name, kind) \<in> set K"
    "sound (env_of b mc) (fn_state_new tds) s"
  shows "compiling K b (finish_at i name kind start s mc)"
proof -
  let ?mc = "finish_at i name kind start s mc" and ?f = "finish name kind start s"
  note f = find_func_Code [OF assms(2)]
  have K: "entries mc = K" "distinct (map fst K)" using assms(1) by (simp_all add: compiling_def)
  have i: "i < length K" using f K(1) by (metis length_map)
  have Ki: "K ! i = entry_of (mc_functions mc ! i)" using K(1) f by (metis nth_map)
  then have "K ! i = (to_lower name, kind)" using entry_unique [OF K(2) assms(3) i] f by (simp add: entry_of_def)
  then have e: "entry_of ?f = entry_of (mc_functions mc ! i)" using Ki by (simp add: entry_of_def finish_def)
  have "entries ?mc = (entries mc)[i := entry_of ?f]" by (simp add: finish_at_def map_update)
  then have es: "entries ?mc = K" using K(1) e list_update_id [of K i, unfolded Ki] by simp
  have k: "fn_kind ?f = fn_kind (mc_functions mc ! i)" using e by (simp add: entry_of_def)
  then have ks: "kinds (mc_functions ?mc) = kinds (mc_functions mc)"
    by (simp add: kinds_def finish_at_def map_update list_update_same_conv f)
  have g: "mc_globals ?mc = mc_globals mc" by (simp add: finish_at_def)
  have "code_ok (seen_module (env_of b mc)) ?f" by (rule safe_finish [OF assms(4) refl])
  then have new: "code_ok (module_of ?mc []) ?f" by (rule code_ok_extend) (simp_all add: ks g)
  have "list_all (code_ok (module_of ?mc [])) (mc_functions mc)"
    using assms(1) code_ok_extend [of "module_of mc []" _ "module_of ?mc []"]
    by (auto simp: compiling_def list_all_iff ks g)
  then have "list_all (code_ok (module_of ?mc [])) (mc_functions ?mc)"
    using new by (simp add: finish_at_def list_all_update)
  moreover have "bases_ok ?mc = bases_ok mc" unfolding bases_ok_def es K(1) by (simp add: finish_at_def)
  moreover have "inits_ok ?mc = inits_ok mc" by (simp add: inits_ok_def finish_at_def)
  ultimately show ?thesis using assms(1) es unfolding compiling_def by blast
qed

lemma compile_pou_compiling:
  assumes "compiling K b mc" "compile_pou b name kind vbs result body mc = Code mc'" "(to_lower name, kind) \<in> set K"
  shows "compiling K b mc'"
proof -
  let ?C = "env_of b mc"
  note env = compiling_env_safe [OF assms(1)]
  obtain i s where 0: "find_func mc name = Code i"
    "compile_var_blocks ?C vbs (fn_state_new (mc_type_defs mc)) = Code s"
    using assms(2) by (auto simp: compile_pou_def)
  obtain ret s1 where r: "(case result of None \<Rightarrow> (None, s) | Some (n, ty) \<Rightarrow> add_result n (Some ty) s) = (ret, s1)"
    by force
  obtain s' where 1: "compile_body ?C ret body s1 = Code s'" "mc' = finish_at i name kind (current_pc s1) s' mc"
    using assms(2) 0 r by (auto simp: compile_pou_def Let_def)
  have r: "sound ?C s s1 \<and> (\<forall>slot. ret = Some slot \<longrightarrow> unat slot < local_count s1)"
    using r add_result_sound by (auto split: option.split_asm)
  have "sound ?C (fn_state_new (mc_type_defs mc)) s'"
    using var_blocks_sound(1) [OF env 0(2)] r compile_body_sound [OF env 1(1)] sound_trans by blast
  then show ?thesis unfolding 1(2) by (rule finish_at_compiling [OF assms(1) 0(1) assms(3)])
qed

lemma compile_method_compiling:
  assumes "compiling K b mc" "compile_method b cls inherited m mc = Code mc'"
    "\<not> me_is_abstract m \<Longrightarrow> (to_lower (method_full_name cls m), Pou_Method) \<in> set K"
  shows "compiling K b mc'"
proof (cases "me_is_abstract m")
  case False
  let ?C = "env_of b mc"
  note env = compiling_env_safe [OF assms(1)]
  obtain i s s1 s2 where 1: "find_func mc (method_full_name cls m) = Code i"
    "cfold (\<lambda>vb. register_var_blocks ?C [vb]) inherited (fn_state_new (mc_type_defs mc)) = Code s"
    "register_var_blocks ?C (cl_var_blocks cls) s = Code s1" "compile_var_blocks ?C (me_var_blocks m) s1 = Code s2"
    using assms(2) False by (auto simp: compile_method_def Let_def)
  obtain ret s3 where r: "add_result (id_name (me_name m)) (me_return_type m) s2 = (ret, s3)" by force
  obtain s' where 2: "compile_body ?C ret (me_body m) s3 = Code s'"
    "mc' = finish_at i (method_full_name cls m) Pou_Method (current_pc s3) s' mc"
    using assms(2) False 1 r by (auto simp: compile_method_def Let_def)
  have "sound ?C (fn_state_new (mc_type_defs mc)) s"
    by (rule cfold_sound [OF _ 1(2)]) (rule var_blocks_sound(2) [OF env])
  then have "sound ?C (fn_state_new (mc_type_defs mc)) s2"
    using var_blocks_sound(2) [OF env 1(3)] var_blocks_sound(1) [OF env 1(4)] sound_trans by blast
  then have "sound ?C (fn_state_new (mc_type_defs mc)) s'"
    using add_result_sound [OF r] compile_body_sound [OF env 2(1)] sound_trans by blast
  then show ?thesis unfolding 2(2) by (rule finish_at_compiling [OF assms(1) 1(1) assms(3) [OF False]])
qed (use assms in \<open>simp add: compile_method_def\<close>)

lemma cfold_compiling:
  "(\<And>x mc mc'. x \<in> set xs \<Longrightarrow> compiling K b mc \<Longrightarrow> f x mc = Code mc' \<Longrightarrow> compiling K b mc') \<Longrightarrow>
     compiling K b mc \<Longrightarrow> cfold f xs mc = Code mc' \<Longrightarrow> compiling K b mc'"
proof (induction xs arbitrary: mc)
  case (Cons x xs)
  from Cons.prems(3) obtain mc1 where 1: "f x mc = Code mc1" "cfold f xs mc1 = Code mc'" by auto
  have "compiling K b mc1" using Cons.prems(1) [OF _ Cons.prems(2) 1(1)] by simp
  then show ?case by (rule Cons.IH [OF Cons.prems(1) _ 1(2), rotated 3]) simp_all
qed simp

lemma compile_item_compiling:
  assumes "compiling K b mc" "compile_item b it mc = Code mc'" "set (item_entries it) \<subseteq> set K"
  shows "compiling K b mc'"
proof (cases it)
  case (TI_Class cls)
  let ?C = "env_of b mc" and ?n = "id_name (cl_name cls)"
  note env = compiling_env_safe [OF assms(1)]
  obtain i inherited s s1 where 1: "find_func mc ?n = Code i"
    "cfold (\<lambda>vb. compile_var_blocks ?C [vb]) inherited (fn_state_new (mc_type_defs mc)) = Code s"
    "compile_var_blocks ?C (cl_var_blocks cls) s = Code s1"
    "cfold (compile_method b cls inherited) (cl_methods cls)
       (finish_at i ?n Pou_Class (current_pc s1) (emit RetVoid s1) mc) = Code mc'"
    using assms(2) TI_Class by (auto simp: compile_class_def Let_def)
  have "sound ?C (fn_state_new (mc_type_defs mc)) s"
    by (rule cfold_sound [OF _ 1(2)]) (rule var_blocks_sound(1) [OF env])
  then have "sound ?C (fn_state_new (mc_type_defs mc)) (emit RetVoid s1)"
    using var_blocks_sound(1) [OF env 1(3)] sound_trans by (intro sound_emit) (blast, simp add: ins_defs)
  then have "compiling K b (finish_at i ?n Pou_Class (current_pc s1) (emit RetVoid s1) mc)"
    by (rule finish_at_compiling [OF assms(1) 1(1), rotated]) (use assms(3) TI_Class in simp)
  then show ?thesis
    by (rule cfold_compiling [OF _ _ 1(4), rotated])
      (rule compile_method_compiling, assumption, assumption, use assms(3) TI_Class in auto)
qed (use assms compile_pou_compiling in \<open>auto split: prod.split_asm\<close>)

lemma cfold_sound_in:
  "(\<And>x s s'. x \<in> set xs \<Longrightarrow> f x s = Code s' \<Longrightarrow> sound C s s') \<Longrightarrow> cfold f xs s = Code s' \<Longrightarrow> sound C s s'"
proof (induction xs arbitrary: s)
  case (Cons x xs)
  from Cons.prems(2) obtain s1 where 1: "f x s = Code s1" "cfold f xs s1 = Code s'" by auto
  have "sound C s s1" by (rule Cons.prems(1) [OF _ 1(1)]) simp
  moreover have "sound C s1 s'" by (rule Cons.IH [OF Cons.prems(1) 1(2)]) simp_all
  ultimately show ?case by (rule sound_trans)
qed simp

lemma global_init_code_ok:
  assumes "compiling K b mc" "compile_global_init b mc = Code mc'"
  shows "list_all (code_ok (module_of mc' [])) (mc_functions mc')"
proof (cases "mc_pending_global_inits mc = []")
  case False
  let ?C = "env_of b mc"
  note env = compiling_env_safe [OF assms(1)]
  obtain s where 1: "cfold (\<lambda>(slot, e) s. cbind (compile_expression ?C e (set_source (expression_range e) s)) (\<lambda>(r, s).
        Code (emit (StoreGlobal slot r) s))) (mc_pending_global_inits mc) (fn_state_new (mc_type_defs mc)) = Code s"
    "mc_functions mc' = mc_functions mc @ [finish ''__global_init'' Pou_Function 0 (emit RetVoid s)]"
    "mc_globals mc' = mc_globals mc"
    using assms(2) False by (auto simp: compile_global_init_def)
  have "sound ?C (fn_state_new (mc_type_defs mc)) s"
  proof (rule cfold_sound_in [OF _ 1(1)])
    fix x s s'
    assume x: "x \<in> set (mc_pending_global_inits mc)"
      and c: "(case x of (slot, e) \<Rightarrow> \<lambda>s. cbind (compile_expression ?C e (set_source (expression_range e) s)) (\<lambda>(r, s).
        Code (emit (StoreGlobal slot r) s))) s = Code s'"
    obtain slot e where xe: "x = (slot, e)" by (cases x)
    with c obtain r s1 where 2: "compile_expression ?C e (set_source (expression_range e) s) = Code (r, s1)"
      "s' = emit (StoreGlobal slot r) s1" by auto
    have y: "yields ?C s r s1" by (rule yields_after [OF small_steps_sound(1) compile_expression_yields [OF env 2(1)]])
    have "unat slot < global_count (seen_module ?C)"
      using assms(1) x xe by (auto simp: compiling_def inits_ok_def global_count_def)
    with y show "sound ?C s s'" unfolding 2(2) by (intro sound_emit) (simp_all add: yields_def ins_defs)
  qed
  then have "sound ?C (fn_state_new (mc_type_defs mc)) (emit RetVoid s)" by (rule sound_emit) (simp add: ins_defs)
  then have "code_ok (seen_module ?C) (finish ''__global_init'' Pou_Function 0 (emit RetVoid s))"
    by (rule safe_finish) (rule refl)
  then have "code_ok (module_of mc' []) (finish ''__global_init'' Pou_Function 0 (emit RetVoid s))"
    by (rule code_ok_extend) (simp_all add: 1(2,3) kinds_def)
  moreover have "list_all (code_ok (module_of mc' [])) (mc_functions mc)"
    using assms(1) code_ok_extend [of "module_of mc []" _ "module_of mc' []"]
    by (auto simp: compiling_def list_all_iff 1(2,3) kinds_def)
  ultimately show ?thesis by (simp add: 1(2))
qed (use assms in \<open>simp add: compile_global_init_def compiling_def\<close>)

text \<open>The machine initialises an instance of a class in 256 registers, whatever the class declares.\<close>

definition classes_fit :: "ir_module \<Rightarrow> bool" where
  "classes_fit m \<longleftrightarrow> list_all (\<lambda>f. fn_kind f = Pou_Class \<longrightarrow> unat (fn_register_count f) \<le> 256) (md_functions m)"

lemma module_compiler_ok:
  assumes "compile_with_native_fbs b src registry = Code m" "bd_checks b" "distinct_pous src registry"
    "undotted_source src registry" "length (source_entries src registry) \<le> 65536" "classes_fit m"
  shows "module_ok m"
proof -
  let ?K = "source_entries src registry"
  obtain mc1 "is" mc2 mc3 mc4 where 1: "cfold (inject_native b) registry (module_compiler_new, []) = Code (mc1, is)"
    "cfold (compile_item b) (filter (\<lambda>i. \<not> is_program i) (sf_items src)) (fold register_item (sf_items src) mc1) = Code mc2"
    "cfold (compile_item b) (filter is_program (sf_items src)) mc2 = Code mc3"
    "compile_global_init b mc3 = Code mc4" "m = module_of mc4 is"
    using assms(1) by (auto simp: compile_with_native_fbs_def Let_def)
  have "compiling ?K b (fold register_item (sf_items src) mc1)"
    using registration_enrols [OF 1(1), of src] source_entries_distinct [OF assms(3)]
      source_methods_of_classes [OF assms(4)] assms(2,5)
    by (auto simp: compiling_def registered_ok_def code_ok_def list_all_iff)
  moreover have items: "set (item_entries it) \<subseteq> set ?K" if "it \<in> set (sf_items src)" for it
    using that by (auto simp: source_entries_def)
  ultimately have "compiling ?K b mc2"
    using cfold_compiling [OF _ _ 1(2)] compile_item_compiling by (metis (no_types, lifting) filter_is_subset subsetD)
  then have "compiling ?K b mc3"
    using cfold_compiling [OF _ _ 1(3)] compile_item_compiling items by (metis (no_types, lifting) filter_is_subset subsetD)
  from global_init_code_ok [OF this 1(4)] have "list_all (code_ok (module_of mc4 [])) (md_functions m)"
    by (simp add: 1(5))
  moreover have "code_ok (module_of mc4 []) f \<Longrightarrow> code_ok m f" for f
    by (erule code_ok_extend) (simp_all add: 1(5))
  ultimately show ?thesis
    using assms(6) by (auto simp: module_ok_def func_ok_def code_ok_def classes_fit_def list_all_iff)
qed

lemma sum_names_ok:
  "distinct_pous sum_source []" "undotted_source sum_source []" "length (source_entries sum_source []) \<le> 65536"
  by (simp_all add: distinct_pous_def undotted_source_def undotted_def source_entries_def sum_source_def sum_program_def
      named_def)



subsection \<open>Compiled programs run safely\<close>

text \<open>The machines a module gives: freshly loaded, and after any number of runs that finished.\<close>

inductive scanned :: "rt_env \<Rightarrow> ir_module \<Rightarrow> vm_config \<Rightarrow> vm \<Rightarrow> bool" for env m c where
  scanned_new: "scanned env m c (vm_new m c)"
| scanned_run: "scanned env m c vm \<Longrightarrow> vm_stack vm = [] \<Longrightarrow> vm_run env name vm = Some (Finished vm' v) \<Longrightarrow>
    scanned env m c vm'"

lemma scanned_ok:
  assumes "scanned env m c vm" "module_ok m" "max_call_depth c < max_frames" "env_ok env (global_count m)"
    "length (md_functions m) \<le> 65536"
  shows "vm_ok vm \<and> vm_module vm = m"
  using assms(1)
proof induction
  case scanned_new
  show ?case using vm_new_ok [OF assms(2,3)] by (simp add: vm_new_def)
next
  case (scanned_run vm name vm' v)
  have "end_ok (vm_module vm) (Finished vm' v)"
    by (rule vm_run_ok [OF _ _ _ _ scanned_run.hyps(3)])
      (use scanned_run assms(4,5) in \<open>simp_all add: call_depth_def\<close>)
  then show ?case using scanned_run by simp
qed



end
